(* ===== verification/Prelude.thy ===== *)
theory Prelude
  imports Main "HOL-Library.Word" "HOL-Library.Monad_Syntax" "HOL-Library.Product_Lexorder"
begin

text \<open>
  Shared ground of the OmniPaxos development.

  \<^item> Rust control effects. A Rust function \<^verbatim>\<open>fn f(&mut self, x: X) -> R\<close> is a HOL function
    \<open>X \<Rightarrow> 's \<Rightarrow> ('r \<times> 's) option\<close>: \<open>None\<close> is a panic (an index out of bounds, an \<^verbatim>\<open>unwrap\<close> or
    \<^verbatim>\<open>expect\<close> of the wrong variant, an arithmetic overflow under the checks of the dev profile),
    \<open>Some\<close> is a normal return with the updated receiver. A function that cannot panic is a plain
    HOL function. A \<^verbatim>\<open>Result<R, E>\<close> is an ordinary value of the sum type \<open>'e + 'r\<close>.
  \<^item> Integers. \<^verbatim>\<open>u32\<close> and \<^verbatim>\<open>u64\<close> counters are machine words with checked increment; \<^verbatim>\<open>usize\<close>
    log positions and \<^verbatim>\<open>u64\<close> node identifiers are natural numbers, with every subtraction checked
    (\<open>checked_sub\<close>); a run that does not panic computes the same in the release profile.
  \<^item> Generic facts on lists, options and checked arithmetic, in the collections below.
\<close>

section \<open>Collections\<close>

named_theorems rust_simps \<open>the Rust control primitives, unfolded\<close>
named_theorems view_simps \<open>effect of an operation on the abstract view of the storage\<close>
named_theorems inv_intros \<open>an operation keeps an invariant\<close>

section \<open>Types of the source\<close>

type_synonym usize = nat
type_synonym node_id = nat
type_synonym u8 = "8 word"
type_synonym u32 = "32 word"
type_synonym u64 = "64 word"

section \<open>Results and panics\<close>

text \<open>
  The error propagation operator \<^verbatim>\<open>?\<close> on a state-changing call: an \<open>Inl\<close> returns at once, with the
  state as the call left it.
\<close>

definition try_op ::
  "(('e + 'a) \<times> 's) option \<Rightarrow> ('a \<Rightarrow> 's \<Rightarrow> (('e + 'b) \<times> 's) option) \<Rightarrow> (('e + 'b) \<times> 's) option" where
  "try_op m k = (case m of
     None \<Rightarrow> None
   | Some (Inl e, s) \<Rightarrow> Some (Inl e, s)
   | Some (Inr a, s) \<Rightarrow> k a s)"

text \<open>The same on a call that only reads.\<close>

definition try_get :: "('e + 'a) option \<Rightarrow> ('a \<Rightarrow> ('e + 'b) option) \<Rightarrow> ('e + 'b) option" where
  "try_get m k = (case m of
     None \<Rightarrow> None
   | Some (Inl e) \<Rightarrow> Some (Inl e)
   | Some (Inr a) \<Rightarrow> k a)"

text \<open>\<^verbatim>\<open>Result::expect\<close>: an error becomes a panic.\<close>

definition expect :: "(('e + 'a) \<times> 's) option \<Rightarrow> ('a \<times> 's) option" where
  "expect m = (case m of
     None \<Rightarrow> None
   | Some (Inl e, s) \<Rightarrow> None
   | Some (Inr a, s) \<Rightarrow> Some (a, s))"

definition expect_get :: "('e + 'a) option \<Rightarrow> 'a option" where
  "expect_get m = (case m of None \<Rightarrow> None | Some (Inl e) \<Rightarrow> None | Some (Inr a) \<Rightarrow> Some a)"

definition is_ok :: "'e + 'a \<Rightarrow> bool" where
  "is_ok r = (case r of Inl _ \<Rightarrow> False | Inr _ \<Rightarrow> True)"

lemma is_ok_simps [simp]: "is_ok (Inr a)" "\<not> is_ok (Inl e)"
  by (simp_all add: is_ok_def)

lemma try_op_simps [simp, rust_simps]:
  "try_op None k = None"
  "try_op (Some (Inl e, s)) k = Some (Inl e, s)"
  "try_op (Some (Inr a, s)) k = k a s"
  by (simp_all add: try_op_def)

lemma try_get_simps [simp, rust_simps]:
  "try_get None k = None"
  "try_get (Some (Inl e)) k = Some (Inl e)"
  "try_get (Some (Inr a)) k = k a"
  by (simp_all add: try_get_def)

lemma expect_simps [simp, rust_simps]:
  "expect None = None"
  "expect (Some (Inl e, s)) = None"
  "expect (Some (Inr a, s)) = Some (a, s)"
  by (simp_all add: expect_def)

lemma expect_get_simps [simp, rust_simps]:
  "expect_get None = None"
  "expect_get (Some (Inl e)) = None"
  "expect_get (Some (Inr a)) = Some a"
  by (simp_all add: expect_get_def)

lemma expect_eq_Some [simp]: "expect m = Some (a, s) \<longleftrightarrow> m = Some (Inr a, s)"
  by (auto simp: expect_def split: option.splits sum.splits)

lemma expect_get_eq_Some [simp]: "expect_get m = Some a \<longleftrightarrow> m = Some (Inr a)"
  by (auto simp: expect_get_def split: option.splits sum.splits)

lemma try_op_eq_Inr:
  "try_op m k = Some (Inr b, s') \<longleftrightarrow> (\<exists>a s. m = Some (Inr a, s) \<and> k a s = Some (Inr b, s'))"
  by (auto simp: try_op_def split: option.splits sum.splits)

lemma try_get_eq_Inr:
  "try_get m k = Some (Inr b) \<longleftrightarrow> (\<exists>a. m = Some (Inr a) \<and> k a = Some (Inr b))"
  by (auto simp: try_get_def split: option.splits sum.splits)

section \<open>Checked arithmetic\<close>

definition checked_sub :: "nat \<Rightarrow> nat \<Rightarrow> nat option" where
  "checked_sub a b = (if b \<le> a then Some (a - b) else None)"

definition checked_inc :: "'a::len word \<Rightarrow> 'a word option" where
  "checked_inc w = (if w = - 1 then None else Some (w + 1))"

lemma checked_sub_Some [simp]: "b \<le> a \<Longrightarrow> checked_sub a b = Some (a - b)"
  by (simp add: checked_sub_def)

lemma checked_sub_eq_Some: "checked_sub a b = Some c \<longleftrightarrow> b \<le> a \<and> c = a - b"
  by (auto simp: checked_sub_def)

lemma checked_sub_eq_None: "checked_sub a b = None \<longleftrightarrow> a < b"
  by (auto simp: checked_sub_def)

lemma checked_inc_greater:
  assumes "checked_inc (w :: 'a::len word) = Some v"
  shows "w < v"
proof -
  from assms have "w \<noteq> - 1" and v: "v = w + 1"
    by (auto simp: checked_inc_def split: if_splits)
  then have "w < w + 1"
    by (meson inc_less_eq_triv_imp leI)
  with v show ?thesis by simp
qed

lemma checked_inc_eq_Some: "checked_inc w = Some v \<longleftrightarrow> w \<noteq> - 1 \<and> v = w + 1"
  by (auto simp: checked_inc_def)

section \<open>Vectors\<close>

text \<open>Indexing \<^verbatim>\<open>v[i]\<close> and assignment \<^verbatim>\<open>v[i] = x\<close> panic out of bounds.\<close>

definition vec_get :: "'a list \<Rightarrow> nat \<Rightarrow> 'a option" where
  "vec_get xs i = (if i < length xs then Some (xs ! i) else None)"

definition vec_set :: "'a list \<Rightarrow> nat \<Rightarrow> 'a \<Rightarrow> 'a list option" where
  "vec_set xs i x = (if i < length xs then Some (xs[i := x]) else None)"

lemma vec_get_Some [simp]: "i < length xs \<Longrightarrow> vec_get xs i = Some (xs ! i)"
  by (simp add: vec_get_def)

lemma vec_set_Some [simp]: "i < length xs \<Longrightarrow> vec_set xs i x = Some (xs[i := x])"
  by (simp add: vec_set_def)

lemma vec_get_eq_Some: "vec_get xs i = Some x \<longleftrightarrow> i < length xs \<and> xs ! i = x"
  by (auto simp: vec_get_def)

lemma vec_set_eq_Some: "vec_set xs i x = Some ys \<longleftrightarrow> i < length xs \<and> ys = xs[i := x]"
  by (auto simp: vec_set_def)

text \<open>A range read \<^verbatim>\<open>v.get(from..to)\<close> is \<^verbatim>\<open>None\<close> when the range is not within the vector.\<close>

definition vec_range :: "'a list \<Rightarrow> nat \<Rightarrow> nat \<Rightarrow> 'a list option" where
  "vec_range xs a b = (if a \<le> b \<and> b \<le> length xs then Some (take (b - a) (drop a xs)) else None)"

text \<open>
  \<^verbatim>\<open>Iterator::max_by_key\<close> and \<^verbatim>\<open>Iterator::max\<close>: the last of several maximal elements, \<open>None\<close> on
  an empty iterator.
\<close>

fun max_last :: "('a \<Rightarrow> 'k::linorder) \<Rightarrow> 'a list \<Rightarrow> 'a option" where
  "max_last key [] = None"
| "max_last key (x # xs) =
     (case max_last key xs of
        None \<Rightarrow> Some x
      | Some y \<Rightarrow> if key x \<le> key y then Some y else Some x)"

lemma max_last_eq_None [simp]: "max_last key xs = None \<longleftrightarrow> xs = []"
  by (cases xs) (auto split: option.splits)

lemma max_last_in: "max_last key xs = Some y \<Longrightarrow> y \<in> set xs"
  by (induction xs arbitrary: y) (auto split: option.splits if_splits)

lemma max_last_ge: "max_last key xs = Some y \<Longrightarrow> x \<in> set xs \<Longrightarrow> key x \<le> key y"
proof (induction xs arbitrary: y x)
  case Nil
  then show ?case by simp
next
  case (Cons a xs)
  show ?case
  proof (cases "max_last key xs")
    case None
    with Cons.prems show ?thesis by simp
  next
    case (Some z)
    have "\<And>w. w \<in> set xs \<Longrightarrow> key w \<le> key z"
      using Cons.IH Some by blast
    with Cons.prems Some show ?thesis
      by (fastforce split: if_splits)
  qed
qed

section \<open>Loops\<close>

text \<open>\<^verbatim>\<open>for x in xs { self.f(x) }\<close>, where the body may panic.\<close>

fun for_each :: "('a \<Rightarrow> 's \<Rightarrow> 's option) \<Rightarrow> 'a list \<Rightarrow> 's \<Rightarrow> 's option" where
  "for_each f [] s = Some s"
| "for_each f (x # xs) s = do { s1 \<leftarrow> f x s; for_each f xs s1 }"

lemma for_each_inv:
  assumes "for_each f xs s = Some s'" and "I s"
    and "\<And>x s s'. x \<in> set xs \<Longrightarrow> I s \<Longrightarrow> f x s = Some s' \<Longrightarrow> I s'"
  shows "I s'"
  using assms
proof (induction xs arbitrary: s)
  case Nil
  then show ?case by simp
next
  case (Cons x xs)
  then obtain s1 where "f x s = Some s1" "for_each f xs s1 = Some s'"
    by (auto simp: bind_eq_Some_conv)
  with Cons show ?case by (metis list.set_intros)
qed

lemma for_each_total:
  assumes "I s" and "\<And>x s. x \<in> set xs \<Longrightarrow> I s \<Longrightarrow> \<exists>s'. f x s = Some s' \<and> I s'"
  shows "\<exists>s'. for_each f xs s = Some s' \<and> I s'"
  using assms
proof (induction xs arbitrary: s)
  case Nil
  then show ?case by simp
next
  case (Cons x xs)
  then obtain s1 where "f x s = Some s1" "I s1" by (metis list.set_intros(1))
  with Cons show ?case by auto
qed

section \<open>The comparison of \<^verbatim>\<open>std::cmp\<close>\<close>

datatype ordering = Less | Equal | Greater

definition cmp :: "'a::linorder \<Rightarrow> 'a \<Rightarrow> ordering" where
  "cmp a b = (if a < b then Less else if a = b then Equal else Greater)"

lemma cmp_simps [simp]:
  "cmp a b = Less \<longleftrightarrow> a < b"
  "cmp a b = Equal \<longleftrightarrow> a = b"
  "cmp a b = Greater \<longleftrightarrow> b < a"
  by (auto simp: cmp_def)

section \<open>Lists\<close>

lemma take_drop_mid: "a \<le> b \<Longrightarrow> take (b - a) (drop a xs) @ drop b xs = drop a xs"
  by (metis add.commute append_take_drop_id drop_drop le_add_diff_inverse2)

lemma map_filter_eq_filter: "List.map_filter (\<lambda>x. if P x then Some x else None) xs = filter P xs"
  by (induction xs) (auto simp: List.map_filter_def)

lemma count_filter_update_le:
  "length (filter P (xs[i := x])) \<le> Suc (length (filter P xs))"
proof (induction xs arbitrary: i)
  case Nil
  then show ?case by simp
next
  case (Cons a xs)
  show ?case
  proof (cases i)
    case 0
    then show ?thesis by simp
  next
    case (Suc j)
    with Cons.IH [of j] show ?thesis by simp
  qed
qed

end
