(* ===== verification/Ballot.thy ===== *)
theory Ballot
  imports Prelude
begin

text \<open>
  Ballots and their order (\<^verbatim>\<open>omnipaxos/src/ballot_leader_election.rs\<close>), the sequence numbers of the
  accept phase and the logical clock (\<^verbatim>\<open>omnipaxos/src/util.rs\<close>). The comparison of ballots looks at
  the number, the priority and the process, not at the configuration; equality (derived) looks at
  all four fields. Within one configuration the two agree and ballots are totally ordered.
\<close>

section \<open>Ballots\<close>

record ballot =
  b_config_id :: u32
  b_n :: u32
  b_priority :: u32
  b_pid :: node_id

definition ballot_with :: "u32 \<Rightarrow> u32 \<Rightarrow> u32 \<Rightarrow> node_id \<Rightarrow> ballot" where
  "ballot_with config_id n priority pid =
     \<lparr>b_config_id = config_id, b_n = n, b_priority = priority, b_pid = pid\<rparr>"

definition ballot_default :: ballot where
  "ballot_default = \<lparr>b_config_id = 0, b_n = 0, b_priority = 0, b_pid = 0\<rparr>"

text \<open>The triple compared by \<^verbatim>\<open>Ord for Ballot\<close>.\<close>

definition ballot_key :: "ballot \<Rightarrow> u32 \<times> u32 \<times> node_id" where
  "ballot_key b = (b_n b, b_priority b, b_pid b)"

definition ballot_cmp :: "ballot \<Rightarrow> ballot \<Rightarrow> ordering" where
  "ballot_cmp a b = cmp (ballot_key a) (ballot_key b)"

definition ballot_lt :: "ballot \<Rightarrow> ballot \<Rightarrow> bool" where
  "ballot_lt a b \<longleftrightarrow> ballot_cmp a b = Less"

definition ballot_le :: "ballot \<Rightarrow> ballot \<Rightarrow> bool" where
  "ballot_le a b \<longleftrightarrow> ballot_cmp a b \<noteq> Greater"

lemma ballot_lt_key: "ballot_lt a b \<longleftrightarrow> ballot_key a < ballot_key b"
  by (simp add: ballot_lt_def ballot_cmp_def)

lemma ballot_le_key: "ballot_le a b \<longleftrightarrow> ballot_key a \<le> ballot_key b"
  by (simp add: ballot_le_def ballot_cmp_def not_less)

lemmas ballot_order = ballot_lt_key ballot_le_key

lemma ballot_le_refl [simp, intro]: "ballot_le a a"
  by (simp add: ballot_order)

lemma ballot_le_trans [trans]: "ballot_le a b \<Longrightarrow> ballot_le b c \<Longrightarrow> ballot_le a c"
  by (simp add: ballot_order)

lemma ballot_lt_le_trans [trans]: "ballot_lt a b \<Longrightarrow> ballot_le b c \<Longrightarrow> ballot_lt a c"
  by (simp add: ballot_order)

lemma ballot_le_lt_trans [trans]: "ballot_le a b \<Longrightarrow> ballot_lt b c \<Longrightarrow> ballot_lt a c"
  by (simp add: ballot_order)

lemma ballot_lt_trans [trans]: "ballot_lt a b \<Longrightarrow> ballot_lt b c \<Longrightarrow> ballot_lt a c"
  by (simp add: ballot_order)

lemma ballot_lt_imp_le [intro]: "ballot_lt a b \<Longrightarrow> ballot_le a b"
  by (simp add: ballot_order)

lemma ballot_lt_irrefl [simp]: "\<not> ballot_lt a a"
  by (simp add: ballot_order)

lemma not_ballot_le: "\<not> ballot_le a b \<longleftrightarrow> ballot_lt b a"
  by (simp add: ballot_order not_le)

lemma not_ballot_lt: "\<not> ballot_lt a b \<longleftrightarrow> ballot_le b a"
  by (simp add: ballot_order not_less)

lemma ballot_cmp_cases: "ballot_lt a b \<or> ballot_key a = ballot_key b \<or> ballot_lt b a"
  by (auto simp: ballot_order)

lemma ballot_eqI: "b_config_id a = b_config_id b \<Longrightarrow> ballot_key a = ballot_key b \<Longrightarrow> a = b"
  by (cases a; cases b) (simp add: ballot_key_def)

lemma ballot_lt_n: "b_n a < b_n b \<Longrightarrow> ballot_lt a b"
  by (simp add: ballot_order ballot_key_def less_prod_def)

section \<open>Sequence numbers\<close>

record sequence_number =
  sn_session :: u64
  sn_counter :: u64

definition sequence_number_default :: sequence_number where
  "sequence_number_default = \<lparr>sn_session = 0, sn_counter = 0\<rparr>"

datatype message_status = Expected | DroppedPreceding | Outdated

definition seq_key :: "sequence_number \<Rightarrow> u64 \<times> u64" where
  "seq_key s = (sn_session s, sn_counter s)"

text \<open>The derived lexicographic order.\<close>

definition seq_le :: "sequence_number \<Rightarrow> sequence_number \<Rightarrow> bool" where
  "seq_le a b \<longleftrightarrow> seq_key a \<le> seq_key b"

text \<open>
  \<^verbatim>\<open>check_msg_status\<close>. The sum \<^verbatim>\<open>self.counter + 1\<close> is evaluated only when the sessions agree, as the
  short-circuit conjunction does, and panics when it overflows.
\<close>

definition check_msg_status :: "sequence_number \<Rightarrow> sequence_number \<Rightarrow> message_status option" where
  "check_msg_status self msg_seq_num =
     (if sn_session msg_seq_num = sn_session self
      then do {
        next \<leftarrow> checked_inc (sn_counter self);
        Some (if sn_counter msg_seq_num = next then Expected
              else if seq_le msg_seq_num self then Outdated else DroppedPreceding)
      }
      else Some (if seq_le msg_seq_num self then Outdated else DroppedPreceding))"

lemma check_msg_status_Expected:
  "check_msg_status self m = Some Expected \<longleftrightarrow>
     sn_session m = sn_session self \<and> sn_counter self \<noteq> - 1 \<and> sn_counter m = sn_counter self + 1"
  by (auto simp: check_msg_status_def checked_inc_def split: if_splits)

lemma check_msg_status_Expected_greater:
  "check_msg_status self m = Some Expected \<Longrightarrow> seq_key self < seq_key m"
  using checked_inc_greater [of "sn_counter self"]
  by (auto simp: check_msg_status_Expected seq_key_def less_prod_def checked_inc_def)

section \<open>The logical clock\<close>

record logical_clock =
  lc_time :: u64
  lc_timeout :: u64

definition logical_clock_with :: "u64 \<Rightarrow> logical_clock" where
  "logical_clock_with timeout = \<lparr>lc_time = 0, lc_timeout = timeout\<rparr>"

definition tick_and_check_timeout :: "logical_clock \<Rightarrow> (bool \<times> logical_clock) option" where
  "tick_and_check_timeout c = do {
     t \<leftarrow> checked_inc (lc_time c);
     Some (if t = lc_timeout c then (True, c\<lparr>lc_time := 0\<rparr>) else (False, c\<lparr>lc_time := t\<rparr>))
   }"

text \<open>The answers of \<open>k\<close> ticks in a row.\<close>

fun ticks :: "nat \<Rightarrow> logical_clock \<Rightarrow> (bool list \<times> logical_clock) option" where
  "ticks 0 c = Some ([], c)"
| "ticks (Suc k) c = do {
     (bs, c1) \<leftarrow> ticks k c;
     (b, c2) \<leftarrow> tick_and_check_timeout c1;
     Some (bs @ [b], c2)
   }"

lemma checked_inc_of_nat:
  assumes "k < unat (t :: 'a::len word)"
  shows "checked_inc (of_nat k :: 'a word) = Some (of_nat (Suc k))"
proof -
  have "unat (of_nat (Suc k) :: 'a word) = Suc k"
    using assms by (intro le_unat_uoi [of _ t]) simp
  then have "(of_nat (Suc k) :: 'a word) \<noteq> 0"
    by (metis nat.distinct(1) unat_0)
  then have "(of_nat k :: 'a word) \<noteq> - 1"
    by (metis add.commute of_nat_Suc right_minus_eq diff_minus_eq_add)
  then show ?thesis by (simp add: checked_inc_def add.commute)
qed

lemma ticks_state:
  assumes "0 < unat t"
  shows "\<exists>bs. ticks k (logical_clock_with t)
             = Some (bs, \<lparr>lc_time = of_nat (k mod unat t), lc_timeout = t\<rparr>)
           \<and> bs = map (\<lambda>i. unat t dvd Suc i) [0..<k]"
proof (induction k)
  case 0
  show ?case by (simp add: logical_clock_with_def)
next
  case (Suc k)
  define m where "m = k mod unat t"
  have m: "m < unat t" using assms by (simp add: m_def)
  have step: "checked_inc (of_nat m :: u64) = Some (of_nat (Suc m))"
    using m by (rule checked_inc_of_nat)
  have eq: "(of_nat (Suc m) = t) = (Suc m = unat t)"
    using m by (metis Suc_leI le_unat_uoi of_nat_unat ucast_id)
  have dvd: "(unat t dvd Suc k) = (Suc m = unat t)"
    using m by (metis m_def dvd_eq_mod_eq_0 mod_Suc mod_less nat.distinct(1))
  have md: "Suc k mod unat t = (if Suc m = unat t then 0 else Suc m)"
    by (simp add: m_def mod_Suc)
  from Suc.IH obtain bs where
    "ticks k (logical_clock_with t) = Some (bs, \<lparr>lc_time = of_nat m, lc_timeout = t\<rparr>)"
    and bs: "bs = map (\<lambda>i. unat t dvd Suc i) [0..<k]"
    by (auto simp: m_def)
  with step eq dvd md show ?case
    by (auto simp: tick_and_check_timeout_def bs)
qed

end
