(* ===== verification/Config.thy ===== *)
theory Config
  imports Ballot
begin

text \<open>
  Quorums (\<^verbatim>\<open>omnipaxos/src/util.rs\<close>), the cluster and server configurations with their validation
  (\<^verbatim>\<open>omnipaxos/src/omni_paxos.rs\<close>, \<^verbatim>\<open>omnipaxos/src/errors.rs\<close>) and the configurations derived from
  them for the two components of a server. The interface of quorums that the replication protocol
  relies on is the locale \<open>quorum_system\<close>; it is interpreted on the validated cluster
  configurations.
\<close>

section \<open>Quorums\<close>

record flexible_quorum =
  read_quorum_size :: usize
  write_quorum_size :: usize

datatype quorum = Majority usize | Flexible flexible_quorum

definition quorum_with :: "flexible_quorum option \<Rightarrow> usize \<Rightarrow> quorum" where
  "quorum_with flexible_quorum_config num_nodes =
     (case flexible_quorum_config of
        Some fq \<Rightarrow> Flexible \<lparr>read_quorum_size = read_quorum_size fq, write_quorum_size = write_quorum_size fq\<rparr>
      | None \<Rightarrow> Majority (num_nodes div 2 + 1))"

fun is_prepare_quorum :: "quorum \<Rightarrow> usize \<Rightarrow> bool" where
  "is_prepare_quorum (Majority majority) num_nodes \<longleftrightarrow> num_nodes \<ge> majority"
| "is_prepare_quorum (Flexible flex_quorum) num_nodes \<longleftrightarrow> num_nodes \<ge> read_quorum_size flex_quorum"

fun is_accept_quorum :: "quorum \<Rightarrow> usize \<Rightarrow> bool" where
  "is_accept_quorum (Majority majority) num_nodes \<longleftrightarrow> num_nodes \<ge> majority"
| "is_accept_quorum (Flexible flex_quorum) num_nodes \<longleftrightarrow> num_nodes \<ge> write_quorum_size flex_quorum"

section \<open>Configurations\<close>

text \<open>Without the \<^verbatim>\<open>toml_config\<close> feature an invalid configuration is the only error.\<close>

datatype config_error = InvalidConfig string

text \<open>The macro \<^verbatim>\<open>valid_config!\<close>: return the error unless the predicate holds.\<close>

definition valid_config :: "bool \<Rightarrow> string \<Rightarrow> config_error + unit \<Rightarrow> config_error + unit" where
  "valid_config pred err_str rest = (if \<not> pred then Inl (InvalidConfig err_str) else rest)"

record cluster_config =
  cc_configuration_id :: u32
  cc_nodes :: "node_id list"
  cc_flexible_quorum :: "flexible_quorum option"

record server_config =
  sc_pid :: node_id
  sc_election_tick_timeout :: u64
  sc_resend_message_tick_timeout :: u64
  sc_buffer_size :: usize
  sc_batch_size :: usize
  sc_flush_batch_tick_timeout :: u64
  sc_leader_priority :: u32

record omni_paxos_config =
  cluster_config_of :: cluster_config
  server_config_of :: server_config

definition BUFFER_SIZE :: usize where "BUFFER_SIZE = 100000"
definition BLE_BUFFER_SIZE :: usize where "BLE_BUFFER_SIZE = 100"
definition ELECTION_TIMEOUT :: u64 where "ELECTION_TIMEOUT = 1"
definition RESEND_MESSAGE_TIMEOUT :: u64 where "RESEND_MESSAGE_TIMEOUT = 100"
definition FLUSH_BATCH_TIMEOUT :: u64 where "FLUSH_BATCH_TIMEOUT = 200"

definition server_config_default :: server_config where
  "server_config_default = \<lparr>
     sc_pid = 0,
     sc_election_tick_timeout = ELECTION_TIMEOUT,
     sc_resend_message_tick_timeout = RESEND_MESSAGE_TIMEOUT,
     sc_buffer_size = BUFFER_SIZE,
     sc_batch_size = 1,
     sc_flush_batch_tick_timeout = FLUSH_BATCH_TIMEOUT,
     sc_leader_priority = 0\<rparr>"

definition cluster_config_validate :: "cluster_config \<Rightarrow> config_error + unit" where
  "cluster_config_validate c =
     (let num_nodes = length (cc_nodes c) in
      valid_config (num_nodes > 1) ''Need more than 1 node'' (
      valid_config (cc_configuration_id c \<noteq> 0) ''Configuration ID cannot be 0'' (
      case cc_flexible_quorum c of
        None \<Rightarrow> Inr ()
      | Some fq \<Rightarrow>
          valid_config (read_quorum_size fq + write_quorum_size fq > num_nodes)
            ''The quorums must overlap i.e., the sum of their sizes must exceed the # of nodes'' (
          valid_config (read_quorum_size fq \<ge> 2 \<and> read_quorum_size fq \<le> num_nodes)
            ''Read quorum must be in range 2 to # of nodes in the cluster'' (
          valid_config (write_quorum_size fq \<ge> 2 \<and> write_quorum_size fq \<le> num_nodes)
            ''Write quorum must be in range 2 to # of nodes in the cluster'' (
          valid_config (read_quorum_size fq \<ge> write_quorum_size fq)
            ''Read quorum size must be >= the write quorum size.'' (Inr ())))))))"

definition server_config_validate :: "server_config \<Rightarrow> config_error + unit" where
  "server_config_validate s =
     valid_config (sc_pid s \<noteq> 0) ''Server pid cannot be 0'' (
     valid_config (sc_buffer_size s \<noteq> 0) ''Buffer size must be greater than 0'' (
     valid_config (sc_batch_size s \<noteq> 0) ''Batch size must be greater than 0'' (
     valid_config (sc_election_tick_timeout s \<noteq> 0) ''Election tick timeout must be greater than 0'' (
     valid_config (sc_resend_message_tick_timeout s \<noteq> 0)
       ''Resend message tick timeout must be greater than 0'' (Inr ())))))"

definition omni_paxos_config_validate :: "omni_paxos_config \<Rightarrow> config_error + unit" where
  "omni_paxos_config_validate c =
     (case cluster_config_validate (cluster_config_of c) of
        Inl e \<Rightarrow> Inl e
      | Inr _ \<Rightarrow> (case server_config_validate (server_config_of c) of
          Inl e \<Rightarrow> Inl e
        | Inr _ \<Rightarrow>
            valid_config (sc_pid (server_config_of c) \<in> set (cc_nodes (cluster_config_of c)))
              ''Nodes must include own server pid'' (Inr ())))"

text \<open>The configuration of each component of a server (\<^verbatim>\<open>From<OmniPaxosConfig>\<close>).\<close>

record sequence_paxos_config =
  spc_pid :: node_id
  spc_peers :: "node_id list"
  spc_buffer_size :: usize
  spc_batch_size :: usize
  spc_flexible_quorum :: "flexible_quorum option"

record ble_config =
  blec_configuration_id :: u32
  blec_pid :: node_id
  blec_peers :: "node_id list"
  blec_priority :: u32
  blec_flexible_quorum :: "flexible_quorum option"
  blec_buffer_size :: usize

definition sequence_paxos_config_from :: "omni_paxos_config \<Rightarrow> sequence_paxos_config" where
  "sequence_paxos_config_from config =
     (let pid = sc_pid (server_config_of config);
          peers = filter (\<lambda>x. x \<noteq> pid) (cc_nodes (cluster_config_of config)) in
      \<lparr>spc_pid = pid,
       spc_peers = peers,
       spc_buffer_size = sc_buffer_size (server_config_of config),
       spc_batch_size = sc_batch_size (server_config_of config),
       spc_flexible_quorum = cc_flexible_quorum (cluster_config_of config)\<rparr>)"

definition ble_config_from :: "omni_paxos_config \<Rightarrow> ble_config" where
  "ble_config_from config =
     (let pid = sc_pid (server_config_of config);
          peers = filter (\<lambda>x. x \<noteq> pid) (cc_nodes (cluster_config_of config)) in
      \<lparr>blec_configuration_id = cc_configuration_id (cluster_config_of config),
       blec_pid = pid,
       blec_peers = peers,
       blec_priority = sc_leader_priority (server_config_of config),
       blec_flexible_quorum = cc_flexible_quorum (cluster_config_of config),
       blec_buffer_size = BLE_BUFFER_SIZE\<rparr>)"

lemma valid_config_eq_Inr [simp]:
  "valid_config p msg rest = Inr () \<longleftrightarrow> p \<and> rest = Inr ()"
  by (simp add: valid_config_def)

lemma cluster_config_validate_ok:
  "cluster_config_validate c = Inr () \<longleftrightarrow>
     1 < length (cc_nodes c) \<and> cc_configuration_id c \<noteq> 0 \<and>
     (\<forall>fq. cc_flexible_quorum c = Some fq \<longrightarrow>
        length (cc_nodes c) < read_quorum_size fq + write_quorum_size fq \<and>
        read_quorum_size fq \<le> length (cc_nodes c) \<and>
        2 \<le> write_quorum_size fq \<and> write_quorum_size fq \<le> read_quorum_size fq)"
  by (auto simp: cluster_config_validate_def Let_def split: option.splits)

lemma omni_paxos_config_validate_ok:
  "omni_paxos_config_validate c = Inr () \<longleftrightarrow>
     cluster_config_validate (cluster_config_of c) = Inr () \<and>
     server_config_validate (server_config_of c) = Inr () \<and>
     sc_pid (server_config_of c) \<in> set (cc_nodes (cluster_config_of c))"
  by (auto simp: omni_paxos_config_validate_def split: sum.splits)

section \<open>The interface of quorums\<close>

text \<open>
  What the prepare and the accept phase need of the two kinds of quorum of an admissible
  configuration: they are upward closed, and a prepare quorum meets every accept quorum.
\<close>

locale quorum_system =
  fixes admissible :: "'cfg \<Rightarrow> bool"
    and members :: "'cfg \<Rightarrow> 'n set"
    and prep :: "'cfg \<Rightarrow> nat \<Rightarrow> bool"
    and acc :: "'cfg \<Rightarrow> nat \<Rightarrow> bool"
  assumes finite_members: "admissible c \<Longrightarrow> finite (members c)"
    and prep_mono: "prep c a \<Longrightarrow> a \<le> b \<Longrightarrow> prep c b"
    and acc_mono: "acc c a \<Longrightarrow> a \<le> b \<Longrightarrow> acc c b"
    and overlap: "admissible c \<Longrightarrow> prep c a \<Longrightarrow> acc c b \<Longrightarrow> card (members c) < a + b"
    and prep_all: "admissible c \<Longrightarrow> prep c (card (members c))"
    and acc_all: "admissible c \<Longrightarrow> acc c (card (members c))"
begin

lemma quorums_meet:
  assumes c: "admissible c" and Q: "Q \<subseteq> members c" "prep c (card Q)"
    and R: "R \<subseteq> members c" "acc c (card R)"
  shows "Q \<inter> R \<noteq> {}"
proof
  assume disj: "Q \<inter> R = {}"
  have fin: "finite Q" "finite R"
    using Q(1) R(1) finite_members [OF c] by (auto intro: finite_subset)
  have "card Q + card R = card (Q \<union> R)"
    using disj fin by (simp add: card_Un_disjoint)
  also have "\<dots> \<le> card (members c)"
    using Q(1) R(1) finite_members [OF c] by (intro card_mono) auto
  finally show False
    using overlap [OF c Q(2) R(2)] by simp
qed

text \<open>
  A value accepted by an accept quorum is known to a member of every later prepare quorum: the
  set of members that lack it cannot form a prepare quorum.
\<close>

lemma no_quorum_of_missing:
  assumes c: "admissible c" and R: "R \<subseteq> members c" "acc c (card R)"
    and M: "M \<subseteq> members c - R"
  shows "\<not> prep c (card M)"
proof
  assume "prep c (card M)"
  moreover have "M \<subseteq> members c" using M by auto
  ultimately have "M \<inter> R \<noteq> {}"
    using c R by (intro quorums_meet)
  with M show False by auto
qed

lemma quorum_nonempty:
  assumes "admissible c" "Q \<subseteq> members c" "prep c (card Q)"
  shows "Q \<noteq> {}"
  using quorums_meet [OF assms subset_refl acc_all] assms(1) by auto

end

text \<open>The quorum a node of the cluster computes: \<^verbatim>\<open>peers.len() + 1\<close> is the number of nodes.\<close>

definition cluster_quorum :: "cluster_config \<Rightarrow> quorum" where
  "cluster_quorum c = quorum_with (cc_flexible_quorum c) (length (cc_nodes c))"

definition sound_cluster :: "cluster_config \<Rightarrow> bool" where
  "sound_cluster c \<longleftrightarrow> cluster_config_validate c = Inr () \<and> distinct (cc_nodes c)"

interpretation cluster: quorum_system sound_cluster "\<lambda>c. set (cc_nodes c)"
  "\<lambda>c. is_prepare_quorum (cluster_quorum c)" "\<lambda>c. is_accept_quorum (cluster_quorum c)"
proof unfold_locales
  fix c a b
  assume c: "sound_cluster c"
    and a: "is_prepare_quorum (cluster_quorum c) a"
    and b: "is_accept_quorum (cluster_quorum c) b"
  have card: "card (set (cc_nodes c)) = length (cc_nodes c)"
    using c by (simp add: sound_cluster_def distinct_card)
  show "card (set (cc_nodes c)) < a + b"
  proof (cases "cc_flexible_quorum c")
    case None
    with a b have "length (cc_nodes c) div 2 + 1 \<le> a" "length (cc_nodes c) div 2 + 1 \<le> b"
      by (simp_all add: cluster_quorum_def quorum_with_def)
    then show ?thesis using card by linarith
  next
    case (Some fq)
    with a b c have "read_quorum_size fq \<le> a" "write_quorum_size fq \<le> b"
      and "length (cc_nodes c) < read_quorum_size fq + write_quorum_size fq"
      by (auto simp: cluster_quorum_def quorum_with_def sound_cluster_def cluster_config_validate_ok)
    then show ?thesis using card by linarith
  qed
next
  fix c a b
  show "is_prepare_quorum (cluster_quorum c) a \<Longrightarrow> a \<le> b \<Longrightarrow> is_prepare_quorum (cluster_quorum c) b"
    by (cases "cluster_quorum c") auto
  show "is_accept_quorum (cluster_quorum c) a \<Longrightarrow> a \<le> b \<Longrightarrow> is_accept_quorum (cluster_quorum c) b"
    by (cases "cluster_quorum c") auto
qed (auto simp: sound_cluster_def cluster_quorum_def quorum_with_def cluster_config_validate_ok
       distinct_card split: option.splits)

lemma quorum_of_peers:
  assumes "distinct (cc_nodes c)" and "pid \<in> set (cc_nodes c)"
  shows "length (filter (\<lambda>x. x \<noteq> pid) (cc_nodes c)) + 1 = length (cc_nodes c)"
proof -
  have "set (filter (\<lambda>x. x \<noteq> pid) (cc_nodes c)) = set (cc_nodes c) - {pid}" by auto
  then have "length (filter (\<lambda>x. x \<noteq> pid) (cc_nodes c)) = card (set (cc_nodes c) - {pid})"
    using assms(1) by (metis distinct_card distinct_filter)
  also have "\<dots> = length (cc_nodes c) - 1"
    using assms by (simp add: card_Diff_singleton distinct_card)
  finally show ?thesis
    using assms(2) by (cases "cc_nodes c") auto
qed

end
