(* ===== verification/Storage.thy ===== *)
theory Storage
  imports Config
begin

text \<open>
  The storage interface (\<^verbatim>\<open>omnipaxos/src/storage/mod.rs\<close>): stop signs, snapshots, the write
  operations and the trait \<^verbatim>\<open>Storage\<close>. A trait is a record of operations that the generic code takes
  as an argument (\<open>S\<close> for \<^verbatim>\<open>Storage\<close>, \<open>P\<close> for \<^verbatim>\<open>Snapshot\<close>). What a back-end promises is the locale
  \<open>storage_contract\<close> over an abstract view of the stored log; the locale \<open>snapshot_laws\<close> states what a
  snapshot type promises.
\<close>

section \<open>Stop signs, snapshots, errors\<close>

record 'c stop_sign =
  next_config :: 'c
  ss_metadata :: "u8 list option"

definition stop_sign_with :: "'c \<Rightarrow> u8 list option \<Rightarrow> 'c stop_sign" where
  "stop_sign_with next_cfg metadata = \<lparr>next_config = next_cfg, ss_metadata = metadata\<rparr>"

datatype 'p snapshot_type = Complete 'p | Delta 'p

record ('t, 'p) snapshot_impl =
  snap_create :: "'t list \<Rightarrow> 'p option"
  snap_merge :: "'p \<Rightarrow> 'p \<Rightarrow> 'p option"
  use_snapshots :: bool

text \<open>\<^verbatim>\<open>NoSnapshot\<close>: both operations panic.\<close>

definition no_snapshot :: "('t, unit) snapshot_impl" where
  "no_snapshot = \<lparr>snap_create = (\<lambda>entries. None), snap_merge = (\<lambda>self delta. None), use_snapshots = False\<rparr>"

text \<open>\<^verbatim>\<open>CompactionErr\<close> of \<^verbatim>\<open>omni_paxos.rs\<close>; a boxed error is one of these or an error of the back-end.\<close>

datatype compaction_err =
    UndecidedIndex usize
  | TrimmedIndex usize
  | NotAllDecided usize
  | NotCurrentLeader node_id

datatype storage_err = CompactionError compaction_err | BackendError string

type_synonym 'a storage_result = "storage_err + 'a"

datatype ('t, 'c, 'p) storage_op =
    AppendEntry 't
  | AppendEntries "'t list"
  | AppendOnPrefix usize "'t list"
  | SetPromise ballot
  | SetDecidedIndex usize
  | SetAcceptedRound ballot
  | SetCompactedIdx usize
  | Trim usize
  | SetStopsign "'c stop_sign option"
  | SetSnapshot "'p option"

section \<open>The trait \<^verbatim>\<open>Storage\<close>\<close>

record ('s, 't, 'c, 'p) storage_impl =
  st_write_atomically :: "('t, 'c, 'p) storage_op list \<Rightarrow> 's \<Rightarrow> (unit storage_result \<times> 's) option"
  st_append_entry :: "'t \<Rightarrow> 's \<Rightarrow> (unit storage_result \<times> 's) option"
  st_append_entries :: "'t list \<Rightarrow> 's \<Rightarrow> (unit storage_result \<times> 's) option"
  st_append_on_prefix :: "usize \<Rightarrow> 't list \<Rightarrow> 's \<Rightarrow> (unit storage_result \<times> 's) option"
  st_set_promise :: "ballot \<Rightarrow> 's \<Rightarrow> (unit storage_result \<times> 's) option"
  st_set_decided_idx :: "usize \<Rightarrow> 's \<Rightarrow> (unit storage_result \<times> 's) option"
  st_get_decided_idx :: "'s \<Rightarrow> usize storage_result option"
  st_set_accepted_round :: "ballot \<Rightarrow> 's \<Rightarrow> (unit storage_result \<times> 's) option"
  st_get_accepted_round :: "'s \<Rightarrow> ballot option storage_result option"
  st_get_entries :: "usize \<Rightarrow> usize \<Rightarrow> 's \<Rightarrow> 't list storage_result option"
  st_get_log_len :: "'s \<Rightarrow> usize storage_result option"
  st_get_suffix :: "usize \<Rightarrow> 's \<Rightarrow> 't list storage_result option"
  st_get_promise :: "'s \<Rightarrow> ballot option storage_result option"
  st_set_stopsign :: "'c stop_sign option \<Rightarrow> 's \<Rightarrow> (unit storage_result \<times> 's) option"
  st_get_stopsign :: "'s \<Rightarrow> 'c stop_sign option storage_result option"
  st_trim :: "usize \<Rightarrow> 's \<Rightarrow> (unit storage_result \<times> 's) option"
  st_set_compacted_idx :: "usize \<Rightarrow> 's \<Rightarrow> (unit storage_result \<times> 's) option"
  st_get_compacted_idx :: "'s \<Rightarrow> usize storage_result option"
  st_set_snapshot :: "'p option \<Rightarrow> 's \<Rightarrow> (unit storage_result \<times> 's) option"
  st_get_snapshot :: "'s \<Rightarrow> 'p option storage_result option"

section \<open>The abstract view\<close>

text \<open>
  What a back-end stores, seen from its client: the entries from position \<open>v_trimmed\<close> on and the
  scalar fields. \<open>view_op\<close> is the effect of one write; \<open>None\<close> marks the uses the documentation of the
  trait does not cover: a prefix that is not in the log, a trim below the trimmed index.
\<close>

record ('t, 'c, 'p) storage_view =
  v_trimmed :: usize
  v_log :: "'t list"
  v_promise :: "ballot option"
  v_accepted_round :: "ballot option"
  v_decided_idx :: usize
  v_compacted_idx :: usize
  v_snapshot :: "'p option"
  v_stopsign :: "'c stop_sign option"

fun view_op :: "('t, 'c, 'p) storage_op \<Rightarrow> ('t, 'c, 'p) storage_view \<Rightarrow> ('t, 'c, 'p) storage_view option" where
  "view_op (AppendEntry e) v = Some (v\<lparr>v_log := v_log v @ [e]\<rparr>)"
| "view_op (AppendEntries es) v = Some (v\<lparr>v_log := v_log v @ es\<rparr>)"
| "view_op (AppendOnPrefix i es) v =
     (if v_trimmed v \<le> i \<and> i \<le> v_trimmed v + length (v_log v)
      then Some (v\<lparr>v_log := take (i - v_trimmed v) (v_log v) @ es\<rparr>) else None)"
| "view_op (SetPromise b) v = Some (v\<lparr>v_promise := Some b\<rparr>)"
| "view_op (SetDecidedIndex i) v = Some (v\<lparr>v_decided_idx := i\<rparr>)"
| "view_op (SetAcceptedRound b) v = Some (v\<lparr>v_accepted_round := Some b\<rparr>)"
| "view_op (SetCompactedIdx i) v = Some (v\<lparr>v_compacted_idx := i\<rparr>)"
| "view_op (Trim i) v =
     (if v_trimmed v \<le> i
      then Some (v\<lparr>v_log := drop (i - v_trimmed v) (v_log v), v_trimmed := i\<rparr>) else None)"
| "view_op (SetStopsign ss) v = Some (v\<lparr>v_stopsign := ss\<rparr>)"
| "view_op (SetSnapshot p) v = Some (v\<lparr>v_snapshot := p\<rparr>)"

fun view_ops ::
  "('t, 'c, 'p) storage_op list \<Rightarrow> ('t, 'c, 'p) storage_view \<Rightarrow> ('t, 'c, 'p) storage_view option" where
  "view_ops [] v = Some v"
| "view_ops (x # xs) v = do { v1 \<leftarrow> view_op x v; view_ops xs v1 }"

lemma view_ops_append: "view_ops (xs @ ys) v = do { v1 \<leftarrow> view_ops xs v; view_ops ys v1 }"
  by (induction xs arbitrary: v) (auto split: Option.bind_split)

text \<open>
  What a transaction may rely on. The trait does not say where entries go that are appended after a
  trim beyond the end of the log (the in-memory back-end then continues at the trimmed index, the
  RocksDB back-end at its old end), so such a trim has to be followed by a write on a prefix first; and
  a transaction that trims also sets the compacted index.
\<close>

fun op_end :: "('t, 'c, 'p) storage_op \<Rightarrow> ('t, 'c, 'p) storage_view \<Rightarrow> bool \<Rightarrow> bool" where
  "op_end (AppendOnPrefix i es) v b = True"
| "op_end (Trim i) v b = (b \<and> i \<le> v_trimmed v + length (v_log v))"
| "op_end _ v b = b"

fun appends_at_end :: "('t, 'c, 'p) storage_op \<Rightarrow> bool" where
  "appends_at_end (AppendEntry e) = True"
| "appends_at_end (AppendEntries es) = True"
| "appends_at_end _ = False"

fun txn_fits :: "bool \<Rightarrow> ('t, 'c, 'p) storage_op list \<Rightarrow> ('t, 'c, 'p) storage_view \<Rightarrow> bool" where
  "txn_fits b [] v = b"
| "txn_fits b (x # xs) v =
     ((appends_at_end x \<longrightarrow> b) \<and> (case view_op x v of None \<Rightarrow> False | Some v1 \<Rightarrow> txn_fits (op_end x v b) xs v1))"

definition txn_ok :: "('t, 'c, 'p) storage_op list \<Rightarrow> ('t, 'c, 'p) storage_view \<Rightarrow> ('t, 'c, 'p) storage_view \<Rightarrow> bool" where
  "txn_ok ops v v' \<longleftrightarrow> view_ops ops v = Some v' \<and> txn_fits True ops v \<and>
     (v_trimmed v = v_compacted_idx v \<longrightarrow> v_trimmed v' = v_compacted_idx v')"

lemma txn_fits_append:
  "view_ops xs v = Some v1 \<Longrightarrow> txn_fits True xs v \<Longrightarrow> txn_fits True ys v1 \<Longrightarrow> txn_fits True (xs @ ys) v"
proof -
  have "view_ops xs v = Some v1 \<Longrightarrow> txn_fits b xs v \<Longrightarrow> txn_fits True ys v1 \<Longrightarrow> txn_fits b (xs @ ys) v" for b
    by (induction xs arbitrary: v b) (auto simp: bind_eq_Some_conv split: option.split_asm)
  then show "view_ops xs v = Some v1 \<Longrightarrow> txn_fits True xs v \<Longrightarrow> txn_fits True ys v1 \<Longrightarrow> txn_fits True (xs @ ys) v" .
qed

text \<open>Entries \<open>[from, to)\<close>; the empty list when the interval is not complete.\<close>

definition view_entries :: "('t, 'c, 'p) storage_view \<Rightarrow> usize \<Rightarrow> usize \<Rightarrow> 't list" where
  "view_entries v from to =
     (if v_trimmed v \<le> from \<and> from \<le> to \<and> to \<le> v_trimmed v + length (v_log v)
      then take (to - from) (drop (from - v_trimmed v) (v_log v)) else [])"

definition view_suffix :: "('t, 'c, 'p) storage_view \<Rightarrow> usize \<Rightarrow> 't list" where
  "view_suffix v from = drop (from - v_trimmed v) (v_log v)"

text \<open>\<open>does\<close>: a write succeeds, keeps the back-end's invariant and has the given effect.\<close>

definition does ::
  "('s \<Rightarrow> bool) \<Rightarrow> ('s \<Rightarrow> 'v) \<Rightarrow> (unit storage_result \<times> 's) option \<Rightarrow> 'v \<Rightarrow> bool" where
  "does keeps view m v \<longleftrightarrow> (\<exists>s'. m = Some (Inr (), s') \<and> keeps s' \<and> view s' = v)"

lemma doesE:
  assumes "does keeps view m v" and "m = Some (r, s')"
  shows "r = Inr ()" and "keeps s'" and "view s' = v"
  using assms by (auto simp: does_def)

section \<open>The contract of a back-end\<close>

locale storage_contract =
  fixes S :: "('s, 't, 'c, 'p) storage_impl"
    and sinv :: "'s \<Rightarrow> bool"
    and view :: "'s \<Rightarrow> ('t, 'c, 'p) storage_view"
  assumes write_atomically_ok:
      "sinv s \<Longrightarrow> txn_ok ops (view s) v \<Longrightarrow> does sinv view (st_write_atomically S ops s) v"
    and append_entries_ok:
      "sinv s \<Longrightarrow> does sinv view (st_append_entries S es s) ((view s)\<lparr>v_log := v_log (view s) @ es\<rparr>)"
    and set_promise_ok:
      "sinv s \<Longrightarrow> does sinv view (st_set_promise S b s) ((view s)\<lparr>v_promise := Some b\<rparr>)"
    and set_decided_idx_ok:
      "sinv s \<Longrightarrow> does sinv view (st_set_decided_idx S i s) ((view s)\<lparr>v_decided_idx := i\<rparr>)"
    and set_stopsign_ok:
      "sinv s \<Longrightarrow> does sinv view (st_set_stopsign S ss s) ((view s)\<lparr>v_stopsign := ss\<rparr>)"
    and get_promise_ok: "sinv s \<Longrightarrow> st_get_promise S s = Some (Inr (v_promise (view s)))"
    and get_decided_idx_ok: "sinv s \<Longrightarrow> st_get_decided_idx S s = Some (Inr (v_decided_idx (view s)))"
    and get_accepted_round_ok:
      "sinv s \<Longrightarrow> st_get_accepted_round S s = Some (Inr (v_accepted_round (view s)))"
    and get_compacted_idx_ok:
      "sinv s \<Longrightarrow> st_get_compacted_idx S s = Some (Inr (v_compacted_idx (view s)))"
    and get_stopsign_ok: "sinv s \<Longrightarrow> st_get_stopsign S s = Some (Inr (v_stopsign (view s)))"
    and get_snapshot_ok: "sinv s \<Longrightarrow> st_get_snapshot S s = Some (Inr (v_snapshot (view s)))"
    and get_log_len_ok: "sinv s \<Longrightarrow> st_get_log_len S s = Some (Inr (length (v_log (view s))))"
    and get_entries_ok:
      "sinv s \<Longrightarrow> v_trimmed (view s) \<le> from \<Longrightarrow> from \<le> to \<Longrightarrow>
         st_get_entries S from to s = Some (Inr (view_entries (view s) from to))"
    and get_suffix_ok:
      "sinv s \<Longrightarrow> v_trimmed (view s) \<le> from \<Longrightarrow>
         st_get_suffix S from s = Some (Inr (view_suffix (view s) from))"
begin

lemmas reads_ok =
  get_promise_ok get_decided_idx_ok get_accepted_round_ok get_compacted_idx_ok get_stopsign_ok
  get_snapshot_ok get_log_len_ok

text \<open>Reading back what was appended: the end of the log after \<^verbatim>\<open>append_entries\<close>.\<close>

lemma suffix_after_append:
  assumes "sinv s" and "st_append_entries S es s = Some (r, s')"
    and "v_trimmed (view s) + length (v_log (view s)) = i"
  shows "st_get_suffix S i s' = Some (Inr es)"
proof -
  have s': "sinv s'" "view s' = (view s)\<lparr>v_log := v_log (view s) @ es\<rparr>"
    using doesE [OF append_entries_ok [OF assms(1)] assms(2)] by auto
  then have "st_get_suffix S i s' = Some (Inr (view_suffix (view s') i))"
    using assms(3) by (intro get_suffix_ok) auto
  with s' assms(3) show ?thesis by (auto simp: view_suffix_def)
qed

end

section \<open>The laws of a snapshot\<close>

text \<open>
  \<^verbatim>\<open>Snapshot\<close> says that \<^verbatim>\<open>create\<close> summarises a slice of the log and \<^verbatim>\<open>merge\<close> adds a later summary: for
  an admissible snapshot type, merging the summaries of two adjacent slices is the summary of both.
\<close>

fun merge_all :: "('t, 'p) snapshot_impl \<Rightarrow> 'p \<Rightarrow> 't list list \<Rightarrow> 'p option" where
  "merge_all P p [] = Some p"
| "merge_all P p (c # cs) = do { q \<leftarrow> snap_create P c; r \<leftarrow> snap_merge P p q; merge_all P r cs }"

locale snapshot_laws =
  fixes P :: "('t, 'p) snapshot_impl"
  assumes create_total: "\<exists>p. snap_create P es = Some p"
    and merge_create:
      "snap_create P es = Some p \<Longrightarrow> snap_create P fs = Some q \<Longrightarrow>
         snap_merge P p q = snap_create P (es @ fs)"
begin

lemma merge_create_ok:
  assumes "snap_create P es = Some p" "snap_create P fs = Some q"
  shows "\<exists>r. snap_merge P p q = Some r \<and> snap_create P (es @ fs) = Some r"
  using merge_create [OF assms] create_total [of "es @ fs"] by auto

text \<open>Chunk-wise snapshotting of a log gives the snapshot of the whole log.\<close>

lemma merge_all_concat:
  "snap_create P es = Some p \<Longrightarrow> merge_all P p cs = snap_create P (es @ concat cs)"
proof (induction cs arbitrary: es p)
  case Nil
  then show ?case by simp
next
  case (Cons c cs)
  obtain q where q: "snap_create P c = Some q" using create_total by blast
  obtain r where r: "snap_merge P p q = Some r" "snap_create P (es @ c) = Some r"
    using merge_create_ok [OF Cons.prems q] by blast
  from r(2) have "merge_all P r cs = snap_create P ((es @ c) @ concat cs)" by (rule Cons.IH)
  with q r(1) show ?case by simp
qed

end

end
