(* ===== verification/Messages.thy ===== *)
theory Messages
  imports Storage
begin

text \<open>
  The messages servers exchange (\<^verbatim>\<open>omnipaxos/src/messages.rs\<close>) and the log synchronisation they carry
  (\<^verbatim>\<open>LogSync\<close> of \<^verbatim>\<open>omnipaxos/src/util.rs\<close>). Field names carry a prefix of their struct.
\<close>

record ('t, 'c, 'p) log_sync =
  decided_snapshot :: "'p snapshot_type option"
  sync_suffix :: "'t list"
  sync_idx :: usize
  sync_stopsign :: "'c stop_sign option"

record prepare_req =
  preq_n :: ballot

record prepare =
  prep_n :: ballot
  prep_decided_idx :: usize
  prep_n_accepted :: ballot
  prep_accepted_idx :: usize

record ('t, 'c, 'p) promise =
  prom_n :: ballot
  prom_n_accepted :: ballot
  prom_decided_idx :: usize
  prom_accepted_idx :: usize
  prom_log_sync :: "('t, 'c, 'p) log_sync option"

record ('t, 'c, 'p) accept_sync =
  asy_n :: ballot
  asy_seq_num :: sequence_number
  asy_decided_idx :: usize
  asy_log_sync :: "('t, 'c, 'p) log_sync"

record 't accept_decide =
  ad_n :: ballot
  ad_seq_num :: sequence_number
  ad_decided_idx :: usize
  ad_entries :: "'t list"

record accepted =
  acc_n :: ballot
  acc_accepted_idx :: usize

record decide =
  dec_n :: ballot
  dec_seq_num :: sequence_number
  dec_decided_idx :: usize

record 'c accept_stopsign =
  ass_n :: ballot
  ass_seq_num :: sequence_number
  ass_ss :: "'c stop_sign"

record not_accepted =
  nacc_n :: ballot

datatype compaction = CompactTrim usize | CompactSnapshot "usize option"

datatype ('t, 'c, 'p) paxos_msg =
    PrepareReq prepare_req
  | Prepare prepare
  | Promise "('t, 'c, 'p) promise"
  | AcceptSync "('t, 'c, 'p) accept_sync"
  | AcceptDecide "'t accept_decide"
  | Accepted accepted
  | NotAccepted not_accepted
  | Decide decide
  | ProposalForward "'t list"
  | Compaction compaction
  | AcceptStopSign "'c accept_stopsign"
  | ForwardStopSign "'c stop_sign"

record ('t, 'c, 'p) paxos_message =
  pm_from :: node_id
  pm_to :: node_id
  pm_msg :: "('t, 'c, 'p) paxos_msg"

record heartbeat_request =
  hbq_round :: u32

record heartbeat_reply =
  hbr_round :: u32
  hbr_ballot :: ballot
  hbr_leader :: ballot
  hbr_happy :: bool

datatype heartbeat_msg = Request heartbeat_request | Reply heartbeat_reply

record ble_message =
  bm_from :: node_id
  bm_to :: node_id
  bm_msg :: heartbeat_msg

datatype ('t, 'c, 'p) message =
    SequencePaxosMsg "('t, 'c, 'p) paxos_message"
  | BLEMsg ble_message

fun get_sender :: "('t, 'c, 'p) message \<Rightarrow> node_id" where
  "get_sender (SequencePaxosMsg p) = pm_from p"
| "get_sender (BLEMsg b) = bm_from b"

fun get_receiver :: "('t, 'c, 'p) message \<Rightarrow> node_id" where
  "get_receiver (SequencePaxosMsg p) = pm_to p"
| "get_receiver (BLEMsg b) = bm_to b"

text \<open>The envelope every send of the replication component builds.\<close>

abbreviation paxos_envelope ::
  "node_id \<Rightarrow> node_id \<Rightarrow> ('t, 'c, 'p) paxos_msg \<Rightarrow> ('t, 'c, 'p) message" where
  "paxos_envelope from to msg \<equiv> SequencePaxosMsg \<lparr>pm_from = from, pm_to = to, pm_msg = msg\<rparr>"

end
