(* ===== verification/Leader_State.thy ===== *)
theory Leader_State
  imports Messages
begin

text \<open>
  The book-keeping of a leader (\<^verbatim>\<open>LeaderState\<close>, \<^verbatim>\<open>PromiseMetaData\<close> and \<^verbatim>\<open>PromiseState\<close> of
  \<^verbatim>\<open>omnipaxos/src/util.rs\<close>). The vectors are indexed by \<^verbatim>\<open>pid - 1\<close>; a process identifier of 0 or
  above \<^verbatim>\<open>max_pid\<close> makes the indexing panic.
\<close>

section \<open>Promises\<close>

record promise_meta_data =
  pmd_n_accepted :: ballot
  pmd_accepted_idx :: usize
  pmd_decided_idx :: usize
  pmd_pid :: node_id

definition promise_meta_default :: promise_meta_data where
  "promise_meta_default =
     \<lparr>pmd_n_accepted = ballot_default, pmd_accepted_idx = 0, pmd_decided_idx = 0, pmd_pid = 0\<rparr>"

definition promise_meta_eq :: "promise_meta_data \<Rightarrow> promise_meta_data \<Rightarrow> bool" where
  "promise_meta_eq self other \<longleftrightarrow>
     pmd_n_accepted self = pmd_n_accepted other \<and>
     pmd_accepted_idx self = pmd_accepted_idx other \<and>
     pmd_pid self = pmd_pid other"

definition promise_meta_partial_cmp :: "promise_meta_data \<Rightarrow> promise_meta_data \<Rightarrow> ordering option" where
  "promise_meta_partial_cmp self other = Some (
     if pmd_n_accepted self = pmd_n_accepted other \<and>
        pmd_accepted_idx self = pmd_accepted_idx other \<and>
        pmd_pid self = pmd_pid other
     then Equal
     else if ballot_lt (pmd_n_accepted other) (pmd_n_accepted self) \<or>
             (pmd_n_accepted self = pmd_n_accepted other \<and> pmd_accepted_idx self > pmd_accepted_idx other)
     then Greater
     else Less)"

text \<open>The operator \<^verbatim>\<open>>\<close> of \<^verbatim>\<open>PartialOrd\<close>.\<close>

definition promise_meta_gt :: "promise_meta_data \<Rightarrow> promise_meta_data \<Rightarrow> bool" where
  "promise_meta_gt self other \<longleftrightarrow> promise_meta_partial_cmp self other = Some Greater"

datatype promise_state = NotPromised | Promised promise_meta_data | PromisedHigher

fun is_promised :: "promise_state \<Rightarrow> bool" where
  "is_promised (Promised m) = True"
| "is_promised NotPromised = False"
| "is_promised PromisedHigher = False"

section \<open>The leader's state\<close>

record ('t, 'c, 'p) leader_state =
  n_leader :: ballot
  promises_meta :: "promise_state list"
  follower_seq_nums :: "sequence_number list"
  accepted_indexes :: "usize list"
  max_promise_meta :: promise_meta_data
  max_promise_sync :: "('t, 'c, 'p) log_sync option"
  latest_accept_meta :: "(ballot \<times> usize) option list"
  max_pid :: usize
  ls_quorum :: quorum

definition leader_state_with :: "ballot \<Rightarrow> usize \<Rightarrow> quorum \<Rightarrow> ('t, 'c, 'p) leader_state" where
  "leader_state_with n maxpid q = \<lparr>
     n_leader = n,
     promises_meta = replicate maxpid NotPromised,
     follower_seq_nums = replicate maxpid sequence_number_default,
     accepted_indexes = replicate maxpid 0,
     max_promise_meta = promise_meta_default,
     max_promise_sync = None,
     latest_accept_meta = replicate maxpid None,
     max_pid = maxpid,
     ls_quorum = q\<rparr>"

definition pid_to_idx :: "node_id \<Rightarrow> usize option" where
  "pid_to_idx pid = checked_sub pid 1"

definition increment_seq_num_session ::
  "node_id \<Rightarrow> ('t, 'c, 'p) leader_state \<Rightarrow> ('t, 'c, 'p) leader_state option" where
  "increment_seq_num_session pid ls = do {
     idx \<leftarrow> pid_to_idx pid;
     sn \<leftarrow> vec_get (follower_seq_nums ls) idx;
     s \<leftarrow> checked_inc (sn_session sn);
     v \<leftarrow> vec_set (follower_seq_nums ls) idx (sn\<lparr>sn_session := s, sn_counter := 0\<rparr>);
     Some (ls\<lparr>follower_seq_nums := v\<rparr>)
   }"

definition next_seq_num ::
  "node_id \<Rightarrow> ('t, 'c, 'p) leader_state \<Rightarrow> (sequence_number \<times> ('t, 'c, 'p) leader_state) option" where
  "next_seq_num pid ls = do {
     idx \<leftarrow> pid_to_idx pid;
     sn \<leftarrow> vec_get (follower_seq_nums ls) idx;
     c \<leftarrow> checked_inc (sn_counter sn);
     v \<leftarrow> vec_set (follower_seq_nums ls) idx (sn\<lparr>sn_counter := c\<rparr>);
     Some (sn\<lparr>sn_counter := c\<rparr>, ls\<lparr>follower_seq_nums := v\<rparr>)
   }"

definition get_seq_num :: "node_id \<Rightarrow> ('t, 'c, 'p) leader_state \<Rightarrow> sequence_number option" where
  "get_seq_num pid ls = do {
     idx \<leftarrow> pid_to_idx pid;
     vec_get (follower_seq_nums ls) idx
   }"

definition num_promised :: "('t, 'c, 'p) leader_state \<Rightarrow> usize" where
  "num_promised ls = length (filter is_promised (promises_meta ls))"

definition set_promise ::
  "('t, 'c, 'p) promise \<Rightarrow> node_id \<Rightarrow> bool \<Rightarrow> ('t, 'c, 'p) leader_state \<Rightarrow>
     (bool \<times> ('t, 'c, 'p) leader_state) option" where
  "set_promise prom from check_max_prom ls = (
     let promise_meta = \<lparr>pmd_n_accepted = prom_n_accepted prom,
                         pmd_accepted_idx = prom_accepted_idx prom,
                         pmd_decided_idx = prom_decided_idx prom,
                         pmd_pid = from\<rparr>;
         ls1 = (if check_max_prom \<and> promise_meta_gt promise_meta (max_promise_meta ls)
                then ls\<lparr>max_promise_meta := promise_meta, max_promise_sync := prom_log_sync prom\<rparr>
                else ls)
     in do {
       idx \<leftarrow> pid_to_idx from;
       v \<leftarrow> vec_set (promises_meta ls1) idx (Promised promise_meta);
       let ls2 = ls1\<lparr>promises_meta := v\<rparr>;
       Some (is_prepare_quorum (ls_quorum ls2) (num_promised ls2), ls2)
     })"

definition set_promise_state ::
  "promise_state \<Rightarrow> node_id \<Rightarrow> ('t, 'c, 'p) leader_state \<Rightarrow> ('t, 'c, 'p) leader_state option" where
  "set_promise_state st pid ls = do {
     idx \<leftarrow> pid_to_idx pid;
     v \<leftarrow> vec_set (promises_meta ls) idx st;
     Some (ls\<lparr>promises_meta := v\<rparr>)
   }"

definition reset_promise :: "node_id \<Rightarrow> ('t, 'c, 'p) leader_state \<Rightarrow> ('t, 'c, 'p) leader_state option" where
  "reset_promise = set_promise_state NotPromised"

definition lost_promise :: "node_id \<Rightarrow> ('t, 'c, 'p) leader_state \<Rightarrow> ('t, 'c, 'p) leader_state option" where
  "lost_promise = set_promise_state PromisedHigher"

definition take_max_promise_sync ::
  "('t, 'c, 'p) leader_state \<Rightarrow> ('t, 'c, 'p) log_sync option \<times> ('t, 'c, 'p) leader_state" where
  "take_max_promise_sync ls = (max_promise_sync ls, ls\<lparr>max_promise_sync := None\<rparr>)"

definition get_max_promise_meta :: "('t, 'c, 'p) leader_state \<Rightarrow> promise_meta_data" where
  "get_max_promise_meta ls = max_promise_meta ls"

fun promised_decided_idx :: "promise_state \<Rightarrow> usize option" where
  "promised_decided_idx (Promised m) = Some (pmd_decided_idx m)"
| "promised_decided_idx NotPromised = None"
| "promised_decided_idx PromisedHigher = None"

definition get_max_decided_idx :: "('t, 'c, 'p) leader_state \<Rightarrow> usize" where
  "get_max_decided_idx ls =
     (case max_last id (List.map_filter promised_decided_idx (promises_meta ls)) of
        Some i \<Rightarrow> i
      | None \<Rightarrow> 0)"

definition get_promise_meta :: "node_id \<Rightarrow> ('t, 'c, 'p) leader_state \<Rightarrow> promise_meta_data option" where
  "get_promise_meta pid ls = do {
     idx \<leftarrow> pid_to_idx pid;
     st \<leftarrow> vec_get (promises_meta ls) idx;
     (case st of Promised metadata \<Rightarrow> Some metadata | _ \<Rightarrow> None)
   }"

definition get_min_all_accepted_idx :: "('t, 'c, 'p) leader_state \<Rightarrow> usize option" where
  "get_min_all_accepted_idx ls =
     (if accepted_indexes ls = [] then None else Some (Min (set (accepted_indexes ls))))"

definition reset_latest_accept_meta :: "('t, 'c, 'p) leader_state \<Rightarrow> ('t, 'c, 'p) leader_state" where
  "reset_latest_accept_meta ls = ls\<lparr>latest_accept_meta := replicate (max_pid ls) None\<rparr>"

text \<open>
  The iteration of \<^verbatim>\<open>get_promised_followers\<close>: the leader's own index is computed in the match guard,
  for the promised entries only.
\<close>

fun promised_followers_from :: "usize \<Rightarrow> node_id \<Rightarrow> promise_state list \<Rightarrow> node_id list option" where
  "promised_followers_from idx leader_pid [] = Some []"
| "promised_followers_from idx leader_pid (x # xs) =
     (case x of
        Promised m \<Rightarrow> do {
          leader_idx \<leftarrow> pid_to_idx leader_pid;
          rest \<leftarrow> promised_followers_from (idx + 1) leader_pid xs;
          Some (if idx \<noteq> leader_idx then (idx + 1) # rest else rest)
        }
      | _ \<Rightarrow> promised_followers_from (idx + 1) leader_pid xs)"

definition get_promised_followers :: "('t, 'c, 'p) leader_state \<Rightarrow> node_id list option" where
  "get_promised_followers ls = promised_followers_from 0 (b_pid (n_leader ls)) (promises_meta ls)"

fun get_preparable_peers :: "node_id list \<Rightarrow> ('t, 'c, 'p) leader_state \<Rightarrow> node_id list option" where
  "get_preparable_peers [] ls = Some []"
| "get_preparable_peers (pid # peers) ls = do {
     idx \<leftarrow> pid_to_idx pid;
     st \<leftarrow> vec_get (promises_meta ls) idx;
     rest \<leftarrow> get_preparable_peers peers ls;
     Some (case st of NotPromised \<Rightarrow> pid # rest | _ \<Rightarrow> rest)
   }"

definition set_latest_accept_meta ::
  "node_id \<Rightarrow> usize option \<Rightarrow> ('t, 'c, 'p) leader_state \<Rightarrow> ('t, 'c, 'p) leader_state option" where
  "set_latest_accept_meta pid idx ls = do {
     let meta = map_option (\<lambda>x. (n_leader ls, x)) idx;
     i \<leftarrow> pid_to_idx pid;
     v \<leftarrow> vec_set (latest_accept_meta ls) i meta;
     Some (ls\<lparr>latest_accept_meta := v\<rparr>)
   }"

definition set_accepted_idx ::
  "node_id \<Rightarrow> usize \<Rightarrow> ('t, 'c, 'p) leader_state \<Rightarrow> ('t, 'c, 'p) leader_state option" where
  "set_accepted_idx pid idx ls = do {
     i \<leftarrow> pid_to_idx pid;
     v \<leftarrow> vec_set (accepted_indexes ls) i idx;
     Some (ls\<lparr>accepted_indexes := v\<rparr>)
   }"

definition get_latest_accept_meta ::
  "node_id \<Rightarrow> ('t, 'c, 'p) leader_state \<Rightarrow> (ballot \<times> usize) option option" where
  "get_latest_accept_meta pid ls = do {
     i \<leftarrow> pid_to_idx pid;
     vec_get (latest_accept_meta ls) i
   }"

definition get_follower_decided_idx :: "node_id \<Rightarrow> ('t, 'c, 'p) leader_state \<Rightarrow> usize option option" where
  "get_follower_decided_idx pid ls = do {
     i \<leftarrow> pid_to_idx pid;
     st \<leftarrow> vec_get (promises_meta ls) i;
     Some (promised_decided_idx st)
   }"

definition get_follower_accepted_idx :: "node_id \<Rightarrow> ('t, 'c, 'p) leader_state \<Rightarrow> usize option" where
  "get_follower_accepted_idx pid ls = do {
     i \<leftarrow> pid_to_idx pid;
     vec_get (accepted_indexes ls) i
   }"

definition is_chosen :: "usize \<Rightarrow> ('t, 'c, 'p) leader_state \<Rightarrow> bool" where
  "is_chosen idx ls =
     is_accept_quorum (ls_quorum ls) (length (filter (\<lambda>la. la \<ge> idx) (accepted_indexes ls)))"

lemmas leader_state_defs =
  pid_to_idx_def increment_seq_num_session_def next_seq_num_def get_seq_num_def set_promise_def
  set_promise_state_def reset_promise_def lost_promise_def take_max_promise_sync_def
  get_promise_meta_def reset_latest_accept_meta_def set_latest_accept_meta_def
  set_accepted_idx_def get_latest_accept_meta_def get_follower_decided_idx_def
  get_follower_accepted_idx_def

end
