(* ===== verification/Internal_Storage.thy ===== *)
theory Internal_Storage
  imports Messages
begin

text \<open>
  The layer between the protocol and a storage back-end: the cache of scalar state and batched
  entries (\<^verbatim>\<open>omnipaxos/src/storage/state_cache.rs\<close>) and the operations of
  \<^verbatim>\<open>omnipaxos/src/storage/internal_storage.rs\<close>, for any back-end \<open>S\<close> and snapshot type \<open>P\<close>, with the
  default crate features (no \<^verbatim>\<open>unicache\<close>).
\<close>

section \<open>The state cache\<close>

record ('t, 'c) state_cache =
  c_batch_size :: usize
  c_batched_entries :: "'t list"
  c_promise :: ballot
  c_accepted_round :: ballot
  c_decided_idx :: usize
  c_accepted_idx :: usize
  c_compacted_idx :: usize
  c_stopsign :: "'c stop_sign option"

definition state_cache_new :: "usize \<Rightarrow> ('t, 'c) state_cache" where
  "state_cache_new batch_size = \<lparr>
     c_batch_size = batch_size,
     c_batched_entries = [],
     c_promise = ballot_default,
     c_accepted_round = ballot_default,
     c_decided_idx = 0,
     c_accepted_idx = 0,
     c_compacted_idx = 0,
     c_stopsign = None\<rparr>"

definition take_batched_entries :: "('t, 'c) state_cache \<Rightarrow> 't list \<times> ('t, 'c) state_cache" where
  "take_batched_entries c = (c_batched_entries c, c\<lparr>c_batched_entries := []\<rparr>)"

definition take_entries_if_batch_is_full ::
  "('t, 'c) state_cache \<Rightarrow> 't list option \<times> ('t, 'c) state_cache" where
  "take_entries_if_batch_is_full c =
     (if length (c_batched_entries c) \<ge> c_batch_size c
      then (let (es, c1) = take_batched_entries c in (Some es, c1))
      else (None, c))"

definition cache_append_entry :: "'t \<Rightarrow> ('t, 'c) state_cache \<Rightarrow> 't list option \<times> ('t, 'c) state_cache" where
  "cache_append_entry entry c =
     take_entries_if_batch_is_full (c\<lparr>c_batched_entries := c_batched_entries c @ [entry]\<rparr>)"

definition cache_append_entries ::
  "'t list \<Rightarrow> ('t, 'c) state_cache \<Rightarrow> 't list option \<times> ('t, 'c) state_cache" where
  "cache_append_entries entries c =
     take_entries_if_batch_is_full (c\<lparr>c_batched_entries := c_batched_entries c @ entries\<rparr>)"

definition cache_append_stopsign ::
  "'c stop_sign \<Rightarrow> ('t, 'c) state_cache \<Rightarrow> 't list option \<times> ('t, 'c) state_cache" where
  "cache_append_stopsign ss c =
     (let c1 = c\<lparr>c_stopsign := Some ss\<rparr> in
      if c_batched_entries c1 = [] then (None, c1)
      else (let (es, c2) = take_batched_entries c1 in (Some es, c2)))"

definition cache_stopsign_is_decided :: "('t, 'c) state_cache \<Rightarrow> bool" where
  "cache_stopsign_is_decided c \<longleftrightarrow> c_stopsign c \<noteq> None \<and> c_decided_idx c = c_accepted_idx c"

section \<open>The internal storage\<close>

record ('s, 't, 'c) internal_storage =
  is_storage :: 's
  is_cache :: "('t, 'c) state_cache"

record 't accepted_meta_data =
  am_accepted_idx :: usize
  am_entries :: "'t list"

text \<open>A call on the back-end, seen from the internal storage.\<close>

definition on_storage ::
  "('s \<Rightarrow> ('r \<times> 's) option) \<Rightarrow> ('s, 't, 'c) internal_storage \<Rightarrow>
     ('r \<times> ('s, 't, 'c) internal_storage) option" where
  "on_storage f st = map_option (\<lambda>(r, s). (r, st\<lparr>is_storage := s\<rparr>)) (f (is_storage st))"

abbreviation upd_cache ::
  "(('t, 'c) state_cache \<Rightarrow> ('t, 'c) state_cache) \<Rightarrow> ('s, 't, 'c) internal_storage \<Rightarrow>
     ('s, 't, 'c) internal_storage" where
  "upd_cache f st \<equiv> st\<lparr>is_cache := f (is_cache st)\<rparr>"

definition load_cache ::
  "('s, 't, 'c, 'p) storage_impl \<Rightarrow> ('s, 't, 'c) internal_storage \<Rightarrow>
     ('s, 't, 'c) internal_storage option" where
  "load_cache S st = do {
     promise \<leftarrow> expect_get (st_get_promise S (is_storage st));
     decided \<leftarrow> expect_get (st_get_decided_idx S (is_storage st));
     round \<leftarrow> expect_get (st_get_accepted_round S (is_storage st));
     compacted \<leftarrow> expect_get (st_get_compacted_idx S (is_storage st));
     ss \<leftarrow> expect_get (st_get_stopsign S (is_storage st));
     len \<leftarrow> expect_get (st_get_log_len S (is_storage st));
     Some (upd_cache (\<lambda>c. c\<lparr>
       c_promise := (case promise of None \<Rightarrow> ballot_default | Some b \<Rightarrow> b),
       c_decided_idx := decided,
       c_accepted_round := (case round of None \<Rightarrow> ballot_default | Some b \<Rightarrow> b),
       c_compacted_idx := compacted,
       c_stopsign := ss,
       c_accepted_idx := (if ss \<noteq> None then len + compacted + 1 else len + compacted)\<rparr>) st)
   }"

definition internal_storage_with ::
  "('s, 't, 'c, 'p) storage_impl \<Rightarrow> 's \<Rightarrow> usize \<Rightarrow> ('s, 't, 'c) internal_storage option" where
  "internal_storage_with S storage batch_size =
     load_cache S \<lparr>is_storage = storage, is_cache = state_cache_new batch_size\<rparr>"

subsection \<open>Accessors\<close>

definition is_get_decided_idx :: "('s, 't, 'c) internal_storage \<Rightarrow> usize" where
  "is_get_decided_idx st = c_decided_idx (is_cache st)"

definition is_get_accepted_round :: "('s, 't, 'c) internal_storage \<Rightarrow> ballot" where
  "is_get_accepted_round st = c_accepted_round (is_cache st)"

definition is_get_accepted_idx :: "('s, 't, 'c) internal_storage \<Rightarrow> usize" where
  "is_get_accepted_idx st = c_accepted_idx (is_cache st)"

definition is_get_promise :: "('s, 't, 'c) internal_storage \<Rightarrow> ballot" where
  "is_get_promise st = c_promise (is_cache st)"

definition is_get_compacted_idx :: "('s, 't, 'c) internal_storage \<Rightarrow> usize" where
  "is_get_compacted_idx st = c_compacted_idx (is_cache st)"

definition is_get_stopsign :: "('s, 't, 'c) internal_storage \<Rightarrow> 'c stop_sign option" where
  "is_get_stopsign st = c_stopsign (is_cache st)"

definition is_stopsign_is_decided :: "('s, 't, 'c) internal_storage \<Rightarrow> bool" where
  "is_stopsign_is_decided st = cache_stopsign_is_decided (is_cache st)"

definition is_get_entries ::
  "('s, 't, 'c, 'p) storage_impl \<Rightarrow> usize \<Rightarrow> usize \<Rightarrow> ('s, 't, 'c) internal_storage \<Rightarrow>
     't list storage_result option" where
  "is_get_entries S from to st = st_get_entries S from to (is_storage st)"

definition is_get_suffix ::
  "('s, 't, 'c, 'p) storage_impl \<Rightarrow> usize \<Rightarrow> ('s, 't, 'c) internal_storage \<Rightarrow>
     't list storage_result option" where
  "is_get_suffix S from st = st_get_suffix S from (is_storage st)"

definition is_get_snapshot ::
  "('s, 't, 'c, 'p) storage_impl \<Rightarrow> ('s, 't, 'c) internal_storage \<Rightarrow> 'p option storage_result option" where
  "is_get_snapshot S st = st_get_snapshot S (is_storage st)"

definition get_decided_idx_without_stopsign :: "('s, 't, 'c) internal_storage \<Rightarrow> usize option" where
  "get_decided_idx_without_stopsign st =
     (if is_stopsign_is_decided st then checked_sub (is_get_decided_idx st) 1
      else Some (is_get_decided_idx st))"

lemmas is_get_defs =
  is_get_decided_idx_def is_get_accepted_round_def is_get_accepted_idx_def is_get_promise_def
  is_get_compacted_idx_def is_get_stopsign_def is_stopsign_is_decided_def
  cache_stopsign_is_decided_def

subsection \<open>Reading the log\<close>

datatype ('t, 'c, 'p) log_entry =
    Decided 't
  | Undecided 't
  | Trimmed usize
  | Snapshotted usize 'p
  | StopSignEntry "'c stop_sign" bool

datatype 'c index_entry = EntryAt | CompactedAt | StopSignAt "'c stop_sign"

datatype bound = Included usize | Excluded usize | Unbounded

definition get_entry_type ::
  "usize \<Rightarrow> usize \<Rightarrow> usize \<Rightarrow> ('s, 't, 'c) internal_storage \<Rightarrow> 'c index_entry option" where
  "get_entry_type idx compacted_idx accepted_idx st =
     (if idx < compacted_idx then Some CompactedAt
      else if idx + 1 < accepted_idx then Some EntryAt
      else if idx + 1 = accepted_idx
      then (case is_get_stopsign st of Some ss \<Rightarrow> Some (StopSignAt ss) | None \<Rightarrow> Some EntryAt)
      else None)"

definition create_read_log_entries ::
  "('s, 't, 'c, 'p) storage_impl \<Rightarrow> usize \<Rightarrow> usize \<Rightarrow> ('s, 't, 'c) internal_storage \<Rightarrow>
     ('t, 'c, 'p) log_entry list storage_result option" where
  "create_read_log_entries S from to st =
     (let decided_idx = is_get_decided_idx st in
      try_get (is_get_entries S from to st) (\<lambda>entries.
        Some (Inr (map (\<lambda>(idx, e). let log_idx = idx + from in
                          if log_idx < decided_idx then Decided e else Undecided e)
                   (zip [0..<length entries] entries)))))"

definition create_compacted_entry ::
  "('s, 't, 'c, 'p) storage_impl \<Rightarrow> usize \<Rightarrow> ('s, 't, 'c) internal_storage \<Rightarrow>
     ('t, 'c, 'p) log_entry storage_result option" where
  "create_compacted_entry S compacted_idx st =
     try_get (st_get_snapshot S (is_storage st)) (\<lambda>snap.
       Some (Inr (case snap of Some s \<Rightarrow> Snapshotted compacted_idx s | None \<Rightarrow> Trimmed compacted_idx)))"

definition read_range ::
  "('s, 't, 'c, 'p) storage_impl \<Rightarrow> bound \<Rightarrow> bound \<Rightarrow> ('s, 't, 'c) internal_storage \<Rightarrow>
     ('t, 'c, 'p) log_entry list option storage_result option" where
  "read_range S start_bound end_bound st = (
     let from_idx = (case start_bound of Included i \<Rightarrow> i | Excluded e \<Rightarrow> e + 1 | Unbounded \<Rightarrow> 0);
         to_idx = (case end_bound of
           Included i \<Rightarrow> i + 1 | Excluded e \<Rightarrow> e | Unbounded \<Rightarrow> is_get_accepted_idx st)
     in if to_idx = 0 then Some (Inr None)
     else let compacted_idx = is_get_compacted_idx st;
              accepted_idx = is_get_accepted_idx st
     in (case get_entry_type (to_idx - 1) compacted_idx accepted_idx st of
       None \<Rightarrow> Some (Inr None)
     | Some CompactedAt \<Rightarrow>
         try_get (create_compacted_entry S compacted_idx st) (\<lambda>e. Some (Inr (Some [e])))
     | Some to_type \<Rightarrow> (case get_entry_type from_idx compacted_idx accepted_idx st of
         None \<Rightarrow> Some (Inr None)
       | Some from_type \<Rightarrow> (case (from_type, to_type) of
           (EntryAt, EntryAt) \<Rightarrow>
             try_get (create_read_log_entries S from_idx to_idx st) (\<lambda>es. Some (Inr (Some es)))
         | (EntryAt, StopSignAt ss) \<Rightarrow>
             try_get (create_read_log_entries S from_idx (to_idx - 1) st) (\<lambda>es.
               Some (Inr (Some (es @ [StopSignEntry ss (is_stopsign_is_decided st)]))))
         | (CompactedAt, EntryAt) \<Rightarrow>
             do { _ \<leftarrow> checked_sub to_idx compacted_idx;
                  try_get (create_compacted_entry S compacted_idx st) (\<lambda>compacted.
                  try_get (create_read_log_entries S compacted_idx to_idx st) (\<lambda>es.
                    Some (Inr (Some (compacted # es))))) }
         | (CompactedAt, StopSignAt ss) \<Rightarrow>
             do { _ \<leftarrow> checked_sub to_idx compacted_idx;
                  try_get (create_compacted_entry S compacted_idx st) (\<lambda>compacted.
                  try_get (create_read_log_entries S compacted_idx (to_idx - 1) st) (\<lambda>es.
                    Some (Inr (Some (compacted # es @ [StopSignEntry ss (is_stopsign_is_decided st)]))))) }
         | (StopSignAt ss, StopSignAt _) \<Rightarrow>
             Some (Inr (Some [StopSignEntry ss (is_stopsign_is_decided st)]))
         | _ \<Rightarrow> None))))"

definition is_read_decided_suffix ::
  "('s, 't, 'c, 'p) storage_impl \<Rightarrow> usize \<Rightarrow> ('s, 't, 'c) internal_storage \<Rightarrow>
     ('t, 'c, 'p) log_entry list option storage_result option" where
  "is_read_decided_suffix S from_idx st =
     (let decided_idx = is_get_decided_idx st in
      if from_idx < decided_idx then read_range S (Included from_idx) (Excluded decided_idx) st
      else Some (Inr None))"

subsection \<open>Appending\<close>

definition append_entries_without_batching ::
  "('s, 't, 'c, 'p) storage_impl \<Rightarrow> 't list \<Rightarrow> ('s, 't, 'c) internal_storage \<Rightarrow>
     (usize storage_result \<times> ('s, 't, 'c) internal_storage) option" where
  "append_entries_without_batching S entries st =
     (let num_new_entries = length entries in
      try_op (on_storage (st_append_entries S entries) st) (\<lambda>_ st1.
        let st2 = upd_cache (\<lambda>c. c\<lparr>c_accepted_idx := c_accepted_idx c + num_new_entries\<rparr>) st1 in
        Some (Inr (is_get_accepted_idx st2), st2)))"

definition flush_if_full_batch ::
  "('s, 't, 'c, 'p) storage_impl \<Rightarrow> 't list option \<Rightarrow> ('s, 't, 'c) internal_storage \<Rightarrow>
     ('t accepted_meta_data option storage_result \<times> ('s, 't, 'c) internal_storage) option" where
  "flush_if_full_batch S append_res st =
     (case append_res of
        Some flushed_entries \<Rightarrow>
          try_op (append_entries_without_batching S flushed_entries st) (\<lambda>accepted_idx st1.
            Some (Inr (Some \<lparr>am_accepted_idx = accepted_idx, am_entries = flushed_entries\<rparr>), st1))
      | None \<Rightarrow> Some (Inr None, st))"

definition append_entry_with_batching ::
  "('s, 't, 'c, 'p) storage_impl \<Rightarrow> 't \<Rightarrow> ('s, 't, 'c) internal_storage \<Rightarrow>
     ('t accepted_meta_data option storage_result \<times> ('s, 't, 'c) internal_storage) option" where
  "append_entry_with_batching S entry st =
     (let (append_res, c) = cache_append_entry entry (is_cache st) in
      flush_if_full_batch S append_res (st\<lparr>is_cache := c\<rparr>))"

definition append_entries_with_batching ::
  "('s, 't, 'c, 'p) storage_impl \<Rightarrow> 't list \<Rightarrow> ('s, 't, 'c) internal_storage \<Rightarrow>
     ('t accepted_meta_data option storage_result \<times> ('s, 't, 'c) internal_storage) option" where
  "append_entries_with_batching S entries st =
     (let (append_res, c) = cache_append_entries entries (is_cache st) in
      flush_if_full_batch S append_res (st\<lparr>is_cache := c\<rparr>))"

definition is_append_stopsign ::
  "('s, 't, 'c, 'p) storage_impl \<Rightarrow> 'c stop_sign \<Rightarrow> ('s, 't, 'c) internal_storage \<Rightarrow>
     ('t accepted_meta_data option storage_result \<times> ('s, 't, 'c) internal_storage) option" where
  "is_append_stopsign S ss st =
     (let (append_res, c) = cache_append_stopsign ss (is_cache st) in
      try_op (flush_if_full_batch S append_res (st\<lparr>is_cache := c\<rparr>)) (\<lambda>accepted_entries_metadata st1.
      try_op (on_storage (st_set_stopsign S (Some ss)) st1) (\<lambda>_ st2.
        Some (Inr accepted_entries_metadata,
              upd_cache (\<lambda>c. c\<lparr>c_accepted_idx := c_accepted_idx c + 1\<rparr>) st2))))"

definition append_entries_and_get_accepted_idx ::
  "('s, 't, 'c, 'p) storage_impl \<Rightarrow> 't list \<Rightarrow> ('s, 't, 'c) internal_storage \<Rightarrow>
     (usize option storage_result \<times> ('s, 't, 'c) internal_storage) option" where
  "append_entries_and_get_accepted_idx S entries st =
     (let (append_res, c) = cache_append_entries entries (is_cache st);
          st1 = st\<lparr>is_cache := c\<rparr> in
      case append_res of
        Some flushed_entries \<Rightarrow>
          try_op (append_entries_without_batching S flushed_entries st1) (\<lambda>accepted_idx st2.
            Some (Inr (Some accepted_idx), st2))
      | None \<Rightarrow> Some (Inr None, st1))"

definition flush_batch ::
  "('s, 't, 'c, 'p) storage_impl \<Rightarrow> ('s, 't, 'c) internal_storage \<Rightarrow>
     (usize storage_result \<times> ('s, 't, 'c) internal_storage) option" where
  "flush_batch S st =
     (let (flushed_entries, c) = take_batched_entries (is_cache st) in
      append_entries_without_batching S flushed_entries (st\<lparr>is_cache := c\<rparr>))"

definition flush_batch_and_get_entries ::
  "('s, 't, 'c, 'p) storage_impl \<Rightarrow> ('s, 't, 'c) internal_storage \<Rightarrow>
     ('t accepted_meta_data option storage_result \<times> ('s, 't, 'c) internal_storage) option" where
  "flush_batch_and_get_entries S st =
     (let (flushed_entries, c) =
            (if c_batched_entries (is_cache st) \<noteq> []
             then (let (es, c1) = take_batched_entries (is_cache st) in (Some es, c1))
             else (None, is_cache st)) in
      flush_if_full_batch S flushed_entries (st\<lparr>is_cache := c\<rparr>))"

subsection \<open>Snapshots and compaction\<close>

definition create_snapshot ::
  "('s, 't, 'c, 'p) storage_impl \<Rightarrow> ('t, 'p) snapshot_impl \<Rightarrow> usize \<Rightarrow> ('s, 't, 'c) internal_storage \<Rightarrow>
     'p storage_result option" where
  "create_snapshot S P compact_idx st =
     (let current_compacted_idx = is_get_compacted_idx st in
      if compact_idx < current_compacted_idx
      then Some (Inl (CompactionError (TrimmedIndex current_compacted_idx)))
      else try_get (st_get_entries S current_compacted_idx compact_idx (is_storage st)) (\<lambda>entries.
        do { delta \<leftarrow> snap_create P entries;
             try_get (st_get_snapshot S (is_storage st)) (\<lambda>snap.
               case snap of
                 Some s \<Rightarrow> do { m \<leftarrow> snap_merge P s delta; Some (Inr m) }
               | None \<Rightarrow> Some (Inr delta)) }))"

definition create_decided_snapshot ::
  "('s, 't, 'c, 'p) storage_impl \<Rightarrow> ('t, 'p) snapshot_impl \<Rightarrow> ('s, 't, 'c) internal_storage \<Rightarrow>
     'p storage_result option" where
  "create_decided_snapshot S P st = do {
     log_decided_idx \<leftarrow> get_decided_idx_without_stopsign st;
     create_snapshot S P log_decided_idx st
   }"

definition create_diff_snapshot ::
  "('s, 't, 'c, 'p) storage_impl \<Rightarrow> ('t, 'p) snapshot_impl \<Rightarrow> usize \<Rightarrow> ('s, 't, 'c) internal_storage \<Rightarrow>
     ('p snapshot_type option \<times> usize) storage_result option" where
  "create_diff_snapshot S P from_idx st = do {
     log_decided_idx \<leftarrow> get_decided_idx_without_stopsign st;
     let compacted_idx = is_get_compacted_idx st;
     (if from_idx \<le> compacted_idx then
        (if compacted_idx < log_decided_idx then
           try_get (create_snapshot S P log_decided_idx st) (\<lambda>s.
             Some (Inr (Some (Complete s), log_decided_idx)))
         else
           try_get (is_get_snapshot S st) (\<lambda>snap.
             Some (Inr (map_option Complete snap, log_decided_idx))))
      else
        try_get (is_get_entries S from_idx log_decided_idx st) (\<lambda>diff_entries. do {
          d \<leftarrow> snap_create P diff_entries;
          Some (Inr (Some (Delta d), log_decided_idx))
        }))
   }"

definition try_trim ::
  "('s, 't, 'c, 'p) storage_impl \<Rightarrow> usize \<Rightarrow> ('s, 't, 'c) internal_storage \<Rightarrow>
     (unit storage_result \<times> ('s, 't, 'c) internal_storage) option" where
  "try_trim S idx st = do {
     let decided_idx = is_get_decided_idx st;
     log_decided_idx \<leftarrow> get_decided_idx_without_stopsign st;
     (case cmp idx decided_idx of
        Greater \<Rightarrow> Some (Inl (CompactionError (UndecidedIndex decided_idx)), st)
      | ord \<Rightarrow>
          let new_compacted_idx = (if ord = Less then idx else log_decided_idx) in
          if new_compacted_idx > is_get_compacted_idx st then
            try_op (on_storage (st_write_atomically S
                [Trim new_compacted_idx, SetCompactedIdx new_compacted_idx]) st) (\<lambda>_ st1.
              Some (Inr (), upd_cache (\<lambda>c. c\<lparr>c_compacted_idx := new_compacted_idx\<rparr>) st1))
          else Some (Inr (), st))
   }"

definition try_snapshot ::
  "('s, 't, 'c, 'p) storage_impl \<Rightarrow> ('t, 'p) snapshot_impl \<Rightarrow> usize option \<Rightarrow>
     ('s, 't, 'c) internal_storage \<Rightarrow> (unit storage_result \<times> ('s, 't, 'c) internal_storage) option" where
  "try_snapshot S P snapshot_idx st = do {
     let decided_idx = is_get_decided_idx st;
     log_decided_idx \<leftarrow> get_decided_idx_without_stopsign st;
     let new_idx = (case snapshot_idx of
         Some i \<Rightarrow> (case cmp i decided_idx of
             Less \<Rightarrow> Inr i
           | Equal \<Rightarrow> Inr log_decided_idx
           | Greater \<Rightarrow> Inl (CompactionError (UndecidedIndex decided_idx)))
       | None \<Rightarrow> Inr log_decided_idx);
     (case new_idx of
        Inl e \<Rightarrow> Some (Inl e, st)
      | Inr new_compacted_idx \<Rightarrow>
          if new_compacted_idx > is_get_compacted_idx st then do {
            snap \<leftarrow> create_snapshot S P new_compacted_idx st;
            (case snap of
               Inl e \<Rightarrow> Some (Inl e, st)
             | Inr s \<Rightarrow>
                 try_op (on_storage (st_write_atomically S
                     [Trim new_compacted_idx, SetCompactedIdx new_compacted_idx, SetSnapshot (Some s)]) st)
                   (\<lambda>_ st1. Some (Inr (), upd_cache (\<lambda>c. c\<lparr>c_compacted_idx := new_compacted_idx\<rparr>) st1)))
          }
          else Some (Inr (), st))
   }"

subsection \<open>Synchronising the log\<close>

text \<open>
  The snapshot part of \<^verbatim>\<open>sync_log\<close>: the operations it adds to the transaction, and the cache. The
  decided index of the cache is already the new one when \<^verbatim>\<open>create_decided_snapshot\<close> runs.
\<close>

definition sync_snapshot ::
  "('s, 't, 'c, 'p) storage_impl \<Rightarrow> ('t, 'p) snapshot_impl \<Rightarrow> ('t, 'c, 'p) log_sync \<Rightarrow>
     ('s, 't, 'c) internal_storage \<Rightarrow>
     (('t, 'c, 'p) storage_op list storage_result \<times> ('s, 't, 'c) internal_storage) option" where
  "sync_snapshot S P sync st =
     (let i = sync_idx sync in
      case decided_snapshot sync of
        Some (Complete c) \<Rightarrow>
          Some (Inr [Trim i, SetCompactedIdx i, SetSnapshot (Some c)],
                upd_cache (\<lambda>ca. ca\<lparr>c_compacted_idx := i\<rparr>) st)
      | Some (Delta d) \<Rightarrow> do {
          snap \<leftarrow> create_decided_snapshot S P st;
          (case snap of
             Inl e \<Rightarrow> Some (Inl e, st)
           | Inr s \<Rightarrow> do {
               snapshot \<leftarrow> snap_merge P s d;
               Some (Inr [Trim i, SetCompactedIdx i, SetSnapshot (Some snapshot)],
                     upd_cache (\<lambda>ca. ca\<lparr>c_compacted_idx := i\<rparr>) st)
             })
        }
      | None \<Rightarrow> Some (Inr [], st))"

text \<open>The stop-sign part.\<close>

definition sync_stopsign_ops ::
  "'c stop_sign option \<Rightarrow> ('s, 't, 'c) internal_storage \<Rightarrow>
     ('t, 'c, 'p) storage_op list \<times> ('s, 't, 'c) internal_storage" where
  "sync_stopsign_ops sync_ss st =
     (case sync_ss of
        Some ss \<Rightarrow> ([SetStopsign (Some ss)],
            upd_cache (\<lambda>c. c\<lparr>c_stopsign := Some ss, c_accepted_idx := c_accepted_idx c + 1\<rparr>) st)
      | None \<Rightarrow>
          if c_stopsign (is_cache st) \<noteq> None
          then ([SetStopsign None], upd_cache (\<lambda>c. c\<lparr>c_stopsign := None\<rparr>) st)
          else ([], st))"

definition sync_log ::
  "('s, 't, 'c, 'p) storage_impl \<Rightarrow> ('t, 'p) snapshot_impl \<Rightarrow> ballot \<Rightarrow> usize \<Rightarrow>
     ('t, 'c, 'p) log_sync option \<Rightarrow> ('s, 't, 'c) internal_storage \<Rightarrow>
     (usize storage_result \<times> ('s, 't, 'c) internal_storage) option" where
  "sync_log S P accepted_round decided_idx log_sync st = (
     let st1 = upd_cache (\<lambda>c. c\<lparr>c_accepted_round := accepted_round, c_decided_idx := decided_idx\<rparr>) st;
         txn = [SetAcceptedRound accepted_round, SetDecidedIndex decided_idx]
     in try_op
       (case log_sync of
          None \<Rightarrow> Some (Inr txn, st1)
        | Some sync \<Rightarrow> try_op (sync_snapshot S P sync st1) (\<lambda>snap_ops st2.
            let st3 = upd_cache (\<lambda>c. c\<lparr>c_accepted_idx := sync_idx sync + length (sync_suffix sync)\<rparr>) st2;
                (ss_ops, st4) = sync_stopsign_ops (sync_stopsign sync) st3
            in Some (Inr (txn @ snap_ops @ [AppendOnPrefix (sync_idx sync) (sync_suffix sync)] @ ss_ops), st4)))
       (\<lambda>sync_txn st5.
          try_op (on_storage (st_write_atomically S sync_txn) st5) (\<lambda>_ st6.
            Some (Inr (is_get_accepted_idx st6), st6))))"

subsection \<open>Setters\<close>

definition is_set_promise ::
  "('s, 't, 'c, 'p) storage_impl \<Rightarrow> ballot \<Rightarrow> ('s, 't, 'c) internal_storage \<Rightarrow>
     (unit storage_result \<times> ('s, 't, 'c) internal_storage) option" where
  "is_set_promise S n_prom st =
     on_storage (st_set_promise S n_prom) (upd_cache (\<lambda>c. c\<lparr>c_promise := n_prom\<rparr>) st)"

definition is_set_decided_idx ::
  "('s, 't, 'c, 'p) storage_impl \<Rightarrow> usize \<Rightarrow> ('s, 't, 'c) internal_storage \<Rightarrow>
     (unit storage_result \<times> ('s, 't, 'c) internal_storage) option" where
  "is_set_decided_idx S idx st =
     on_storage (st_set_decided_idx S idx) (upd_cache (\<lambda>c. c\<lparr>c_decided_idx := idx\<rparr>) st)"

definition is_set_stopsign ::
  "('s, 't, 'c, 'p) storage_impl \<Rightarrow> 'c stop_sign option \<Rightarrow> ('s, 't, 'c) internal_storage \<Rightarrow>
     (usize storage_result \<times> ('s, 't, 'c) internal_storage) option" where
  "is_set_stopsign S ss st = do {
     let c = is_cache st;
     acc \<leftarrow> (if ss \<noteq> None \<and> c_stopsign c = None then Some (c_accepted_idx c + 1)
             else if ss = None \<and> c_stopsign c \<noteq> None then checked_sub (c_accepted_idx c) 1
             else Some (c_accepted_idx c));
     try_op (on_storage (st_set_stopsign S ss) (st\<lparr>is_cache := c\<lparr>c_accepted_idx := acc, c_stopsign := ss\<rparr>\<rparr>))
       (\<lambda>_ st1. Some (Inr (is_get_accepted_idx st1), st1))
   }"

end
