(* ===== verification/BLE.thy ===== *)
theory BLE
  imports Messages
begin

text \<open>
  Ballot leader election (\<^verbatim>\<open>BallotLeaderElection\<close> of \<^verbatim>\<open>omnipaxos/src/ballot_leader_election.rs\<close>): the
  heartbeat rounds, the choice of the leader from the replies, the happiness of a node, the takeover
  and the hand-over to the replication component. The round counter and the ballot number are 32-bit
  words with checked increment, so the operations that count are partial.
\<close>

section \<open>Data\<close>

text \<open>The roles and phases of a replica (\<^verbatim>\<open>sequence_paxos/mod.rs\<close>), which the election reads.\<close>

datatype phase = PhasePrepare | PhaseAccept | PhaseRecover | PhaseNone

datatype role = Follower | Leader

definition INITIAL_ROUND :: u32 where "INITIAL_ROUND = 1"
definition RECOVERY_ROUND :: u32 where "RECOVERY_ROUND = 0"

record ballot_leader_election =
  ble_configuration_id :: u32
  ble_pid :: node_id
  ble_peers :: "node_id list"
  hb_round :: u32
  heartbeat_replies :: "heartbeat_reply list"
  prev_replies :: "heartbeat_reply list"
  current_ballot :: ballot
  ble_leader :: ballot
  ble_happy :: bool
  ble_quorum :: quorum
  ble_outgoing :: "ble_message list"

section \<open>Operations\<close>

definition ble_set_priority :: "u32 \<Rightarrow> ballot_leader_election \<Rightarrow> ballot_leader_election" where
  "ble_set_priority p ble = ble\<lparr>current_ballot := (current_ballot ble)\<lparr>b_priority := p\<rparr>\<rparr>"

definition new_hb_round :: "ballot_leader_election \<Rightarrow> ballot_leader_election option" where
  "new_hb_round ble = do {
     round \<leftarrow> checked_inc (hb_round ble);
     Some (ble\<lparr>prev_replies := heartbeat_replies ble, heartbeat_replies := [], hb_round := round,
               ble_outgoing := ble_outgoing ble @
                 map (\<lambda>peer. \<lparr>bm_from = ble_pid ble, bm_to = peer, bm_msg = Request \<lparr>hbq_round = round\<rparr>\<rparr>)
                   (ble_peers ble)\<rparr>)
   }"

definition ble_with :: "ble_config \<Rightarrow> ballot option \<Rightarrow> ballot_leader_election option" where
  "ble_with config recovered_leader = (
     let config_id = blec_configuration_id config;
         pid = blec_pid config;
         peers = blec_peers config;
         num_nodes = length peers + 1;
         quorum = quorum_with (blec_flexible_quorum config) num_nodes;
         ballot0 = ballot_with config_id INITIAL_ROUND (blec_priority config) pid;
         (initial_ballot, initial_leader) =
           (case recovered_leader of
              Some b \<Rightarrow> if b \<noteq> ballot_default then (ballot0\<lparr>b_n := RECOVERY_ROUND\<rparr>, b) else (ballot0, ballot0)
            | None \<Rightarrow> (ballot0, ballot0))
     in new_hb_round \<lparr>
       ble_configuration_id = config_id,
       ble_pid = pid,
       ble_peers = peers,
       hb_round = 0,
       heartbeat_replies = [],
       prev_replies = [],
       current_ballot = initial_ballot,
       ble_leader = initial_leader,
       ble_happy = True,
       ble_quorum = quorum,
       ble_outgoing = []\<rparr>)"

definition update_leader :: "ballot_leader_election \<Rightarrow> ballot_leader_election" where
  "update_leader ble =
     (case max_last ballot_key (map hbr_ballot (heartbeat_replies ble)) of
        Some mx \<Rightarrow> if ballot_lt (ble_leader ble) mx then ble\<lparr>ble_leader := mx\<rparr> else ble
      | None \<Rightarrow> ble)"

definition can_form_quorum :: "role \<times> phase \<Rightarrow> ballot_leader_election \<Rightarrow> bool" where
  "can_form_quorum seq_paxos_state ble = (
     let potential_followers =
           length (filter (\<lambda>r. ballot_le (hbr_leader r) (current_ballot ble)) (heartbeat_replies ble))
     in if seq_paxos_state = (Leader, PhaseAccept)
        then is_accept_quorum (ble_quorum ble) (potential_followers + 1)
        else is_prepare_quorum (ble_quorum ble) (potential_followers + 1))"

definition update_happiness :: "role \<times> phase \<Rightarrow> ballot_leader_election \<Rightarrow> ballot_leader_election" where
  "update_happiness seq_paxos_state ble = ble\<lparr>ble_happy :=
     (if ble_leader ble = current_ballot ble
      then if can_form_quorum seq_paxos_state ble then True
           else list_ex (\<lambda>r. ballot_lt (current_ballot ble) (hbr_leader r) \<and> hbr_happy r) (heartbeat_replies ble)
      else list_ex (\<lambda>r. hbr_ballot r = ble_leader ble \<and> hbr_happy r) (heartbeat_replies ble))\<rparr>"

definition takes_over :: "ballot_leader_election \<Rightarrow> bool" where
  "takes_over ble \<longleftrightarrow>
     \<not> ble_happy ble \<and> list_all (\<lambda>r. \<not> hbr_happy r) (heartbeat_replies ble) \<and>
     is_prepare_quorum (ble_quorum ble) (length (heartbeat_replies ble) + 1)"

definition check_takeover :: "ballot_leader_election \<Rightarrow> ballot_leader_election option" where
  "check_takeover ble =
     (if takes_over ble then do {
        n \<leftarrow> checked_inc (b_n (ble_leader ble));
        let b = (current_ballot ble)\<lparr>b_n := n\<rparr>;
        Some (ble\<lparr>current_ballot := b, ble_leader := b, ble_happy := True\<rparr>)
      }
      else Some ble)"

text \<open>The end of \<^verbatim>\<open>hb_timeout\<close>: the election follows a higher promise of the replica.\<close>

definition adopt_promise :: "ballot \<Rightarrow> ballot_leader_election \<Rightarrow> ballot_leader_election" where
  "adopt_promise seq_paxos_promise ble =
     (if ballot_lt (ble_leader ble) seq_paxos_promise
      then ble\<lparr>ble_leader := seq_paxos_promise,
               current_ballot := (if b_pid seq_paxos_promise = ble_pid ble then seq_paxos_promise
                                  else current_ballot ble),
               ble_happy := True\<rparr>
      else ble)"

definition hb_timeout ::
  "role \<times> phase \<Rightarrow> ballot \<Rightarrow> ballot_leader_election \<Rightarrow> (ballot option \<times> ballot_leader_election) option" where
  "hb_timeout seq_paxos_state seq_paxos_promise ble = do {
     let ble1 = update_happiness seq_paxos_state (update_leader ble);
     ble2 \<leftarrow> check_takeover ble1;
     ble3 \<leftarrow> new_hb_round ble2;
     let ble4 = adopt_promise seq_paxos_promise ble3;
     Some (if ble_leader ble4 = current_ballot ble4 then Some (current_ballot ble4) else None, ble4)
   }"

definition handle_request ::
  "node_id \<Rightarrow> heartbeat_request \<Rightarrow> ballot_leader_election \<Rightarrow> ballot_leader_election" where
  "handle_request from req ble = ble\<lparr>ble_outgoing := ble_outgoing ble @
     [\<lparr>bm_from = ble_pid ble, bm_to = from, bm_msg = Reply
        \<lparr>hbr_round = hbq_round req, hbr_ballot = current_ballot ble, hbr_leader = ble_leader ble,
         hbr_happy = ble_happy ble\<rparr>\<rparr>]\<rparr>"

definition handle_reply :: "heartbeat_reply \<Rightarrow> ballot_leader_election \<Rightarrow> ballot_leader_election" where
  "handle_reply rep ble =
     (if hbr_round rep = hb_round ble \<and> b_config_id (hbr_ballot rep) = ble_configuration_id ble
      then ble\<lparr>heartbeat_replies := heartbeat_replies ble @ [rep]\<rparr> else ble)"

definition ble_handle :: "ble_message \<Rightarrow> ballot_leader_election \<Rightarrow> ballot_leader_election" where
  "ble_handle m ble =
     (case bm_msg m of
        Request req \<Rightarrow> handle_request (bm_from m) req ble
      | Reply rep \<Rightarrow> handle_reply rep ble)"

text \<open>\<^verbatim>\<open>outgoing_mut().drain(..)\<close> of the caller.\<close>

definition drain_ble_outgoing :: "ballot_leader_election \<Rightarrow> ble_message list \<times> ballot_leader_election" where
  "drain_ble_outgoing ble = (ble_outgoing ble, ble\<lparr>ble_outgoing := []\<rparr>)"

definition get_current_ballot :: "ballot_leader_election \<Rightarrow> ballot" where
  "get_current_ballot ble = current_ballot ble"

definition get_ballots :: "ballot_leader_election \<Rightarrow> heartbeat_reply list" where
  "get_ballots ble = prev_replies ble"

section \<open>The election as a transition system\<close>

text \<open>
  What the server does with its election component: messages, round ends with the current state and
  promise of the replica, a drained buffer, a change of the priority.
\<close>

inductive ble_step :: "ballot_leader_election \<Rightarrow> ballot_leader_election \<Rightarrow> bool" where
  ble_handle_step: "ble_step ble (ble_handle m ble)"
| ble_timeout_step: "hb_timeout st p ble = Some (r, ble') \<Longrightarrow> ble_step ble ble'"
| ble_drain_step: "ble_step ble (snd (drain_ble_outgoing ble))"
| ble_priority_step: "ble_step ble (ble_set_priority p ble)"

inductive_cases ble_stepE: "ble_step ble ble'"

text \<open>
  Identity of a node: its ballots carry its process identifier, and it knows only replies of its own
  configuration and of the current round.
\<close>

definition ble_wf :: "ballot_leader_election \<Rightarrow> bool" where
  "ble_wf ble \<longleftrightarrow>
     b_pid (current_ballot ble) = ble_pid ble \<and>
     (\<forall>r \<in> set (heartbeat_replies ble).
        hbr_round r = hb_round ble \<and> b_config_id (hbr_ballot r) = ble_configuration_id ble)"

definition ble_same_node :: "ballot_leader_election \<Rightarrow> ballot_leader_election \<Rightarrow> bool" where
  "ble_same_node ble ble' \<longleftrightarrow>
     ble_pid ble' = ble_pid ble \<and> ble_peers ble' = ble_peers ble \<and>
     ble_configuration_id ble' = ble_configuration_id ble \<and> ble_quorum ble' = ble_quorum ble"

lemma ble_same_node_refl [simp]: "ble_same_node ble ble"
  by (simp add: ble_same_node_def)

lemma ble_same_node_trans [trans]:
  "ble_same_node a b \<Longrightarrow> ble_same_node b c \<Longrightarrow> ble_same_node a c"
  by (simp add: ble_same_node_def)

section \<open>Parts of a round\<close>

lemma update_leader_key:
  "ballot_key (ble_leader (update_leader ble)) =
     Max (insert (ballot_key (ble_leader ble)) (ballot_key ` hbr_ballot ` set (heartbeat_replies ble)))"
proof (cases "max_last ballot_key (map hbr_ballot (heartbeat_replies ble))")
  case None
  then show ?thesis by (simp add: update_leader_def)
next
  case (Some mx)
  have mem: "mx \<in> hbr_ballot ` set (heartbeat_replies ble)"
    using max_last_in [OF Some] by simp
  have ub: "ballot_key b \<le> ballot_key mx" if "b \<in> hbr_ballot ` set (heartbeat_replies ble)" for b
    using max_last_ge [OF Some] that by simp
  have "Max (ballot_key ` hbr_ballot ` set (heartbeat_replies ble)) = ballot_key mx"
    using mem ub by (intro Max_eqI) auto
  moreover have "heartbeat_replies ble \<noteq> []" using mem by auto
  ultimately have "Max (insert (ballot_key (ble_leader ble)) (ballot_key ` hbr_ballot ` set (heartbeat_replies ble)))
      = max (ballot_key (ble_leader ble)) (ballot_key mx)"
    by (subst Max_insert) auto
  with Some show ?thesis
    by (auto simp: update_leader_def ballot_lt_key max_def not_less order.antisym)
qed

lemma update_leader_frame:
  "ble_same_node ble (update_leader ble)" "current_ballot (update_leader ble) = current_ballot ble"
  "heartbeat_replies (update_leader ble) = heartbeat_replies ble" "hb_round (update_leader ble) = hb_round ble"
  "ballot_le (ble_leader ble) (ble_leader (update_leader ble))"
  by (auto simp: update_leader_def ble_same_node_def split: option.splits)

lemma update_happiness_frame [simp]:
  "ble_same_node ble (update_happiness st ble)" "current_ballot (update_happiness st ble) = current_ballot ble"
  "heartbeat_replies (update_happiness st ble) = heartbeat_replies ble"
  "hb_round (update_happiness st ble) = hb_round ble" "ble_leader (update_happiness st ble) = ble_leader ble"
  by (simp_all add: update_happiness_def ble_same_node_def)

lemma check_takeover_cases:
  assumes "check_takeover ble = Some ble'"
  shows "(\<not> takes_over ble \<and> ble' = ble) \<or>
    (takes_over ble \<and> ble_same_node ble ble' \<and> ballot_lt (ble_leader ble) (ble_leader ble') \<and>
     ble_leader ble' = current_ballot ble' \<and> b_pid (current_ballot ble') = b_pid (current_ballot ble) \<and>
     b_n (ble_leader ble') = b_n (ble_leader ble) + 1 \<and>
     b_config_id (current_ballot ble') = b_config_id (current_ballot ble) \<and>
     heartbeat_replies ble' = heartbeat_replies ble \<and> hb_round ble' = hb_round ble)"
proof (cases "takes_over ble")
  case False
  with assms show ?thesis by (simp add: check_takeover_def)
next
  case True
  with assms obtain n where n: "checked_inc (b_n (ble_leader ble)) = Some n"
    and ble': "ble' = ble\<lparr>current_ballot := (current_ballot ble)\<lparr>b_n := n\<rparr>,
        ble_leader := (current_ballot ble)\<lparr>b_n := n\<rparr>, ble_happy := True\<rparr>"
    by (auto simp: check_takeover_def bind_eq_Some_conv Let_def)
  have "ballot_lt (ble_leader ble) ((current_ballot ble)\<lparr>b_n := n\<rparr>)"
    using checked_inc_greater [OF n] by (intro ballot_lt_n) simp
  moreover have "n = b_n (ble_leader ble) + 1"
    using n by (simp add: checked_inc_eq_Some)
  ultimately show ?thesis
    using True by (simp add: ble' ble_same_node_def)
qed

lemma new_hb_round_frame:
  assumes "new_hb_round ble = Some ble'"
  shows "ble_same_node ble ble'" "current_ballot ble' = current_ballot ble" "ble_leader ble' = ble_leader ble"
    "heartbeat_replies ble' = []" "prev_replies ble' = heartbeat_replies ble"
    "hb_round ble < hb_round ble'" "hb_round ble' = hb_round ble + 1" "ble_happy ble' = ble_happy ble"
  using assms checked_inc_greater [of "hb_round ble"]
  by (auto simp: new_hb_round_def bind_eq_Some_conv ble_same_node_def checked_inc_eq_Some)

lemma adopt_promise_frame:
  "ble_same_node ble (adopt_promise p ble)"
  "heartbeat_replies (adopt_promise p ble) = heartbeat_replies ble"
  "hb_round (adopt_promise p ble) = hb_round ble"
  "ballot_le (ble_leader ble) (ble_leader (adopt_promise p ble))"
  "ballot_le p (ble_leader (adopt_promise p ble))"
  by (auto simp: adopt_promise_def ble_same_node_def not_ballot_lt)

lemma adopt_promise_pid:
  assumes "b_pid (current_ballot ble) = ble_pid ble"
  shows "b_pid (current_ballot (adopt_promise p ble)) = ble_pid ble"
  using assms by (auto simp: adopt_promise_def)

text \<open>The intermediate states of a round end.\<close>

lemma hb_timeoutE:
  assumes "hb_timeout st p ble = Some (r, ble')"
  obtains ble2 ble3 where
    "check_takeover (update_happiness st (update_leader ble)) = Some ble2"
    "new_hb_round ble2 = Some ble3"
    "ble' = adopt_promise p ble3"
    "r = (if ble_leader ble' = current_ballot ble' then Some (current_ballot ble') else None)"
  using assms by (auto simp: hb_timeout_def Let_def bind_eq_Some_conv)

lemma check_takeover_frame:
  assumes "check_takeover ble = Some ble'"
  shows "ble_same_node ble ble'" "ballot_le (ble_leader ble) (ble_leader ble')"
    "b_pid (current_ballot ble') = b_pid (current_ballot ble)"
    "heartbeat_replies ble' = heartbeat_replies ble" "hb_round ble' = hb_round ble"
  using check_takeover_cases [OF assms] by auto

lemma hb_timeout_frame:
  assumes "hb_timeout st p ble = Some (r, ble')"
  shows "ble_same_node ble ble'" and "ballot_le (ble_leader ble) (ble_leader ble')"
    and "ballot_le p (ble_leader ble')" and "hb_round ble' = hb_round ble + 1" and "hb_round ble < hb_round ble'"
    and "heartbeat_replies ble' = []"
    and "b_pid (current_ballot ble) = ble_pid ble \<Longrightarrow> b_pid (current_ballot ble') = ble_pid ble'"
proof -
  obtain ble2 ble3 where s2: "check_takeover (update_happiness st (update_leader ble)) = Some ble2"
    and s3: "new_hb_round ble2 = Some ble3" and s4: "ble' = adopt_promise p ble3"
    using assms by (rule hb_timeoutE)
  note f2 = check_takeover_frame [OF s2] and f3 = new_hb_round_frame [OF s3]
  have n1: "ble_same_node ble ble2"
    using f2(1) update_leader_frame(1) [of ble] by (auto simp: ble_same_node_def update_happiness_def)
  then have n2: "ble_same_node ble ble3" using f3(1) ble_same_node_trans by blast
  then show "ble_same_node ble ble'" using adopt_promise_frame(1) s4 ble_same_node_trans by blast
  show "ballot_le (ble_leader ble) (ble_leader ble')"
    using update_leader_frame(5) [of ble] f2(2) f3(3) adopt_promise_frame(4) [of ble3 p] s4
    by (metis ballot_le_trans update_happiness_frame(5))
  show "ballot_le p (ble_leader ble')" using adopt_promise_frame(5) s4 by simp
  have hr: "hb_round ble2 = hb_round ble" using f2(5) update_leader_frame(4) by simp
  show "hb_round ble' = hb_round ble + 1" "hb_round ble < hb_round ble'"
    using f3(6,7) hr adopt_promise_frame(3) s4 by simp_all
  show "heartbeat_replies ble' = []" using f3(4) adopt_promise_frame(2) s4 by simp
  show "b_pid (current_ballot ble') = ble_pid ble'" if "b_pid (current_ballot ble) = ble_pid ble"
  proof -
    have "b_pid (current_ballot ble3) = ble_pid ble3"
      using that f2(3) f3(2) n2 update_leader_frame(2) [of ble] by (simp add: ble_same_node_def)
    then show ?thesis
      using adopt_promise_pid [of ble3 p] adopt_promise_frame(1) [of ble3 p] s4
      by (simp add: ble_same_node_def)
  qed
qed

section \<open>Invariants of every run\<close>

lemma ble_with_wf:
  assumes "ble_with config rl = Some ble"
  shows "ble_wf ble" "ble_pid ble = blec_pid config" "hb_round ble = 1" "ble_peers ble = blec_peers config"
    "ble_quorum ble = quorum_with (blec_flexible_quorum config) (length (blec_peers config) + 1)"
proof -
  obtain ble0 where "new_hb_round ble0 = Some ble" and
    "b_pid (current_ballot ble0) = blec_pid config" "ble_pid ble0 = blec_pid config" "hb_round ble0 = 0"
    "ble_peers ble0 = blec_peers config"
    "ble_quorum ble0 = quorum_with (blec_flexible_quorum config) (length (blec_peers config) + 1)"
    using assms by (auto simp: ble_with_def Let_def ballot_with_def split: option.splits if_splits)
  then show "ble_wf ble" "ble_pid ble = blec_pid config" "hb_round ble = 1" "ble_peers ble = blec_peers config"
    "ble_quorum ble = quorum_with (blec_flexible_quorum config) (length (blec_peers config) + 1)"
    using new_hb_round_frame [of ble0 ble] by (auto simp: ble_wf_def ble_same_node_def)
qed

lemma ble_step_wf: "ble_step ble ble' \<Longrightarrow> ble_wf ble \<Longrightarrow> ble_wf ble'"
proof (erule ble_stepE)
  fix st p r
  assume "hb_timeout st p ble = Some (r, ble')" and "ble_wf ble"
  then show "ble_wf ble'" using hb_timeout_frame [of st p ble r ble'] by (simp add: ble_wf_def)
qed (auto simp: ble_wf_def ble_handle_def handle_request_def handle_reply_def drain_ble_outgoing_def
      ble_set_priority_def split: heartbeat_msg.splits)

lemma ble_step_mono:
  "ble_step ble ble' \<Longrightarrow> ballot_le (ble_leader ble) (ble_leader ble') \<and> hb_round ble \<le> hb_round ble' \<and> ble_same_node ble ble'"
proof (erule ble_stepE)
  fix st p r
  assume "hb_timeout st p ble = Some (r, ble')"
  then show ?thesis using hb_timeout_frame [of st p ble r ble'] by simp
qed (auto simp: ble_handle_def handle_request_def handle_reply_def drain_ble_outgoing_def
      ble_set_priority_def ble_same_node_def split: heartbeat_msg.splits)

lemma ble_run_mono:
  "ble_step\<^sup>*\<^sup>* ble ble' \<Longrightarrow> ballot_le (ble_leader ble) (ble_leader ble') \<and> hb_round ble \<le> hb_round ble' \<and> ble_same_node ble ble'"
proof (induction rule: rtranclp_induct)
  case base
  show ?case by simp
next
  case (step y z)
  with ble_step_mono [OF step.hyps(2)] show ?case
    by (meson ballot_le_trans order.trans ble_same_node_trans)
qed

lemma ble_run_wf: "ble_step\<^sup>*\<^sup>* ble ble' \<Longrightarrow> ble_wf ble \<Longrightarrow> ble_wf ble'"
  by (induction rule: rtranclp_induct) (auto intro: ble_step_wf)

end
