(* ===== verification/Sequence_Paxos.thy ===== *)
theory Sequence_Paxos
  imports Leader_State Internal_Storage BLE
begin

text \<open>
  A Sequence Paxos replica (\<^verbatim>\<open>omnipaxos/src/sequence_paxos/mod.rs\<close>, \<^verbatim>\<open>leader.rs\<close>, \<^verbatim>\<open>follower.rs\<close>): its
  state, the user calls, and the handler of every message. \<open>S\<close> is the storage back-end and \<open>P\<close> the
  snapshot type of the entries. Every handler returns the new replica, or \<open>None\<close> for a panic; the
  messages it sends are appended to \<open>sp_outgoing\<close>.
\<close>


record ('s, 't, 'c, 'p) sequence_paxos =
  sp_internal_storage :: "('s, 't, 'c) internal_storage"
  sp_pid :: node_id
  sp_peers :: "node_id list"
  sp_state :: "role \<times> phase"
  sp_buffered_proposals :: "'t list"
  sp_buffered_stopsign :: "'c stop_sign option"
  sp_outgoing :: "('t, 'c, 'p) message list"
  sp_leader_state :: "('t, 'c, 'p) leader_state"
  sp_latest_accepted_meta :: "(ballot \<times> usize) option"
  sp_current_seq_num :: sequence_number
  sp_cached_promise_message :: "('t, 'c, 'p) promise option"

datatype ('t, 'c) propose_err =
    PendingReconfigEntry 't
  | PendingReconfigConfig 'c "u8 list option"
  | ConfigErr config_error 'c "u8 list option"

section \<open>Sending\<close>

text \<open>\<^verbatim>\<open>self.outgoing.push(Message::SequencePaxos(PaxosMessage \{ from: self.pid, to, msg \}))\<close>.\<close>

definition push_msg ::
  "node_id \<Rightarrow> ('t, 'c, 'p) paxos_msg \<Rightarrow> ('s, 't, 'c, 'p) sequence_paxos \<Rightarrow> ('s, 't, 'c, 'p) sequence_paxos" where
  "push_msg to msg sp = sp\<lparr>sp_outgoing := sp_outgoing sp @ [paxos_envelope (sp_pid sp) to msg]\<rparr>"

text \<open>The loop \<^verbatim>\<open>for pid in &self.peers\<close> that sends one message to every peer.\<close>

definition push_to_peers ::
  "('t, 'c, 'p) paxos_msg \<Rightarrow> ('s, 't, 'c, 'p) sequence_paxos \<Rightarrow> ('s, 't, 'c, 'p) sequence_paxos" where
  "push_to_peers msg sp = fold (\<lambda>pid. push_msg pid msg) (sp_peers sp) sp"

text \<open>Overwriting the message in an envelope of the outgoing buffer.\<close>

definition set_outgoing_msg ::
  "usize \<Rightarrow> ('t, 'c, 'p) paxos_msg \<Rightarrow> ('s, 't, 'c, 'p) sequence_paxos \<Rightarrow> ('s, 't, 'c, 'p) sequence_paxos" where
  "set_outgoing_msg i msg sp = sp\<lparr>sp_outgoing := (sp_outgoing sp)[i :=
     (case sp_outgoing sp ! i of
        SequencePaxosMsg pm \<Rightarrow> SequencePaxosMsg (pm\<lparr>pm_msg := msg\<rparr>)
      | BLEMsg b \<Rightarrow> BLEMsg b)]\<rparr>"

abbreviation upd_leader ::
  "('t, 'c, 'p) leader_state \<Rightarrow> ('s, 't, 'c, 'p) sequence_paxos \<Rightarrow> ('s, 't, 'c, 'p) sequence_paxos" where
  "upd_leader ls sp \<equiv> sp\<lparr>sp_leader_state := ls\<rparr>"

abbreviation upd_storage ::
  "('s, 't, 'c) internal_storage \<Rightarrow> ('s, 't, 'c, 'p) sequence_paxos \<Rightarrow> ('s, 't, 'c, 'p) sequence_paxos" where
  "upd_storage st sp \<equiv> sp\<lparr>sp_internal_storage := st\<rparr>"

section \<open>Accessors and common parts\<close>

definition sp_get_promise :: "('s, 't, 'c, 'p) sequence_paxos \<Rightarrow> ballot" where
  "sp_get_promise sp = is_get_promise (sp_internal_storage sp)"

definition sp_get_decided_idx :: "('s, 't, 'c, 'p) sequence_paxos \<Rightarrow> usize" where
  "sp_get_decided_idx sp = is_get_decided_idx (sp_internal_storage sp)"

definition sp_get_compacted_idx :: "('s, 't, 'c, 'p) sequence_paxos \<Rightarrow> usize" where
  "sp_get_compacted_idx sp = is_get_compacted_idx (sp_internal_storage sp)"

definition sp_get_current_leader :: "('s, 't, 'c, 'p) sequence_paxos \<Rightarrow> node_id" where
  "sp_get_current_leader sp = b_pid (sp_get_promise sp)"

definition accepted_reconfiguration :: "('s, 't, 'c, 'p) sequence_paxos \<Rightarrow> bool" where
  "accepted_reconfiguration sp \<longleftrightarrow> is_get_stopsign (sp_internal_storage sp) \<noteq> None"

definition sp_is_reconfigured :: "('s, 't, 'c, 'p) sequence_paxos \<Rightarrow> 'c stop_sign option" where
  "sp_is_reconfigured sp =
     (case is_get_stopsign (sp_internal_storage sp) of
        Some ss \<Rightarrow> if is_stopsign_is_decided (sp_internal_storage sp) then Some ss else None
      | None \<Rightarrow> None)"

definition become_follower :: "('s, 't, 'c, 'p) sequence_paxos \<Rightarrow> ('s, 't, 'c, 'p) sequence_paxos" where
  "become_follower sp = sp\<lparr>sp_state := (Follower, snd (sp_state sp))\<rparr>"

definition sp_reconnected ::
  "node_id \<Rightarrow> ('s, 't, 'c, 'p) sequence_paxos \<Rightarrow> ('s, 't, 'c, 'p) sequence_paxos" where
  "sp_reconnected pid sp =
     (if pid = sp_pid sp then sp
      else let sp1 = (if pid = sp_get_current_leader sp then sp\<lparr>sp_state := (Follower, PhaseRecover)\<rparr> else sp);
               prepreq = \<lparr>preq_n = sp_get_promise sp1\<rparr>
           in push_msg pid (PrepareReq prepreq) sp1)"

definition forward_proposals ::
  "'t list \<Rightarrow> ('s, 't, 'c, 'p) sequence_paxos \<Rightarrow> ('s, 't, 'c, 'p) sequence_paxos" where
  "forward_proposals entries sp =
     (let leader = sp_get_current_leader sp in
      if leader > 0 \<and> sp_pid sp \<noteq> leader
      then push_msg leader (ProposalForward entries) sp
      else sp\<lparr>sp_buffered_proposals := sp_buffered_proposals sp @ entries\<rparr>)"

definition forward_stopsign ::
  "'c stop_sign \<Rightarrow> ('s, 't, 'c, 'p) sequence_paxos \<Rightarrow> ('s, 't, 'c, 'p) sequence_paxos" where
  "forward_stopsign ss sp =
     (let leader = sp_get_current_leader sp in
      if leader > 0 \<and> sp_pid sp \<noteq> leader
      then push_msg leader (ForwardStopSign ss) sp
      else if sp_buffered_stopsign sp = None then sp\<lparr>sp_buffered_stopsign := Some ss\<rparr>
      else sp)"

definition create_log_sync ::
  "('s, 't, 'c, 'p) storage_impl \<Rightarrow> ('t, 'p) snapshot_impl \<Rightarrow> usize \<Rightarrow> usize \<Rightarrow>
     ('s, 't, 'c, 'p) sequence_paxos \<Rightarrow> ('t, 'c, 'p) log_sync option" where
  "create_log_sync S P common_prefix_idx other_logs_decided_idx sp = (
     let st = sp_internal_storage sp;
         decided_idx = is_get_decided_idx st
     in do {
       (snap, suffix, i) \<leftarrow>
         (if use_snapshots P \<and> decided_idx > common_prefix_idx then do {
            (delta_snapshot, compacted_idx) \<leftarrow> expect_get (create_diff_snapshot S P other_logs_decided_idx st);
            suffix \<leftarrow> expect_get (is_get_suffix S decided_idx st);
            Some (delta_snapshot, suffix, compacted_idx)
          } else do {
            suffix \<leftarrow> expect_get (is_get_suffix S common_prefix_idx st);
            Some (None, suffix, common_prefix_idx)
          });
       Some \<lparr>decided_snapshot = snap, sync_suffix = suffix, sync_idx = i,
             sync_stopsign = is_get_stopsign st\<rparr>
     })"

section \<open>The leader\<close>

definition handle_leader ::
  "('s, 't, 'c, 'p) storage_impl \<Rightarrow> ballot \<Rightarrow> ('s, 't, 'c, 'p) sequence_paxos \<Rightarrow>
     ('s, 't, 'c, 'p) sequence_paxos option" where
  "handle_leader S n sp =
     (if ballot_le n (n_leader (sp_leader_state sp)) \<or> ballot_le n (sp_get_promise sp) then Some sp
      else if sp_pid sp = b_pid n then do {
        let ls = leader_state_with n (max_pid (sp_leader_state sp)) (ls_quorum (sp_leader_state sp));
        (_, st1) \<leftarrow> expect (flush_batch S (sp_internal_storage sp));
        (_, st2) \<leftarrow> expect (is_set_promise S n st1);
        let na = is_get_accepted_round st2;
        let decided_idx = is_get_decided_idx st2;
        let accepted_idx = is_get_accepted_idx st2;
        let my_promise = \<lparr>prom_n = n, prom_n_accepted = na, prom_decided_idx = decided_idx,
                          prom_accepted_idx = accepted_idx, prom_log_sync = None\<rparr>;
        (_, ls1) \<leftarrow> set_promise my_promise (sp_pid sp) True ls;
        let prep = \<lparr>prep_n = n, prep_decided_idx = decided_idx, prep_n_accepted = na,
                    prep_accepted_idx = accepted_idx\<rparr>;
        Some (push_to_peers (Prepare prep)
          (sp\<lparr>sp_internal_storage := st2, sp_leader_state := ls1, sp_state := (Leader, PhasePrepare)\<rparr>))
      }
      else Some (become_follower sp))"

definition send_prepare ::
  "node_id \<Rightarrow> ('s, 't, 'c, 'p) sequence_paxos \<Rightarrow> ('s, 't, 'c, 'p) sequence_paxos" where
  "send_prepare to sp =
     (let st = sp_internal_storage sp in
      push_msg to (Prepare \<lparr>prep_n = n_leader (sp_leader_state sp),
        prep_decided_idx = is_get_decided_idx st,
        prep_n_accepted = is_get_accepted_round st,
        prep_accepted_idx = is_get_accepted_idx st\<rparr>) sp)"

definition handle_preparereq ::
  "prepare_req \<Rightarrow> node_id \<Rightarrow> ('s, 't, 'c, 'p) sequence_paxos \<Rightarrow> ('s, 't, 'c, 'p) sequence_paxos option" where
  "handle_preparereq prepreq from sp =
     (if fst (sp_state sp) = Leader \<and> ballot_le (preq_n prepreq) (n_leader (sp_leader_state sp))
      then do {
        ls1 \<leftarrow> reset_promise from (sp_leader_state sp);
        ls2 \<leftarrow> set_latest_accept_meta from None ls1;
        Some (send_prepare from (upd_leader ls2 sp))
      }
      else Some sp)"

text \<open>The unsent \<^verbatim>\<open>AcceptDecide\<close> to a follower, with its position in the outgoing buffer.\<close>

definition get_latest_accdec_message ::
  "node_id \<Rightarrow> ('s, 't, 'c, 'p) sequence_paxos \<Rightarrow> (usize \<times> 't accept_decide) option option" where
  "get_latest_accdec_message to sp = do {
     meta \<leftarrow> get_latest_accept_meta to (sp_leader_state sp);
     (case meta of
        None \<Rightarrow> Some None
      | Some (bal, outgoing_idx) \<Rightarrow>
          if bal = n_leader (sp_leader_state sp) then do {
            m \<leftarrow> vec_get (sp_outgoing sp) outgoing_idx;
            Some (case m of
                SequencePaxosMsg pm \<Rightarrow>
                  (case pm_msg pm of AcceptDecide accdec \<Rightarrow> Some (outgoing_idx, accdec) | _ \<Rightarrow> None)
              | BLEMsg _ \<Rightarrow> None)
          }
          else Some None)
   }"

definition send_acceptdecide_to ::
  "'t accepted_meta_data \<Rightarrow> node_id \<Rightarrow> ('s, 't, 'c, 'p) sequence_paxos \<Rightarrow>
     ('s, 't, 'c, 'p) sequence_paxos option" where
  "send_acceptdecide_to am pid sp = do {
     let decided_idx = is_get_decided_idx (sp_internal_storage sp);
     latest_accdec \<leftarrow> get_latest_accdec_message pid sp;
     (case latest_accdec of
        Some (i, accdec) \<Rightarrow>
          Some (set_outgoing_msg i (AcceptDecide (accdec\<lparr>ad_entries := ad_entries accdec @ am_entries am,
                                                        ad_decided_idx := decided_idx\<rparr>)) sp)
      | None \<Rightarrow> do {
          ls1 \<leftarrow> set_latest_accept_meta pid (Some (length (sp_outgoing sp))) (sp_leader_state sp);
          (seq, ls2) \<leftarrow> next_seq_num pid ls1;
          Some (push_msg pid (AcceptDecide \<lparr>ad_n = n_leader ls2, ad_seq_num = seq,
                  ad_decided_idx = decided_idx, ad_entries = am_entries am\<rparr>) (upd_leader ls2 sp))
        })
   }"

definition send_acceptdecide ::
  "'t accepted_meta_data \<Rightarrow> ('s, 't, 'c, 'p) sequence_paxos \<Rightarrow> ('s, 't, 'c, 'p) sequence_paxos option" where
  "send_acceptdecide am sp = do {
     followers \<leftarrow> get_promised_followers (sp_leader_state sp);
     for_each (send_acceptdecide_to am) followers sp
   }"

definition after_leader_append ::
  "'t accepted_meta_data option \<Rightarrow> ('s, 't, 'c, 'p) sequence_paxos \<Rightarrow>
     ('s, 't, 'c, 'p) sequence_paxos option" where
  "after_leader_append accepted_metadata sp =
     (case accepted_metadata of
        Some metadata \<Rightarrow> do {
          ls \<leftarrow> set_accepted_idx (sp_pid sp) (am_accepted_idx metadata) (sp_leader_state sp);
          send_acceptdecide metadata (upd_leader ls sp)
        }
      | None \<Rightarrow> Some sp)"

definition accept_entry_leader ::
  "('s, 't, 'c, 'p) storage_impl \<Rightarrow> 't \<Rightarrow> ('s, 't, 'c, 'p) sequence_paxos \<Rightarrow>
     ('s, 't, 'c, 'p) sequence_paxos option" where
  "accept_entry_leader S entry sp = do {
     (accepted_metadata, st) \<leftarrow> expect (append_entry_with_batching S entry (sp_internal_storage sp));
     after_leader_append accepted_metadata (upd_storage st sp)
   }"

definition accept_entries_leader ::
  "('s, 't, 'c, 'p) storage_impl \<Rightarrow> 't list \<Rightarrow> ('s, 't, 'c, 'p) sequence_paxos \<Rightarrow>
     ('s, 't, 'c, 'p) sequence_paxos option" where
  "accept_entries_leader S entries sp = do {
     (accepted_metadata, st) \<leftarrow> expect (append_entries_with_batching S entries (sp_internal_storage sp));
     after_leader_append accepted_metadata (upd_storage st sp)
   }"

definition flush_batch_leader ::
  "('s, 't, 'c, 'p) storage_impl \<Rightarrow> ('s, 't, 'c, 'p) sequence_paxos \<Rightarrow>
     ('s, 't, 'c, 'p) sequence_paxos option" where
  "flush_batch_leader S sp = do {
     (accepted_metadata, st) \<leftarrow> expect (flush_batch_and_get_entries S (sp_internal_storage sp));
     after_leader_append accepted_metadata (upd_storage st sp)
   }"

definition leader_seq_num ::
  "bool \<Rightarrow> node_id \<Rightarrow> ('s, 't, 'c, 'p) sequence_paxos \<Rightarrow>
     (sequence_number \<times> ('s, 't, 'c, 'p) sequence_paxos) option" where
  "leader_seq_num resend to sp =
     (if resend then do { s \<leftarrow> get_seq_num to (sp_leader_state sp); Some (s, sp) }
      else do { (s, ls) \<leftarrow> next_seq_num to (sp_leader_state sp); Some (s, upd_leader ls sp) })"

definition send_accept_stopsign ::
  "node_id \<Rightarrow> 'c stop_sign \<Rightarrow> bool \<Rightarrow> ('s, 't, 'c, 'p) sequence_paxos \<Rightarrow>
     ('s, 't, 'c, 'p) sequence_paxos option" where
  "send_accept_stopsign to ss resend sp = do {
     (seq, sp1) \<leftarrow> leader_seq_num resend to sp;
     Some (push_msg to (AcceptStopSign \<lparr>ass_n = n_leader (sp_leader_state sp1), ass_seq_num = seq, ass_ss = ss\<rparr>) sp1)
   }"

definition send_decide ::
  "node_id \<Rightarrow> usize \<Rightarrow> bool \<Rightarrow> ('s, 't, 'c, 'p) sequence_paxos \<Rightarrow>
     ('s, 't, 'c, 'p) sequence_paxos option" where
  "send_decide to decided_idx resend sp = do {
     (seq, sp1) \<leftarrow> leader_seq_num resend to sp;
     Some (push_msg to (Decide \<lparr>dec_n = n_leader (sp_leader_state sp1), dec_seq_num = seq,
                               dec_decided_idx = decided_idx\<rparr>) sp1)
   }"

definition accept_stopsign_leader ::
  "('s, 't, 'c, 'p) storage_impl \<Rightarrow> 'c stop_sign \<Rightarrow> ('s, 't, 'c, 'p) sequence_paxos \<Rightarrow>
     ('s, 't, 'c, 'p) sequence_paxos option" where
  "accept_stopsign_leader S ss sp = do {
     (accepted_metadata, st) \<leftarrow> expect (is_append_stopsign S ss (sp_internal_storage sp));
     sp1 \<leftarrow> (case accepted_metadata of
         Some metadata \<Rightarrow> send_acceptdecide metadata (upd_storage st sp)
       | None \<Rightarrow> Some (upd_storage st sp));
     let accepted_idx = is_get_accepted_idx (sp_internal_storage sp1);
     ls \<leftarrow> set_accepted_idx (sp_pid sp1) accepted_idx (sp_leader_state sp1);
     followers \<leftarrow> get_promised_followers ls;
     for_each (\<lambda>pid. send_accept_stopsign pid ss False) followers (upd_leader ls sp1)
   }"

definition send_accsync ::
  "('s, 't, 'c, 'p) storage_impl \<Rightarrow> ('t, 'p) snapshot_impl \<Rightarrow> node_id \<Rightarrow>
     ('s, 't, 'c, 'p) sequence_paxos \<Rightarrow> ('s, 't, 'c, 'p) sequence_paxos option" where
  "send_accsync S P to sp = do {
     let ls = sp_leader_state sp;
     let current_n = n_leader ls;
     let prev = get_max_promise_meta ls;
     meta \<leftarrow> get_promise_meta to ls;
     fd \<leftarrow> get_follower_decided_idx (pmd_pid meta) ls;
     followers_decided_idx \<leftarrow> fd;
     let followers_valid_entries_idx =
       (if pmd_n_accepted meta = current_n then pmd_accepted_idx meta
        else if pmd_n_accepted meta = pmd_n_accepted prev
        then min (pmd_accepted_idx prev) (pmd_accepted_idx meta)
        else followers_decided_idx);
     log_sync \<leftarrow> create_log_sync S P followers_valid_entries_idx followers_decided_idx sp;
     ls1 \<leftarrow> increment_seq_num_session to ls;
     (seq, ls2) \<leftarrow> next_seq_num to ls1;
     Some (push_msg to (AcceptSync \<lparr>asy_n = current_n, asy_seq_num = seq,
             asy_decided_idx = sp_get_decided_idx sp, asy_log_sync = log_sync\<rparr>) (upd_leader ls2 sp))
   }"

text \<open>
  The two appends of \<^verbatim>\<open>handle_majority_promises\<close>: the proposals and the stop sign buffered during the
  prepare phase. Both return the new accepted index.
\<close>

definition append_buffered_proposals ::
  "('s, 't, 'c, 'p) storage_impl \<Rightarrow> usize \<Rightarrow> ('s, 't, 'c, 'p) sequence_paxos \<Rightarrow>
     (usize \<times> ('s, 't, 'c, 'p) sequence_paxos) option" where
  "append_buffered_proposals S new_accepted_idx sp =
     (if sp_buffered_proposals sp \<noteq> [] then do {
        (i, st) \<leftarrow> expect (append_entries_without_batching S (sp_buffered_proposals sp) (sp_internal_storage sp));
        Some (i, sp\<lparr>sp_internal_storage := st, sp_buffered_proposals := []\<rparr>)
      } else Some (new_accepted_idx, sp))"

definition append_buffered_stopsign ::
  "('s, 't, 'c, 'p) storage_impl \<Rightarrow> usize \<Rightarrow> ('s, 't, 'c, 'p) sequence_paxos \<Rightarrow>
     (usize \<times> ('s, 't, 'c, 'p) sequence_paxos) option" where
  "append_buffered_stopsign S new_accepted_idx sp =
     (case sp_buffered_stopsign sp of
        Some ss \<Rightarrow> do {
          (_, st) \<leftarrow> expect (is_append_stopsign S ss (sp_internal_storage sp));
          Some (is_get_accepted_idx st, sp\<lparr>sp_internal_storage := st, sp_buffered_stopsign := None\<rparr>)
        }
      | None \<Rightarrow> Some (new_accepted_idx, sp))"

definition append_buffered ::
  "('s, 't, 'c, 'p) storage_impl \<Rightarrow> usize \<Rightarrow> ('s, 't, 'c, 'p) sequence_paxos \<Rightarrow>
     (usize \<times> ('s, 't, 'c, 'p) sequence_paxos) option" where
  "append_buffered S new_accepted_idx sp =
     (if \<not> accepted_reconfiguration sp then do {
        (idx1, sp1) \<leftarrow> append_buffered_proposals S new_accepted_idx sp;
        append_buffered_stopsign S idx1 sp1
      } else Some (new_accepted_idx, sp))"

definition handle_majority_promises ::
  "('s, 't, 'c, 'p) storage_impl \<Rightarrow> ('t, 'p) snapshot_impl \<Rightarrow> ('s, 't, 'c, 'p) sequence_paxos \<Rightarrow>
     ('s, 't, 'c, 'p) sequence_paxos option" where
  "handle_majority_promises S P sp = do {
     let (sync, ls) = take_max_promise_sync (sp_leader_state sp);
     let decided_idx = get_max_decided_idx ls;
     (idx, st) \<leftarrow> expect (sync_log S P (n_leader ls) decided_idx sync (sp_internal_storage sp));
     (new_accepted_idx, sp1) \<leftarrow>
       append_buffered S idx (sp\<lparr>sp_leader_state := ls, sp_internal_storage := st\<rparr>);
     ls1 \<leftarrow> set_accepted_idx (sp_pid sp1) new_accepted_idx (sp_leader_state sp1);
     followers \<leftarrow> get_promised_followers ls1;
     for_each (send_accsync S P) followers
       (sp1\<lparr>sp_state := (Leader, PhaseAccept), sp_leader_state := ls1\<rparr>)
   }"

definition handle_promise_prepare ::
  "('s, 't, 'c, 'p) storage_impl \<Rightarrow> ('t, 'p) snapshot_impl \<Rightarrow> ('t, 'c, 'p) promise \<Rightarrow> node_id \<Rightarrow>
     ('s, 't, 'c, 'p) sequence_paxos \<Rightarrow> ('s, 't, 'c, 'p) sequence_paxos option" where
  "handle_promise_prepare S P prom from sp =
     (if prom_n prom = n_leader (sp_leader_state sp) then do {
        (received_majority, ls) \<leftarrow> set_promise prom from True (sp_leader_state sp);
        (if received_majority then handle_majority_promises S P (upd_leader ls sp)
         else Some (upd_leader ls sp))
      }
      else Some sp)"

definition handle_promise_accept ::
  "('s, 't, 'c, 'p) storage_impl \<Rightarrow> ('t, 'p) snapshot_impl \<Rightarrow> ('t, 'c, 'p) promise \<Rightarrow> node_id \<Rightarrow>
     ('s, 't, 'c, 'p) sequence_paxos \<Rightarrow> ('s, 't, 'c, 'p) sequence_paxos option" where
  "handle_promise_accept S P prom from sp =
     (if prom_n prom = n_leader (sp_leader_state sp) then do {
        (_, ls) \<leftarrow> set_promise prom from False (sp_leader_state sp);
        send_accsync S P from (upd_leader ls sp)
      }
      else Some sp)"

definition announce_decided ::
  "usize \<Rightarrow> node_id \<Rightarrow> ('s, 't, 'c, 'p) sequence_paxos \<Rightarrow> ('s, 't, 'c, 'p) sequence_paxos option" where
  "announce_decided decided_idx pid sp = do {
     latest_accdec \<leftarrow> get_latest_accdec_message pid sp;
     (case latest_accdec of
        Some (i, accdec) \<Rightarrow> Some (set_outgoing_msg i (AcceptDecide (accdec\<lparr>ad_decided_idx := decided_idx\<rparr>)) sp)
      | None \<Rightarrow> send_decide pid decided_idx False sp)
   }"

definition handle_accepted ::
  "('s, 't, 'c, 'p) storage_impl \<Rightarrow> accepted \<Rightarrow> node_id \<Rightarrow> ('s, 't, 'c, 'p) sequence_paxos \<Rightarrow>
     ('s, 't, 'c, 'p) sequence_paxos option" where
  "handle_accepted S accepted from sp =
     (if acc_n accepted = n_leader (sp_leader_state sp) \<and> sp_state sp = (Leader, PhaseAccept) then do {
        ls \<leftarrow> set_accepted_idx from (acc_accepted_idx accepted) (sp_leader_state sp);
        (if acc_accepted_idx accepted > is_get_decided_idx (sp_internal_storage sp)
            \<and> is_chosen (acc_accepted_idx accepted) ls
         then do {
           let decided_idx = acc_accepted_idx accepted;
           (_, st) \<leftarrow> expect (is_set_decided_idx S decided_idx (sp_internal_storage sp));
           followers \<leftarrow> get_promised_followers ls;
           for_each (announce_decided decided_idx) followers
             (sp\<lparr>sp_leader_state := ls, sp_internal_storage := st\<rparr>)
         }
         else Some (upd_leader ls sp))
      }
      else Some sp)"

definition handle_notaccepted ::
  "not_accepted \<Rightarrow> node_id \<Rightarrow> ('s, 't, 'c, 'p) sequence_paxos \<Rightarrow> ('s, 't, 'c, 'p) sequence_paxos option" where
  "handle_notaccepted not_acc from sp =
     (if fst (sp_state sp) = Leader \<and> ballot_lt (n_leader (sp_leader_state sp)) (nacc_n not_acc)
      then do { ls \<leftarrow> lost_promise from (sp_leader_state sp); Some (upd_leader ls sp) }
      else Some sp)"

definition handle_forwarded_proposal ::
  "('s, 't, 'c, 'p) storage_impl \<Rightarrow> 't list \<Rightarrow> ('s, 't, 'c, 'p) sequence_paxos \<Rightarrow>
     ('s, 't, 'c, 'p) sequence_paxos option" where
  "handle_forwarded_proposal S entries sp =
     (if \<not> accepted_reconfiguration sp then
        (case sp_state sp of
           (Leader, PhasePrepare) \<Rightarrow> Some (sp\<lparr>sp_buffered_proposals := sp_buffered_proposals sp @ entries\<rparr>)
         | (Leader, PhaseAccept) \<Rightarrow> accept_entries_leader S entries sp
         | _ \<Rightarrow> Some (forward_proposals entries sp))
      else Some sp)"

definition handle_forwarded_stopsign ::
  "('s, 't, 'c, 'p) storage_impl \<Rightarrow> 'c stop_sign \<Rightarrow> ('s, 't, 'c, 'p) sequence_paxos \<Rightarrow>
     ('s, 't, 'c, 'p) sequence_paxos option" where
  "handle_forwarded_stopsign S ss sp =
     (if accepted_reconfiguration sp then Some sp
      else (case sp_state sp of
           (Leader, PhasePrepare) \<Rightarrow> Some (sp\<lparr>sp_buffered_stopsign := Some ss\<rparr>)
         | (Leader, PhaseAccept) \<Rightarrow> accept_stopsign_leader S ss sp
         | _ \<Rightarrow> Some (forward_stopsign ss sp)))"

definition resend_stopsign_to ::
  "'c stop_sign \<Rightarrow> usize \<Rightarrow> node_id \<Rightarrow> ('s, 't, 'c, 'p) sequence_paxos \<Rightarrow>
     ('s, 't, 'c, 'p) sequence_paxos option" where
  "resend_stopsign_to ss decided_idx follower sp =
     (if is_stopsign_is_decided (sp_internal_storage sp) then send_decide follower decided_idx True sp
      else do {
        a \<leftarrow> get_follower_accepted_idx follower (sp_leader_state sp);
        (if a \<noteq> is_get_accepted_idx (sp_internal_storage sp)
         then send_accept_stopsign follower ss True sp
         else Some sp)
      })"

definition resend_prepares ::
  "('s, 't, 'c, 'p) sequence_paxos \<Rightarrow> ('s, 't, 'c, 'p) sequence_paxos option" where
  "resend_prepares sp = do {
     preparable_peers \<leftarrow> get_preparable_peers (sp_peers sp) (sp_leader_state sp);
     Some (fold send_prepare preparable_peers sp)
   }"

definition resend_messages_leader ::
  "('s, 't, 'c, 'p) sequence_paxos \<Rightarrow> ('s, 't, 'c, 'p) sequence_paxos option" where
  "resend_messages_leader sp =
     (case snd (sp_state sp) of
        PhasePrepare \<Rightarrow> resend_prepares sp
      | PhaseAccept \<Rightarrow> do {
          sp1 \<leftarrow> (case is_get_stopsign (sp_internal_storage sp) of
              Some ss \<Rightarrow> do {
                let decided_idx = is_get_decided_idx (sp_internal_storage sp);
                followers \<leftarrow> get_promised_followers (sp_leader_state sp);
                for_each (resend_stopsign_to ss decided_idx) followers sp
              }
            | None \<Rightarrow> Some sp);
          resend_prepares sp1
        }
      | PhaseRecover \<Rightarrow> Some sp
      | PhaseNone \<Rightarrow> Some sp)"

section \<open>The follower\<close>

definition handle_prepare ::
  "('s, 't, 'c, 'p) storage_impl \<Rightarrow> ('t, 'p) snapshot_impl \<Rightarrow> prepare \<Rightarrow> node_id \<Rightarrow>
     ('s, 't, 'c, 'p) sequence_paxos \<Rightarrow> ('s, 't, 'c, 'p) sequence_paxos option" where
  "handle_prepare S P prep from sp = (
     let old_promise = sp_get_promise sp in
     if ballot_lt old_promise (prep_n prep)
        \<or> (old_promise = prep_n prep \<and> snd (sp_state sp) = PhaseRecover)
     then do {
       (_, st1) \<leftarrow> expect (flush_batch S (sp_internal_storage sp));
       (_, st2) \<leftarrow> expect (is_set_promise S (prep_n prep) st1);
       let sp1 = sp\<lparr>sp_internal_storage := st2, sp_state := (Follower, PhasePrepare),
                    sp_current_seq_num := sequence_number_default\<rparr>;
       let na = is_get_accepted_round st2;
       let accepted_idx = is_get_accepted_idx st2;
       log_sync \<leftarrow>
         (if ballot_lt (prep_n_accepted prep) na
          then do { l \<leftarrow> create_log_sync S P (prep_decided_idx prep) (prep_decided_idx prep) sp1; Some (Some l) }
          else if na = prep_n_accepted prep \<and> accepted_idx > prep_accepted_idx prep
          then do { l \<leftarrow> create_log_sync S P (prep_accepted_idx prep) (prep_decided_idx prep) sp1; Some (Some l) }
          else Some None);
       let promise = \<lparr>prom_n = prep_n prep, prom_n_accepted = na,
                      prom_decided_idx = is_get_decided_idx st2, prom_accepted_idx = accepted_idx,
                      prom_log_sync = log_sync\<rparr>;
       Some (push_msg from (Promise promise) (sp1\<lparr>sp_cached_promise_message := Some promise\<rparr>))
     }
     else Some sp)"

text \<open>The answer of \<^verbatim>\<open>check_valid_ballot\<close>, and the replica after the message it may send.\<close>

definition check_valid_ballot ::
  "ballot \<Rightarrow> ('s, 't, 'c, 'p) sequence_paxos \<Rightarrow> bool \<times> ('s, 't, 'c, 'p) sequence_paxos" where
  "check_valid_ballot message_ballot sp = (
     let my_promise = sp_get_promise sp in
     case ballot_cmp my_promise message_ballot of
       Equal \<Rightarrow> (True, sp)
     | Greater \<Rightarrow> (False, push_msg (b_pid message_ballot) (NotAccepted \<lparr>nacc_n = my_promise\<rparr>) sp)
     | Less \<Rightarrow> (False, sp_reconnected (b_pid message_ballot) sp))"

definition handle_sequence_num ::
  "sequence_number \<Rightarrow> node_id \<Rightarrow> ('s, 't, 'c, 'p) sequence_paxos \<Rightarrow>
     (message_status \<times> ('s, 't, 'c, 'p) sequence_paxos) option" where
  "handle_sequence_num seq_num from sp = do {
     msg_status \<leftarrow> check_msg_status (sp_current_seq_num sp) seq_num;
     Some (msg_status, (case msg_status of
         Expected \<Rightarrow> sp\<lparr>sp_current_seq_num := seq_num\<rparr>
       | DroppedPreceding \<Rightarrow> sp_reconnected from sp
       | Outdated \<Rightarrow> sp))
   }"

definition get_latest_accepted_message ::
  "ballot \<Rightarrow> ('s, 't, 'c, 'p) sequence_paxos \<Rightarrow> (usize \<times> accepted) option option" where
  "get_latest_accepted_message n sp =
     (case sp_latest_accepted_meta sp of
        None \<Rightarrow> Some None
      | Some (bal, outgoing_idx) \<Rightarrow>
          if bal = n then do {
            m \<leftarrow> vec_get (sp_outgoing sp) outgoing_idx;
            Some (case m of
                SequencePaxosMsg pm \<Rightarrow> (case pm_msg pm of Accepted a \<Rightarrow> Some (outgoing_idx, a) | _ \<Rightarrow> None)
              | BLEMsg _ \<Rightarrow> None)
          }
          else Some None)"

definition reply_accepted ::
  "ballot \<Rightarrow> usize \<Rightarrow> ('s, 't, 'c, 'p) sequence_paxos \<Rightarrow> ('s, 't, 'c, 'p) sequence_paxos option" where
  "reply_accepted n accepted_idx sp = do {
     latest_accepted \<leftarrow> get_latest_accepted_message n sp;
     Some (case latest_accepted of
        Some (i, a) \<Rightarrow> set_outgoing_msg i (Accepted (a\<lparr>acc_accepted_idx := accepted_idx\<rparr>)) sp
      | None \<Rightarrow> push_msg (b_pid n) (Accepted \<lparr>acc_n = n, acc_accepted_idx = accepted_idx\<rparr>)
                  (sp\<lparr>sp_latest_accepted_meta := Some (n, length (sp_outgoing sp))\<rparr>))
   }"

definition update_decided_idx_and_get_accepted_idx ::
  "('s, 't, 'c, 'p) storage_impl \<Rightarrow> usize \<Rightarrow> ('s, 't, 'c, 'p) sequence_paxos \<Rightarrow>
     (usize option \<times> ('s, 't, 'c, 'p) sequence_paxos) option" where
  "update_decided_idx_and_get_accepted_idx S new_decided_idx sp =
     (let st = sp_internal_storage sp in
      if new_decided_idx \<le> is_get_decided_idx st then Some (None, sp)
      else if new_decided_idx > is_get_accepted_idx st then do {
        (new_accepted_idx, st1) \<leftarrow> expect (flush_batch S st);
        (_, st2) \<leftarrow> expect (is_set_decided_idx S (min new_decided_idx new_accepted_idx) st1);
        Some (Some new_accepted_idx, upd_storage st2 sp)
      } else do {
        (_, st1) \<leftarrow> expect (is_set_decided_idx S new_decided_idx st);
        Some (None, upd_storage st1 sp)
      })"

definition forward_buffered_proposals ::
  "('s, 't, 'c, 'p) sequence_paxos \<Rightarrow> ('s, 't, 'c, 'p) sequence_paxos" where
  "forward_buffered_proposals sp =
     (let proposals = sp_buffered_proposals sp;
          sp1 = sp\<lparr>sp_buffered_proposals := []\<rparr> in
      if proposals \<noteq> [] then forward_proposals proposals sp1 else sp1)"

definition handle_acceptsync ::
  "('s, 't, 'c, 'p) storage_impl \<Rightarrow> ('t, 'p) snapshot_impl \<Rightarrow> ('t, 'c, 'p) accept_sync \<Rightarrow> node_id \<Rightarrow>
     ('s, 't, 'c, 'p) sequence_paxos \<Rightarrow> ('s, 't, 'c, 'p) sequence_paxos option" where
  "handle_acceptsync S P accsync from sp0 = (
     let (valid, sp) = check_valid_ballot (asy_n accsync) sp0 in
     if valid \<and> sp_state sp = (Follower, PhasePrepare) then do {
       (new_accepted_idx, st) \<leftarrow> expect (sync_log S P (asy_n accsync) (asy_decided_idx accsync)
           (Some (asy_log_sync accsync)) (sp_internal_storage sp));
       let sp1 = sp\<lparr>sp_cached_promise_message := None, sp_internal_storage := st\<rparr>;
       let sp2 = (if is_get_stopsign st = None then forward_buffered_proposals sp1 else sp1);
       let cached_idx = length (sp_outgoing sp2);
       Some (push_msg from (Accepted \<lparr>acc_n = asy_n accsync, acc_accepted_idx = new_accepted_idx\<rparr>)
         (sp2\<lparr>sp_state := (Follower, PhaseAccept), sp_current_seq_num := asy_seq_num accsync,
              sp_latest_accepted_meta := Some (asy_n accsync, cached_idx)\<rparr>))
     }
     else Some sp)"

definition handle_acceptdecide ::
  "('s, 't, 'c, 'p) storage_impl \<Rightarrow> 't accept_decide \<Rightarrow> ('s, 't, 'c, 'p) sequence_paxos \<Rightarrow>
     ('s, 't, 'c, 'p) sequence_paxos option" where
  "handle_acceptdecide S acc_dec sp0 = (
     let (valid, sp) = check_valid_ballot (ad_n acc_dec) sp0 in
     if valid \<and> sp_state sp = (Follower, PhaseAccept) then do {
       (status, sp1) \<leftarrow> handle_sequence_num (ad_seq_num acc_dec) (b_pid (ad_n acc_dec)) sp;
       (if status = Expected then do {
          (idx1, st1) \<leftarrow> expect (append_entries_and_get_accepted_idx S (ad_entries acc_dec)
              (sp_internal_storage sp1));
          (flushed_after_decide, sp2) \<leftarrow>
            update_decided_idx_and_get_accepted_idx S (ad_decided_idx acc_dec) (upd_storage st1 sp1);
          let new_accepted_idx = (if flushed_after_decide \<noteq> None then flushed_after_decide else idx1);
          (case new_accepted_idx of
             Some idx \<Rightarrow> reply_accepted (ad_n acc_dec) idx sp2
           | None \<Rightarrow> Some sp2)
        }
        else Some sp1)
     }
     else Some sp)"

definition handle_accept_stopsign ::
  "('s, 't, 'c, 'p) storage_impl \<Rightarrow> 'c accept_stopsign \<Rightarrow> ('s, 't, 'c, 'p) sequence_paxos \<Rightarrow>
     ('s, 't, 'c, 'p) sequence_paxos option" where
  "handle_accept_stopsign S acc_ss sp0 = (
     let (valid, sp) = check_valid_ballot (ass_n acc_ss) sp0 in
     if valid \<and> sp_state sp = (Follower, PhaseAccept) then do {
       (status, sp1) \<leftarrow> handle_sequence_num (ass_seq_num acc_ss) (b_pid (ass_n acc_ss)) sp;
       (if status = Expected then do {
          (_, st1) \<leftarrow> expect (flush_batch S (sp_internal_storage sp1));
          (new_accepted_idx, st2) \<leftarrow> expect (is_set_stopsign S (Some (ass_ss acc_ss)) st1);
          reply_accepted (ass_n acc_ss) new_accepted_idx (upd_storage st2 sp1)
        }
        else Some sp1)
     }
     else Some sp)"

definition handle_decide ::
  "('s, 't, 'c, 'p) storage_impl \<Rightarrow> decide \<Rightarrow> ('s, 't, 'c, 'p) sequence_paxos \<Rightarrow>
     ('s, 't, 'c, 'p) sequence_paxos option" where
  "handle_decide S dec sp0 = (
     let (valid, sp) = check_valid_ballot (dec_n dec) sp0 in
     if valid \<and> snd (sp_state sp) = PhaseAccept then do {
       (status, sp1) \<leftarrow> handle_sequence_num (dec_seq_num dec) (b_pid (dec_n dec)) sp;
       (if status = Expected then do {
          (new_accepted_idx, sp2) \<leftarrow> update_decided_idx_and_get_accepted_idx S (dec_decided_idx dec) sp1;
          (case new_accepted_idx of
             Some idx \<Rightarrow> reply_accepted (dec_n dec) idx sp2
           | None \<Rightarrow> Some sp2)
        }
        else Some sp1)
     }
     else Some sp)"

definition send_preparereq_to_all_peers ::
  "('s, 't, 'c, 'p) sequence_paxos \<Rightarrow> ('s, 't, 'c, 'p) sequence_paxos" where
  "send_preparereq_to_all_peers sp = push_to_peers (PrepareReq \<lparr>preq_n = sp_get_promise sp\<rparr>) sp"

definition resend_messages_follower ::
  "('s, 't, 'c, 'p) sequence_paxos \<Rightarrow> ('s, 't, 'c, 'p) sequence_paxos" where
  "resend_messages_follower sp =
     (case snd (sp_state sp) of
        PhasePrepare \<Rightarrow>
          (case sp_cached_promise_message sp of
             Some promise \<Rightarrow> push_msg (b_pid (prom_n promise)) (Promise promise) sp
           | None \<Rightarrow> send_preparereq_to_all_peers (sp\<lparr>sp_state := (Follower, PhaseRecover)\<rparr>))
      | PhaseRecover \<Rightarrow> send_preparereq_to_all_peers sp
      | PhaseAccept \<Rightarrow> sp
      | PhaseNone \<Rightarrow> sp)"

definition flush_batch_follower ::
  "('s, 't, 'c, 'p) storage_impl \<Rightarrow> ('s, 't, 'c, 'p) sequence_paxos \<Rightarrow>
     ('s, 't, 'c, 'p) sequence_paxos option" where
  "flush_batch_follower S sp = do {
     let accepted_idx = is_get_accepted_idx (sp_internal_storage sp);
     (new_accepted_idx, st) \<leftarrow> expect (flush_batch S (sp_internal_storage sp));
     let sp1 = upd_storage st sp;
     (if new_accepted_idx > accepted_idx then reply_accepted (sp_get_promise sp1) new_accepted_idx sp1
      else Some sp1)
   }"

section \<open>User calls\<close>

definition sequence_paxos_with ::
  "('s, 't, 'c, 'p) storage_impl \<Rightarrow> sequence_paxos_config \<Rightarrow> 's \<Rightarrow> ('s, 't, 'c, 'p) sequence_paxos option" where
  "sequence_paxos_with S config storage = do {
     let pid = spc_pid config;
     let peers = spc_peers config;
     let num_nodes = length peers + 1;
     let quorum = quorum_with (spc_flexible_quorum config) num_nodes;
     max_peer_pid \<leftarrow> max_last id peers;
     let maxpid = max max_peer_pid pid;
     stored_promise \<leftarrow> expect_get (st_get_promise S storage);
     let (state, leader, outgoing) = (case stored_promise of
         Some b \<Rightarrow> ((Follower, PhaseRecover), b,
            map (\<lambda>peer_pid. paxos_envelope pid peer_pid (PrepareReq \<lparr>preq_n = b\<rparr>)) peers)
       | None \<Rightarrow> ((Follower, PhaseNone), ballot_default, []));
     st \<leftarrow> internal_storage_with S storage (spc_batch_size config);
     (_, st1) \<leftarrow> expect (is_set_promise S leader st);
     Some \<lparr>sp_internal_storage = st1,
           sp_pid = pid,
           sp_peers = peers,
           sp_state = state,
           sp_buffered_proposals = [],
           sp_buffered_stopsign = None,
           sp_outgoing = outgoing,
           sp_leader_state = leader_state_with leader maxpid quorum,
           sp_latest_accepted_meta = None,
           sp_current_seq_num = sequence_number_default,
           sp_cached_promise_message = None\<rparr>
   }"

text \<open>\<^verbatim>\<open>result.map_err(|e| *e.downcast().expect(..))\<close>: only compaction errors come back.\<close>

definition downcast_compaction :: "unit storage_result \<Rightarrow> (compaction_err + unit) option" where
  "downcast_compaction r =
     (case r of
        Inr u \<Rightarrow> Some (Inr u)
      | Inl (CompactionError e) \<Rightarrow> Some (Inl e)
      | Inl (BackendError _) \<Rightarrow> None)"

definition sp_trim ::
  "('s, 't, 'c, 'p) storage_impl \<Rightarrow> usize option \<Rightarrow> ('s, 't, 'c, 'p) sequence_paxos \<Rightarrow>
     ((compaction_err + unit) \<times> ('s, 't, 'c, 'p) sequence_paxos) option" where
  "sp_trim S trim_idx sp =
     (if fst (sp_state sp) = Leader then do {
        min_all_accepted_idx \<leftarrow> get_min_all_accepted_idx (sp_leader_state sp);
        (case (case trim_idx of
                 Some idx \<Rightarrow> (if idx \<le> min_all_accepted_idx then Some idx else None)
               | None \<Rightarrow> Some min_all_accepted_idx) of
           None \<Rightarrow> Some (Inl (NotAllDecided min_all_accepted_idx), sp)
         | Some trimmed_idx \<Rightarrow> do {
             (result, st) \<leftarrow> try_trim S trimmed_idx (sp_internal_storage sp);
             let sp1 = upd_storage st sp;
             let sp2 = (if is_ok result then push_to_peers (Compaction (CompactTrim trimmed_idx)) sp1 else sp1);
             r \<leftarrow> downcast_compaction result;
             Some (r, sp2)
           })
      }
      else Some (Inl (NotCurrentLeader (sp_get_current_leader sp)), sp))"

definition sp_snapshot ::
  "('s, 't, 'c, 'p) storage_impl \<Rightarrow> ('t, 'p) snapshot_impl \<Rightarrow> usize option \<Rightarrow> bool \<Rightarrow>
     ('s, 't, 'c, 'p) sequence_paxos \<Rightarrow>
     ((compaction_err + unit) \<times> ('s, 't, 'c, 'p) sequence_paxos) option" where
  "sp_snapshot S P idx local_only sp = do {
     (result, st) \<leftarrow> try_snapshot S P idx (sp_internal_storage sp);
     let sp1 = upd_storage st sp;
     let sp2 = (if \<not> local_only \<and> is_ok result
                then push_to_peers (Compaction (CompactSnapshot idx)) sp1 else sp1);
     r \<leftarrow> downcast_compaction result;
     Some (r, sp2)
   }"

definition handle_compaction ::
  "('s, 't, 'c, 'p) storage_impl \<Rightarrow> ('t, 'p) snapshot_impl \<Rightarrow> compaction \<Rightarrow>
     ('s, 't, 'c, 'p) sequence_paxos \<Rightarrow> ('s, 't, 'c, 'p) sequence_paxos option" where
  "handle_compaction S P c sp =
     (case c of
        CompactTrim idx \<Rightarrow> do { (_, st) \<leftarrow> try_trim S idx (sp_internal_storage sp); Some (upd_storage st sp) }
      | CompactSnapshot idx \<Rightarrow> do { (_, sp1) \<leftarrow> sp_snapshot S P idx True sp; Some sp1 })"

definition propose_entry ::
  "('s, 't, 'c, 'p) storage_impl \<Rightarrow> 't \<Rightarrow> ('s, 't, 'c, 'p) sequence_paxos \<Rightarrow>
     ('s, 't, 'c, 'p) sequence_paxos option" where
  "propose_entry S entry sp =
     (case sp_state sp of
        (Leader, PhasePrepare) \<Rightarrow> Some (sp\<lparr>sp_buffered_proposals := sp_buffered_proposals sp @ [entry]\<rparr>)
      | (Leader, PhaseAccept) \<Rightarrow> accept_entry_leader S entry sp
      | _ \<Rightarrow> Some (forward_proposals [entry] sp))"

definition sp_append ::
  "('s, 't, 'c, 'p) storage_impl \<Rightarrow> 't \<Rightarrow> ('s, 't, 'c, 'p) sequence_paxos \<Rightarrow>
     ((('t, 'c) propose_err + unit) \<times> ('s, 't, 'c, 'p) sequence_paxos) option" where
  "sp_append S entry sp =
     (if accepted_reconfiguration sp then Some (Inl (PendingReconfigEntry entry), sp)
      else do { sp1 \<leftarrow> propose_entry S entry sp; Some (Inr (), sp1) })"

definition sp_reconfigure ::
  "('s, 't, 'c, 'p) storage_impl \<Rightarrow> 'c \<Rightarrow> u8 list option \<Rightarrow> ('s, 't, 'c, 'p) sequence_paxos \<Rightarrow>
     ((('t, 'c) propose_err + unit) \<times> ('s, 't, 'c, 'p) sequence_paxos) option" where
  "sp_reconfigure S new_config metadata sp =
     (if accepted_reconfiguration sp then Some (Inl (PendingReconfigConfig new_config metadata), sp)
      else do {
        let ss = stop_sign_with new_config metadata;
        sp1 \<leftarrow> (case sp_state sp of
            (Leader, PhasePrepare) \<Rightarrow> Some (sp\<lparr>sp_buffered_stopsign := Some ss\<rparr>)
          | (Leader, PhaseAccept) \<Rightarrow> accept_stopsign_leader S ss sp
          | _ \<Rightarrow> Some (forward_stopsign ss sp));
        Some (Inr (), sp1)
      })"

definition resend_message_timeout ::
  "('s, 't, 'c, 'p) sequence_paxos \<Rightarrow> ('s, 't, 'c, 'p) sequence_paxos option" where
  "resend_message_timeout sp =
     (case fst (sp_state sp) of
        Leader \<Rightarrow> resend_messages_leader sp
      | Follower \<Rightarrow> Some (resend_messages_follower sp))"

definition flush_batch_timeout ::
  "('s, 't, 'c, 'p) storage_impl \<Rightarrow> ('s, 't, 'c, 'p) sequence_paxos \<Rightarrow>
     ('s, 't, 'c, 'p) sequence_paxos option" where
  "flush_batch_timeout S sp =
     (case sp_state sp of
        (Leader, PhaseAccept) \<Rightarrow> flush_batch_leader S sp
      | (Follower, PhaseAccept) \<Rightarrow> flush_batch_follower S sp
      | _ \<Rightarrow> Some sp)"

definition take_outgoing_msgs ::
  "('t, 'c, 'p) message list \<Rightarrow> ('s, 't, 'c, 'p) sequence_paxos \<Rightarrow>
     ('t, 'c, 'p) message list \<times> ('s, 't, 'c, 'p) sequence_paxos" where
  "take_outgoing_msgs buffer sp =
     (let (buffer1, rest) =
            (if buffer = [] then (sp_outgoing sp, buffer) else (buffer @ sp_outgoing sp, [])) in
      (buffer1, sp\<lparr>sp_outgoing := rest,
                   sp_leader_state := reset_latest_accept_meta (sp_leader_state sp),
                   sp_latest_accepted_meta := None\<rparr>))"

definition sp_handle ::
  "('s, 't, 'c, 'p) storage_impl \<Rightarrow> ('t, 'p) snapshot_impl \<Rightarrow> ('t, 'c, 'p) paxos_message \<Rightarrow>
     ('s, 't, 'c, 'p) sequence_paxos \<Rightarrow> ('s, 't, 'c, 'p) sequence_paxos option" where
  "sp_handle S P m sp =
     (case pm_msg m of
        PrepareReq prepreq \<Rightarrow> handle_preparereq prepreq (pm_from m) sp
      | Prepare prep \<Rightarrow> handle_prepare S P prep (pm_from m) sp
      | Promise prom \<Rightarrow> (case sp_state sp of
            (Leader, PhasePrepare) \<Rightarrow> handle_promise_prepare S P prom (pm_from m) sp
          | (Leader, PhaseAccept) \<Rightarrow> handle_promise_accept S P prom (pm_from m) sp
          | _ \<Rightarrow> Some sp)
      | AcceptSync acc_sync \<Rightarrow> handle_acceptsync S P acc_sync (pm_from m) sp
      | AcceptDecide acc \<Rightarrow> handle_acceptdecide S acc sp
      | NotAccepted not_acc \<Rightarrow> handle_notaccepted not_acc (pm_from m) sp
      | Accepted accepted \<Rightarrow> handle_accepted S accepted (pm_from m) sp
      | Decide d \<Rightarrow> handle_decide S d sp
      | ProposalForward proposals \<Rightarrow> handle_forwarded_proposal S proposals sp
      | Compaction c \<Rightarrow> handle_compaction S P c sp
      | AcceptStopSign acc_ss \<Rightarrow> handle_accept_stopsign S acc_ss sp
      | ForwardStopSign f_ss \<Rightarrow> handle_forwarded_stopsign S f_ss sp)"

end
