(* ===== verification/Omni_Paxos.thy ===== *)
theory Omni_Paxos
  imports Sequence_Paxos
begin

text \<open>
  An OmniPaxos server (\<^verbatim>\<open>omnipaxos/src/omni_paxos.rs\<close>): the replica, the election and the three
  logical clocks, with the calls of the public interface; the states shown by the user interface
  (\<^verbatim>\<open>omnipaxos/src/utils/ui.rs\<close>). The cluster configuration inside a stop sign is the
  \<open>cluster_config\<close> of the library.
\<close>

record ('s, 't, 'p) omni_paxos =
  op_seq_paxos :: "('s, 't, cluster_config, 'p) sequence_paxos"
  op_ble :: ballot_leader_election
  op_election_clock :: logical_clock
  op_resend_message_clock :: logical_clock
  op_flush_batch_clock :: logical_clock

definition omni_paxos_build ::
  "('s, 't, cluster_config, 'p) storage_impl \<Rightarrow> omni_paxos_config \<Rightarrow> 's \<Rightarrow>
     (config_error + ('s, 't, 'p) omni_paxos) option" where
  "omni_paxos_build S config storage =
     (case omni_paxos_config_validate config of
        Inl e \<Rightarrow> Some (Inl e)
      | Inr _ \<Rightarrow> do {
          recovered_leader \<leftarrow> expect_get (st_get_promise S storage);
          ble \<leftarrow> ble_with (ble_config_from config) recovered_leader;
          sp \<leftarrow> sequence_paxos_with S (sequence_paxos_config_from config) storage;
          Some (Inr \<lparr>
            op_seq_paxos = sp,
            op_ble = ble,
            op_election_clock = logical_clock_with (sc_election_tick_timeout (server_config_of config)),
            op_resend_message_clock = logical_clock_with (sc_resend_message_tick_timeout (server_config_of config)),
            op_flush_batch_clock = logical_clock_with (sc_flush_batch_tick_timeout (server_config_of config))\<rparr>)
        })"

definition build_for_server ::
  "('s, 't, cluster_config, 'p) storage_impl \<Rightarrow> cluster_config \<Rightarrow> server_config \<Rightarrow> 's \<Rightarrow>
     (config_error + ('s, 't, 'p) omni_paxos) option" where
  "build_for_server S cc sc with_storage =
     omni_paxos_build S \<lparr>cluster_config_of = cc, server_config_of = sc\<rparr> with_storage"

text \<open>A call on the replica.\<close>

definition on_seq_paxos ::
  "(('s, 't, cluster_config, 'p) sequence_paxos \<Rightarrow> ('r \<times> ('s, 't, cluster_config, 'p) sequence_paxos) option) \<Rightarrow>
     ('s, 't, 'p) omni_paxos \<Rightarrow> ('r \<times> ('s, 't, 'p) omni_paxos) option" where
  "on_seq_paxos f om = map_option (\<lambda>(r, sp). (r, om\<lparr>op_seq_paxos := sp\<rparr>)) (f (op_seq_paxos om))"

definition omni_trim ::
  "('s, 't, cluster_config, 'p) storage_impl \<Rightarrow> usize option \<Rightarrow> ('s, 't, 'p) omni_paxos \<Rightarrow>
     ((compaction_err + unit) \<times> ('s, 't, 'p) omni_paxos) option" where
  "omni_trim S trim_index = on_seq_paxos (sp_trim S trim_index)"

definition omni_snapshot ::
  "('s, 't, cluster_config, 'p) storage_impl \<Rightarrow> ('t, 'p) snapshot_impl \<Rightarrow> usize option \<Rightarrow> bool \<Rightarrow>
     ('s, 't, 'p) omni_paxos \<Rightarrow> ((compaction_err + unit) \<times> ('s, 't, 'p) omni_paxos) option" where
  "omni_snapshot S P compact_idx local_only = on_seq_paxos (sp_snapshot S P compact_idx local_only)"

definition omni_get_decided_idx :: "('s, 't, 'p) omni_paxos \<Rightarrow> usize" where
  "omni_get_decided_idx om = sp_get_decided_idx (op_seq_paxos om)"

definition omni_get_compacted_idx :: "('s, 't, 'p) omni_paxos \<Rightarrow> usize" where
  "omni_get_compacted_idx om = sp_get_compacted_idx (op_seq_paxos om)"

definition omni_get_promise :: "('s, 't, 'p) omni_paxos \<Rightarrow> ballot" where
  "omni_get_promise om = sp_get_promise (op_seq_paxos om)"

definition get_current_leader :: "('s, 't, 'p) omni_paxos \<Rightarrow> (node_id \<times> bool) option" where
  "get_current_leader om =
     (let promised_pid = b_pid (sp_get_promise (op_seq_paxos om)) in
      if promised_pid = 0 then None
      else Some (promised_pid, snd (sp_state (op_seq_paxos om)) = PhaseAccept))"

definition take_outgoing_messages ::
  "('t, cluster_config, 'p) message list \<Rightarrow> ('s, 't, 'p) omni_paxos \<Rightarrow>
     ('t, cluster_config, 'p) message list \<times> ('s, 't, 'p) omni_paxos" where
  "take_outgoing_messages buffer om =
     (let (buffer1, sp) = take_outgoing_msgs buffer (op_seq_paxos om);
          (drained, ble) = drain_ble_outgoing (op_ble om)
      in (buffer1 @ map BLEMsg drained, om\<lparr>op_seq_paxos := sp, op_ble := ble\<rparr>))"

definition omni_read ::
  "('s, 't, cluster_config, 'p) storage_impl \<Rightarrow> usize \<Rightarrow> ('s, 't, 'p) omni_paxos \<Rightarrow>
     ('t, cluster_config, 'p) log_entry option option" where
  "omni_read S idx om = do {
     v \<leftarrow> expect_get (read_range S (Included idx) (Excluded (idx + 1)) (sp_internal_storage (op_seq_paxos om)));
     Some (case v of Some es \<Rightarrow> (if es = [] then None else Some (last es)) | None \<Rightarrow> None)
   }"

definition read_entries ::
  "('s, 't, cluster_config, 'p) storage_impl \<Rightarrow> bound \<Rightarrow> bound \<Rightarrow> ('s, 't, 'p) omni_paxos \<Rightarrow>
     ('t, cluster_config, 'p) log_entry list option option" where
  "read_entries S start_bound end_bound om =
     expect_get (read_range S start_bound end_bound (sp_internal_storage (op_seq_paxos om)))"

definition read_decided_suffix ::
  "('s, 't, cluster_config, 'p) storage_impl \<Rightarrow> usize \<Rightarrow> ('s, 't, 'p) omni_paxos \<Rightarrow>
     ('t, cluster_config, 'p) log_entry list option option" where
  "read_decided_suffix S from_idx om =
     expect_get (is_read_decided_suffix S from_idx (sp_internal_storage (op_seq_paxos om)))"

definition handle_incoming ::
  "('s, 't, cluster_config, 'p) storage_impl \<Rightarrow> ('t, 'p) snapshot_impl \<Rightarrow>
     ('t, cluster_config, 'p) message \<Rightarrow> ('s, 't, 'p) omni_paxos \<Rightarrow> ('s, 't, 'p) omni_paxos option" where
  "handle_incoming S P m om =
     (case m of
        SequencePaxosMsg p \<Rightarrow> do { sp \<leftarrow> sp_handle S P p (op_seq_paxos om); Some (om\<lparr>op_seq_paxos := sp\<rparr>) }
      | BLEMsg b \<Rightarrow> Some (om\<lparr>op_ble := ble_handle b (op_ble om)\<rparr>))"

definition is_reconfigured :: "('s, 't, 'p) omni_paxos \<Rightarrow> cluster_config stop_sign option" where
  "is_reconfigured om = sp_is_reconfigured (op_seq_paxos om)"

definition omni_append ::
  "('s, 't, cluster_config, 'p) storage_impl \<Rightarrow> 't \<Rightarrow> ('s, 't, 'p) omni_paxos \<Rightarrow>
     ((('t, cluster_config) propose_err + unit) \<times> ('s, 't, 'p) omni_paxos) option" where
  "omni_append S entry = on_seq_paxos (sp_append S entry)"

definition omni_reconfigure ::
  "('s, 't, cluster_config, 'p) storage_impl \<Rightarrow> cluster_config \<Rightarrow> u8 list option \<Rightarrow> ('s, 't, 'p) omni_paxos \<Rightarrow>
     ((('t, cluster_config) propose_err + unit) \<times> ('s, 't, 'p) omni_paxos) option" where
  "omni_reconfigure S new_configuration metadata om =
     (case cluster_config_validate new_configuration of
        Inl config_error \<Rightarrow> Some (Inl (ConfigErr config_error new_configuration metadata), om)
      | Inr _ \<Rightarrow> on_seq_paxos (sp_reconfigure S new_configuration metadata) om)"

definition reconnected :: "node_id \<Rightarrow> ('s, 't, 'p) omni_paxos \<Rightarrow> ('s, 't, 'p) omni_paxos" where
  "reconnected pid om = om\<lparr>op_seq_paxos := sp_reconnected pid (op_seq_paxos om)\<rparr>"

definition election_timeout ::
  "('s, 't, cluster_config, 'p) storage_impl \<Rightarrow> ('s, 't, 'p) omni_paxos \<Rightarrow> ('s, 't, 'p) omni_paxos option" where
  "election_timeout S om = do {
     (res, ble) \<leftarrow> hb_timeout (sp_state (op_seq_paxos om)) (sp_get_promise (op_seq_paxos om)) (op_ble om);
     let om1 = om\<lparr>op_ble := ble\<rparr>;
     (case res of
        Some new_leader \<Rightarrow> do {
          sp \<leftarrow> handle_leader S new_leader (op_seq_paxos om1);
          Some (om1\<lparr>op_seq_paxos := sp\<rparr>)
        }
      | None \<Rightarrow> Some om1)
   }"

definition tick ::
  "('s, 't, cluster_config, 'p) storage_impl \<Rightarrow> ('s, 't, 'p) omni_paxos \<Rightarrow> ('s, 't, 'p) omni_paxos option" where
  "tick S om = do {
     (elect, c1) \<leftarrow> tick_and_check_timeout (op_election_clock om);
     om1 \<leftarrow> (if elect then election_timeout S (om\<lparr>op_election_clock := c1\<rparr>)
             else Some (om\<lparr>op_election_clock := c1\<rparr>));
     (resend, c2) \<leftarrow> tick_and_check_timeout (op_resend_message_clock om1);
     let om2 = om1\<lparr>op_resend_message_clock := c2\<rparr>;
     om3 \<leftarrow> (if resend then do { sp \<leftarrow> resend_message_timeout (op_seq_paxos om2); Some (om2\<lparr>op_seq_paxos := sp\<rparr>) }
             else Some om2);
     (flush, c3) \<leftarrow> tick_and_check_timeout (op_flush_batch_clock om3);
     let om4 = om3\<lparr>op_flush_batch_clock := c3\<rparr>;
     (if flush then do { sp \<leftarrow> flush_batch_timeout S (op_seq_paxos om4); Some (om4\<lparr>op_seq_paxos := sp\<rparr>) }
      else Some om4)
   }"

definition try_become_leader ::
  "('s, 't, cluster_config, 'p) storage_impl \<Rightarrow> ('s, 't, 'p) omni_paxos \<Rightarrow> ('s, 't, 'p) omni_paxos option" where
  "try_become_leader S om = do {
     n \<leftarrow> checked_inc (b_n (sp_get_promise (op_seq_paxos om)));
     sp \<leftarrow> handle_leader S ((get_current_ballot (op_ble om))\<lparr>b_n := n\<rparr>) (op_seq_paxos om);
     Some (om\<lparr>op_seq_paxos := sp\<rparr>)
   }"

definition set_priority :: "u32 \<Rightarrow> ('s, 't, 'p) omni_paxos \<Rightarrow> ('s, 't, 'p) omni_paxos" where
  "set_priority p om = om\<lparr>op_ble := ble_set_priority p (op_ble om)\<rparr>"

section \<open>The states of the user interface\<close>

record cluster_state =
  cs_accepted_indexes :: "usize list"
  cs_heartbeats :: "heartbeat_reply list"

definition cluster_state_from :: "('t, 'c, 'p) leader_state \<Rightarrow> cluster_state" where
  "cluster_state_from ls = \<lparr>cs_accepted_indexes = 0 # accepted_indexes ls, cs_heartbeats = []\<rparr>"

record omni_paxos_states =
  ops_current_ballot :: ballot
  ops_current_leader :: "node_id option"
  ops_decided_idx :: usize
  ops_heartbeats :: "heartbeat_reply list"
  ops_cluster_state :: cluster_state

definition get_ui_states :: "('s, 't, 'p) omni_paxos \<Rightarrow> omni_paxos_states" where
  "get_ui_states om = \<lparr>
     ops_current_ballot = get_current_ballot (op_ble om),
     ops_current_leader = map_option fst (get_current_leader om),
     ops_decided_idx = omni_get_decided_idx om,
     ops_heartbeats = get_ballots (op_ble om),
     ops_cluster_state = (cluster_state_from (sp_leader_state (op_seq_paxos om)))
       \<lparr>cs_heartbeats := get_ballots (op_ble om)\<rparr>\<rparr>"

end
