(* ===== verification/Leader_State_Facts.thy ===== *)
theory Leader_State_Facts
  imports Leader_State
begin

text \<open>
  Facts on the leader's book-keeping: the vectors have one cell per process identifier, every
  operation on a known process succeeds and keeps that shape, the promise quorum and the chosen
  indexes are counted over processes, and the maximal promise is an upper bound of the promises
  received in the prepare phase.
\<close>

section \<open>Shape\<close>

definition wf_leader :: "('t, 'c, 'p) leader_state \<Rightarrow> bool" where
  "wf_leader ls \<longleftrightarrow>
     length (promises_meta ls) = max_pid ls \<and> length (follower_seq_nums ls) = max_pid ls \<and>
     length (accepted_indexes ls) = max_pid ls \<and> length (latest_accept_meta ls) = max_pid ls"

definition known_pid :: "('t, 'c, 'p) leader_state \<Rightarrow> node_id \<Rightarrow> bool" where
  "known_pid ls pid \<longleftrightarrow> 1 \<le> pid \<and> pid \<le> max_pid ls"

lemma pid_to_idx_eq_Some: "pid_to_idx pid = Some i \<longleftrightarrow> pid = Suc i"
  by (cases pid) (auto simp: pid_to_idx_def checked_sub_def)

lemma pid_to_idx_known [simp]: "1 \<le> pid \<Longrightarrow> pid_to_idx pid = Some (pid - 1)"
  by (simp add: pid_to_idx_def)

lemma leader_state_with_wf [simp]: "wf_leader (leader_state_with n m q)"
  by (simp add: wf_leader_def leader_state_with_def)

text \<open>What an operation leaves alone: the round, the number of processes and the quorum.\<close>

definition same_round :: "('t, 'c, 'p) leader_state \<Rightarrow> ('t, 'c, 'p) leader_state \<Rightarrow> bool" where
  "same_round ls ls' \<longleftrightarrow>
     n_leader ls' = n_leader ls \<and> max_pid ls' = max_pid ls \<and> ls_quorum ls' = ls_quorum ls \<and>
     (wf_leader ls \<longrightarrow> wf_leader ls')"

lemma same_round_refl [simp]: "same_round ls ls"
  by (simp add: same_round_def)

lemma same_round_trans [trans]: "same_round a b \<Longrightarrow> same_round b c \<Longrightarrow> same_round a c"
  by (simp add: same_round_def)

lemmas leader_update_unfold =
  leader_state_defs bind_eq_Some_conv vec_set_eq_Some vec_get_eq_Some checked_sub_eq_Some
  checked_inc_eq_Some Let_def

text \<open>Every update of one cell, characterised.\<close>

lemma set_promise_state_eq:
  "set_promise_state st pid ls = Some ls' \<longleftrightarrow>
     1 \<le> pid \<and> pid - 1 < length (promises_meta ls) \<and> ls' = ls\<lparr>promises_meta := (promises_meta ls)[pid - 1 := st]\<rparr>"
  by (auto simp: leader_update_unfold)

lemma set_accepted_idx_eq:
  "set_accepted_idx pid i ls = Some ls' \<longleftrightarrow>
     1 \<le> pid \<and> pid - 1 < length (accepted_indexes ls) \<and>
     ls' = ls\<lparr>accepted_indexes := (accepted_indexes ls)[pid - 1 := i]\<rparr>"
  by (auto simp: leader_update_unfold)

lemma set_latest_accept_meta_eq:
  "set_latest_accept_meta pid i ls = Some ls' \<longleftrightarrow>
     1 \<le> pid \<and> pid - 1 < length (latest_accept_meta ls) \<and>
     ls' = ls\<lparr>latest_accept_meta := (latest_accept_meta ls)[pid - 1 := map_option (\<lambda>x. (n_leader ls, x)) i]\<rparr>"
  by (auto simp: leader_update_unfold)

lemma next_seq_num_eq:
  "next_seq_num pid ls = Some (sn, ls') \<longleftrightarrow>
     1 \<le> pid \<and> pid - 1 < length (follower_seq_nums ls) \<and>
     sn_counter (follower_seq_nums ls ! (pid - 1)) \<noteq> - 1 \<and>
     sn = (follower_seq_nums ls ! (pid - 1))\<lparr>sn_counter := sn_counter (follower_seq_nums ls ! (pid - 1)) + 1\<rparr> \<and>
     ls' = ls\<lparr>follower_seq_nums := (follower_seq_nums ls)[pid - 1 := sn]\<rparr>"
  by (auto simp: leader_update_unfold)

lemma increment_seq_num_session_eq:
  "increment_seq_num_session pid ls = Some ls' \<longleftrightarrow>
     1 \<le> pid \<and> pid - 1 < length (follower_seq_nums ls) \<and>
     sn_session (follower_seq_nums ls ! (pid - 1)) \<noteq> - 1 \<and>
     ls' = ls\<lparr>follower_seq_nums := (follower_seq_nums ls)[pid - 1 :=
       \<lparr>sn_session = sn_session (follower_seq_nums ls ! (pid - 1)) + 1, sn_counter = 0\<rparr>]\<rparr>"
  by (cases "follower_seq_nums ls ! (pid - 1)") (auto simp: leader_update_unfold)

lemma set_promise_eq:
  assumes "set_promise prom from chk ls = Some (b, ls')"
  shows "1 \<le> from" "from - 1 < length (promises_meta ls)"
    and "promises_meta ls' = (promises_meta ls)[from - 1 := Promised
           \<lparr>pmd_n_accepted = prom_n_accepted prom, pmd_accepted_idx = prom_accepted_idx prom,
            pmd_decided_idx = prom_decided_idx prom, pmd_pid = from\<rparr>]"
    and "b = is_prepare_quorum (ls_quorum ls) (num_promised ls')"
    and "same_round ls ls'" "accepted_indexes ls' = accepted_indexes ls"
    and "follower_seq_nums ls' = follower_seq_nums ls" "latest_accept_meta ls' = latest_accept_meta ls"
  using assms by (auto simp: leader_update_unfold same_round_def wf_leader_def split: if_splits)

lemma set_promise_known:
  assumes "wf_leader ls" "known_pid ls from"
  shows "\<exists>b ls'. set_promise prom from chk ls = Some (b, ls')"
  using assms by (auto simp: set_promise_def wf_leader_def known_pid_def Let_def vec_set_def)

lemma cell_updates_same_round:
  "set_promise_state st pid ls = Some ls' \<Longrightarrow> same_round ls ls'"
  "set_accepted_idx pid i ls = Some ls' \<Longrightarrow> same_round ls ls'"
  "set_latest_accept_meta pid j ls = Some ls' \<Longrightarrow> same_round ls ls'"
  "next_seq_num pid ls = Some (sn, ls') \<Longrightarrow> same_round ls ls'"
  "increment_seq_num_session pid ls = Some ls' \<Longrightarrow> same_round ls ls'"
  by (auto simp: set_promise_state_eq set_accepted_idx_eq set_latest_accept_meta_eq next_seq_num_eq
      increment_seq_num_session_eq same_round_def wf_leader_def)

section \<open>Sequence numbers of the accept phase\<close>

text \<open>
  The number of the next message is the one a follower expects that has seen the previous one; the
  first message of a new session is expected by nobody, so that the follower asks for a new prepare
  unless it is an \<^verbatim>\<open>AcceptSync\<close>.
\<close>

lemma next_seq_num_expected:
  assumes "get_seq_num pid ls = Some old" "next_seq_num pid ls = Some (sn, ls')"
  shows "check_msg_status old sn = Some Expected" "get_seq_num pid ls' = Some sn"
  using assms
  by (auto simp: next_seq_num_eq check_msg_status_Expected get_seq_num_def bind_eq_Some_conv
      pid_to_idx_eq_Some vec_get_eq_Some)

lemma next_seq_num_unique:
  assumes "get_seq_num pid ls = Some old" "next_seq_num pid ls = Some (sn, ls')"
    "check_msg_status old other = Some Expected"
  shows "other = sn"
  using assms
  by (cases other; cases old)
    (auto simp: next_seq_num_eq check_msg_status_Expected get_seq_num_def bind_eq_Some_conv
      pid_to_idx_eq_Some vec_get_eq_Some)

lemma new_session_unexpected:
  assumes "next_seq_num pid ls = Some (sn, ls')" "increment_seq_num_session pid ls' = Some ls1"
    "next_seq_num pid ls1 = Some (sn', ls2)"
  shows "check_msg_status sn sn' = Some DroppedPreceding"
proof -
  have s: "sn_session sn' = sn_session sn + 1" "sn_session sn \<noteq> - 1"
    using assms by (auto simp: next_seq_num_eq increment_seq_num_session_eq)
  then have "sn_session sn < sn_session sn'"
    using checked_inc_greater [of "sn_session sn"] by (simp add: checked_inc_def)
  then show ?thesis
    by (auto simp: check_msg_status_def seq_le_def seq_key_def less_eq_prod_def)
qed

section \<open>Followers\<close>

lemma promised_followers_from_eq:
  assumes "1 \<le> leader"
  shows "promised_followers_from k leader xs =
    Some (map Suc (filter (\<lambda>i. is_promised (xs ! (i - k)) \<and> Suc i \<noteq> leader) [k..<k + length xs]))"
proof (induction xs arbitrary: k)
  case Nil
  show ?case by simp
next
  case (Cons x xs)
  have shift: "filter (\<lambda>i. is_promised ((x # xs) ! (i - k)) \<and> Suc i \<noteq> leader) [Suc k..<Suc k + length xs]
      = filter (\<lambda>i. is_promised (xs ! (i - Suc k)) \<and> Suc i \<noteq> leader) [Suc k..<Suc k + length xs]"
    by (rule filter_cong) (auto simp: Suc_le_eq)
  have up: "[k..<k + length (x # xs)] = k # [Suc k..<Suc k + length xs]"
    using upt_rec [of k "Suc k + length xs"] by simp
  have l: "Suc k \<noteq> leader \<longleftrightarrow> k \<noteq> leader - 1" using assms by auto
  show ?case
    unfolding up using Cons.IH [of "Suc k"] shift assms l by (cases x) auto
qed

lemma get_promised_followers_eq:
  assumes "1 \<le> b_pid (n_leader ls)"
  shows "\<exists>fs. get_promised_followers ls = Some fs \<and> distinct fs \<and>
    set fs = {pid. 1 \<le> pid \<and> pid \<le> length (promises_meta ls) \<and> pid \<noteq> b_pid (n_leader ls)
                   \<and> is_promised (promises_meta ls ! (pid - 1))}"
proof -
  let ?is = "filter (\<lambda>i. is_promised (promises_meta ls ! i) \<and> Suc i \<noteq> b_pid (n_leader ls)) [0..<length (promises_meta ls)]"
  have "get_promised_followers ls = Some (map Suc ?is)"
    using promised_followers_from_eq [OF assms, of 0 "promises_meta ls"] by (simp add: get_promised_followers_def)
  moreover have "distinct (map Suc ?is)" by (simp add: distinct_map)
  moreover have "set (map Suc ?is) = {pid. 1 \<le> pid \<and> pid \<le> length (promises_meta ls) \<and> pid \<noteq> b_pid (n_leader ls)
                   \<and> is_promised (promises_meta ls ! (pid - 1))}"
    by (force simp: image_iff Suc_le_eq intro: exI [of _ "_ - 1"])
  ultimately show ?thesis by blast
qed

lemma promised_followers_in:
  assumes "get_promised_followers ls = Some fs" "pid \<in> set fs" "1 \<le> b_pid (n_leader ls)"
  shows "1 \<le> pid" "pid \<le> length (promises_meta ls)" "pid \<noteq> b_pid (n_leader ls)"
    "is_promised (promises_meta ls ! (pid - 1))"
  using get_promised_followers_eq [OF assms(3)] assms(1,2) by auto

section \<open>Counting processes\<close>

text \<open>The processes that are promised, and those that have accepted up to an index.\<close>

definition promised_pids :: "('t, 'c, 'p) leader_state \<Rightarrow> node_id set" where
  "promised_pids ls = {pid. 1 \<le> pid \<and> pid \<le> length (promises_meta ls) \<and> is_promised (promises_meta ls ! (pid - 1))}"

definition accepted_pids :: "usize \<Rightarrow> ('t, 'c, 'p) leader_state \<Rightarrow> node_id set" where
  "accepted_pids idx ls = {pid. 1 \<le> pid \<and> pid \<le> length (accepted_indexes ls) \<and> idx \<le> accepted_indexes ls ! (pid - 1)}"

lemma length_filter_card: "length (filter P xs) = card {pid. 1 \<le> pid \<and> pid \<le> length xs \<and> P (xs ! (pid - 1))}"
proof -
  have "{pid. 1 \<le> pid \<and> pid \<le> length xs \<and> P (xs ! (pid - 1))} = Suc ` {i. i < length xs \<and> P (xs ! i)}"
    by (force simp: image_iff Suc_le_eq intro: exI [of _ "_ - 1"])
  then show ?thesis
    by (simp add: length_filter_conv_card card_image)
qed

lemma num_promised_card: "num_promised ls = card (promised_pids ls)"
  by (simp add: num_promised_def promised_pids_def length_filter_card)

lemma is_chosen_card: "is_chosen idx ls \<longleftrightarrow> is_accept_quorum (ls_quorum ls) (card (accepted_pids idx ls))"
  by (simp add: is_chosen_def accepted_pids_def length_filter_card)

lemma accepted_pids_anti: "i \<le> j \<Longrightarrow> accepted_pids j ls \<subseteq> accepted_pids i ls"
  by (auto simp: accepted_pids_def)

lemma finite_accepted_pids [simp]: "finite (accepted_pids i ls)"
  by (rule finite_subset [of _ "{..length (accepted_indexes ls)}"]) (auto simp: accepted_pids_def)

lemma is_accept_quorum_mono: "is_accept_quorum q a \<Longrightarrow> a \<le> b \<Longrightarrow> is_accept_quorum q b"
  by (cases q) auto

lemma is_prepare_quorum_mono: "is_prepare_quorum q a \<Longrightarrow> a \<le> b \<Longrightarrow> is_prepare_quorum q b"
  by (cases q) auto

text \<open>A chosen index makes every smaller one chosen.\<close>

lemma is_chosen_down: "is_chosen j ls \<Longrightarrow> i \<le> j \<Longrightarrow> is_chosen i ls"
  unfolding is_chosen_card
  by (erule is_accept_quorum_mono) (auto intro!: card_mono accepted_pids_anti)

section \<open>The decided index of a new round\<close>

lemma get_max_decided_idx_ge:
  assumes "Promised m \<in> set (promises_meta ls)"
  shows "pmd_decided_idx m \<le> get_max_decided_idx ls"
proof -
  have mem: "pmd_decided_idx m \<in> set (List.map_filter promised_decided_idx (promises_meta ls))"
    using assms by (force simp: List.map_filter_def)
  then obtain i where i: "max_last id (List.map_filter promised_decided_idx (promises_meta ls)) = Some i"
    by (cases "max_last id (List.map_filter promised_decided_idx (promises_meta ls))") auto
  with max_last_ge [OF i mem] show ?thesis by (simp add: get_max_decided_idx_def)
qed

lemma get_max_decided_idx_in:
  "get_max_decided_idx ls = 0 \<or> (\<exists>m. Promised m \<in> set (promises_meta ls) \<and> get_max_decided_idx ls = pmd_decided_idx m)"
proof (cases "max_last id (List.map_filter promised_decided_idx (promises_meta ls))")
  case None
  then show ?thesis by (simp add: get_max_decided_idx_def)
next
  case (Some i)
  then have "i \<in> set (List.map_filter promised_decided_idx (promises_meta ls))" by (rule max_last_in)
  then obtain st where "st \<in> set (promises_meta ls)" "promised_decided_idx st = Some i"
    by (auto simp: List.map_filter_def)
  then have "\<exists>m. Promised m \<in> set (promises_meta ls) \<and> i = pmd_decided_idx m"
    by (cases st rule: promise_state.exhaust) auto
  with Some show ?thesis by (simp add: get_max_decided_idx_def)
qed

section \<open>The maximal promise\<close>

lemma promise_meta_gt_iff:
  "promise_meta_gt a b \<longleftrightarrow>
     ballot_lt (pmd_n_accepted b) (pmd_n_accepted a) \<or>
     (pmd_n_accepted a = pmd_n_accepted b \<and> pmd_accepted_idx b < pmd_accepted_idx a)"
  by (auto simp: promise_meta_gt_def promise_meta_partial_cmp_def)

lemma not_gt_trans:
  assumes "\<not> promise_meta_gt x m" "promise_meta_gt m' m"
  shows "\<not> promise_meta_gt x m'"
  using assms by (auto simp: promise_meta_gt_iff ballot_order)

definition max_promise_bound :: "('t, 'c, 'p) leader_state \<Rightarrow> bool" where
  "max_promise_bound ls \<longleftrightarrow>
     (\<forall>m. Promised m \<in> set (promises_meta ls) \<longrightarrow> \<not> promise_meta_gt m (max_promise_meta ls))"

lemma leader_state_with_bound [simp]: "max_promise_bound (leader_state_with n mp q)"
  by (auto simp: max_promise_bound_def leader_state_with_def)

lemma set_promise_bound:
  assumes "set_promise prom from True ls = Some (b, ls')" "max_promise_bound ls"
  shows "max_promise_bound ls'"
proof -
  define m where "m = \<lparr>pmd_n_accepted = prom_n_accepted prom, pmd_accepted_idx = prom_accepted_idx prom,
            pmd_decided_idx = prom_decided_idx prom, pmd_pid = from\<rparr>"
  have mx: "max_promise_meta ls' = (if promise_meta_gt m (max_promise_meta ls) then m else max_promise_meta ls)"
    using assms(1) by (auto simp: leader_update_unfold m_def split: if_splits)
  have pm: "promises_meta ls' = (promises_meta ls)[from - 1 := Promised m]"
    using set_promise_eq(3) [OF assms(1)] by (simp add: m_def)
  show ?thesis
    unfolding max_promise_bound_def
  proof (intro allI impI)
    fix x assume "Promised x \<in> set (promises_meta ls')"
    then have "x = m \<or> Promised x \<in> set (promises_meta ls)"
      using set_update_subset_insert [of "promises_meta ls" "from - 1" "Promised m"] pm by auto
    then show "\<not> promise_meta_gt x (max_promise_meta ls')"
      using assms(2) not_gt_trans [of x "max_promise_meta ls" m] mx
      by (auto simp: max_promise_bound_def promise_meta_gt_iff)
  qed
qed

lemma set_promise_state_bound:
  assumes "set_promise_state st from ls = Some ls'" "\<not> is_promised st" "max_promise_bound ls"
  shows "max_promise_bound ls'"
  using assms set_update_subset_insert [of "promises_meta ls" "from - 1" st]
  by (auto simp: set_promise_state_eq max_promise_bound_def)

text \<open>The synchronisation kept with the maximal promise is the one its sender attached.\<close>

lemma set_promise_sync:
  assumes "set_promise prom from True ls = Some (b, ls')"
  shows "(max_promise_meta ls' = max_promise_meta ls \<and> max_promise_sync ls' = max_promise_sync ls) \<or>
    (max_promise_meta ls' = \<lparr>pmd_n_accepted = prom_n_accepted prom, pmd_accepted_idx = prom_accepted_idx prom,
            pmd_decided_idx = prom_decided_idx prom, pmd_pid = from\<rparr> \<and> max_promise_sync ls' = prom_log_sync prom)"
  using assms by (auto simp: leader_update_unfold split: if_splits)

section \<open>The index accepted by every process\<close>

lemma get_min_all_accepted_idx_le:
  assumes "get_min_all_accepted_idx ls = Some m" "1 \<le> pid" "pid \<le> length (accepted_indexes ls)"
  shows "m \<le> accepted_indexes ls ! (pid - 1)"
  using assms by (auto simp: get_min_all_accepted_idx_def split: if_splits)

text \<open>A process identifier below the largest that belongs to no server keeps the minimum at 0.\<close>

lemma min_all_accepted_gap:
  assumes "1 \<le> gap" "gap \<le> length (accepted_indexes ls)" "accepted_indexes ls ! (gap - 1) = 0"
  shows "get_min_all_accepted_idx ls = Some 0"
proof -
  have "0 \<in> set (accepted_indexes ls)"
    using assms by (metis One_nat_def Suc_pred in_set_conv_nth less_eq_Suc_le)
  then have "Min (set (accepted_indexes ls)) = 0" "accepted_indexes ls \<noteq> []"
    by (auto intro: Min_eqI)
  then show ?thesis by (simp add: get_min_all_accepted_idx_def)
qed

lemma accepted_gap_min:
  assumes run: "for_each (\<lambda>(pid, i). set_accepted_idx pid i) updates (leader_state_with n m q) = Some ls"
    and gap: "1 \<le> gap" "gap \<le> m" "gap \<notin> fst ` set updates"
  shows "get_min_all_accepted_idx ls = Some 0"
proof -
  have "length (accepted_indexes ls) = m \<and> accepted_indexes ls ! (gap - 1) = 0"
    by (rule for_each_inv [OF run])
      (use gap in \<open>auto simp: leader_state_with_def set_accepted_idx_eq nth_list_update rev_image_eqI\<close>)
  with gap show ?thesis by (auto intro: min_all_accepted_gap)
qed

end
