(* ===== verification/Memory_Storage.thy ===== *)
theory Memory_Storage
  imports Storage
begin

text \<open>
  The in-memory back-end (\<^verbatim>\<open>omnipaxos_storage/src/memory_storage.rs\<close>) and its proof against the
  storage contract. \<^verbatim>\<open>Vec::truncate\<close> is \<open>take\<close>, \<^verbatim>\<open>drain(0..k)\<close> is \<open>drop k\<close>; the subtractions of the
  trimmed index panic below zero.
\<close>

record ('t, 'c, 'p) memory_storage =
  ms_log :: "'t list"
  ms_n_prom :: "ballot option"
  ms_acc_round :: "ballot option"
  ms_ld :: usize
  ms_trimmed_idx :: usize
  ms_compacted_idx :: usize
  ms_snapshot :: "'p option"
  ms_stopsign :: "'c stop_sign option"

definition memory_storage_default :: "('t, 'c, 'p) memory_storage" where
  "memory_storage_default = \<lparr>ms_log = [], ms_n_prom = None, ms_acc_round = None, ms_ld = 0,
     ms_trimmed_idx = 0, ms_compacted_idx = 0, ms_snapshot = None, ms_stopsign = None\<rparr>"

section \<open>Operations\<close>

definition ms_append_entry ::
  "'t \<Rightarrow> ('t, 'c, 'p) memory_storage \<Rightarrow> (unit storage_result \<times> ('t, 'c, 'p) memory_storage) option" where
  "ms_append_entry entry m = Some (Inr (), m\<lparr>ms_log := ms_log m @ [entry]\<rparr>)"

definition ms_append_entries ::
  "'t list \<Rightarrow> ('t, 'c, 'p) memory_storage \<Rightarrow> (unit storage_result \<times> ('t, 'c, 'p) memory_storage) option" where
  "ms_append_entries entries m = Some (Inr (), m\<lparr>ms_log := ms_log m @ entries\<rparr>)"

definition ms_append_on_prefix ::
  "usize \<Rightarrow> 't list \<Rightarrow> ('t, 'c, 'p) memory_storage \<Rightarrow>
     (unit storage_result \<times> ('t, 'c, 'p) memory_storage) option" where
  "ms_append_on_prefix from_idx entries m = do {
     n \<leftarrow> checked_sub from_idx (ms_trimmed_idx m);
     ms_append_entries entries (m\<lparr>ms_log := take n (ms_log m)\<rparr>)
   }"

definition ms_set_promise ::
  "ballot \<Rightarrow> ('t, 'c, 'p) memory_storage \<Rightarrow> (unit storage_result \<times> ('t, 'c, 'p) memory_storage) option" where
  "ms_set_promise n_prom m = Some (Inr (), m\<lparr>ms_n_prom := Some n_prom\<rparr>)"

definition ms_set_decided_idx ::
  "usize \<Rightarrow> ('t, 'c, 'p) memory_storage \<Rightarrow> (unit storage_result \<times> ('t, 'c, 'p) memory_storage) option" where
  "ms_set_decided_idx ld m = Some (Inr (), m\<lparr>ms_ld := ld\<rparr>)"

definition ms_get_decided_idx :: "('t, 'c, 'p) memory_storage \<Rightarrow> usize storage_result option" where
  "ms_get_decided_idx m = Some (Inr (ms_ld m))"

definition ms_set_accepted_round ::
  "ballot \<Rightarrow> ('t, 'c, 'p) memory_storage \<Rightarrow> (unit storage_result \<times> ('t, 'c, 'p) memory_storage) option" where
  "ms_set_accepted_round na m = Some (Inr (), m\<lparr>ms_acc_round := Some na\<rparr>)"

definition ms_get_accepted_round ::
  "('t, 'c, 'p) memory_storage \<Rightarrow> ballot option storage_result option" where
  "ms_get_accepted_round m = Some (Inr (ms_acc_round m))"

definition ms_get_entries ::
  "usize \<Rightarrow> usize \<Rightarrow> ('t, 'c, 'p) memory_storage \<Rightarrow> 't list storage_result option" where
  "ms_get_entries from to m =
     (if from < ms_trimmed_idx m \<or> to < ms_trimmed_idx m \<or> from > to then Some (Inr [])
      else do {
        f \<leftarrow> checked_sub from (ms_trimmed_idx m);
        t \<leftarrow> checked_sub to (ms_trimmed_idx m);
        Some (Inr (case vec_range (ms_log m) f t of None \<Rightarrow> [] | Some es \<Rightarrow> es))
      })"

definition ms_get_log_len :: "('t, 'c, 'p) memory_storage \<Rightarrow> usize storage_result option" where
  "ms_get_log_len m = Some (Inr (length (ms_log m)))"

definition ms_get_suffix ::
  "usize \<Rightarrow> ('t, 'c, 'p) memory_storage \<Rightarrow> 't list storage_result option" where
  "ms_get_suffix from m = do {
     f \<leftarrow> checked_sub from (ms_trimmed_idx m);
     Some (Inr (case vec_range (ms_log m) f (length (ms_log m)) of None \<Rightarrow> [] | Some s \<Rightarrow> s))
   }"

definition ms_get_promise :: "('t, 'c, 'p) memory_storage \<Rightarrow> ballot option storage_result option" where
  "ms_get_promise m = Some (Inr (ms_n_prom m))"

definition ms_set_stopsign ::
  "'c stop_sign option \<Rightarrow> ('t, 'c, 'p) memory_storage \<Rightarrow>
     (unit storage_result \<times> ('t, 'c, 'p) memory_storage) option" where
  "ms_set_stopsign ss m = Some (Inr (), m\<lparr>ms_stopsign := ss\<rparr>)"

definition ms_get_stopsign ::
  "('t, 'c, 'p) memory_storage \<Rightarrow> 'c stop_sign option storage_result option" where
  "ms_get_stopsign m = Some (Inr (ms_stopsign m))"

definition ms_trim ::
  "usize \<Rightarrow> ('t, 'c, 'p) memory_storage \<Rightarrow> (unit storage_result \<times> ('t, 'c, 'p) memory_storage) option" where
  "ms_trim trimmed_idx m = do {
     d \<leftarrow> checked_sub trimmed_idx (ms_trimmed_idx m);
     let to_trim = min d (length (ms_log m));
     Some (Inr (), m\<lparr>ms_log := drop to_trim (ms_log m), ms_trimmed_idx := trimmed_idx\<rparr>)
   }"

definition ms_set_compacted_idx ::
  "usize \<Rightarrow> ('t, 'c, 'p) memory_storage \<Rightarrow> (unit storage_result \<times> ('t, 'c, 'p) memory_storage) option" where
  "ms_set_compacted_idx compact_idx m = Some (Inr (), m\<lparr>ms_compacted_idx := compact_idx\<rparr>)"

definition ms_get_compacted_idx :: "('t, 'c, 'p) memory_storage \<Rightarrow> usize storage_result option" where
  "ms_get_compacted_idx m = Some (Inr (ms_compacted_idx m))"

definition ms_set_snapshot ::
  "'p option \<Rightarrow> ('t, 'c, 'p) memory_storage \<Rightarrow> (unit storage_result \<times> ('t, 'c, 'p) memory_storage) option" where
  "ms_set_snapshot snapshot m = Some (Inr (), m\<lparr>ms_snapshot := snapshot\<rparr>)"

definition ms_get_snapshot :: "('t, 'c, 'p) memory_storage \<Rightarrow> 'p option storage_result option" where
  "ms_get_snapshot m = Some (Inr (ms_snapshot m))"

fun ms_op ::
  "('t, 'c, 'p) storage_op \<Rightarrow> ('t, 'c, 'p) memory_storage \<Rightarrow>
     (unit storage_result \<times> ('t, 'c, 'p) memory_storage) option" where
  "ms_op (AppendEntry entry) m = ms_append_entry entry m"
| "ms_op (AppendEntries entries) m = ms_append_entries entries m"
| "ms_op (AppendOnPrefix from_idx entries) m = ms_append_on_prefix from_idx entries m"
| "ms_op (SetPromise bal) m = ms_set_promise bal m"
| "ms_op (SetDecidedIndex idx) m = ms_set_decided_idx idx m"
| "ms_op (SetAcceptedRound bal) m = ms_set_accepted_round bal m"
| "ms_op (SetCompactedIdx idx) m = ms_set_compacted_idx idx m"
| "ms_op (Trim idx) m = ms_trim idx m"
| "ms_op (SetStopsign ss) m = ms_set_stopsign ss m"
| "ms_op (SetSnapshot snap) m = ms_set_snapshot snap m"

fun ms_write_atomically ::
  "('t, 'c, 'p) storage_op list \<Rightarrow> ('t, 'c, 'p) memory_storage \<Rightarrow>
     (unit storage_result \<times> ('t, 'c, 'p) memory_storage) option" where
  "ms_write_atomically [] m = Some (Inr (), m)"
| "ms_write_atomically (op # ops) m = try_op (ms_op op m) (\<lambda>_ m1. ms_write_atomically ops m1)"

definition memory_impl :: "(('t, 'c, 'p) memory_storage, 't, 'c, 'p) storage_impl" where
  "memory_impl = \<lparr>
     st_write_atomically = ms_write_atomically,
     st_append_entry = ms_append_entry,
     st_append_entries = ms_append_entries,
     st_append_on_prefix = ms_append_on_prefix,
     st_set_promise = ms_set_promise,
     st_set_decided_idx = ms_set_decided_idx,
     st_get_decided_idx = ms_get_decided_idx,
     st_set_accepted_round = ms_set_accepted_round,
     st_get_accepted_round = ms_get_accepted_round,
     st_get_entries = ms_get_entries,
     st_get_log_len = ms_get_log_len,
     st_get_suffix = ms_get_suffix,
     st_get_promise = ms_get_promise,
     st_set_stopsign = ms_set_stopsign,
     st_get_stopsign = ms_get_stopsign,
     st_trim = ms_trim,
     st_set_compacted_idx = ms_set_compacted_idx,
     st_get_compacted_idx = ms_get_compacted_idx,
     st_set_snapshot = ms_set_snapshot,
     st_get_snapshot = ms_get_snapshot\<rparr>"

section \<open>Against the contract\<close>

definition memory_view :: "('t, 'c, 'p) memory_storage \<Rightarrow> ('t, 'c, 'p) storage_view" where
  "memory_view m = \<lparr>v_trimmed = ms_trimmed_idx m, v_log = ms_log m, v_promise = ms_n_prom m,
     v_accepted_round = ms_acc_round m, v_decided_idx = ms_ld m,
     v_compacted_idx = ms_compacted_idx m, v_snapshot = ms_snapshot m, v_stopsign = ms_stopsign m\<rparr>"

definition memory_inv :: "('t, 'c, 'p) memory_storage \<Rightarrow> bool" where
  "memory_inv m \<longleftrightarrow> True"

lemmas ms_write_defs =
  ms_append_entry_def ms_append_entries_def ms_append_on_prefix_def ms_set_promise_def
  ms_set_decided_idx_def ms_set_accepted_round_def ms_trim_def ms_set_compacted_idx_def
  ms_set_stopsign_def ms_set_snapshot_def

lemmas ms_read_defs =
  ms_get_decided_idx_def ms_get_accepted_round_def ms_get_log_len_def ms_get_promise_def
  ms_get_stopsign_def ms_get_compacted_idx_def ms_get_snapshot_def

lemma drop_min_length: "drop (min d (length xs)) xs = drop d xs"
  by (simp add: min_def)

lemma ms_op_view:
  "view_op op (memory_view m) = Some v \<Longrightarrow> \<exists>m'. ms_op op m = Some (Inr (), m') \<and> memory_view m' = v"
  by (cases op) (auto simp: ms_write_defs memory_view_def drop_min_length split: if_splits)

lemma ms_write_atomically_view:
  "view_ops ops (memory_view m) = Some v \<Longrightarrow>
     \<exists>m'. ms_write_atomically ops m = Some (Inr (), m') \<and> memory_view m' = v"
proof (induction ops arbitrary: m)
  case Nil
  then show ?case by simp
next
  case (Cons op ops)
  then obtain v1 where "view_op op (memory_view m) = Some v1" and rest: "view_ops ops v1 = Some v"
    by (auto simp: bind_eq_Some_conv)
  then obtain m1 where "ms_op op m = Some (Inr (), m1)" "memory_view m1 = v1"
    using ms_op_view by blast
  with Cons.IH [of m1] rest show ?case by simp
qed

interpretation mem: storage_contract memory_impl memory_inv memory_view
  by unfold_locales
    (auto simp: memory_impl_def memory_inv_def does_def txn_ok_def ms_write_defs ms_read_defs memory_view_def
       ms_get_entries_def ms_get_suffix_def view_entries_def view_suffix_def vec_range_def
       checked_sub_def
       dest: ms_write_atomically_view [unfolded memory_view_def])

end
