(* ===== verification/Internal_Storage_Facts.thy ===== *)
theory Internal_Storage_Facts
  imports Internal_Storage Memory_Storage
begin

text \<open>
  Facts on the internal storage, proved once for every back-end that keeps the storage contract
  (\<open>storage_contract\<close>) and read off for the in-memory back-end (the interpretation \<open>mem\<close>). The cache
  mirrors the stored state (\<open>is_coherent\<close>); \<open>is_does\<close> gives the result, the new view and the new cache
  of an operation.
\<close>

section \<open>The cache mirrors the storage\<close>

definition ballot_or_default :: "ballot option \<Rightarrow> ballot" where
  "ballot_or_default b = (case b of None \<Rightarrow> ballot_default | Some x \<Rightarrow> x)"

definition cache_matches :: "('t, 'c, 'p) storage_view \<Rightarrow> ('t, 'c) state_cache \<Rightarrow> bool" where
  "cache_matches v c \<longleftrightarrow>
     c_promise c = ballot_or_default (v_promise v) \<and>
     c_accepted_round c = ballot_or_default (v_accepted_round v) \<and>
     c_decided_idx c = v_decided_idx v \<and>
     c_compacted_idx c = v_compacted_idx v \<and>
     v_trimmed v = v_compacted_idx v \<and>
     c_stopsign c = v_stopsign v \<and>
     c_accepted_idx c = v_compacted_idx v + length (v_log v) + (if v_stopsign v = None then 0 else 1)"

definition is_coherent ::
  "('s \<Rightarrow> bool) \<Rightarrow> ('s \<Rightarrow> ('t, 'c, 'p) storage_view) \<Rightarrow> ('s, 't, 'c) internal_storage \<Rightarrow> bool" where
  "is_coherent sinv view st \<longleftrightarrow> sinv (is_storage st) \<and> cache_matches (view (is_storage st)) (is_cache st)"

text \<open>The order of the three indexes, which every call of the protocol keeps.\<close>

definition indexes_ordered :: "('t, 'c) state_cache \<Rightarrow> bool" where
  "indexes_ordered c \<longleftrightarrow> c_compacted_idx c \<le> c_decided_idx c \<and> c_decided_idx c \<le> c_accepted_idx c"

definition is_wf ::
  "('s \<Rightarrow> bool) \<Rightarrow> ('s \<Rightarrow> ('t, 'c, 'p) storage_view) \<Rightarrow> ('s, 't, 'c) internal_storage \<Rightarrow> bool" where
  "is_wf sinv view st \<longleftrightarrow> is_coherent sinv view st \<and> indexes_ordered (is_cache st)"

definition is_does ::
  "('s \<Rightarrow> bool) \<Rightarrow> ('s \<Rightarrow> ('t, 'c, 'p) storage_view) \<Rightarrow>
     ('r storage_result \<times> ('s, 't, 'c) internal_storage) option \<Rightarrow>
     'r \<Rightarrow> ('t, 'c, 'p) storage_view \<Rightarrow> ('t, 'c) state_cache \<Rightarrow> bool" where
  "is_does sinv view m r v c \<longleftrightarrow>
     (\<exists>s'. m = Some (Inr r, \<lparr>is_storage = s', is_cache = c\<rparr>) \<and> sinv s' \<and> view s' = v)"

lemma is_doesI:
  "m = Some (Inr r, \<lparr>is_storage = s', is_cache = c\<rparr>) \<Longrightarrow> sinv s' \<Longrightarrow> view s' = v \<Longrightarrow> is_does sinv view m r v c"
  by (auto simp: is_does_def)

lemma is_does_pure:
  "sinv (is_storage st) \<Longrightarrow> is_does sinv view (Some (Inr r, st)) r (view (is_storage st)) (is_cache st)"
  by (cases st) (auto simp: is_does_def)

lemma is_doesD:
  assumes "is_does sinv view m r v c" "m = Some (r', st')"
  shows "r' = Inr r" "sinv (is_storage st')" "view (is_storage st') = v" "is_cache st' = c"
  using assms by (auto simp: is_does_def)

lemma is_does_coherent:
  assumes "is_does sinv view m r v c" "m = Some (r', st')" "cache_matches v c"
  shows "is_coherent sinv view st'"
  using is_doesD [OF assms(1,2)] assms(3) by (simp add: is_coherent_def)

lemma is_does_try_op:
  assumes "is_does sinv view m r v c"
    and "\<And>s'. sinv s' \<Longrightarrow> view s' = v \<Longrightarrow> is_does sinv view (k r \<lparr>is_storage = s', is_cache = c\<rparr>) r2 v2 c2"
  shows "is_does sinv view (try_op m k) r2 v2 c2"
  using assms by (auto simp: is_does_def)

lemma on_storage_does:
  assumes "does sinv view (f (is_storage st)) v"
  shows "is_does sinv view (on_storage f st) () v (is_cache st)"
proof -
  obtain s' where "f (is_storage st) = Some (Inr (), s')" "sinv s'" "view s' = v"
    using assms by (auto simp: does_def)
  then show ?thesis by (cases st) (auto simp: is_does_def on_storage_def)
qed

section \<open>Batches\<close>

lemma take_entries_if_batch_is_full_simp:
  "take_entries_if_batch_is_full c =
     (if length (c_batched_entries c) \<ge> c_batch_size c
      then (Some (c_batched_entries c), c\<lparr>c_batched_entries := []\<rparr>) else (None, c))"
  by (simp add: take_entries_if_batch_is_full_def take_batched_entries_def)

lemma cache_matches_batch [simp]:
  "cache_matches v (c\<lparr>c_batched_entries := b\<rparr>) = cache_matches v c"
  by (simp add: cache_matches_def)

lemma indexes_ordered_batch [simp]:
  "indexes_ordered (c\<lparr>c_batched_entries := b\<rparr>) = indexes_ordered c"
  by (simp add: indexes_ordered_def)

text \<open>Nothing is lost between the batch and the log.\<close>

lemma cache_append_entries_fifo:
  assumes "cache_append_entries es c = (r, c')"
  shows "(case r of None \<Rightarrow> [] | Some fl \<Rightarrow> fl) @ c_batched_entries c' = c_batched_entries c @ es"
    and "c' = c\<lparr>c_batched_entries := c_batched_entries c'\<rparr>"
  using assms
  by (auto simp: cache_append_entries_def take_entries_if_batch_is_full_simp split: if_splits)

lemma cache_append_entry_eq: "cache_append_entry e = cache_append_entries [e]"
  by (simp add: cache_append_entry_def cache_append_entries_def fun_eq_iff)

lemma append_entry_with_batching_eq: "append_entry_with_batching S e = append_entries_with_batching S [e]"
  by (simp add: append_entry_with_batching_def append_entries_with_batching_def cache_append_entry_eq fun_eq_iff)

section \<open>Effect of the operations\<close>

context storage_contract
begin

abbreviation coherent :: "('s, 't, 'c) internal_storage \<Rightarrow> bool" where
  "coherent st \<equiv> is_coherent sinv view st"

abbreviation vw :: "('s, 't, 'c) internal_storage \<Rightarrow> ('t, 'c, 'p) storage_view" where
  "vw st \<equiv> view (is_storage st)"

lemma append_entries_without_batching_does:
  assumes "sinv (is_storage st)"
  shows "is_does sinv view (append_entries_without_batching S es st)
           (c_accepted_idx (is_cache st) + length es)
           ((vw st)\<lparr>v_log := v_log (vw st) @ es\<rparr>)
           ((is_cache st)\<lparr>c_accepted_idx := c_accepted_idx (is_cache st) + length es\<rparr>)"
  unfolding append_entries_without_batching_def Let_def
  by (rule is_does_try_op
      [OF on_storage_does [of sinv view "st_append_entries S es", OF append_entries_ok [OF assms]]])
    (auto simp: is_does_def is_get_accepted_idx_def)

lemma flush_batch_does:
  assumes "sinv (is_storage st)"
  shows "is_does sinv view (flush_batch S st)
           (c_accepted_idx (is_cache st) + length (c_batched_entries (is_cache st)))
           ((vw st)\<lparr>v_log := v_log (vw st) @ c_batched_entries (is_cache st)\<rparr>)
           ((is_cache st)\<lparr>c_batched_entries := [],
              c_accepted_idx := c_accepted_idx (is_cache st) + length (c_batched_entries (is_cache st))\<rparr>)"
  using append_entries_without_batching_does
    [of "st\<lparr>is_cache := (is_cache st)\<lparr>c_batched_entries := []\<rparr>\<rparr>" "c_batched_entries (is_cache st)"] assms
  by (simp add: flush_batch_def take_batched_entries_def)

lemma is_set_promise_does:
  assumes "sinv (is_storage st)"
  shows "is_does sinv view (is_set_promise S b st) () ((vw st)\<lparr>v_promise := Some b\<rparr>)
           ((is_cache st)\<lparr>c_promise := b\<rparr>)"
  using on_storage_does [of sinv view "st_set_promise S b" "upd_cache (\<lambda>c. c\<lparr>c_promise := b\<rparr>) st"]
    set_promise_ok [OF assms]
  by (simp add: is_set_promise_def)

lemma is_set_decided_idx_does:
  assumes "sinv (is_storage st)"
  shows "is_does sinv view (is_set_decided_idx S i st) () ((vw st)\<lparr>v_decided_idx := i\<rparr>)
           ((is_cache st)\<lparr>c_decided_idx := i\<rparr>)"
  using on_storage_does [of sinv view "st_set_decided_idx S i" "upd_cache (\<lambda>c. c\<lparr>c_decided_idx := i\<rparr>) st"]
    set_decided_idx_ok [OF assms]
  by (simp add: is_set_decided_idx_def)

lemma load_cache_does:
  assumes "sinv (is_storage st)"
  shows "load_cache S st = Some (upd_cache (\<lambda>c. c\<lparr>
       c_promise := ballot_or_default (v_promise (vw st)),
       c_decided_idx := v_decided_idx (vw st),
       c_accepted_round := ballot_or_default (v_accepted_round (vw st)),
       c_compacted_idx := v_compacted_idx (vw st),
       c_stopsign := v_stopsign (vw st),
       c_accepted_idx := length (v_log (vw st)) + v_compacted_idx (vw st)
         + (if v_stopsign (vw st) = None then 0 else 1)\<rparr>) st)"
  by (simp add: load_cache_def reads_ok assms ballot_or_default_def)

text \<open>Restarting on the stored state rebuilds the cache; only the unflushed batch is gone.\<close>

lemma restart_cache:
  assumes "coherent st"
  shows "internal_storage_with S (is_storage st) (c_batch_size (is_cache st))
           = Some (upd_cache (\<lambda>c. c\<lparr>c_batched_entries := []\<rparr>) st)"
proof -
  have s: "sinv (is_storage st)" and c: "cache_matches (vw st) (is_cache st)"
    using assms by (auto simp: is_coherent_def)
  show ?thesis
    using c
    by (simp add: internal_storage_with_def load_cache_does s state_cache_new_def cache_matches_def)
qed

text \<open>A fresh start on any consistent store is coherent.\<close>

lemma start_coherent:
  assumes "sinv s" "v_trimmed (view s) = v_compacted_idx (view s)"
    and "internal_storage_with S s bs = Some st"
  shows "coherent st" "is_storage st = s" "c_batched_entries (is_cache st) = []" "c_batch_size (is_cache st) = bs"
  using assms
  by (auto simp: internal_storage_with_def load_cache_does state_cache_new_def is_coherent_def cache_matches_def)

text \<open>Appending through the batch.\<close>

lemma flush_if_full_batch_does:
  assumes "sinv (is_storage st)"
  shows "is_does sinv view (flush_if_full_batch S (Some es) st)
           (Some \<lparr>am_accepted_idx = c_accepted_idx (is_cache st) + length es, am_entries = es\<rparr>)
           ((vw st)\<lparr>v_log := v_log (vw st) @ es\<rparr>)
           ((is_cache st)\<lparr>c_accepted_idx := c_accepted_idx (is_cache st) + length es\<rparr>)"
  unfolding flush_if_full_batch_def option.case
  by (rule is_does_try_op [OF append_entries_without_batching_does [OF assms]]) (auto simp: is_does_def)

lemma append_entries_with_batching_full:
  assumes "sinv (is_storage st)"
    and "c_batch_size (is_cache st) \<le> length (c_batched_entries (is_cache st) @ es)"
  shows "is_does sinv view (append_entries_with_batching S es st)
           (Some \<lparr>am_accepted_idx = c_accepted_idx (is_cache st) + length (c_batched_entries (is_cache st) @ es),
                  am_entries = c_batched_entries (is_cache st) @ es\<rparr>)
           ((vw st)\<lparr>v_log := v_log (vw st) @ c_batched_entries (is_cache st) @ es\<rparr>)
           ((is_cache st)\<lparr>c_batched_entries := [],
              c_accepted_idx := c_accepted_idx (is_cache st) + length (c_batched_entries (is_cache st) @ es)\<rparr>)"
  using flush_if_full_batch_does
    [of "st\<lparr>is_cache := (is_cache st)\<lparr>c_batched_entries := []\<rparr>\<rparr>" "c_batched_entries (is_cache st) @ es"] assms
  by (simp add: append_entries_with_batching_def cache_append_entries_def take_entries_if_batch_is_full_simp)

lemma append_entries_with_batching_part:
  assumes "length (c_batched_entries (is_cache st) @ es) < c_batch_size (is_cache st)"
  shows "append_entries_with_batching S es st = Some (Inr None,
           upd_cache (\<lambda>c. c\<lparr>c_batched_entries := c_batched_entries c @ es\<rparr>) st)"
  using assms
  by (simp add: append_entries_with_batching_def cache_append_entries_def
      take_entries_if_batch_is_full_simp flush_if_full_batch_def)

lemma append_entries_and_get_accepted_idx_full:
  assumes "sinv (is_storage st)"
    and "c_batch_size (is_cache st) \<le> length (c_batched_entries (is_cache st) @ es)"
  shows "is_does sinv view (append_entries_and_get_accepted_idx S es st)
           (Some (c_accepted_idx (is_cache st) + length (c_batched_entries (is_cache st) @ es)))
           ((vw st)\<lparr>v_log := v_log (vw st) @ c_batched_entries (is_cache st) @ es\<rparr>)
           ((is_cache st)\<lparr>c_batched_entries := [],
              c_accepted_idx := c_accepted_idx (is_cache st) + length (c_batched_entries (is_cache st) @ es)\<rparr>)"
proof -
  let ?st = "st\<lparr>is_cache := (is_cache st)\<lparr>c_batched_entries := []\<rparr>\<rparr>"
  have "is_does sinv view
      (try_op (append_entries_without_batching S (c_batched_entries (is_cache st) @ es) ?st)
        (\<lambda>i st2. Some (Inr (Some i), st2)))
      (Some (c_accepted_idx (is_cache ?st) + length (c_batched_entries (is_cache st) @ es)))
      ((vw ?st)\<lparr>v_log := v_log (vw ?st) @ c_batched_entries (is_cache st) @ es\<rparr>)
      ((is_cache ?st)\<lparr>c_accepted_idx := c_accepted_idx (is_cache ?st) + length (c_batched_entries (is_cache st) @ es)\<rparr>)"
    by (rule is_does_try_op [OF append_entries_without_batching_does]) (use assms(1) in \<open>auto simp: is_does_def\<close>)
  with assms(2) show ?thesis
    by (simp add: append_entries_and_get_accepted_idx_def cache_append_entries_def
        take_entries_if_batch_is_full_simp)
qed

lemma append_entries_and_get_accepted_idx_part:
  assumes "length (c_batched_entries (is_cache st) @ es) < c_batch_size (is_cache st)"
  shows "append_entries_and_get_accepted_idx S es st = Some (Inr None,
           upd_cache (\<lambda>c. c\<lparr>c_batched_entries := c_batched_entries c @ es\<rparr>) st)"
  using assms
  by (simp add: append_entries_and_get_accepted_idx_def cache_append_entries_def
      take_entries_if_batch_is_full_simp)

lemma is_append_stopsign_does:
  assumes "sinv (is_storage st)"
  shows "is_does sinv view (is_append_stopsign S ss st)
           (if c_batched_entries (is_cache st) = [] then None
            else Some \<lparr>am_accepted_idx = c_accepted_idx (is_cache st) + length (c_batched_entries (is_cache st)),
                       am_entries = c_batched_entries (is_cache st)\<rparr>)
           ((vw st)\<lparr>v_log := v_log (vw st) @ c_batched_entries (is_cache st), v_stopsign := Some ss\<rparr>)
           ((is_cache st)\<lparr>c_batched_entries := [], c_stopsign := Some ss,
              c_accepted_idx := c_accepted_idx (is_cache st) + length (c_batched_entries (is_cache st)) + 1\<rparr>)"
proof -
  define b where "b = c_batched_entries (is_cache st)"
  define st1 where "st1 = st\<lparr>is_cache := (is_cache st)\<lparr>c_stopsign := Some ss, c_batched_entries := []\<rparr>\<rparr>"
  have empty: "b = [] \<Longrightarrow> upd_cache (\<lambda>c. c\<lparr>c_stopsign := Some ss\<rparr>) st = st1"
    by (cases st; cases "is_cache st") (simp add: st1_def b_def)
  define r where "r = (if b = [] then None
     else Some \<lparr>am_accepted_idx = c_accepted_idx (is_cache st) + length b, am_entries = b\<rparr>)"
  have fl: "is_does sinv view (flush_if_full_batch S (if b = [] then None else Some b) st1) r
      ((vw st)\<lparr>v_log := v_log (vw st) @ b\<rparr>)
      ((is_cache st1)\<lparr>c_accepted_idx := c_accepted_idx (is_cache st1) + length b\<rparr>)"
  proof (cases "b = []")
    case True
    then show ?thesis
      using is_does_pure [of sinv st1 view None] assms
      by (simp add: flush_if_full_batch_def r_def st1_def)
  next
    case False
    then show ?thesis
      using flush_if_full_batch_does [of st1 b] assms by (simp add: r_def st1_def)
  qed
  have eq: "is_append_stopsign S ss st =
      try_op (flush_if_full_batch S (if b = [] then None else Some b) st1) (\<lambda>m sa.
      try_op (on_storage (st_set_stopsign S (Some ss)) sa) (\<lambda>_ sb.
        Some (Inr m, upd_cache (\<lambda>c. c\<lparr>c_accepted_idx := c_accepted_idx c + 1\<rparr>) sb)))"
  proof (cases "b = []")
    case True
    then have "cache_append_stopsign ss (is_cache st) = (None, (is_cache st)\<lparr>c_stopsign := Some ss\<rparr>)"
      by (simp add: cache_append_stopsign_def b_def)
    with True empty show ?thesis by (simp add: is_append_stopsign_def)
  next
    case False
    then have "cache_append_stopsign ss (is_cache st) = (Some b, is_cache st1)"
      by (simp add: cache_append_stopsign_def take_batched_entries_def b_def st1_def)
    moreover have "st\<lparr>is_cache := is_cache st1\<rparr> = st1" by (simp add: st1_def)
    ultimately show ?thesis using False by (simp add: is_append_stopsign_def)
  qed
  show ?thesis
    unfolding eq b_def [symmetric] r_def [symmetric]
  proof (rule is_does_try_op [OF fl])
    fix s' assume s': "sinv s'" and v: "view s' = (vw st)\<lparr>v_log := v_log (vw st) @ b\<rparr>"
    from s' have "does sinv view (st_set_stopsign S (Some ss) s') ((view s')\<lparr>v_stopsign := Some ss\<rparr>)"
      by (rule set_stopsign_ok)
    then have on: "is_does sinv view
        (on_storage (st_set_stopsign S (Some ss))
          \<lparr>is_storage = s', is_cache = (is_cache st1)\<lparr>c_accepted_idx := c_accepted_idx (is_cache st1) + length b\<rparr>\<rparr>)
        () ((view s')\<lparr>v_stopsign := Some ss\<rparr>)
        ((is_cache st1)\<lparr>c_accepted_idx := c_accepted_idx (is_cache st1) + length b\<rparr>)"
      using on_storage_does [of sinv view "st_set_stopsign S (Some ss)"
        "\<lparr>is_storage = s', is_cache = (is_cache st1)\<lparr>c_accepted_idx := c_accepted_idx (is_cache st1) + length b\<rparr>\<rparr>"]
      by simp
    show "is_does sinv view
        (try_op (on_storage (st_set_stopsign S (Some ss))
            \<lparr>is_storage = s', is_cache = (is_cache st1)\<lparr>c_accepted_idx := c_accepted_idx (is_cache st1) + length b\<rparr>\<rparr>)
          (\<lambda>_ sb. Some (Inr r, upd_cache (\<lambda>c. c\<lparr>c_accepted_idx := c_accepted_idx c + 1\<rparr>) sb)))
        r ((vw st)\<lparr>v_log := v_log (vw st) @ b, v_stopsign := Some ss\<rparr>)
        ((is_cache st)\<lparr>c_batched_entries := [], c_stopsign := Some ss,
           c_accepted_idx := c_accepted_idx (is_cache st) + length b + 1\<rparr>)"
      by (rule is_does_try_op [OF on]) (auto simp: is_does_def v st1_def)
  qed
qed

lemma is_set_stopsign_does:
  assumes "sinv (is_storage st)"
  shows "is_does sinv view (is_set_stopsign S (Some ss) st)
           (c_accepted_idx (is_cache st) + (if c_stopsign (is_cache st) = None then 1 else 0))
           ((vw st)\<lparr>v_stopsign := Some ss\<rparr>)
           ((is_cache st)\<lparr>
              c_accepted_idx := c_accepted_idx (is_cache st) + (if c_stopsign (is_cache st) = None then 1 else 0),
              c_stopsign := Some ss\<rparr>)"
proof -
  define a where "a = c_accepted_idx (is_cache st) + (if c_stopsign (is_cache st) = None then 1 else 0)"
  define st1 where "st1 = st\<lparr>is_cache := (is_cache st)\<lparr>c_accepted_idx := a, c_stopsign := Some ss\<rparr>\<rparr>"
  have "is_does sinv view (on_storage (st_set_stopsign S (Some ss)) st1) ()
      ((vw st)\<lparr>v_stopsign := Some ss\<rparr>) (is_cache st1)"
    using on_storage_does [of sinv view "st_set_stopsign S (Some ss)" st1]
      set_stopsign_ok [OF assms, of "Some ss"]
    by (simp add: st1_def)
  then have "is_does sinv view
      (try_op (on_storage (st_set_stopsign S (Some ss)) st1) (\<lambda>_ sb. Some (Inr (is_get_accepted_idx sb), sb)))
      a ((vw st)\<lparr>v_stopsign := Some ss\<rparr>) (is_cache st1)"
    by (rule is_does_try_op) (auto simp: is_does_def is_get_accepted_idx_def st1_def)
  then show ?thesis
    by (auto simp: is_set_stopsign_def st1_def a_def Let_def split: if_splits)
qed

text \<open>Compaction.\<close>

lemma create_snapshot_does:
  assumes "coherent st" and "c_compacted_idx (is_cache st) \<le> i"
  shows "create_snapshot S P i st = do {
      d \<leftarrow> snap_create P (view_entries (vw st) (c_compacted_idx (is_cache st)) i);
      (case v_snapshot (vw st) of
         Some s \<Rightarrow> do { m \<leftarrow> snap_merge P s d; Some (Inr m) }
       | None \<Rightarrow> Some (Inr d)) }"
proof -
  have s: "sinv (is_storage st)" and c: "cache_matches (vw st) (is_cache st)"
    using assms(1) by (auto simp: is_coherent_def)
  have "st_get_entries S (c_compacted_idx (is_cache st)) i (is_storage st)
      = Some (Inr (view_entries (vw st) (c_compacted_idx (is_cache st)) i))"
    using c assms(2) by (intro get_entries_ok s) (auto simp: cache_matches_def)
  then show ?thesis
    using assms(2) by (simp add: create_snapshot_def is_get_compacted_idx_def get_snapshot_ok [OF s])
qed

lemma write_compaction_does:
  assumes "coherent st" and "c_compacted_idx (is_cache st) \<le> i" and "i \<le> v_compacted_idx (vw st) + length (v_log (vw st))"
  shows "is_does sinv view
      (on_storage (st_write_atomically S ([Trim i, SetCompactedIdx i] @ map SetSnapshot ps)) st) ()
      ((vw st)\<lparr>v_log := drop (i - c_compacted_idx (is_cache st)) (v_log (vw st)), v_trimmed := i,
               v_compacted_idx := i, v_snapshot := last (v_snapshot (vw st) # ps)\<rparr>)
      (is_cache st)"
proof -
  have s: "sinv (is_storage st)" and c: "cache_matches (vw st) (is_cache st)"
    using assms(1) by (auto simp: is_coherent_def)
  have ps: "view_ops (map SetSnapshot ps) v = Some (v\<lparr>v_snapshot := last (v_snapshot v # ps)\<rparr>)" for v :: "('t, 'c, 'p) storage_view"
    by (induction ps arbitrary: v) auto
  have fits: "txn_fits True (map SetSnapshot ps) v" for v :: "('t, 'c, 'p) storage_view"
    by (induction ps arbitrary: v) auto
  have "txn_ok ([Trim i, SetCompactedIdx i] @ map SetSnapshot ps) (vw st)
      ((vw st)\<lparr>v_log := drop (i - c_compacted_idx (is_cache st)) (v_log (vw st)), v_trimmed := i,
               v_compacted_idx := i, v_snapshot := last (v_snapshot (vw st) # ps)\<rparr>)"
    using c assms(2,3) by (auto simp: cache_matches_def ps fits txn_ok_def)
  then show ?thesis
    by (intro on_storage_does write_atomically_ok s)
qed

end

text \<open>The highest index that may be compacted: the decided index, without a decided stop sign.\<close>

definition decided_without_stopsign :: "('t, 'c) state_cache \<Rightarrow> usize" where
  "decided_without_stopsign c = (if cache_stopsign_is_decided c then c_decided_idx c - 1 else c_decided_idx c)"

text \<open>The index a trim or snapshot request at a decided \<open>idx\<close> compacts to.\<close>

definition compaction_target :: "usize \<Rightarrow> ('t, 'c) state_cache \<Rightarrow> usize" where
  "compaction_target idx c = (if idx < c_decided_idx c then idx else decided_without_stopsign c)"

lemma decided_without_stopsign_bounds:
  assumes "cache_matches v c" "indexes_ordered c"
  shows "c_compacted_idx c \<le> decided_without_stopsign c"
    and "decided_without_stopsign c \<le> v_compacted_idx v + length (v_log v)"
    and "decided_without_stopsign c \<le> c_decided_idx c"
  using assms
  by (auto simp: decided_without_stopsign_def cache_matches_def indexes_ordered_def
      cache_stopsign_is_decided_def split: if_splits)

lemma get_decided_idx_without_stopsign_eq:
  assumes "cache_matches v (is_cache st)" "indexes_ordered (is_cache st)"
  shows "get_decided_idx_without_stopsign st = Some (decided_without_stopsign (is_cache st))"
  using assms
  by (auto simp: get_decided_idx_without_stopsign_def decided_without_stopsign_def is_get_defs
      cache_matches_def indexes_ordered_def)

lemma compaction_target_bounds:
  assumes "cache_matches v c" "indexes_ordered c"
  shows "compaction_target idx c \<le> v_compacted_idx v + length (v_log v)"
    and "compaction_target idx c \<le> c_decided_idx c"
  using decided_without_stopsign_bounds [OF assms] assms
  by (auto simp: compaction_target_def cache_matches_def indexes_ordered_def split: if_splits)

context storage_contract
begin

lemma try_trim_undecided:
  assumes "is_wf sinv view st" "c_decided_idx (is_cache st) < idx"
  shows "try_trim S idx st = Some (Inl (CompactionError (UndecidedIndex (c_decided_idx (is_cache st)))), st)"
  using assms get_decided_idx_without_stopsign_eq [of "vw st" st]
  by (auto simp: try_trim_def is_wf_def is_coherent_def is_get_decided_idx_def cmp_def)

lemma try_trim_stays:
  assumes "is_wf sinv view st" "idx \<le> c_decided_idx (is_cache st)"
    and "compaction_target idx (is_cache st) \<le> c_compacted_idx (is_cache st)"
  shows "try_trim S idx st = Some (Inr (), st)"
  using assms get_decided_idx_without_stopsign_eq [of "vw st" st]
  by (auto simp: try_trim_def is_wf_def is_coherent_def is_get_decided_idx_def is_get_compacted_idx_def
      cmp_def compaction_target_def Let_def split: if_splits)

lemma try_trim_does:
  assumes wf: "is_wf sinv view st" and idx: "idx \<le> c_decided_idx (is_cache st)"
    and i: "i = compaction_target idx (is_cache st)" "c_compacted_idx (is_cache st) < i"
  shows "is_does sinv view (try_trim S idx st) ()
      ((vw st)\<lparr>v_log := drop (i - c_compacted_idx (is_cache st)) (v_log (vw st)), v_trimmed := i, v_compacted_idx := i\<rparr>)
      ((is_cache st)\<lparr>c_compacted_idx := i\<rparr>)"
proof -
  have coh: "coherent st" and m: "cache_matches (vw st) (is_cache st)" and o: "indexes_ordered (is_cache st)"
    using wf by (auto simp: is_wf_def is_coherent_def)
  have eq: "try_trim S idx st = try_op (on_storage (st_write_atomically S [Trim i, SetCompactedIdx i]) st)
      (\<lambda>_ st1. Some (Inr (), upd_cache (\<lambda>c. c\<lparr>c_compacted_idx := i\<rparr>) st1))"
    using idx i get_decided_idx_without_stopsign_eq [OF m o]
    by (auto simp: try_trim_def is_get_decided_idx_def is_get_compacted_idx_def cmp_def Let_def
        compaction_target_def split: if_splits)
  show ?thesis
    unfolding eq
    by (rule is_does_try_op [OF write_compaction_does [OF coh, of i "[]", simplified]])
      (use i compaction_target_bounds(1) [OF m o] in \<open>auto simp: is_does_def\<close>)
qed

lemma try_snapshot_undecided:
  assumes "is_wf sinv view st" "c_decided_idx (is_cache st) < idx"
  shows "try_snapshot S P (Some idx) st =
           Some (Inl (CompactionError (UndecidedIndex (c_decided_idx (is_cache st)))), st)"
  using assms get_decided_idx_without_stopsign_eq [of "vw st" st]
  by (auto simp: try_snapshot_def is_wf_def is_coherent_def is_get_decided_idx_def cmp_def)

lemma try_snapshot_does:
  assumes wf: "is_wf sinv view st"
    and idx: "\<And>i. idx = Some i \<Longrightarrow> i \<le> c_decided_idx (is_cache st)"
    and i: "i = (case idx of None \<Rightarrow> decided_without_stopsign (is_cache st)
                | Some j \<Rightarrow> compaction_target j (is_cache st))"
    and new: "c_compacted_idx (is_cache st) < i"
    and snap: "create_snapshot S P i st = Some (Inr p)"
  shows "is_does sinv view (try_snapshot S P idx st) ()
      ((vw st)\<lparr>v_log := drop (i - c_compacted_idx (is_cache st)) (v_log (vw st)), v_trimmed := i,
               v_compacted_idx := i, v_snapshot := Some p\<rparr>)
      ((is_cache st)\<lparr>c_compacted_idx := i\<rparr>)"
proof -
  have coh: "coherent st" and m: "cache_matches (vw st) (is_cache st)" and o: "indexes_ordered (is_cache st)"
    using wf by (auto simp: is_wf_def is_coherent_def)
  have eq: "try_snapshot S P idx st =
      try_op (on_storage (st_write_atomically S [Trim i, SetCompactedIdx i, SetSnapshot (Some p)]) st)
        (\<lambda>_ st1. Some (Inr (), upd_cache (\<lambda>c. c\<lparr>c_compacted_idx := i\<rparr>) st1))"
    using idx i new snap get_decided_idx_without_stopsign_eq [OF m o]
    by (cases idx) (auto simp: try_snapshot_def is_get_decided_idx_def is_get_compacted_idx_def cmp_def
        compaction_target_def)
  show ?thesis
    unfolding eq
    by (rule is_does_try_op [OF write_compaction_does [OF coh, of i "[Some p]", simplified]])
      (use new i decided_without_stopsign_bounds(2) [OF m o] compaction_target_bounds(1) [OF m o] in
        \<open>auto simp: is_does_def split: option.splits\<close>)
qed

text \<open>Synchronisation. \<open>synced_cache\<close> and \<open>synced_view\<close> are what \<^verbatim>\<open>sync_log\<close> leaves behind.\<close>

end

definition synced_cache ::
  "ballot \<Rightarrow> usize \<Rightarrow> ('t, 'c, 'p) log_sync \<Rightarrow> ('t, 'c) state_cache \<Rightarrow> ('t, 'c) state_cache" where
  "synced_cache r d sync c = c\<lparr>
     c_accepted_round := r, c_decided_idx := d,
     c_compacted_idx := (if decided_snapshot sync = None then c_compacted_idx c else sync_idx sync),
     c_accepted_idx := sync_idx sync + length (sync_suffix sync) + (if sync_stopsign sync = None then 0 else 1),
     c_stopsign := sync_stopsign sync\<rparr>"

definition synced_view ::
  "ballot \<Rightarrow> usize \<Rightarrow> ('t, 'c, 'p) log_sync \<Rightarrow> 'p option \<Rightarrow> ('t, 'c, 'p) storage_view \<Rightarrow>
     ('t, 'c, 'p) storage_view" where
  "synced_view r d sync snap v = v\<lparr>
     v_accepted_round := Some r, v_decided_idx := d,
     v_trimmed := (if decided_snapshot sync = None then v_trimmed v else sync_idx sync),
     v_compacted_idx := (if decided_snapshot sync = None then v_compacted_idx v else sync_idx sync),
     v_log := (if decided_snapshot sync = None then take (sync_idx sync - v_trimmed v) (v_log v) else [])
                @ sync_suffix sync,
     v_snapshot := snap,
     v_stopsign := sync_stopsign sync\<rparr>"

text \<open>
  Where a synchronisation may start: a suffix on an existing prefix of the log, a snapshot anywhere
  at or above the compacted index.
\<close>

definition sync_applicable :: "('t, 'c, 'p) log_sync \<Rightarrow> ('t, 'c, 'p) storage_view \<Rightarrow> bool" where
  "sync_applicable sync v \<longleftrightarrow>
     v_compacted_idx v \<le> sync_idx sync \<and>
     (decided_snapshot sync = None \<longrightarrow> sync_idx sync \<le> v_compacted_idx v + length (v_log v))"

lemma synced_matches:
  assumes "cache_matches v c" "sync_applicable sync v"
  shows "cache_matches (synced_view r d sync snap v) (synced_cache r d sync c)"
  using assms
  by (auto simp: cache_matches_def synced_view_def synced_cache_def sync_applicable_def ballot_or_default_def)

lemma sync_stopsign_ops_view:
  assumes "c_stopsign (is_cache st) = v_stopsign v" "sync_stopsign_ops ss st = (ops, st')"
  shows "view_ops ops v = Some (v\<lparr>v_stopsign := ss\<rparr>)" and "txn_fits True ops v"
    and "st' = upd_cache (\<lambda>c. c\<lparr>c_accepted_idx := c_accepted_idx c + (if ss = None then 0 else 1),
                               c_stopsign := ss\<rparr>) st"
  using assms
  by (cases st; cases "is_cache st"; cases v; auto simp: sync_stopsign_ops_def split: option.splits if_splits)+

context storage_contract
begin

lemma sync_log_via:
  assumes coh: "coherent st" and app: "sync_applicable sync (vw st)"
    and snap: "sync_snapshot S P sync
        (upd_cache (\<lambda>c. c\<lparr>c_accepted_round := r, c_decided_idx := d\<rparr>) st)
      = Some (Inr ops, upd_cache (\<lambda>c. c\<lparr>c_accepted_round := r, c_decided_idx := d,
          c_compacted_idx := (if decided_snapshot sync = None then c_compacted_idx c else sync_idx sync)\<rparr>) st)"
    and ops: "ops = (if decided_snapshot sync = None then []
        else [Trim (sync_idx sync), SetCompactedIdx (sync_idx sync), SetSnapshot p])"
    and p: "decided_snapshot sync = None \<Longrightarrow> p = v_snapshot (vw st)"
  shows "is_does sinv view (sync_log S P r d (Some sync) st)
      (c_accepted_idx (synced_cache r d sync (is_cache st)))
      (synced_view r d sync p (vw st)) (synced_cache r d sync (is_cache st))"
proof -
  have s: "sinv (is_storage st)" and m: "cache_matches (vw st) (is_cache st)"
    using coh by (auto simp: is_coherent_def)
  define st3 where "st3 = upd_cache (\<lambda>c. c\<lparr>c_accepted_round := r, c_decided_idx := d,
      c_compacted_idx := (if decided_snapshot sync = None then c_compacted_idx c else sync_idx sync),
      c_accepted_idx := sync_idx sync + length (sync_suffix sync)\<rparr>) st"
  obtain ss_ops :: "('t, 'c, 'p) storage_op list" and st4
    where ss: "sync_stopsign_ops (sync_stopsign sync) st3 = (ss_ops, st4)"
    using prod.exhaust by blast
  let ?txn = "[SetAcceptedRound r, SetDecidedIndex d] @ ops
      @ [AppendOnPrefix (sync_idx sync) (sync_suffix sync)] @ ss_ops"
  define v3 where "v3 = (synced_view r d sync p (vw st))\<lparr>v_stopsign := v_stopsign (vw st)\<rparr>"
  have "view_ops ([SetAcceptedRound r, SetDecidedIndex d] @ ops
      @ [AppendOnPrefix (sync_idx sync) (sync_suffix sync)]) (vw st) = Some v3"
    using m app p
    by (cases "decided_snapshot sync"; cases "vw st")
      (auto simp: ops v3_def synced_view_def sync_applicable_def cache_matches_def)
  moreover have "txn_fits True ([SetAcceptedRound r, SetDecidedIndex d] @ ops
      @ [AppendOnPrefix (sync_idx sync) (sync_suffix sync)]) (vw st)"
    using m app by (cases "decided_snapshot sync") (auto simp: ops sync_applicable_def cache_matches_def)
  moreover have "c_stopsign (is_cache st3) = v_stopsign v3"
    using m by (simp add: st3_def v3_def cache_matches_def)
  note stop = sync_stopsign_ops_view [OF this ss]
  moreover have "v3\<lparr>v_stopsign := sync_stopsign sync\<rparr> = synced_view r d sync p (vw st)"
    by (simp add: v3_def synced_view_def)
  ultimately have "txn_ok ?txn (vw st) (synced_view r d sync p (vw st))"
    using view_ops_append [of "[SetAcceptedRound r, SetDecidedIndex d] @ ops
        @ [AppendOnPrefix (sync_idx sync) (sync_suffix sync)]" ss_ops "vw st"]
      txn_fits_append [of "[SetAcceptedRound r, SetDecidedIndex d] @ ops
        @ [AppendOnPrefix (sync_idx sync) (sync_suffix sync)]" "vw st" v3 ss_ops] stop(1,2)
    by (simp add: txn_ok_def synced_view_def)
  then have w: "is_does sinv view (on_storage (st_write_atomically S ?txn) st4) ()
      (synced_view r d sync p (vw st)) (is_cache st4)"
    using stop(3) by (intro on_storage_does write_atomically_ok) (auto simp: st3_def s)
  have c4: "is_cache st4 = synced_cache r d sync (is_cache st)"
    by (cases "is_cache st") (simp add: stop(3) st3_def synced_cache_def)
  have "sync_log S P r d (Some sync) st =
      try_op (on_storage (st_write_atomically S ?txn) st4) (\<lambda>_ st6. Some (Inr (is_get_accepted_idx st6), st6))"
    using ss by (simp add: sync_log_def snap st3_def)
  moreover have "is_does sinv view
      (try_op (on_storage (st_write_atomically S ?txn) st4) (\<lambda>_ st6. Some (Inr (is_get_accepted_idx st6), st6)))
      (c_accepted_idx (is_cache st4)) (synced_view r d sync p (vw st)) (is_cache st4)"
    by (rule is_does_try_op [OF w]) (auto simp: is_does_def is_get_accepted_idx_def)
  ultimately show ?thesis by (simp add: c4)
qed

lemma sync_log_suffix:
  assumes "coherent st" "sync_applicable sync (vw st)" "decided_snapshot sync = None"
  shows "is_does sinv view (sync_log S P r d (Some sync) st)
      (c_accepted_idx (synced_cache r d sync (is_cache st)))
      (synced_view r d sync (v_snapshot (vw st)) (vw st)) (synced_cache r d sync (is_cache st))"
  by (rule sync_log_via [where ops = "[]", OF assms(1,2)])
    (use assms(3) in \<open>cases "is_cache st"; cases st; auto simp: sync_snapshot_def\<close>)+

lemma sync_log_complete:
  assumes "coherent st" "sync_applicable sync (vw st)" "decided_snapshot sync = Some (Complete p)"
  shows "is_does sinv view (sync_log S P r d (Some sync) st)
      (c_accepted_idx (synced_cache r d sync (is_cache st)))
      (synced_view r d sync (Some p) (vw st)) (synced_cache r d sync (is_cache st))"
  by (rule sync_log_via [OF assms(1,2)]) (auto simp: sync_snapshot_def Let_def assms(3))

lemma sync_log_delta:
  assumes "coherent st" "sync_applicable sync (vw st)" "decided_snapshot sync = Some (Delta q)"
    and "create_decided_snapshot S P (upd_cache (\<lambda>c. c\<lparr>c_accepted_round := r, c_decided_idx := d\<rparr>) st) = Some (Inr p)"
    and "snap_merge P p q = Some p'"
  shows "is_does sinv view (sync_log S P r d (Some sync) st)
      (c_accepted_idx (synced_cache r d sync (is_cache st)))
      (synced_view r d sync (Some p') (vw st)) (synced_cache r d sync (is_cache st))"
  by (rule sync_log_via [OF assms(1,2)]) (auto simp: sync_snapshot_def Let_def assms(3-5))

lemma sync_log_none:
  assumes "sinv (is_storage st)"
  shows "is_does sinv view (sync_log S P r d None st) (c_accepted_idx (is_cache st))
      ((vw st)\<lparr>v_accepted_round := Some r, v_decided_idx := d\<rparr>)
      ((is_cache st)\<lparr>c_accepted_round := r, c_decided_idx := d\<rparr>)"
proof -
  let ?st = "upd_cache (\<lambda>c. c\<lparr>c_accepted_round := r, c_decided_idx := d\<rparr>) st"
  have "txn_ok [SetAcceptedRound r, SetDecidedIndex d] (vw ?st)
      ((vw st)\<lparr>v_accepted_round := Some r, v_decided_idx := d\<rparr>)" by (simp add: txn_ok_def)
  then have "is_does sinv view (on_storage (st_write_atomically S [SetAcceptedRound r, SetDecidedIndex d]) ?st) ()
      ((vw st)\<lparr>v_accepted_round := Some r, v_decided_idx := d\<rparr>) (is_cache ?st)"
    by (intro on_storage_does write_atomically_ok) (simp_all add: assms)
  then have "is_does sinv view (try_op (on_storage (st_write_atomically S [SetAcceptedRound r, SetDecidedIndex d]) ?st)
        (\<lambda>_ st6. Some (Inr (is_get_accepted_idx st6), st6)))
      (c_accepted_idx (is_cache st)) ((vw st)\<lparr>v_accepted_round := Some r, v_decided_idx := d\<rparr>) (is_cache ?st)"
    by (rule is_does_try_op) (auto simp: is_does_def is_get_accepted_idx_def)
  then show ?thesis by (simp add: sync_log_def)
qed

end

section \<open>Reading\<close>

text \<open>What a reader sees at a position of the log, from the stored view.\<close>

definition compacted_entry :: "('t, 'c, 'p) storage_view \<Rightarrow> ('t, 'c, 'p) log_entry" where
  "compacted_entry v = (case v_snapshot v of
     Some p \<Rightarrow> Snapshotted (v_compacted_idx v) p | None \<Rightarrow> Trimmed (v_compacted_idx v))"

definition entry_at :: "('t, 'c, 'p) storage_view \<Rightarrow> usize \<Rightarrow> ('t, 'c, 'p) log_entry" where
  "entry_at v i = (
     if i < v_compacted_idx v + length (v_log v)
     then (if i < v_decided_idx v then Decided (v_log v ! (i - v_compacted_idx v))
           else Undecided (v_log v ! (i - v_compacted_idx v)))
     else (case v_stopsign v of
       Some ss \<Rightarrow> StopSignEntry ss (v_decided_idx v = v_compacted_idx v + length (v_log v) + 1)
     | None \<Rightarrow> compacted_entry v))"

text \<open>The answer for the positions \<open>[a, b)\<close>: one entry for the compacted part, then the log.\<close>

definition read_view :: "('t, 'c, 'p) storage_view \<Rightarrow> usize \<Rightarrow> usize \<Rightarrow> ('t, 'c, 'p) log_entry list" where
  "read_view v a b =
     (if a < v_compacted_idx v then [compacted_entry v] else [])
       @ map (entry_at v) [max a (v_compacted_idx v)..<b]"

definition view_accepted_idx :: "('t, 'c, 'p) storage_view \<Rightarrow> usize" where
  "view_accepted_idx v = v_compacted_idx v + length (v_log v) + (if v_stopsign v = None then 0 else 1)"

lemma cache_matches_accepted: "cache_matches v c \<Longrightarrow> c_accepted_idx c = view_accepted_idx v"
  by (simp add: cache_matches_def view_accepted_idx_def)

context storage_contract
begin

lemma create_read_log_entries_eq:
  assumes coh: "coherent st" and ab: "v_compacted_idx (vw st) \<le> a" "a \<le> b"
    "b \<le> v_compacted_idx (vw st) + length (v_log (vw st))"
  shows "create_read_log_entries S a b st = Some (Inr (map (entry_at (vw st)) [a..<b]))"
proof -
  have s: "sinv (is_storage st)" and m: "cache_matches (vw st) (is_cache st)"
    using coh by (auto simp: is_coherent_def)
  define es where "es = view_entries (vw st) a b"
  have "st_get_entries S a b (is_storage st) = Some (Inr es)"
    unfolding es_def using m ab by (intro get_entries_ok s) (auto simp: cache_matches_def)
  moreover have es: "es = take (b - a) (drop (a - v_compacted_idx (vw st)) (v_log (vw st)))"
    using m ab by (auto simp: es_def view_entries_def cache_matches_def)
  moreover have len: "length es = b - a" using ab by (simp add: es)
  moreover have "map (\<lambda>(idx, e). if idx + a < is_get_decided_idx st then Decided e else Undecided e)
      (zip [0..<length es] es) = map (entry_at (vw st)) [a..<b]"
  proof (rule nth_equalityI)
    fix k assume "k < length (map (\<lambda>(idx, e). if idx + a < is_get_decided_idx st then Decided e else Undecided e)
        (zip [0..<length es] es) :: ('t, 'c, 'p) log_entry list)"
    then have k: "k < b - a" using len by simp
    moreover have "es ! k = v_log (vw st) ! (a + k - v_compacted_idx (vw st))"
      using k ab by (simp add: es)
    ultimately show "map (\<lambda>(idx, e). if idx + a < is_get_decided_idx st then Decided e else Undecided e)
        (zip [0..<length es] es) ! k = map (entry_at (vw st)) [a..<b] ! k"
      using len m ab by (auto simp: entry_at_def is_get_decided_idx_def cache_matches_def add.commute)
  qed (use len in simp)
  ultimately show ?thesis
    by (simp add: create_read_log_entries_def is_get_entries_def Let_def)
qed

lemma create_compacted_entry_eq:
  assumes "coherent st"
  shows "create_compacted_entry S (c_compacted_idx (is_cache st)) st = Some (Inr (compacted_entry (vw st)))"
  using assms
  by (simp add: create_compacted_entry_def get_snapshot_ok is_coherent_def compacted_entry_def cache_matches_def)

text \<open>Reading a non-empty range gives exactly the positions asked for, or nothing out of bounds.\<close>

lemma read_range_eq:
  assumes coh: "coherent st" and ab: "a < b"
  shows "read_range S (Included a) (Excluded b) st =
    Some (Inr (if b \<le> view_accepted_idx (vw st) then Some (read_view (vw st) a b) else None))"
proof -
  have m: "cache_matches (vw st) (is_cache st)" using coh by (simp add: is_coherent_def)
  define k where "k = v_compacted_idx (vw st)"
  define l where "l = k + length (v_log (vw st))"
  have acc: "is_get_accepted_idx st = view_accepted_idx (vw st)" "is_get_compacted_idx st = k"
    "is_get_stopsign st = v_stopsign (vw st)"
    "is_stopsign_is_decided st = (v_stopsign (vw st) \<noteq> None \<and> v_decided_idx (vw st) = view_accepted_idx (vw st))"
    using m cache_matches_accepted [OF m] by (auto simp: is_get_defs cache_matches_def k_def)
  have va: "view_accepted_idx (vw st) = l + (if v_stopsign (vw st) = None then 0 else 1)"
    by (simp add: view_accepted_idx_def l_def k_def)
  note cr = create_read_log_entries_eq [OF coh, folded k_def, folded l_def]
  have ce: "create_compacted_entry S k st = Some (Inr (compacted_entry (vw st)))"
    using create_compacted_entry_eq [OF coh] m by (simp add: cache_matches_def k_def)
  have up: "[x..<b] = [x..<b - 1] @ [b - 1]" if "x < b" for x
    using that by (metis Suc_diff_1 less_imp_Suc_add upt_Suc_append zero_less_Suc less_Suc_eq_le)
  have kl: "k \<le> l" by (simp add: l_def)
  have stop: "entry_at (vw st) l = StopSignEntry ss (v_decided_idx (vw st) = l + 1)"
    if "v_stopsign (vw st) = Some ss" for ss
    using that by (simp add: entry_at_def l_def k_def)
  consider (out) "view_accepted_idx (vw st) < b" | (comp) "b \<le> k"
    | (ent) "k < b" "b \<le> l" | (ss) ss where "b = l + 1" "v_stopsign (vw st) = Some ss"
    using va by (cases "v_stopsign (vw st)"; force)
  then show ?thesis
  proof cases
    case out
    then show ?thesis
      using ab kl va by (auto simp: read_range_def acc get_entry_type_def Let_def split: if_splits)
  next
    case comp
    with ab kl va show ?thesis
      by (auto simp: read_range_def acc get_entry_type_def Let_def ce read_view_def k_def [symmetric])
  next
    case ent
    have "get_entry_type (b - 1) k (view_accepted_idx (vw st)) st = Some EntryAt"
      using ent va by (auto simp: get_entry_type_def acc split: option.splits)
    moreover have "get_entry_type a k (view_accepted_idx (vw st)) st = Some (if a < k then CompactedAt else EntryAt)"
      using ent ab va by (auto simp: get_entry_type_def acc split: option.splits)
    ultimately show ?thesis
      using ent ab va kl
      by (auto simp: read_range_def acc Let_def ce cr read_view_def k_def [symmetric] max_def)
  next
    case (ss x)
    have to: "get_entry_type (b - 1) k (view_accepted_idx (vw st)) st = Some (StopSignAt x)"
      using ss va kl by (auto simp: get_entry_type_def acc)
    have fr: "get_entry_type a k (view_accepted_idx (vw st)) st =
        Some (if a < k then CompactedAt else if a < l then EntryAt else StopSignAt x)"
      using ss ab va kl by (auto simp: get_entry_type_def acc)
    have "read_view (vw st) a b = (if a < k then [compacted_entry (vw st)] else [])
        @ map (entry_at (vw st)) [max a k..<l] @ [StopSignEntry x (v_decided_idx (vw st) = l + 1)]"
      using ss ab kl stop up [of "max a k"] by (auto simp: read_view_def k_def [symmetric])
    with to fr ss va ab kl show ?thesis
      by (auto simp: read_range_def acc Let_def ce cr max_def split: if_splits)
  qed
qed

text \<open>An empty range that starts at the stop sign reaches \<^verbatim>\<open>unimplemented!\<close>.\<close>

lemma read_range_empty_at_stopsign:
  assumes coh: "coherent st" and ss: "v_stopsign (vw st) = Some ss" and ne: "v_log (vw st) \<noteq> []"
    and i: "i = v_compacted_idx (vw st) + length (v_log (vw st))"
  shows "read_range S (Included i) (Excluded i) st = None"
proof -
  have m: "cache_matches (vw st) (is_cache st)" using coh by (simp add: is_coherent_def)
  have "i \<noteq> 0" "v_compacted_idx (vw st) \<le> i - 1"
    using ne i by (cases "v_log (vw st)"; simp)+
  then show ?thesis
    using m ss i by (auto simp: read_range_def Let_def get_entry_type_def is_get_defs cache_matches_def)
qed

end

end
