(* ===== verification/Storage_Actions.thy ===== *)
theory Storage_Actions
  imports Internal_Storage_Facts
begin

text \<open>
  The actions of the replication protocol on its internal storage as a transition relation, the
  fields of the cache each of them leaves alone (for any back-end), and the invariant they keep on a
  back-end that meets the storage contract: the cache mirrors the stored state and the compacted,
  decided and accepted indexes are ordered.
\<close>

section \<open>The actions\<close>

text \<open>
  A synchronisation that fits the local storage: it starts at or above the compacted index, on an
  existing prefix unless it brings a snapshot, and its decided index lies between the compacted and
  the accepted index it leaves.
\<close>

definition sync_fits :: "usize \<Rightarrow> ('t, 'c, 'p) log_sync option \<Rightarrow> ('s, 't, 'c) internal_storage \<Rightarrow> bool" where
  "sync_fits d sync st =
     (case sync of
        None \<Rightarrow> is_get_compacted_idx st \<le> d \<and> d \<le> is_get_accepted_idx st
      | Some s \<Rightarrow>
          is_get_compacted_idx st \<le> sync_idx s \<and>
          (if decided_snapshot s = None
           then is_get_compacted_idx st \<le> d \<and>
                sync_idx s + (if is_get_stopsign st = None then 0 else 1) \<le> is_get_accepted_idx st
           else sync_idx s \<le> d) \<and>
          d \<le> sync_idx s + length (sync_suffix s) + (if sync_stopsign s = None then 0 else 1))"

text \<open>
  The actions of the protocol on its storage, with the conditions under which the protocol takes
  them. With \<open>strict\<close>, the two conditions that depend on what other servers sent are included.
\<close>

inductive storage_act ::
  "('s, 't, 'c, 'p) storage_impl \<Rightarrow> ('t, 'p) snapshot_impl \<Rightarrow> bool \<Rightarrow>
     ('s, 't, 'c) internal_storage \<Rightarrow> ('s, 't, 'c) internal_storage \<Rightarrow> bool"
  for S P strict where
  act_flush: "flush_batch S st = Some (Inr i, st') \<Longrightarrow> storage_act S P strict st st'"
| act_append_batched: "append_entries_with_batching S es st = Some (Inr r, st') \<Longrightarrow> storage_act S P strict st st'"
| act_append_get: "append_entries_and_get_accepted_idx S es st = Some (Inr r1, st') \<Longrightarrow> storage_act S P strict st st'"
| act_append: "append_entries_without_batching S es st = Some (Inr i, st') \<Longrightarrow> storage_act S P strict st st'"
| act_flush_get: "flush_batch_and_get_entries S st = Some (Inr r, st') \<Longrightarrow> storage_act S P strict st st'"
| act_append_stopsign:
    "is_get_stopsign st = None \<Longrightarrow> is_append_stopsign S ss st = Some (Inr r, st') \<Longrightarrow> storage_act S P strict st st'"
| act_promise:
    "ballot_le (is_get_promise st) b \<Longrightarrow> is_set_promise S b st = Some (Inr u, st') \<Longrightarrow> storage_act S P strict st st'"
| act_decide:
    "min (is_get_decided_idx st) (is_get_accepted_idx st) \<le> i \<Longrightarrow> (strict \<Longrightarrow> i \<le> is_get_accepted_idx st) \<Longrightarrow>
       is_set_decided_idx S i st = Some (Inr u, st') \<Longrightarrow> storage_act S P strict st st'"
| act_stopsign: "is_set_stopsign S (Some ss) st = Some (Inr i, st') \<Longrightarrow> storage_act S P strict st st'"
| act_sync:
    "ballot_key r = ballot_key (is_get_promise st) \<Longrightarrow> (strict \<Longrightarrow> sync_fits d sync st) \<Longrightarrow>
       sync_log S P r d sync st = Some (Inr i, st') \<Longrightarrow> storage_act S P strict st st'"
| act_trim: "try_trim S idx st = Some (res, st') \<Longrightarrow> storage_act S P strict st st'"
| act_snapshot: "try_snapshot S P oidx st = Some (res, st') \<Longrightarrow> storage_act S P strict st st'"

abbreviation acts where "acts S P strict \<equiv> (storage_act S P strict)\<^sup>*\<^sup>*"

lemma acts_refl [simp, intro]: "acts S P strict st st"
  by simp

lemma acts_one: "storage_act S P strict st st' \<Longrightarrow> acts S P strict st st'"
  by simp

lemma acts_two: "storage_act S P strict a b \<Longrightarrow> storage_act S P strict b c \<Longrightarrow> acts S P strict a c"
  by (simp add: converse_rtranclp_into_rtranclp)


lemma acts_step: "storage_act S P strict a b \<Longrightarrow> acts S P strict b c \<Longrightarrow> acts S P strict a c"
  by (rule converse_rtranclp_into_rtranclp [of "storage_act S P strict"])

section \<open>Effect on the cache, for any back-end\<close>

lemma on_storage_cache: "on_storage f st = Some (r, st') \<Longrightarrow> is_cache st' = is_cache st"
  by (auto simp: on_storage_def)

lemma append_without_cache:
  "append_entries_without_batching S es st = Some (Inr i, st') \<Longrightarrow>
     is_cache st' = (is_cache st)\<lparr>c_accepted_idx := c_accepted_idx (is_cache st) + length es\<rparr> \<and>
     i = c_accepted_idx (is_cache st')"
  by (auto simp: append_entries_without_batching_def Let_def try_op_eq_Inr is_get_accepted_idx_def
      dest!: on_storage_cache)

lemma flush_if_full_batch_cache:
  "flush_if_full_batch S res st = Some (Inr r, st') \<Longrightarrow>
     is_cache st' = (is_cache st)\<lparr>c_accepted_idx := c_accepted_idx (is_cache st)
       + (case res of None \<Rightarrow> 0 | Some es \<Rightarrow> length es)\<rparr>"
  by (auto simp: flush_if_full_batch_def try_op_eq_Inr split: option.splits dest!: append_without_cache)

lemma flush_batch_cache:
  "flush_batch S st = Some (Inr i, st') \<Longrightarrow>
     is_cache st' = (is_cache st)\<lparr>c_batched_entries := [],
       c_accepted_idx := c_accepted_idx (is_cache st) + length (c_batched_entries (is_cache st))\<rparr> \<and>
     i = c_accepted_idx (is_cache st')"
  by (auto simp: flush_batch_def take_batched_entries_def dest!: append_without_cache)

text \<open>
  Fields of the cache that no appending, flushing or stop-sign action touches.
\<close>

definition same_scalars :: "('s, 't, 'c) internal_storage \<Rightarrow> ('s, 't, 'c) internal_storage \<Rightarrow> bool" where
  "same_scalars st st' \<longleftrightarrow>
     is_get_promise st' = is_get_promise st \<and> is_get_accepted_round st' = is_get_accepted_round st \<and>
     is_get_decided_idx st' = is_get_decided_idx st \<and> is_get_compacted_idx st' = is_get_compacted_idx st \<and>
     is_get_accepted_idx st \<le> is_get_accepted_idx st'"

lemma append_actions_scalars:
  "flush_batch S st = Some (Inr i, st') \<Longrightarrow> same_scalars st st'"
  "append_entries_with_batching S es st = Some (Inr r, st') \<Longrightarrow> same_scalars st st'"
  "append_entries_and_get_accepted_idx S es st = Some (Inr r1, st') \<Longrightarrow> same_scalars st st'"
  "append_entries_without_batching S es st = Some (Inr i, st') \<Longrightarrow> same_scalars st st'"
  "flush_batch_and_get_entries S st = Some (Inr r, st') \<Longrightarrow> same_scalars st st'"
  "is_append_stopsign S ss st = Some (Inr r, st') \<Longrightarrow> same_scalars st st'"
  "is_set_stopsign S (Some ss) st = Some (Inr i, st') \<Longrightarrow> same_scalars st st'"
  by (auto simp: same_scalars_def is_get_defs append_entries_with_batching_def cache_append_entries_def
      append_entries_and_get_accepted_idx_def take_entries_if_batch_is_full_simp flush_batch_and_get_entries_def
      take_batched_entries_def is_append_stopsign_def cache_append_stopsign_def Let_def try_op_eq_Inr
      is_set_stopsign_def
      split: if_splits option.splits
      dest!: flush_batch_cache append_without_cache flush_if_full_batch_cache on_storage_cache)

lemma set_actions_cache:
  "is_set_promise S b st = Some (r, st') \<Longrightarrow> is_cache st' = (is_cache st)\<lparr>c_promise := b\<rparr>"
  "is_set_decided_idx S d st = Some (r, st') \<Longrightarrow> is_cache st' = (is_cache st)\<lparr>c_decided_idx := d\<rparr>"
  by (auto simp: is_set_promise_def is_set_decided_idx_def dest!: on_storage_cache)

lemma compaction_cache:
  "try_trim S idx st = Some (res, st') \<Longrightarrow>
     is_cache st' = (is_cache st)\<lparr>c_compacted_idx := c_compacted_idx (is_cache st')\<rparr>"
  "try_snapshot S P oidx st = Some (res, st') \<Longrightarrow>
     is_cache st' = (is_cache st)\<lparr>c_compacted_idx := c_compacted_idx (is_cache st')\<rparr>"
   apply (auto simp: try_trim_def Let_def try_op_def
      split: Option.bind_split_asm ordering.split_asm if_split_asm option.split_asm sum.split_asm prod.split_asm
      dest!: on_storage_cache)[1]
  apply (auto simp: try_snapshot_def Let_def try_op_def
      split: Option.bind_split_asm ordering.split_asm if_split_asm option.split_asm sum.split_asm prod.split_asm
      dest!: on_storage_cache)
  done

lemma compaction_scalars:
  assumes "is_cache st' = (is_cache st)\<lparr>c_compacted_idx := k\<rparr>"
  shows "is_get_promise st' = is_get_promise st" "is_get_accepted_round st' = is_get_accepted_round st"
    "is_get_decided_idx st' = is_get_decided_idx st" "is_get_accepted_idx st' = is_get_accepted_idx st"
  using assms by (simp_all add: is_get_defs)

lemma sync_snapshot_cache:
  "sync_snapshot S P sync st = Some (Inr ops, st') \<Longrightarrow>
     is_cache st' = (is_cache st)\<lparr>c_compacted_idx := c_compacted_idx (is_cache st')\<rparr>"
  by (auto simp: sync_snapshot_def Let_def
      split: Option.bind_split_asm option.split_asm snapshot_type.split_asm sum.split_asm)

lemma sync_stopsign_ops_cache:
  "sync_stopsign_ops ss st = (ops, st') \<Longrightarrow>
     is_cache st' = (is_cache st)\<lparr>c_stopsign := c_stopsign (is_cache st'), c_accepted_idx := c_accepted_idx (is_cache st')\<rparr>"
  by (auto simp: sync_stopsign_ops_def split: option.splits if_splits)

lemma sync_log_cache:
  assumes "sync_log S P r d sync st = Some (Inr i, st')"
  shows "is_cache st' = (is_cache st)\<lparr>c_accepted_round := r, c_decided_idx := d,
      c_compacted_idx := c_compacted_idx (is_cache st'), c_stopsign := c_stopsign (is_cache st'),
      c_accepted_idx := c_accepted_idx (is_cache st')\<rparr>"
proof (cases sync)
  case None
  with assms show ?thesis
    by (auto simp: sync_log_def Let_def try_op_eq_Inr dest!: on_storage_cache)
next
  case (Some s)
  let ?st1 = "upd_cache (\<lambda>c. c\<lparr>c_accepted_round := r, c_decided_idx := d\<rparr>) st"
  obtain ops st2 ss_ops st4 txn where s2: "sync_snapshot S P s ?st1 = Some (Inr ops, st2)"
    and s4: "sync_stopsign_ops (sync_stopsign s)
        (upd_cache (\<lambda>c. c\<lparr>c_accepted_idx := sync_idx s + length (sync_suffix s)\<rparr>) st2)
      = (ss_ops :: ('b, 'c, 'd) storage_op list, st4)"
    and "on_storage (st_write_atomically S txn) st4 = Some (Inr (), st')"
    using assms Some
    by (auto simp: sync_log_def Let_def try_op_def
        split: option.split_asm sum.split_asm prod.split_asm)
  then have "is_cache st' = is_cache st4" by (simp add: on_storage_cache)
  with sync_snapshot_cache [OF s2] sync_stopsign_ops_cache [OF s4] show ?thesis
    by (cases "is_cache st"; cases "is_cache st2"; cases "is_cache st4") auto
qed

lemma sync_log_scalars:
  assumes "sync_log S P r d sync st = Some (Inr i, st')"
  shows "is_get_promise st' = is_get_promise st" "is_get_accepted_round st' = r" "is_get_decided_idx st' = d"
    "c_batched_entries (is_cache st') = c_batched_entries (is_cache st)"
  using sync_log_cache [OF assms] by (cases "is_cache st"; cases "is_cache st'"; simp add: is_get_defs)+

text \<open>The promise never goes back, and the accepted round follows it.\<close>

lemmas act_scalars =
  append_actions_scalars [unfolded same_scalars_def]
  compaction_cache [THEN compaction_scalars(1)] compaction_cache [THEN compaction_scalars(2)]

lemma storage_act_promise:
  assumes "storage_act S P strict st st'"
  shows "ballot_le (is_get_promise st) (is_get_promise st')"
  using assms
proof cases
  case (act_promise b u)
  then show ?thesis by (simp add: is_get_promise_def set_actions_cache)
next
  case (act_decide i u)
  then show ?thesis by (simp add: is_get_promise_def set_actions_cache)
next
  case (act_sync r d sync i)
  then show ?thesis by (simp add: sync_log_scalars)
qed (simp_all add: act_scalars)

definition round_ok :: "('s, 't, 'c) internal_storage \<Rightarrow> bool" where
  "round_ok st \<longleftrightarrow> ballot_le (is_get_accepted_round st) (is_get_promise st)"

lemma storage_act_round:
  assumes "storage_act S P strict st st'" "round_ok st"
  shows "round_ok st' \<and> ballot_le (is_get_accepted_round st) (is_get_accepted_round st')"
  using assms(1)
proof cases
  case (act_promise b u)
  then show ?thesis
    using assms(2) by (auto simp: is_get_defs round_ok_def set_actions_cache intro: ballot_le_trans)
next
  case (act_decide i u)
  then show ?thesis using assms(2) by (simp add: is_get_defs round_ok_def set_actions_cache)
next
  case (act_sync r d sync i)
  then show ?thesis using assms(2) by (simp add: sync_log_scalars round_ok_def ballot_order)
qed (use assms(2) in \<open>simp_all add: act_scalars round_ok_def\<close>)

lemma acts_promise: "acts S P strict st st' \<Longrightarrow> ballot_le (is_get_promise st) (is_get_promise st')"
  by (induction rule: rtranclp_induct) (auto intro: ballot_le_trans storage_act_promise)

lemma acts_round:
  "acts S P strict st st' \<Longrightarrow> round_ok st \<Longrightarrow>
     round_ok st' \<and> ballot_le (is_get_accepted_round st) (is_get_accepted_round st')"
  by (induction rule: rtranclp_induct) (auto dest: storage_act_round intro: ballot_le_trans)

section \<open>The storage invariant\<close>

text \<open>
  \<open>kept\<close>: the outcome of an operation with a known effect on view and cache keeps the invariant.
\<close>

lemma is_does_wf:
  assumes "is_does sinv view m r v c" "m = Some (r', st')" "cache_matches v c" "indexes_ordered c"
  shows "is_wf sinv view st'"
  using is_does_coherent [OF assms(1-3)] is_doesD [OF assms(1,2)] assms(4) by (simp add: is_wf_def)

lemma cache_matches_append:
  assumes "cache_matches v c"
  shows "cache_matches (v\<lparr>v_log := v_log v @ es\<rparr>) (c\<lparr>c_accepted_idx := c_accepted_idx c + length es\<rparr>)"
    and "cache_matches (v\<lparr>v_log := v_log v @ es\<rparr>)
           (c\<lparr>c_batched_entries := b, c_accepted_idx := c_accepted_idx c + length es\<rparr>)"
  using assms by (auto simp: cache_matches_def)

lemma indexes_ordered_append:
  assumes "indexes_ordered c" "n \<le> m"
  shows "indexes_ordered (c\<lparr>c_accepted_idx := c_accepted_idx c + m\<rparr>)"
    "indexes_ordered (c\<lparr>c_batched_entries := b, c_accepted_idx := c_accepted_idx c + m\<rparr>)"
  using assms by (auto simp: indexes_ordered_def)

context storage_contract
begin

lemma append_wf:
  assumes wf: "is_wf sinv view st"
  shows "append_entries_without_batching S es st = Some (r, st') \<Longrightarrow> is_wf sinv view st'"
    and "flush_batch S st = Some (r, st') \<Longrightarrow> is_wf sinv view st'"
    and "append_entries_with_batching S es st = Some (r1, st') \<Longrightarrow> is_wf sinv view st'"
    and "append_entries_and_get_accepted_idx S es st = Some (r2, st') \<Longrightarrow> is_wf sinv view st'"
    and "flush_batch_and_get_entries S st = Some (r1, st') \<Longrightarrow> is_wf sinv view st'"
proof -
  have s: "sinv (is_storage st)" and m: "cache_matches (view (is_storage st)) (is_cache st)"
    and o: "indexes_ordered (is_cache st)"
    using wf by (auto simp: is_wf_def is_coherent_def)
  note ok = cache_matches_append [OF m] indexes_ordered_append [OF o order.refl]
  show "is_wf sinv view st'" if "append_entries_without_batching S es st = Some (r, st')"
    by (rule is_does_wf [OF append_entries_without_batching_does [OF s] that]) (rule ok)+
  show "is_wf sinv view st'" if "flush_batch S st = Some (r, st')"
    by (rule is_does_wf [OF flush_batch_does [OF s] that]) (rule ok)+
  have part: "is_wf sinv view (upd_cache (\<lambda>c. c\<lparr>c_batched_entries := b\<rparr>) st)" for b
    using wf by (simp add: is_wf_def is_coherent_def)
  show "is_wf sinv view st'" if "append_entries_with_batching S es st = Some (r1, st')"
  proof (cases "c_batch_size (is_cache st) \<le> length (c_batched_entries (is_cache st) @ es)")
    case True
    show ?thesis
      by (rule is_does_wf [OF append_entries_with_batching_full [OF s True] that]) (rule ok)+
  next
    case False
    with that part show ?thesis by (auto simp: append_entries_with_batching_part)
  qed
  show "is_wf sinv view st'" if "append_entries_and_get_accepted_idx S es st = Some (r2, st')"
  proof (cases "c_batch_size (is_cache st) \<le> length (c_batched_entries (is_cache st) @ es)")
    case True
    show ?thesis
      by (rule is_does_wf [OF append_entries_and_get_accepted_idx_full [OF s True] that]) (rule ok)+
  next
    case False
    with that part show ?thesis by (auto simp: append_entries_and_get_accepted_idx_part)
  qed
  show "is_wf sinv view st'" if fl: "flush_batch_and_get_entries S st = Some (r1, st')"
  proof (cases "c_batched_entries (is_cache st) = []")
    case True
    with fl wf show ?thesis by (simp add: flush_batch_and_get_entries_def flush_if_full_batch_def)
  next
    case False
    let ?st = "upd_cache (\<lambda>c. c\<lparr>c_batched_entries := []\<rparr>) st"
    have s': "sinv (is_storage ?st)" using s by simp
    have "flush_if_full_batch S (Some (c_batched_entries (is_cache st))) ?st = Some (r1, st')"
      using fl False by (simp add: flush_batch_and_get_entries_def take_batched_entries_def)
    then show ?thesis
      by (rule is_does_wf [OF flush_if_full_batch_does [OF s']])
        (use m o in \<open>simp_all add: indexes_ordered_def cache_matches_def\<close>)
  qed
qed

lemma stopsign_wf:
  assumes wf: "is_wf sinv view st"
  shows "is_append_stopsign S ss st = Some (r, st') \<Longrightarrow> is_get_stopsign st = None \<Longrightarrow> is_wf sinv view st'"
    and "is_set_stopsign S (Some ss) st = Some (r1, st') \<Longrightarrow> is_wf sinv view st'"
proof -
  have s: "sinv (is_storage st)" and m: "cache_matches (view (is_storage st)) (is_cache st)"
    and o: "indexes_ordered (is_cache st)"
    using wf by (auto simp: is_wf_def is_coherent_def)
  show "is_wf sinv view st'" if "is_append_stopsign S ss st = Some (r, st')" "is_get_stopsign st = None"
    by (rule is_does_wf [OF is_append_stopsign_does [OF s] that(1)])
      (use m o that(2) in \<open>auto simp: cache_matches_def indexes_ordered_def is_get_stopsign_def\<close>)
  show "is_wf sinv view st'" if "is_set_stopsign S (Some ss) st = Some (r1, st')"
    by (rule is_does_wf [OF is_set_stopsign_does [OF s] that])
      (use m o in \<open>auto simp: cache_matches_def indexes_ordered_def\<close>)
qed

lemma set_wf:
  assumes wf: "is_wf sinv view st"
  shows "is_set_promise S b st = Some (r, st') \<Longrightarrow> is_wf sinv view st'"
    and "is_set_decided_idx S i st = Some (r, st') \<Longrightarrow> is_get_decided_idx st \<le> i \<Longrightarrow>
           i \<le> is_get_accepted_idx st \<Longrightarrow> is_wf sinv view st'"
proof -
  have s: "sinv (is_storage st)" and m: "cache_matches (view (is_storage st)) (is_cache st)"
    and o: "indexes_ordered (is_cache st)"
    using wf by (auto simp: is_wf_def is_coherent_def)
  show "is_wf sinv view st'" if "is_set_promise S b st = Some (r, st')"
    by (rule is_does_wf [OF is_set_promise_does [OF s] that])
      (use m o in \<open>auto simp: cache_matches_def indexes_ordered_def ballot_or_default_def\<close>)
  show "is_wf sinv view st'"
    if "is_set_decided_idx S i st = Some (r, st')" "is_get_decided_idx st \<le> i" "i \<le> is_get_accepted_idx st"
    by (rule is_does_wf [OF is_set_decided_idx_does [OF s] that(1)])
      (use m o that(2,3) in \<open>auto simp: cache_matches_def indexes_ordered_def is_get_defs\<close>)
qed

lemma compacted_wf:
  assumes wf: "is_wf sinv view st" and i: "c_compacted_idx (is_cache st) \<le> i"
    "i \<le> c_decided_idx (is_cache st)" "i \<le> v_compacted_idx (view (is_storage st)) + length (v_log (view (is_storage st)))"
  shows "cache_matches ((view (is_storage st))\<lparr>v_log := drop (i - c_compacted_idx (is_cache st)) (v_log (view (is_storage st))),
      v_trimmed := i, v_compacted_idx := i, v_snapshot := p\<rparr>) ((is_cache st)\<lparr>c_compacted_idx := i\<rparr>)"
    and "cache_matches ((view (is_storage st))\<lparr>v_log := drop (i - c_compacted_idx (is_cache st)) (v_log (view (is_storage st))),
      v_trimmed := i, v_compacted_idx := i\<rparr>) ((is_cache st)\<lparr>c_compacted_idx := i\<rparr>)"
    and "indexes_ordered ((is_cache st)\<lparr>c_compacted_idx := i\<rparr>)"
  using assms by (auto simp: is_wf_def is_coherent_def cache_matches_def indexes_ordered_def)

lemma try_trim_wf:
  assumes wf: "is_wf sinv view st" and tr: "try_trim S idx st = Some (r, st')"
  shows "is_wf sinv view st'"
proof -
  have m: "cache_matches (view (is_storage st)) (is_cache st)" and o: "indexes_ordered (is_cache st)"
    using wf by (auto simp: is_wf_def is_coherent_def)
  let ?i = "compaction_target idx (is_cache st)"
  consider "c_decided_idx (is_cache st) < idx" | "idx \<le> c_decided_idx (is_cache st)" "?i \<le> c_compacted_idx (is_cache st)"
    | "idx \<le> c_decided_idx (is_cache st)" "c_compacted_idx (is_cache st) < ?i" by linarith
  then show ?thesis
  proof cases
    case 1
    with try_trim_undecided [OF wf 1] tr wf show ?thesis by simp
  next
    case 2
    with try_trim_stays [OF wf 2] tr wf show ?thesis by simp
  next
    case 3
    show ?thesis
      by (rule is_does_wf [OF try_trim_does [OF wf 3(1) refl 3(2)] tr])
        (use compaction_target_bounds [OF m o, of idx] 3(2) in \<open>auto intro!: compacted_wf [OF wf]\<close>)
  qed
qed

lemma try_snapshot_wf:
  assumes wf: "is_wf sinv view st" and tr: "try_snapshot S P oidx st = Some (r, st')"
  shows "is_wf sinv view st'"
proof -
  have m: "cache_matches (view (is_storage st)) (is_cache st)" and o: "indexes_ordered (is_cache st)"
    using wf by (auto simp: is_wf_def is_coherent_def)
  define i where "i = (case oidx of None \<Rightarrow> decided_without_stopsign (is_cache st)
                | Some j \<Rightarrow> compaction_target j (is_cache st))"
  have i: "i \<le> v_compacted_idx (view (is_storage st)) + length (v_log (view (is_storage st)))" "i \<le> c_decided_idx (is_cache st)"
    using compaction_target_bounds [OF m o] decided_without_stopsign_bounds [OF m o]
    by (auto simp: i_def split: option.splits)
  show ?thesis
  proof (cases "\<exists>j. oidx = Some j \<and> c_decided_idx (is_cache st) < j")
    case True
    with try_snapshot_undecided [OF wf] tr wf show ?thesis by auto
  next
    case False
    then have idx: "\<And>j. oidx = Some j \<Longrightarrow> j \<le> c_decided_idx (is_cache st)" by (auto simp: not_less)
    show ?thesis
    proof (cases "c_compacted_idx (is_cache st) < i \<and> (\<exists>p. create_snapshot S P i st = Some (Inr p))")
      case True
      then obtain p where p: "create_snapshot S P i st = Some (Inr p)" by blast
      show ?thesis
        by (rule is_does_wf [OF try_snapshot_does [OF wf idx i_def _ p] tr])
          (use True i in \<open>auto intro!: compacted_wf [OF wf]\<close>)
    next
      case False
      then have "st' = st"
        using tr idx get_decided_idx_without_stopsign_eq [OF m o]
        by (auto simp: try_snapshot_def i_def is_get_decided_idx_def is_get_compacted_idx_def cmp_def
            compaction_target_def Let_def
            split: Option.bind_split_asm option.split_asm sum.split_asm if_split_asm)
      with wf show ?thesis by simp
    qed
  qed
qed

lemma sync_fits_ordered:
  assumes "cache_matches (view (is_storage st)) (is_cache st)" "sync_fits d (Some sync) st"
  shows "sync_applicable sync (view (is_storage st))" "indexes_ordered (synced_cache r d sync (is_cache st))"
  using assms
  by (auto simp: sync_fits_def sync_applicable_def indexes_ordered_def synced_cache_def cache_matches_def
      is_get_defs split: if_splits)

lemma sync_log_wf:
  assumes wf: "is_wf sinv view st" and fits: "sync_fits d sync st"
    and sy: "sync_log S P r d sync st = Some (Inr i, st')"
  shows "is_wf sinv view st'"
proof (cases sync)
  case None
  have s: "sinv (is_storage st)" using wf by (simp add: is_wf_def is_coherent_def)
  show ?thesis
    by (rule is_does_wf [OF sync_log_none [OF s] sy [unfolded None]])
      (use wf fits None in \<open>auto simp: is_wf_def is_coherent_def cache_matches_def indexes_ordered_def sync_fits_def
         is_get_defs ballot_or_default_def\<close>)
next
  case (Some x)
  have coh: "is_coherent sinv view st" and m: "cache_matches (view (is_storage st)) (is_cache st)"
    using wf by (auto simp: is_wf_def is_coherent_def)
  note app = sync_fits_ordered(1) [OF m fits [unfolded Some]]
    and ord = sync_fits_ordered(2) [OF m fits [unfolded Some]]
  note fin = synced_matches [OF m app] ord
  note sy' = sy [unfolded Some]
  show ?thesis
  proof (cases "decided_snapshot x")
    case None
    show ?thesis by (rule is_does_wf [OF sync_log_suffix [OF coh app None] sy']) (rule fin)+
  next
    case (Some y)
    show ?thesis
    proof (cases y)
      case (Complete p)
      with Some show ?thesis
        by (intro is_does_wf [OF sync_log_complete [OF coh app] sy'] fin) simp
    next
      case (Delta q)
      have "\<exists>p p'. create_decided_snapshot S P
            (upd_cache (\<lambda>c. c\<lparr>c_accepted_round := r, c_decided_idx := d\<rparr>) st) = Some (Inr p)
          \<and> snap_merge P p q = Some p'"
        using sy' Some Delta
        by (auto simp: sync_log_def sync_snapshot_def Let_def
            split: Option.bind_split_asm sum.split_asm)
      then obtain p p' where "create_decided_snapshot S P
            (upd_cache (\<lambda>c. c\<lparr>c_accepted_round := r, c_decided_idx := d\<rparr>) st) = Some (Inr p)"
          "snap_merge P p q = Some p'" by blast
      with Some Delta show ?thesis
        by (intro is_does_wf [OF sync_log_delta [OF coh app] sy'] fin) simp_all
    qed
  qed
qed

lemma storage_act_wf:
  assumes "storage_act S P True st st'" and wf: "is_wf sinv view st"
  shows "is_wf sinv view st'"
  using assms(1)
proof cases
  case (act_flush i)
  then show ?thesis by (rule append_wf(2) [OF wf])
next
  case (act_append_batched es r)
  then show ?thesis by (rule append_wf(3) [OF wf])
next
  case (act_append_get es r1)
  then show ?thesis by (rule append_wf(4) [OF wf])
next
  case (act_append es i)
  then show ?thesis by (rule append_wf(1) [OF wf])
next
  case (act_flush_get r)
  then show ?thesis by (rule append_wf(5) [OF wf])
next
  case (act_append_stopsign ss r)
  then show ?thesis by (intro stopsign_wf(1) [OF wf])
next
  case (act_promise b u)
  then show ?thesis by (intro set_wf(1) [OF wf])
next
  case (act_decide i u)
  have "is_get_decided_idx st \<le> is_get_accepted_idx st"
    using wf by (simp add: is_wf_def indexes_ordered_def is_get_defs)
  with act_decide show ?thesis by (intro set_wf(2) [OF wf]) (auto simp: min_def)
next
  case (act_stopsign ss i)
  then show ?thesis by (intro stopsign_wf(2) [OF wf])
next
  case (act_sync r d sync i)
  then show ?thesis by (intro sync_log_wf [OF wf]) simp_all
next
  case (act_trim idx res)
  then show ?thesis by (rule try_trim_wf [OF wf])
next
  case (act_snapshot oidx res)
  then show ?thesis by (rule try_snapshot_wf [OF wf])
qed

lemma acts_wf: "acts S P True st st' \<Longrightarrow> is_wf sinv view st \<Longrightarrow> is_wf sinv view st'"
  by (induction rule: rtranclp_induct) (auto intro: storage_act_wf)

text \<open>
  Batching delays entries and keeps their order: the stored log followed by the batch is what was
  appended so far.
\<close>

lemma append_batched_fifo:
  assumes "is_wf sinv view st"
  shows "\<exists>r st'. append_entries_with_batching S es st = Some (Inr r, st') \<and> is_wf sinv view st' \<and>
    v_log (view (is_storage st')) @ c_batched_entries (is_cache st')
      = v_log (view (is_storage st)) @ c_batched_entries (is_cache st) @ es \<and>
    (c_batched_entries (is_cache st') = [] \<or> length (c_batched_entries (is_cache st')) < c_batch_size (is_cache st'))"
proof -
  have s: "sinv (is_storage st)" using assms by (simp add: is_wf_def is_coherent_def)
  show ?thesis
  proof (cases "c_batch_size (is_cache st) \<le> length (c_batched_entries (is_cache st) @ es)")
    case True
    from append_entries_with_batching_full [OF s True] obtain r st' where
      run: "append_entries_with_batching S es st = Some (Inr r, st')"
      and "v_log (view (is_storage st')) = v_log (view (is_storage st)) @ c_batched_entries (is_cache st) @ es"
        "c_batched_entries (is_cache st') = []"
      by (auto simp: is_does_def)
    with append_wf(3) [OF assms run] show ?thesis by auto
  next
    case False
    then have run: "append_entries_with_batching S es st = Some (Inr None,
        upd_cache (\<lambda>c. c\<lparr>c_batched_entries := c_batched_entries c @ es\<rparr>) st)"
      by (intro append_entries_with_batching_part) simp
    with append_wf(3) [OF assms run] False show ?thesis by auto
  qed
qed

text \<open>Reading the decided suffix.\<close>

lemma read_decided_suffix_eq:
  assumes wf: "is_wf sinv view st" and a: "a < is_get_decided_idx st"
  shows "is_read_decided_suffix S a st =
    Some (Inr (Some (read_view (view (is_storage st)) a (is_get_decided_idx st))))"
proof -
  have coh: "is_coherent sinv view st" and m: "cache_matches (view (is_storage st)) (is_cache st)"
    and o: "indexes_ordered (is_cache st)"
    using wf by (auto simp: is_wf_def is_coherent_def)
  have "is_get_decided_idx st \<le> view_accepted_idx (view (is_storage st))"
    using o cache_matches_accepted [OF m] by (simp add: indexes_ordered_def is_get_decided_idx_def)
  with read_range_eq [OF coh a] a show ?thesis by (simp add: is_read_decided_suffix_def Let_def)
qed

end

text \<open>No entry of a decided suffix is reported as undecided.\<close>

fun shows_decided :: "('t, 'c, 'p) log_entry \<Rightarrow> bool" where
  "shows_decided (Undecided e) = False"
| "shows_decided (StopSignEntry ss dec) = dec"
| "shows_decided _ = True"

lemma read_view_decided:
  assumes "v_decided_idx v \<le> view_accepted_idx v" "e \<in> set (read_view v a (v_decided_idx v))"
  shows "shows_decided e"
proof -
  consider "e = compacted_entry v"
    | k where "e = entry_at v k" "k < v_decided_idx v" "v_compacted_idx v \<le> k"
    using assms(2) by (auto simp: read_view_def split: if_split_asm)
  then show ?thesis
  proof cases
    case 1
    then show ?thesis by (simp add: compacted_entry_def split: option.splits)
  next
    case (2 k)
    show ?thesis
    proof (cases "k < v_compacted_idx v + length (v_log v)")
      case True
      with 2 show ?thesis by (simp add: entry_at_def)
    next
      case False
      with 2 assms(1) have "v_stopsign v \<noteq> None" "v_decided_idx v = v_compacted_idx v + length (v_log v) + 1"
        by (auto simp: view_accepted_idx_def split: if_split_asm)
      with 2 False show ?thesis by (auto simp: entry_at_def)
    qed
  qed
qed

text \<open>The two outcomes of trim on a well-formed storage.\<close>

context storage_contract
begin

lemma try_trim_outcomes:
  assumes wf: "is_wf sinv view st"
  shows "if is_get_decided_idx st < idx
     then try_trim S idx st = Some (Inl (CompactionError (UndecidedIndex (is_get_decided_idx st))), st)
     else \<exists>st'. try_trim S idx st = Some (Inr (), st') \<and> is_wf sinv view st' \<and>
       is_get_compacted_idx st' = max (is_get_compacted_idx st) (compaction_target idx (is_cache st)) \<and>
       v_log (view (is_storage st')) =
         drop (is_get_compacted_idx st' - is_get_compacted_idx st) (v_log (view (is_storage st)))"
proof (cases "is_get_decided_idx st < idx")
  case True
  then show ?thesis using try_trim_undecided [OF wf] by (simp add: is_get_decided_idx_def)
next
  case False
  then have idx: "idx \<le> c_decided_idx (is_cache st)" by (simp add: is_get_decided_idx_def)
  let ?i = "compaction_target idx (is_cache st)"
  have "\<exists>st'. try_trim S idx st = Some (Inr (), st') \<and> is_wf sinv view st' \<and>
       is_get_compacted_idx st' = max (is_get_compacted_idx st) ?i \<and>
       v_log (view (is_storage st')) =
         drop (is_get_compacted_idx st' - is_get_compacted_idx st) (v_log (view (is_storage st)))"
  proof (cases "?i \<le> c_compacted_idx (is_cache st)")
    case True
    with try_trim_stays [OF wf idx True] wf show ?thesis by (auto simp: is_get_compacted_idx_def max_def)
  next
    case False
    then have new: "c_compacted_idx (is_cache st) < ?i" by simp
    from try_trim_does [OF wf idx refl new] obtain st' where run: "try_trim S idx st = Some (Inr (), st')"
      and "view (is_storage st') = (view (is_storage st))\<lparr>v_log := drop (?i - c_compacted_idx (is_cache st)) (v_log (view (is_storage st))),
          v_trimmed := ?i, v_compacted_idx := ?i\<rparr>" "is_cache st' = (is_cache st)\<lparr>c_compacted_idx := ?i\<rparr>"
      by (auto simp: is_does_def)
    with try_trim_wf [OF wf run] new show ?thesis by (auto simp: is_get_compacted_idx_def max_def)
  qed
  with False show ?thesis by simp
qed

end

end
