(* ===== verification/Sequence_Paxos_Facts.thy ===== *)
theory Sequence_Paxos_Facts
  imports Sequence_Paxos Leader_State_Facts Storage_Actions
begin

text \<open>
  Facts on the replica that hold for every storage back-end and snapshot type: what the sending
  helpers leave alone (\<open>sends\<close>), the steps of a replica as a transition relation, and the promise,
  which never goes back.
\<close>

section \<open>Sending\<close>

text \<open>
  A send changes the outgoing buffer and the leader's numbering of messages, nothing else: not the
  round, the promises, the accepted indexes, nor any part of the replica's own state.
\<close>

definition sends_leader :: "('t, 'c, 'p) leader_state \<Rightarrow> ('t, 'c, 'p) leader_state \<Rightarrow> bool" where
  "sends_leader ls ls' \<longleftrightarrow>
     same_round ls ls' \<and> promises_meta ls' = promises_meta ls \<and> accepted_indexes ls' = accepted_indexes ls \<and>
     max_promise_meta ls' = max_promise_meta ls \<and> max_promise_sync ls' = max_promise_sync ls"

definition sends :: "('s, 't, 'c, 'p) sequence_paxos \<Rightarrow> ('s, 't, 'c, 'p) sequence_paxos \<Rightarrow> bool" where
  "sends sp sp' \<longleftrightarrow>
     sp' = sp\<lparr>sp_outgoing := sp_outgoing sp', sp_leader_state := sp_leader_state sp'\<rparr> \<and>
     sends_leader (sp_leader_state sp) (sp_leader_state sp')"

lemma sends_leader_refl [simp]: "sends_leader ls ls"
  by (simp add: sends_leader_def)

lemma sends_leader_trans: "sends_leader a b \<Longrightarrow> sends_leader b c \<Longrightarrow> sends_leader a c"
  by (auto simp: sends_leader_def intro: same_round_trans)

lemma sends_refl [simp]: "sends sp sp"
  by (simp add: sends_def)

lemma sends_trans [trans]: "sends a b \<Longrightarrow> sends b c \<Longrightarrow> sends a c"
  by (cases a; cases b; cases c) (auto simp: sends_def intro: sends_leader_trans)

lemma sends_fields:
  assumes "sends sp sp'"
  shows "sp_internal_storage sp' = sp_internal_storage sp" "sp_pid sp' = sp_pid sp" "sp_peers sp' = sp_peers sp"
    "sp_state sp' = sp_state sp" "sp_buffered_proposals sp' = sp_buffered_proposals sp"
    "sp_buffered_stopsign sp' = sp_buffered_stopsign sp" "sp_current_seq_num sp' = sp_current_seq_num sp"
    "sp_latest_accepted_meta sp' = sp_latest_accepted_meta sp"
    "sp_cached_promise_message sp' = sp_cached_promise_message sp"
    "sends_leader (sp_leader_state sp) (sp_leader_state sp')"
  using assms by (cases sp; cases sp'; simp add: sends_def)+

lemma sendsD:
  "sends sp sp' \<Longrightarrow> sp_internal_storage sp' = sp_internal_storage sp \<and> sp_pid sp' = sp_pid sp \<and>
     sp_state sp' = sp_state sp \<and> sends_leader (sp_leader_state sp) (sp_leader_state sp')"
  by (simp add: sends_fields)

lemma push_msg_sends [simp, intro]: "sends sp (push_msg to msg sp)"
  by (simp add: push_msg_def sends_def)

lemma push_msg_fields [simp]:
  "sp_internal_storage (push_msg to msg sp) = sp_internal_storage sp" "sp_pid (push_msg to msg sp) = sp_pid sp"
  "sp_state (push_msg to msg sp) = sp_state sp" "sp_leader_state (push_msg to msg sp) = sp_leader_state sp"
  "sp_peers (push_msg to msg sp) = sp_peers sp" "sp_current_seq_num (push_msg to msg sp) = sp_current_seq_num sp"
  "sp_outgoing (push_msg to msg sp) = sp_outgoing sp @ [paxos_envelope (sp_pid sp) to msg]"
  by (simp_all add: push_msg_def)

lemma fold_push_outgoing:
  "fold (\<lambda>pid. push_msg pid msg) pids sp =
     sp\<lparr>sp_outgoing := sp_outgoing sp @ map (\<lambda>pid. paxos_envelope (sp_pid sp) pid msg) pids\<rparr>"
  by (induction pids arbitrary: sp) (simp_all add: push_msg_def)

lemma push_to_peers_eq:
  "push_to_peers msg sp =
     sp\<lparr>sp_outgoing := sp_outgoing sp @ map (\<lambda>pid. paxos_envelope (sp_pid sp) pid msg) (sp_peers sp)\<rparr>"
  by (simp add: push_to_peers_def fold_push_outgoing)

lemma push_to_peers_sends [simp]: "sends sp (push_to_peers msg sp)"
  by (simp add: push_to_peers_eq sends_def)

lemma set_outgoing_msg_sends [simp]: "sends sp (set_outgoing_msg i msg sp)"
  by (simp add: set_outgoing_msg_def sends_def)

lemma send_prepare_sends [simp]: "sends sp (send_prepare to sp)"
  by (simp add: send_prepare_def Let_def)

lemma upd_leader_sends: "sends_leader (sp_leader_state sp) ls \<Longrightarrow> sends sp (upd_leader ls sp)"
  by (simp add: sends_def)

lemma for_each_sends:
  assumes "for_each f xs sp = Some sp'" "\<And>x s s'. f x s = Some s' \<Longrightarrow> sends s s'"
  shows "sends sp sp'"
  by (rule for_each_inv [OF assms(1), of "sends sp"]) (auto intro: sends_trans assms(2))

lemma numbering_sends_leader:
  "next_seq_num pid ls = Some (sn, ls') \<Longrightarrow> sends_leader ls ls'"
  "increment_seq_num_session pid ls = Some ls' \<Longrightarrow> sends_leader ls ls'"
  "set_latest_accept_meta pid j ls = Some ls' \<Longrightarrow> sends_leader ls ls'"
  by (auto simp: sends_leader_def next_seq_num_eq increment_seq_num_session_eq set_latest_accept_meta_eq
      same_round_def wf_leader_def)

lemma send_acceptdecide_to_sends: "send_acceptdecide_to am pid sp = Some sp' \<Longrightarrow> sends sp sp'"
  by (auto simp: send_acceptdecide_to_def Let_def bind_eq_Some_conv split: option.splits
      intro!: sends_trans [OF upd_leader_sends push_msg_sends]
      dest!: numbering_sends_leader intro: sends_leader_trans)

lemma send_acceptdecide_sends: "send_acceptdecide am sp = Some sp' \<Longrightarrow> sends sp sp'"
  by (auto simp: send_acceptdecide_def bind_eq_Some_conv intro: for_each_sends send_acceptdecide_to_sends)

lemma leader_seq_num_sends: "leader_seq_num resend to sp = Some (sn, sp') \<Longrightarrow> sends sp sp'"
  by (auto simp: leader_seq_num_def bind_eq_Some_conv split: if_splits
      intro!: upd_leader_sends dest: numbering_sends_leader)

lemma send_accept_stopsign_sends: "send_accept_stopsign to ss resend sp = Some sp' \<Longrightarrow> sends sp sp'"
  by (auto simp: send_accept_stopsign_def bind_eq_Some_conv
      intro!: sends_trans [OF leader_seq_num_sends push_msg_sends])

lemma send_decide_sends: "send_decide to d resend sp = Some sp' \<Longrightarrow> sends sp sp'"
  by (auto simp: send_decide_def bind_eq_Some_conv intro!: sends_trans [OF leader_seq_num_sends push_msg_sends])

lemma announce_decided_sends: "announce_decided d pid sp = Some sp' \<Longrightarrow> sends sp sp'"
  by (auto simp: announce_decided_def bind_eq_Some_conv split: option.splits intro: send_decide_sends)

lemma send_accsync_sends:
  assumes "send_accsync S P to sp = Some sp'"
  shows "sends sp sp'"
proof -
  obtain msg ls1 sn ls2 where "increment_seq_num_session to (sp_leader_state sp) = Some ls1"
    "next_seq_num to ls1 = Some (sn, ls2)" and sp': "sp' = push_msg to msg (upd_leader ls2 sp)"
    using assms by (auto simp: send_accsync_def Let_def bind_eq_Some_conv)
  then have "sends_leader (sp_leader_state sp) ls2"
    using numbering_sends_leader sends_leader_trans by blast
  then have "sends sp (upd_leader ls2 sp)" by (rule upd_leader_sends)
  then show ?thesis unfolding sp' using push_msg_sends by (rule sends_trans)
qed

lemma resend_stopsign_to_sends: "resend_stopsign_to ss d pid sp = Some sp' \<Longrightarrow> sends sp sp'"
  by (auto simp: resend_stopsign_to_def bind_eq_Some_conv split: if_splits
      intro: send_decide_sends send_accept_stopsign_sends)

lemma resend_prepares_sends: "resend_prepares sp = Some sp' \<Longrightarrow> sends sp sp'"
proof -
  have "sends sp (fold send_prepare ps sp)" for ps
    by (induction ps arbitrary: sp) (auto intro: sends_trans [OF send_prepare_sends])
  then show "resend_prepares sp = Some sp' \<Longrightarrow> sends sp sp'"
    by (auto simp: resend_prepares_def bind_eq_Some_conv)
qed

lemma resend_messages_leader_sends: "resend_messages_leader sp = Some sp' \<Longrightarrow> sends sp sp'"
  by (auto simp: resend_messages_leader_def bind_eq_Some_conv Let_def split: phase.splits option.splits
      intro: resend_prepares_sends for_each_sends [OF _ resend_stopsign_to_sends] sends_trans)

section \<open>The storage a step leaves\<close>

text \<open>
  Helpers of the user interface and of the protocol that do not touch the storage.
\<close>

lemma sp_reconnected_fields [simp]:
  "sp_internal_storage (sp_reconnected pid sp) = sp_internal_storage sp"
  "sp_leader_state (sp_reconnected pid sp) = sp_leader_state sp" "sp_pid (sp_reconnected pid sp) = sp_pid sp"
  by (simp_all add: sp_reconnected_def Let_def)

lemma forward_storage [simp]:
  "sp_internal_storage (forward_proposals es sp) = sp_internal_storage sp"
  "sp_internal_storage (forward_stopsign ss sp) = sp_internal_storage sp"
  "sp_internal_storage (forward_buffered_proposals sp) = sp_internal_storage sp"
  "sp_internal_storage (become_follower sp) = sp_internal_storage sp"
  "sp_internal_storage (resend_messages_follower sp) = sp_internal_storage sp"
  "sp_internal_storage (set_outgoing_msg i msg sp) = sp_internal_storage sp"
  "sp_internal_storage (push_to_peers msg sp) = sp_internal_storage sp"
  "sp_internal_storage (send_prepare to sp) = sp_internal_storage sp"
  by (auto simp: forward_proposals_def forward_stopsign_def forward_buffered_proposals_def become_follower_def
      resend_messages_follower_def send_preparereq_to_all_peers_def set_outgoing_msg_def push_to_peers_eq
      send_prepare_def Let_def split: phase.splits option.splits)

lemma check_valid_ballot_storage:
  "check_valid_ballot b sp = (v, sp') \<Longrightarrow>
     sp_internal_storage sp' = sp_internal_storage sp \<and> sp_leader_state sp' = sp_leader_state sp \<and> sp_pid sp' = sp_pid sp"
  by (auto simp: check_valid_ballot_def Let_def split: ordering.splits)

lemma check_valid_ballot_True: "check_valid_ballot b sp = (True, sp') \<Longrightarrow> sp' = sp \<and> ballot_key (sp_get_promise sp) = ballot_key b"
  by (auto simp: check_valid_ballot_def Let_def ballot_cmp_def split: ordering.splits)

lemma handle_sequence_num_storage:
  "handle_sequence_num sn from sp = Some (st, sp') \<Longrightarrow>
     sp_internal_storage sp' = sp_internal_storage sp \<and> sp_leader_state sp' = sp_leader_state sp \<and> sp_pid sp' = sp_pid sp"
  by (auto simp: handle_sequence_num_def bind_eq_Some_conv split: message_status.splits)

lemma reply_accepted_storage:
  "reply_accepted n i sp = Some sp' \<Longrightarrow>
     sp_internal_storage sp' = sp_internal_storage sp \<and> sp_leader_state sp' = sp_leader_state sp \<and> sp_pid sp' = sp_pid sp"
  by (auto simp: reply_accepted_def bind_eq_Some_conv set_outgoing_msg_def split: option.splits)

section \<open>The steps of a replica\<close>

text \<open>A leader has promised its own round.\<close>

definition leader_ok :: "('s, 't, 'c, 'p) sequence_paxos \<Rightarrow> bool" where
  "leader_ok sp \<longleftrightarrow> (fst (sp_state sp) = Leader \<longrightarrow> sp_get_promise sp = n_leader (sp_leader_state sp))"

text \<open>What a replica may expect of a message: the synchronisation it brings or completes fits.\<close>

definition msg_fits :: "('t, 'c, 'p) paxos_message \<Rightarrow> ('s, 't, 'c, 'p) sequence_paxos \<Rightarrow> bool" where
  "msg_fits m sp =
     (let st = sp_internal_storage sp in
      case pm_msg m of
        AcceptSync a \<Rightarrow>
          (sp_state sp = (Follower, PhasePrepare) \<longrightarrow> sync_fits (asy_decided_idx a) (Some (asy_log_sync a)) st)
      | Promise prom \<Rightarrow>
          (sp_state sp = (Leader, PhasePrepare) \<longrightarrow>
             (case set_promise prom (pm_from m) True (sp_leader_state sp) of
                Some (True, ls) \<Rightarrow> sync_fits (get_max_decided_idx ls) (max_promise_sync ls) st
              | _ \<Rightarrow> True))
      | Accepted a \<Rightarrow> acc_accepted_idx a \<le> is_get_accepted_idx st
      | _ \<Rightarrow> True)"

text \<open>Every call a server makes on its replica.\<close>

inductive sp_step ::
  "('s, 't, 'c, 'p) storage_impl \<Rightarrow> ('t, 'p) snapshot_impl \<Rightarrow> bool \<Rightarrow>
     ('s, 't, 'c, 'p) sequence_paxos \<Rightarrow> ('s, 't, 'c, 'p) sequence_paxos \<Rightarrow> bool"
  for S P strict where
  step_handle: "(strict \<Longrightarrow> msg_fits m sp) \<Longrightarrow> sp_handle S P m sp = Some sp' \<Longrightarrow> sp_step S P strict sp sp'"
| step_leader: "handle_leader S n sp = Some sp' \<Longrightarrow> sp_step S P strict sp sp'"
| step_append: "sp_append S e sp = Some (r, sp') \<Longrightarrow> sp_step S P strict sp sp'"
| step_reconfigure: "sp_reconfigure S cfg md sp = Some (r, sp') \<Longrightarrow> sp_step S P strict sp sp'"
| step_trim: "sp_trim S oi sp = Some (res, sp') \<Longrightarrow> sp_step S P strict sp sp'"
| step_snapshot: "sp_snapshot S P oi local sp = Some (res, sp') \<Longrightarrow> sp_step S P strict sp sp'"
| step_reconnected: "sp_step S P strict sp (sp_reconnected pid sp)"
| step_resend: "resend_message_timeout sp = Some sp' \<Longrightarrow> sp_step S P strict sp sp'"
| step_flush: "flush_batch_timeout S sp = Some sp' \<Longrightarrow> sp_step S P strict sp sp'"
| step_take: "take_outgoing_msgs buffer sp = (buffer', sp') \<Longrightarrow> sp_step S P strict sp sp'"

inductive_cases sp_stepE: "sp_step S P strict sp sp'"

subsection \<open>The leader's steps\<close>

lemma after_leader_append_frame:
  "after_leader_append am sp = Some sp' \<Longrightarrow>
     sp_internal_storage sp' = sp_internal_storage sp \<and> sp_state sp' = sp_state sp \<and>
     same_round (sp_leader_state sp) (sp_leader_state sp')"
  by (auto simp: after_leader_append_def bind_eq_Some_conv sends_leader_def split: option.splits
      dest!: send_acceptdecide_sends sendsD cell_updates_same_round(2) intro: same_round_trans)

lemma leader_append_acts:
  "accept_entries_leader S es sp = Some sp' \<Longrightarrow> acts S P strict (sp_internal_storage sp) (sp_internal_storage sp')"
  "accept_entry_leader S e sp = Some sp' \<Longrightarrow> acts S P strict (sp_internal_storage sp) (sp_internal_storage sp')"
  "flush_batch_leader S sp = Some sp' \<Longrightarrow> acts S P strict (sp_internal_storage sp) (sp_internal_storage sp')"
  by (auto simp: accept_entries_leader_def accept_entry_leader_def flush_batch_leader_def bind_eq_Some_conv
      append_entry_with_batching_eq dest!: after_leader_append_frame
      intro!: acts_one intro: act_append_batched act_flush_get)

lemma accept_stopsign_leader_acts:
  assumes "accept_stopsign_leader S ss sp = Some sp'" "is_get_stopsign (sp_internal_storage sp) = None"
  shows "acts S P strict (sp_internal_storage sp) (sp_internal_storage sp')"
proof -
  obtain am st sp1 ls where app: "is_append_stopsign S ss (sp_internal_storage sp) = Some (Inr am, st)"
    and s1: "(case am of Some metadata \<Rightarrow> send_acceptdecide metadata (upd_storage st sp)
                       | None \<Rightarrow> Some (upd_storage st sp)) = Some sp1"
    and "\<exists>fs. for_each (\<lambda>pid. send_accept_stopsign pid ss False) fs (upd_leader ls sp1) = Some sp'"
    using assms(1) by (fastforce simp: accept_stopsign_leader_def bind_eq_Some_conv Let_def)
  then have "sends (upd_leader ls sp1) sp'"
    by (auto intro: for_each_sends send_accept_stopsign_sends)
  then have "sp_internal_storage sp' = sp_internal_storage sp1"
    using sends_fields(1) by fastforce
  moreover have "sends (upd_storage st sp) sp1"
    using s1 by (auto split: option.splits intro: send_acceptdecide_sends)
  then have "sp_internal_storage sp1 = st" using sends_fields(1) by fastforce
  ultimately show ?thesis
    using act_append_stopsign [OF assms(2) app] by auto
qed

lemma flush_promise_acts:
  assumes "flush_batch S st = Some (Inr i, st1)" "is_set_promise S b st1 = Some (Inr u, st2)"
    "ballot_le (is_get_promise st) b"
  shows "acts S P strict st st2"
proof (rule acts_two)
  show "storage_act S P strict st st1" using assms(1) by (rule act_flush)
  have "is_get_promise st1 = is_get_promise st"
    using append_actions_scalars(1) [OF assms(1)] by (simp add: same_scalars_def)
  then show "storage_act S P strict st1 st2" using assms(2,3) by (auto intro: act_promise)
qed

lemma handle_leader_acts:
  assumes "handle_leader S n sp = Some sp'"
  shows "acts S P strict (sp_internal_storage sp) (sp_internal_storage sp')"
  using assms
  by (auto simp: handle_leader_def bind_eq_Some_conv Let_def not_ballot_le sp_get_promise_def
      split: if_splits intro: flush_promise_acts [OF _ _ ballot_lt_imp_le])

lemma append_buffered_acts:
  assumes "append_buffered S i sp = Some (j, sp')"
  shows "acts S P strict (sp_internal_storage sp) (sp_internal_storage sp') \<and>
    sp_leader_state sp' = sp_leader_state sp \<and> sp_pid sp' = sp_pid sp \<and> sp_state sp' = sp_state sp"
proof (cases "accepted_reconfiguration sp")
  case True
  with assms show ?thesis by (auto simp: append_buffered_def)
next
  case False
  then obtain k sp1 where p: "append_buffered_proposals S i sp = Some (k, sp1)"
    and q: "append_buffered_stopsign S k sp1 = Some (j, sp')"
    using assms by (auto simp: append_buffered_def bind_eq_Some_conv)
  have "acts S P strict (sp_internal_storage sp) (sp_internal_storage sp1)"
    and f1: "sp_leader_state sp1 = sp_leader_state sp" "sp_pid sp1 = sp_pid sp" "sp_state sp1 = sp_state sp"
    and ss: "is_get_stopsign (sp_internal_storage sp1) = None"
    using p False
    by (auto simp: append_buffered_proposals_def bind_eq_Some_conv accepted_reconfiguration_def is_get_stopsign_def
        split: if_splits intro: acts_one [OF act_append] dest: append_without_cache)
  moreover have "acts S P strict (sp_internal_storage sp1) (sp_internal_storage sp')"
    using q ss by (auto simp: append_buffered_stopsign_def bind_eq_Some_conv split: option.splits
        intro: acts_one [OF act_append_stopsign])
  moreover have "sp_leader_state sp' = sp_leader_state sp1" "sp_pid sp' = sp_pid sp1" "sp_state sp' = sp_state sp1"
    using q by (auto simp: append_buffered_stopsign_def bind_eq_Some_conv split: option.splits)
  ultimately show ?thesis by (simp add: rtranclp_trans [of "storage_act S P strict"])
qed

lemma handle_majority_promisesE:
  assumes "handle_majority_promises S P sp = Some sp'"
  obtains idx st new sp1 ls1 fs where
    "sync_log S P (n_leader (sp_leader_state sp)) (get_max_decided_idx (sp_leader_state sp))
       (max_promise_sync (sp_leader_state sp)) (sp_internal_storage sp) = Some (Inr idx, st)"
    "append_buffered S idx (sp\<lparr>sp_leader_state := (sp_leader_state sp)\<lparr>max_promise_sync := None\<rparr>,
       sp_internal_storage := st\<rparr>) = Some (new, sp1)"
    "set_accepted_idx (sp_pid sp1) new (sp_leader_state sp1) = Some ls1"
    "get_promised_followers ls1 = Some fs"
    "for_each (send_accsync S P) fs (sp1\<lparr>sp_state := (Leader, PhaseAccept), sp_leader_state := ls1\<rparr>) = Some sp'"
  using assms
  by (auto simp: handle_majority_promises_def take_max_promise_sync_def bind_eq_Some_conv get_max_decided_idx_def)

lemma handle_majority_promises_acts:
  assumes h: "handle_majority_promises S P sp = Some sp'"
    and n: "ballot_key (n_leader (sp_leader_state sp)) = ballot_key (sp_get_promise sp)"
    and fits: "strict \<Longrightarrow> sync_fits (get_max_decided_idx (sp_leader_state sp)) (max_promise_sync (sp_leader_state sp))
                          (sp_internal_storage sp)"
  shows "acts S P strict (sp_internal_storage sp) (sp_internal_storage sp')"
proof -
  obtain idx st new sp1 ls1 fs where
    sync: "sync_log S P (n_leader (sp_leader_state sp)) (get_max_decided_idx (sp_leader_state sp))
       (max_promise_sync (sp_leader_state sp)) (sp_internal_storage sp) = Some (Inr idx, st)"
    and app: "append_buffered S idx (sp\<lparr>sp_leader_state := (sp_leader_state sp)\<lparr>max_promise_sync := None\<rparr>,
       sp_internal_storage := st\<rparr>) = Some (new, sp1)"
    and "for_each (send_accsync S P) fs (sp1\<lparr>sp_state := (Leader, PhaseAccept), sp_leader_state := ls1\<rparr>) = Some sp'"
    using h by (rule handle_majority_promisesE)
  then have "sp_internal_storage sp' = sp_internal_storage sp1"
    using for_each_sends [OF _ send_accsync_sends] sends_fields(1) by fastforce
  moreover have "storage_act S P strict (sp_internal_storage sp) st"
    using act_sync [OF _ _ sync] n fits by (simp add: sp_get_promise_def)
  ultimately show ?thesis
    using append_buffered_acts [OF app, of P strict] by (auto intro: acts_step)
qed

lemma handle_promise_acts:
  assumes "leader_ok sp" "fst (sp_state sp) = Leader"
  shows "handle_promise_prepare S P prom from sp = Some sp' \<Longrightarrow>
      (strict \<Longrightarrow> case set_promise prom from True (sp_leader_state sp) of
                Some (True, ls) \<Rightarrow> sync_fits (get_max_decided_idx ls) (max_promise_sync ls) (sp_internal_storage sp)
              | _ \<Rightarrow> True) \<Longrightarrow> acts S P strict (sp_internal_storage sp) (sp_internal_storage sp')"
    and "handle_promise_accept S P prom from sp = Some sp' \<Longrightarrow> acts S P strict (sp_internal_storage sp) (sp_internal_storage sp')"
proof -
  show "acts S P strict (sp_internal_storage sp) (sp_internal_storage sp')"
    if "handle_promise_accept S P prom from sp = Some sp'"
    using that
    by (auto simp: handle_promise_accept_def bind_eq_Some_conv split: if_splits dest!: send_accsync_sends sendsD)
  assume h: "handle_promise_prepare S P prom from sp = Some sp'"
    and fits: "strict \<Longrightarrow> case set_promise prom from True (sp_leader_state sp) of
                Some (True, ls) \<Rightarrow> sync_fits (get_max_decided_idx ls) (max_promise_sync ls) (sp_internal_storage sp)
              | _ \<Rightarrow> True"
  show "acts S P strict (sp_internal_storage sp) (sp_internal_storage sp')"
  proof (cases "prom_n prom = n_leader (sp_leader_state sp)")
    case False
    with h show ?thesis by (simp add: handle_promise_prepare_def)
  next
    case True
    with h obtain b ls where sp: "set_promise prom from True (sp_leader_state sp) = Some (b, ls)"
      and r: "(if b then handle_majority_promises S P (upd_leader ls sp) else Some (upd_leader ls sp)) = Some sp'"
      by (auto simp: handle_promise_prepare_def bind_eq_Some_conv)
    have "n_leader ls = n_leader (sp_leader_state sp)"
      using set_promise_eq(5) [OF sp] by (simp add: same_round_def)
    with assms have n: "ballot_key (n_leader ls) = ballot_key (sp_get_promise sp)"
      by (simp add: leader_ok_def)
    show ?thesis
    proof (cases b)
      case True
      with r have "handle_majority_promises S P (upd_leader ls sp) = Some sp'" by simp
      then show ?thesis
        using handle_majority_promises_acts [of S P "upd_leader ls sp" sp' strict] n fits sp True
        by (simp add: sp_get_promise_def)
    next
      case False
      with r show ?thesis by auto
    qed
  qed
qed

lemma decide_acts:
  assumes "is_set_decided_idx S i st = Some (Inr u, st')" "is_get_decided_idx st < i"
    and "strict \<Longrightarrow> i \<le> is_get_accepted_idx st"
  shows "acts S P strict st st'"
  using assms by (intro acts_one act_decide [of st i]) (auto simp: min_le_iff_disj)

lemma handle_accepted_acts:
  assumes "handle_accepted S a from sp = Some sp'"
    and "strict \<Longrightarrow> acc_accepted_idx a \<le> is_get_accepted_idx (sp_internal_storage sp)"
  shows "acts S P strict (sp_internal_storage sp) (sp_internal_storage sp')"
  using assms
  by (auto simp: handle_accepted_def bind_eq_Some_conv Let_def split: if_splits
      dest!: for_each_sends [OF _ announce_decided_sends] sendsD intro: decide_acts)

lemma leader_misc_acts:
  "handle_preparereq pr from sp = Some sp' \<Longrightarrow> acts S P strict (sp_internal_storage sp) (sp_internal_storage sp')"
  "handle_notaccepted na from sp = Some sp' \<Longrightarrow> acts S P strict (sp_internal_storage sp) (sp_internal_storage sp')"
  "handle_forwarded_proposal S es sp = Some sp' \<Longrightarrow> acts S P strict (sp_internal_storage sp) (sp_internal_storage sp')"
  "handle_forwarded_stopsign S ss sp = Some sp' \<Longrightarrow> acts S P strict (sp_internal_storage sp) (sp_internal_storage sp')"
  by (auto simp: handle_preparereq_def handle_notaccepted_def handle_forwarded_proposal_def
      handle_forwarded_stopsign_def bind_eq_Some_conv accepted_reconfiguration_def
      split: if_splits prod.splits role.splits phase.splits
      intro: leader_append_acts accept_stopsign_leader_acts)

subsection \<open>The follower's steps\<close>

lemma handle_prepare_acts:
  assumes "handle_prepare S P prep from sp = Some sp'"
  shows "acts S P strict (sp_internal_storage sp) (sp_internal_storage sp')"
proof -
  have le: "ballot_lt (sp_get_promise sp) (prep_n prep) \<or> sp_get_promise sp = prep_n prep \<Longrightarrow>
      ballot_le (is_get_promise (sp_internal_storage sp)) (prep_n prep)"
    by (auto simp: sp_get_promise_def)
  show ?thesis
    using assms le
    by (auto simp: handle_prepare_def bind_eq_Some_conv Let_def split: if_splits intro: flush_promise_acts)
qed

lemma update_decided_acts:
  assumes "update_decided_idx_and_get_accepted_idx S d sp = Some (r, sp')"
  shows "acts S P strict (sp_internal_storage sp) (sp_internal_storage sp')"
    and "sp_leader_state sp' = sp_leader_state sp" "sp_state sp' = sp_state sp" "sp_pid sp' = sp_pid sp"
proof -
  let ?st = "sp_internal_storage sp"
  consider "sp' = sp"
    | i st1 st2 where "is_get_decided_idx ?st < d" "flush_batch S ?st = Some (Inr i, st1)"
        "is_set_decided_idx S (min d i) st1 = Some (Inr (), st2)" "sp' = upd_storage st2 sp"
    | st1 where "is_get_decided_idx ?st < d" "d \<le> is_get_accepted_idx ?st"
        "is_set_decided_idx S d ?st = Some (Inr (), st1)" "sp' = upd_storage st1 sp"
    using assms
    by (auto simp: update_decided_idx_and_get_accepted_idx_def Let_def bind_eq_Some_conv split: if_splits)
  then show "acts S P strict (sp_internal_storage sp) (sp_internal_storage sp')"
  proof cases
    case (2 i st1 st2)
    note eq = flush_batch_cache [OF 2(2)]
    have "storage_act S P strict st1 st2"
      using 2(1,3) eq by (intro act_decide [of st1 "min d i"]) (auto simp: is_get_defs)
    with act_flush [OF 2(2)] 2(4) show ?thesis by (auto intro: acts_two)
  next
    case (3 st1)
    then show ?thesis by (auto intro: decide_acts)
  qed simp
  show "sp_leader_state sp' = sp_leader_state sp" "sp_state sp' = sp_state sp" "sp_pid sp' = sp_pid sp"
    using assms
    by (auto simp: update_decided_idx_and_get_accepted_idx_def Let_def bind_eq_Some_conv split: if_splits)
qed

lemma handle_acceptsync_acts:
  assumes h: "handle_acceptsync S P a from sp = Some sp'"
    and fits: "strict \<Longrightarrow> sp_state sp = (Follower, PhasePrepare) \<Longrightarrow>
        sync_fits (asy_decided_idx a) (Some (asy_log_sync a)) (sp_internal_storage sp)"
  shows "acts S P strict (sp_internal_storage sp) (sp_internal_storage sp')"
proof -
  obtain v sp1 where v: "check_valid_ballot (asy_n a) sp = (v, sp1)" by (cases "check_valid_ballot (asy_n a) sp")
  show ?thesis
  proof (cases "v \<and> sp_state sp1 = (Follower, PhasePrepare)")
    case False
    with h v check_valid_ballot_storage [OF v] show ?thesis by (auto simp: handle_acceptsync_def)
  next
    case True
    with v have sp1: "sp1 = sp" "ballot_key (asy_n a) = ballot_key (is_get_promise (sp_internal_storage sp))"
      using check_valid_ballot_True [of "asy_n a" sp sp1] by (auto simp: sp_get_promise_def)
    obtain i st where "sync_log S P (asy_n a) (asy_decided_idx a) (Some (asy_log_sync a)) (sp_internal_storage sp)
        = Some (Inr i, st)" "sp_internal_storage sp' = st"
      using h v True sp1(1) by (auto simp: handle_acceptsync_def bind_eq_Some_conv Let_def split: if_splits)
    with sp1 fits True show ?thesis by (auto intro!: acts_one intro: act_sync)
  qed
qed

lemma handle_accept_acts:
  "handle_acceptdecide S ad sp = Some sp' \<Longrightarrow> acts S P strict (sp_internal_storage sp) (sp_internal_storage sp')"
  "handle_accept_stopsign S ass sp = Some sp' \<Longrightarrow> acts S P strict (sp_internal_storage sp) (sp_internal_storage sp')"
  "handle_decide S dec sp = Some sp' \<Longrightarrow> acts S P strict (sp_internal_storage sp) (sp_internal_storage sp')"
proof -
  show "acts S P strict (sp_internal_storage sp) (sp_internal_storage sp')" if h: "handle_decide S dec sp = Some sp'"
    using h
    by (auto simp: handle_decide_def bind_eq_Some_conv split: prod.split_asm if_split_asm option.split_asm
        dest!: check_valid_ballot_storage handle_sequence_num_storage reply_accepted_storage
          update_decided_acts(1) [where P = P and strict = strict])
  show "acts S P strict (sp_internal_storage sp) (sp_internal_storage sp')"
    if h: "handle_accept_stopsign S ass sp = Some sp'"
  proof -
    obtain v sp1 where v: "check_valid_ballot (ass_n ass) sp = (v, sp1)" by (cases "check_valid_ballot (ass_n ass) sp")
    note st1 = check_valid_ballot_storage [OF v]
    show ?thesis
    proof (cases "v \<and> sp_state sp1 = (Follower, PhaseAccept)")
      case False
      with h v st1 show ?thesis by (auto simp: handle_accept_stopsign_def)
    next
      case True
      with h v obtain status sp2 where n: "handle_sequence_num (ass_seq_num ass) (b_pid (ass_n ass)) sp1 = Some (status, sp2)"
        by (auto simp: handle_accept_stopsign_def bind_eq_Some_conv)
      note st2 = handle_sequence_num_storage [OF n]
      show ?thesis
      proof (cases "status = Expected")
        case False
        with h v True n st1 st2 show ?thesis by (simp add: handle_accept_stopsign_def)
      next
        case exp: True
        with h v True n obtain i sta j stb where f: "flush_batch S (sp_internal_storage sp2) = Some (Inr i, sta)"
          and g: "is_set_stopsign S (Some (ass_ss ass)) sta = Some (Inr j, stb)"
          and "reply_accepted (ass_n ass) j (upd_storage stb sp2) = Some sp'"
          by (auto simp: handle_accept_stopsign_def bind_eq_Some_conv)
        then have "sp_internal_storage sp' = stb" using reply_accepted_storage by fastforce
        with act_flush [OF f] act_stopsign [OF g] st1 st2 show ?thesis by (metis acts_two)
      qed
    qed
  qed
  show "acts S P strict (sp_internal_storage sp) (sp_internal_storage sp')"
    if h: "handle_acceptdecide S ad sp = Some sp'"
  proof -
    have "sp_internal_storage sp' = sp_internal_storage sp \<or>
        (\<exists>i st1. append_entries_and_get_accepted_idx S (ad_entries ad) (sp_internal_storage sp) = Some (Inr i, st1) \<and>
           acts S P strict st1 (sp_internal_storage sp'))"
      using h
      by (auto simp: handle_acceptdecide_def bind_eq_Some_conv Let_def
          split: prod.split_asm if_split_asm option.split_asm
          dest!: check_valid_ballot_storage handle_sequence_num_storage reply_accepted_storage
            update_decided_acts(1) [where P = P and strict = strict])
    then show ?thesis
      by (auto intro: acts_step [OF act_append_get])
  qed
qed

subsection \<open>Every step\<close>

lemma user_acts:
  "sp_append S e sp = Some (r, sp') \<Longrightarrow> acts S P strict (sp_internal_storage sp) (sp_internal_storage sp')"
  "sp_reconfigure S cfg md sp = Some (r, sp') \<Longrightarrow> acts S P strict (sp_internal_storage sp) (sp_internal_storage sp')"
  "sp_trim S oi sp = Some (res, sp') \<Longrightarrow> acts S P strict (sp_internal_storage sp) (sp_internal_storage sp')"
  "sp_snapshot S P oi local sp = Some (res, sp') \<Longrightarrow> acts S P strict (sp_internal_storage sp) (sp_internal_storage sp')"
  "handle_compaction S P c sp = Some sp' \<Longrightarrow> acts S P strict (sp_internal_storage sp) (sp_internal_storage sp')"
proof -
  show "acts S P strict (sp_internal_storage sp) (sp_internal_storage sp')" if "sp_append S e sp = Some (r, sp')"
    using that
    by (auto simp: sp_append_def propose_entry_def bind_eq_Some_conv
        split: if_splits prod.split_asm role.split_asm phase.split_asm intro: leader_append_acts)
  show "acts S P strict (sp_internal_storage sp) (sp_internal_storage sp')"
    if "sp_reconfigure S cfg md sp = Some (r, sp')"
    using that
    by (auto simp: sp_reconfigure_def accepted_reconfiguration_def Let_def bind_eq_Some_conv
        split: if_splits prod.split_asm role.split_asm phase.split_asm intro: accept_stopsign_leader_acts)
  show "acts S P strict (sp_internal_storage sp) (sp_internal_storage sp')" if "sp_trim S oi sp = Some (res, sp')"
    using that
    by (auto simp: sp_trim_def bind_eq_Some_conv Let_def split: if_splits option.split_asm
        intro!: acts_one intro: act_trim)
  have snap: "acts S P strict (sp_internal_storage sp) (sp_internal_storage sp')"
    if "sp_snapshot S P oi local sp = Some (res, sp')" for oi local res
    using that by (auto simp: sp_snapshot_def bind_eq_Some_conv Let_def split: if_splits intro!: acts_one intro: act_snapshot)
  then show "acts S P strict (sp_internal_storage sp) (sp_internal_storage sp')"
    if "sp_snapshot S P oi local sp = Some (res, sp')" using that by blast
  show "acts S P strict (sp_internal_storage sp) (sp_internal_storage sp')" if "handle_compaction S P c sp = Some sp'"
    using that snap
    by (auto simp: handle_compaction_def bind_eq_Some_conv split: compaction.split_asm intro: acts_one [OF act_trim])
qed

lemma timeout_acts:
  "resend_message_timeout sp = Some sp' \<Longrightarrow> acts S P strict (sp_internal_storage sp) (sp_internal_storage sp')"
  "flush_batch_timeout S sp = Some sp' \<Longrightarrow> acts S P strict (sp_internal_storage sp) (sp_internal_storage sp')"
proof -
  show "acts S P strict (sp_internal_storage sp) (sp_internal_storage sp')" if "resend_message_timeout sp = Some sp'"
    using that by (auto simp: resend_message_timeout_def split: role.split_asm
        dest!: resend_messages_leader_sends sendsD)
  show "acts S P strict (sp_internal_storage sp) (sp_internal_storage sp')" if "flush_batch_timeout S sp = Some sp'"
    using that
    by (auto simp: flush_batch_timeout_def flush_batch_follower_def Let_def bind_eq_Some_conv
        split: prod.split_asm role.split_asm phase.split_asm if_split_asm
        dest!: reply_accepted_storage intro: leader_append_acts acts_one [OF act_flush])
qed

lemma sp_handle_acts:
  assumes h: "sp_handle S P m sp = Some sp'" and ok: "leader_ok sp" and fits: "strict \<Longrightarrow> msg_fits m sp"
  shows "acts S P strict (sp_internal_storage sp) (sp_internal_storage sp')"
proof (cases "pm_msg m")
  case (Promise prom)
  consider "sp_state sp = (Leader, PhasePrepare)" | "sp_state sp = (Leader, PhaseAccept)" | "sp' = sp"
    using h Promise by (auto simp: sp_handle_def split: prod.split_asm role.split_asm phase.split_asm)
  then show ?thesis
  proof cases
    case 1
    then show ?thesis
      using h Promise ok fits
      by (intro handle_promise_acts(1)) (auto simp: sp_handle_def msg_fits_def)
  next
    case 2
    then show ?thesis
      using h Promise ok by (intro handle_promise_acts(2)) (auto simp: sp_handle_def)
  qed simp
next
  case (AcceptSync a)
  then show ?thesis
    using h fits by (intro handle_acceptsync_acts [of S P a "pm_from m"]) (auto simp: sp_handle_def msg_fits_def)
next
  case (Accepted a)
  then show ?thesis
    using h fits by (intro handle_accepted_acts [of S a "pm_from m"]) (auto simp: sp_handle_def msg_fits_def)
qed (use h in \<open>simp_all add: sp_handle_def leader_misc_acts handle_prepare_acts handle_accept_acts user_acts\<close>)

lemma sp_step_acts:
  assumes "sp_step S P strict sp sp'" "leader_ok sp"
  shows "acts S P strict (sp_internal_storage sp) (sp_internal_storage sp')"
  using assms(1)
proof cases
  case (step_handle m)
  then show ?thesis using assms(2) by (intro sp_handle_acts)
next
  case (step_take buffer buffer')
  then show ?thesis by (auto simp: take_outgoing_msgs_def Let_def split: if_splits)
qed (simp_all add: handle_leader_acts user_acts timeout_acts)

section \<open>The round of a replica\<close>

text \<open>
  A step that keeps the round: the node, the round and the promise stay, nobody becomes leader or
  starts to prepare, and while a leader prepares its maximal promise stays maximal.
\<close>

definition calm :: "('s, 't, 'c, 'p) sequence_paxos \<Rightarrow> ('s, 't, 'c, 'p) sequence_paxos \<Rightarrow> bool" where
  "calm sp sp' \<longleftrightarrow>
     sp_pid sp' = sp_pid sp \<and> sp_peers sp' = sp_peers sp \<and>
     (fst (sp_state sp') = Leader \<longrightarrow> fst (sp_state sp) = Leader) \<and>
     same_round (sp_leader_state sp) (sp_leader_state sp') \<and> sp_get_promise sp' = sp_get_promise sp \<and>
     (sp_state sp' = (Leader, PhasePrepare) \<longrightarrow> sp_state sp = (Leader, PhasePrepare) \<and>
        (max_promise_bound (sp_leader_state sp) \<longrightarrow> max_promise_bound (sp_leader_state sp')))"

lemma calm_refl [simp]: "calm sp sp"
  by (simp add: calm_def)

lemma calm_trans [trans]: "calm a b \<Longrightarrow> calm b c \<Longrightarrow> calm a c"
  by (auto simp: calm_def intro: same_round_trans)

lemma sends_calm: "sends sp sp' \<Longrightarrow> calm sp sp'"
  using sends_fields(10) [of sp sp']
  by (auto simp: calm_def sends_fields sp_get_promise_def sends_leader_def max_promise_bound_def)

lemma upd_storage_calm: "is_get_promise st = is_get_promise (sp_internal_storage sp) \<Longrightarrow> calm sp (upd_storage st sp)"
  by (simp add: calm_def sp_get_promise_def)

lemma upd_leader_calm:
  assumes "same_round (sp_leader_state sp) ls"
    and "sp_state sp = (Leader, PhasePrepare) \<Longrightarrow> max_promise_bound (sp_leader_state sp) \<Longrightarrow> max_promise_bound ls"
  shows "calm sp (upd_leader ls sp)"
  using assms by (simp add: calm_def sp_get_promise_def)

lemma set_accepted_idx_calm:
  assumes "set_accepted_idx pid i (sp_leader_state sp) = Some ls"
  shows "calm sp (upd_leader ls sp)"
  using cell_updates_same_round(2) [OF assms]
  by (rule upd_leader_calm) (use assms in \<open>auto simp: set_accepted_idx_eq max_promise_bound_def\<close>)

lemma set_latest_accept_meta_bound:
  "set_latest_accept_meta pid j ls = Some ls' \<Longrightarrow> max_promise_bound ls \<Longrightarrow> max_promise_bound ls'"
  by (auto simp: set_latest_accept_meta_eq max_promise_bound_def)

text \<open>Storage actions that leave the promise alone.\<close>

lemma set_decided_idx_promise:
  "is_set_decided_idx S d st = Some (r, st') \<Longrightarrow> is_get_promise st' = is_get_promise st"
  by (simp add: is_get_promise_def set_actions_cache)

lemma promise_kept:
  "flush_batch S st = Some (Inr i, st') \<Longrightarrow> is_get_promise st' = is_get_promise st"
  "append_entries_with_batching S es st = Some (Inr r, st') \<Longrightarrow> is_get_promise st' = is_get_promise st"
  "append_entries_and_get_accepted_idx S es st = Some (Inr r1, st') \<Longrightarrow> is_get_promise st' = is_get_promise st"
  "append_entries_without_batching S es st = Some (Inr i, st') \<Longrightarrow> is_get_promise st' = is_get_promise st"
  "flush_batch_and_get_entries S st = Some (Inr r, st') \<Longrightarrow> is_get_promise st' = is_get_promise st"
  "is_append_stopsign S ss st = Some (Inr r, st') \<Longrightarrow> is_get_promise st' = is_get_promise st"
  "is_set_stopsign S (Some ss) st = Some (Inr i, st') \<Longrightarrow> is_get_promise st' = is_get_promise st"
  "is_set_decided_idx S d st = Some (Inr u, st') \<Longrightarrow> is_get_promise st' = is_get_promise st"
  "sync_log S P b d sync st = Some (Inr i, st') \<Longrightarrow> is_get_promise st' = is_get_promise st"
  "try_trim S idx st = Some (res, st') \<Longrightarrow> is_get_promise st' = is_get_promise st"
  "try_snapshot S P oidx st = Some (res, st') \<Longrightarrow> is_get_promise st' = is_get_promise st"
  by (simp_all add: act_scalars sync_log_scalars set_decided_idx_promise)

lemma simple_calm [simp]:
  "calm sp (sp_reconnected pid sp)" "calm sp (forward_proposals es sp)" "calm sp (forward_stopsign ss sp)"
  "calm sp (forward_buffered_proposals sp)" "calm sp (become_follower sp)" "calm sp (resend_messages_follower sp)"
  "calm sp (sp\<lparr>sp_buffered_proposals := b\<rparr>)" "calm sp (sp\<lparr>sp_buffered_stopsign := bs\<rparr>)"
  by (auto simp: calm_def sp_reconnected_def forward_proposals_def forward_stopsign_def
      forward_buffered_proposals_def become_follower_def resend_messages_follower_def
      send_preparereq_to_all_peers_def push_to_peers_eq sp_get_promise_def Let_def push_msg_def
      split: phase.splits option.splits)

lemma check_valid_ballot_calm: "check_valid_ballot b sp = (v, sp') \<Longrightarrow> calm sp sp'"
  by (auto simp: check_valid_ballot_def Let_def split: ordering.splits intro: sends_calm)

lemma handle_sequence_num_calm: "handle_sequence_num sn from sp = Some (st, sp') \<Longrightarrow> calm sp sp'"
  by (auto simp: handle_sequence_num_def bind_eq_Some_conv split: message_status.splits)
    (simp add: calm_def sp_get_promise_def)

lemma reply_accepted_calm: "reply_accepted n i sp = Some sp' \<Longrightarrow> calm sp sp'"
  by (auto simp: reply_accepted_def bind_eq_Some_conv calm_def set_outgoing_msg_def sp_get_promise_def
      split: option.splits)

lemma after_leader_append_calm: "after_leader_append am sp = Some sp' \<Longrightarrow> calm sp sp'"
  by (auto simp: after_leader_append_def bind_eq_Some_conv split: option.splits
      intro: calm_trans [OF set_accepted_idx_calm sends_calm [OF send_acceptdecide_sends]])

lemma storage_append_calm:
  assumes "is_get_promise st = is_get_promise (sp_internal_storage sp)" "after_leader_append am (upd_storage st sp) = Some sp'"
  shows "calm sp sp'"
  using upd_storage_calm [OF assms(1)] after_leader_append_calm [OF assms(2)] by (rule calm_trans)

lemma leader_append_calm:
  "accept_entries_leader S es sp = Some sp' \<Longrightarrow> calm sp sp'"
  "accept_entry_leader S e sp = Some sp' \<Longrightarrow> calm sp sp'"
  "flush_batch_leader S sp = Some sp' \<Longrightarrow> calm sp sp'"
  by (auto simp: accept_entries_leader_def accept_entry_leader_def flush_batch_leader_def bind_eq_Some_conv
      append_entry_with_batching_eq
      intro: storage_append_calm [OF promise_kept(2)] storage_append_calm [OF promise_kept(5)])

lemma accept_stopsign_leader_calm:
  assumes "accept_stopsign_leader S ss sp = Some sp'"
  shows "calm sp sp'"
proof -
  obtain am st sp1 ls fs where app: "is_append_stopsign S ss (sp_internal_storage sp) = Some (Inr am, st)"
    and s1: "(case am of Some metadata \<Rightarrow> send_acceptdecide metadata (upd_storage st sp)
                       | None \<Rightarrow> Some (upd_storage st sp)) = Some sp1"
    and ls: "set_accepted_idx (sp_pid sp1) (is_get_accepted_idx (sp_internal_storage sp1)) (sp_leader_state sp1) = Some ls"
    and fe: "for_each (\<lambda>pid. send_accept_stopsign pid ss False) fs (upd_leader ls sp1) = Some sp'"
    using assms by (fastforce simp: accept_stopsign_leader_def bind_eq_Some_conv Let_def)
  have "calm sp (upd_storage st sp)" using promise_kept(6) [OF app] by (rule upd_storage_calm)
  also have "calm (upd_storage st sp) sp1"
    using s1 by (auto split: option.splits intro: sends_calm send_acceptdecide_sends)
  also have "calm sp1 (upd_leader ls sp1)"
    using ls by (rule set_accepted_idx_calm)
  also have "calm (upd_leader ls sp1) sp'"
    by (rule sends_calm [OF for_each_sends [OF fe send_accept_stopsign_sends]])
  finally show ?thesis .
qed


lemma append_buffered_calm: "append_buffered S i sp = Some (j, sp') \<Longrightarrow> calm sp sp'"
proof -
  have p: "calm sp sp1" if "append_buffered_proposals S i sp = Some (k, sp1)" for k sp1
    using that
    by (auto simp: append_buffered_proposals_def bind_eq_Some_conv calm_def sp_get_promise_def promise_kept(4)
        split: if_splits)
  have q: "calm sp1 sp'" if "append_buffered_stopsign S k sp1 = Some (j, sp')" for k sp1
    using that
    by (auto simp: append_buffered_stopsign_def bind_eq_Some_conv calm_def sp_get_promise_def promise_kept(6)
        split: option.splits)
  show "append_buffered S i sp = Some (j, sp') \<Longrightarrow> calm sp sp'"
    by (auto simp: append_buffered_def bind_eq_Some_conv split: if_splits dest!: p q intro: calm_trans)
qed

lemma handle_majority_promises_calm:
  assumes "handle_majority_promises S P sp = Some sp'" "fst (sp_state sp) = Leader"
  shows "calm sp sp'"
proof -
  obtain idx st new sp1 ls1 fs where
    sync: "sync_log S P (n_leader (sp_leader_state sp)) (get_max_decided_idx (sp_leader_state sp))
       (max_promise_sync (sp_leader_state sp)) (sp_internal_storage sp) = Some (Inr idx, st)"
    and app: "append_buffered S idx (sp\<lparr>sp_leader_state := (sp_leader_state sp)\<lparr>max_promise_sync := None\<rparr>,
       sp_internal_storage := st\<rparr>) = Some (new, sp1)"
    and ls1: "set_accepted_idx (sp_pid sp1) new (sp_leader_state sp1) = Some ls1"
    and fe: "for_each (send_accsync S P) fs (sp1\<lparr>sp_state := (Leader, PhaseAccept), sp_leader_state := ls1\<rparr>) = Some sp'"
    using assms(1) by (rule handle_majority_promisesE)
  have "calm sp (sp\<lparr>sp_leader_state := (sp_leader_state sp)\<lparr>max_promise_sync := None\<rparr>, sp_internal_storage := st\<rparr>)"
    using promise_kept(9) [OF sync] by (simp add: calm_def sp_get_promise_def same_round_def wf_leader_def max_promise_bound_def)
  also have "calm \<dots> sp1" using app by (rule append_buffered_calm)
  finally have c1: "calm sp sp1" .
  moreover have "calm sp1 (sp1\<lparr>sp_state := (Leader, PhaseAccept), sp_leader_state := ls1\<rparr>)"
    if "fst (sp_state sp1) = Leader"
    using that cell_updates_same_round(2) [OF ls1] by (simp add: calm_def sp_get_promise_def)
  moreover have "fst (sp_state sp1) = Leader"
    using append_buffered_acts [OF app] assms(2) by simp
  ultimately have "calm sp (sp1\<lparr>sp_state := (Leader, PhaseAccept), sp_leader_state := ls1\<rparr>)"
    by (blast intro: calm_trans)
  also have "calm \<dots> sp'"
    by (rule sends_calm [OF for_each_sends [OF fe send_accsync_sends]])
  finally show ?thesis .
qed

lemma handle_promise_calm:
  "fst (sp_state sp) = Leader \<Longrightarrow> handle_promise_prepare S P prom from sp = Some sp' \<Longrightarrow> calm sp sp'"
  "sp_state sp = (Leader, PhaseAccept) \<Longrightarrow> handle_promise_accept S P prom from sp = Some sp' \<Longrightarrow> calm sp sp'"
proof -
  show "calm sp sp'" if "fst (sp_state sp) = Leader" "handle_promise_prepare S P prom from sp = Some sp'"
  proof -
    have "calm sp (upd_leader ls sp)" if "set_promise prom from True (sp_leader_state sp) = Some (b, ls)" for b ls
      by (rule upd_leader_calm [OF set_promise_eq(5) [OF that]]) (rule set_promise_bound [OF that])
    then show ?thesis
      using that
      by (auto simp: handle_promise_prepare_def bind_eq_Some_conv split: if_split_asm
          dest!: handle_majority_promises_calm intro: calm_trans)
  qed
  show "calm sp sp'" if "sp_state sp = (Leader, PhaseAccept)" "handle_promise_accept S P prom from sp = Some sp'"
  proof -
    have "calm sp (upd_leader ls sp)" if "set_promise prom from False (sp_leader_state sp) = Some (b, ls)" for b ls
      by (rule upd_leader_calm [OF set_promise_eq(5) [OF that]])
        (simp add: \<open>sp_state sp = (Leader, PhaseAccept)\<close>)
    then show ?thesis
      using that
      by (auto simp: handle_promise_accept_def bind_eq_Some_conv split: if_split_asm
          dest!: sends_calm [OF send_accsync_sends] intro: calm_trans)
  qed
qed

lemma handle_accepted_calm: "handle_accepted S a from sp = Some sp' \<Longrightarrow> calm sp sp'"
proof -
  have "calm sp sp'" if "set_accepted_idx from i (sp_leader_state sp) = Some ls"
    "is_set_decided_idx S i (sp_internal_storage sp) = Some (Inr u, st)"
    "for_each (announce_decided i) fs (sp\<lparr>sp_leader_state := ls, sp_internal_storage := st\<rparr>) = Some sp'" for i ls st fs u
  proof -
    have "calm sp (sp\<lparr>sp_leader_state := ls, sp_internal_storage := st\<rparr>)"
      using set_accepted_idx_calm [OF that(1)] promise_kept(8) [OF that(2)]
      by (simp add: calm_def sp_get_promise_def)
    also have "calm \<dots> sp'" by (rule sends_calm [OF for_each_sends [OF that(3) announce_decided_sends]])
    finally show ?thesis .
  qed
  then show "handle_accepted S a from sp = Some sp' \<Longrightarrow> calm sp sp'"
    by (auto simp: handle_accepted_def bind_eq_Some_conv Let_def split: if_split_asm
        intro: set_accepted_idx_calm)
qed

lemma leader_misc_calm:
  "handle_preparereq pr from sp = Some sp' \<Longrightarrow> calm sp sp'"
  "handle_notaccepted na from sp = Some sp' \<Longrightarrow> calm sp sp'"
  "handle_forwarded_proposal S es sp = Some sp' \<Longrightarrow> calm sp sp'"
  "handle_forwarded_stopsign S ss sp = Some sp' \<Longrightarrow> calm sp sp'"
proof -
  show "calm sp sp'" if "handle_preparereq pr from sp = Some sp'"
    using that
    by (auto simp: handle_preparereq_def bind_eq_Some_conv reset_promise_def split: if_split_asm
        intro!: calm_trans [OF upd_leader_calm sends_calm [OF send_prepare_sends]]
        dest: cell_updates_same_round set_promise_state_bound set_latest_accept_meta_bound
        intro: same_round_trans)
  show "calm sp sp'" if "handle_notaccepted na from sp = Some sp'"
    using that
    by (auto simp: handle_notaccepted_def bind_eq_Some_conv lost_promise_def split: if_split_asm
        intro!: upd_leader_calm dest: cell_updates_same_round set_promise_state_bound)
  show "calm sp sp'" if "handle_forwarded_proposal S es sp = Some sp'"
    using that
    by (auto simp: handle_forwarded_proposal_def split: if_split_asm prod.split_asm role.split_asm phase.split_asm
        intro: leader_append_calm)
  show "calm sp sp'" if "handle_forwarded_stopsign S ss sp = Some sp'"
    using that
    by (auto simp: handle_forwarded_stopsign_def split: if_split_asm prod.split_asm role.split_asm phase.split_asm
        intro: accept_stopsign_leader_calm)
qed

lemma update_decided_calm:
  "update_decided_idx_and_get_accepted_idx S d sp = Some (r, sp') \<Longrightarrow> calm sp sp'"
  by (auto simp: update_decided_idx_and_get_accepted_idx_def Let_def bind_eq_Some_conv calm_def
      sp_get_promise_def promise_kept split: if_splits)

text \<open>The common start of the accept-phase handlers: the ballot is checked, then the number.\<close>

lemma handle_decide_calm:
  assumes "handle_decide S dec sp = Some sp'"
  shows "calm sp sp'"
proof -
  obtain v sp1 where v: "check_valid_ballot (dec_n dec) sp = (v, sp1)" by (cases "check_valid_ballot (dec_n dec) sp")
  have "calm sp1 sp'"
    using assms v
    by (auto simp: handle_decide_def bind_eq_Some_conv split: if_split_asm option.split_asm
        dest!: handle_sequence_num_calm update_decided_calm reply_accepted_calm intro: calm_trans)
  with check_valid_ballot_calm [OF v] show ?thesis by (rule calm_trans)
qed

lemma handle_acceptdecide_calm:
  assumes "handle_acceptdecide S ad sp = Some sp'"
  shows "calm sp sp'"
proof -
  obtain v sp1 where v: "check_valid_ballot (ad_n ad) sp = (v, sp1)" by (cases "check_valid_ballot (ad_n ad) sp")
  have "calm sp1 sp'"
    using assms v
    by (auto simp: handle_acceptdecide_def bind_eq_Some_conv Let_def split: if_split_asm option.split_asm
        dest!: handle_sequence_num_calm update_decided_calm reply_accepted_calm
          upd_storage_calm [OF promise_kept(3)])
      (meson calm_trans)+
  with check_valid_ballot_calm [OF v] show ?thesis by (rule calm_trans)
qed


lemma handle_accept_stopsign_calm:
  assumes "handle_accept_stopsign S ass sp = Some sp'"
  shows "calm sp sp'"
proof -
  obtain v sp1 where v: "check_valid_ballot (ass_n ass) sp = (v, sp1)" by (cases "check_valid_ballot (ass_n ass) sp")
  have st: "calm sp2 (upd_storage stb sp2)"
    if "flush_batch S (sp_internal_storage sp2) = Some (Inr i, sta)" "is_set_stopsign S (Some ss) sta = Some (Inr j, stb)"
    for sp2 :: "('a, 'b, 'c, 'd) sequence_paxos" and i sta ss j stb
    using that by (intro upd_storage_calm) (simp add: promise_kept)
  have "calm sp1 sp'"
    using assms v
    by (auto simp: handle_accept_stopsign_def bind_eq_Some_conv split: if_split_asm
        dest!: handle_sequence_num_calm reply_accepted_calm st)
      (meson calm_trans)+
  with check_valid_ballot_calm [OF v] show ?thesis by (rule calm_trans)
qed

lemma handle_acceptsync_calm:
  assumes "handle_acceptsync S P a from sp = Some sp'"
  shows "calm sp sp'"
proof -
  obtain v sp1 where v: "check_valid_ballot (asy_n a) sp = (v, sp1)" by (cases "check_valid_ballot (asy_n a) sp")
  have "calm sp1 sp'"
  proof (cases "v \<and> sp_state sp1 = (Follower, PhasePrepare)")
    case False
    with assms v show ?thesis by (auto simp: handle_acceptsync_def)
  next
    case True
    with assms v obtain i st where sync: "sync_log S P (asy_n a) (asy_decided_idx a) (Some (asy_log_sync a))
        (sp_internal_storage sp1) = Some (Inr i, st)"
      and sp': "sp' = (let sp1 = sp1\<lparr>sp_cached_promise_message := None, sp_internal_storage := st\<rparr>;
            sp2 = (if is_get_stopsign st = None then forward_buffered_proposals sp1 else sp1)
          in push_msg from (Accepted \<lparr>acc_n = asy_n a, acc_accepted_idx = i\<rparr>)
         (sp2\<lparr>sp_state := (Follower, PhaseAccept), sp_current_seq_num := asy_seq_num a,
              sp_latest_accepted_meta := Some (asy_n a, length (sp_outgoing sp2))\<rparr>))"
      by (auto simp: handle_acceptsync_def bind_eq_Some_conv Let_def)
    let ?sp1 = "sp1\<lparr>sp_cached_promise_message := None, sp_internal_storage := st\<rparr>"
    have "calm sp1 ?sp1" using promise_kept(9) [OF sync] by (simp add: calm_def sp_get_promise_def)
    moreover have "calm ?sp1 (if is_get_stopsign st = None then forward_buffered_proposals ?sp1 else ?sp1)" by simp
    ultimately show ?thesis
      by (auto simp: sp' Let_def calm_def sp_get_promise_def intro: same_round_trans)
  qed
  with check_valid_ballot_calm [OF v] show ?thesis by (rule calm_trans)
qed

lemma user_calm:
  "sp_append S e sp = Some (r, sp') \<Longrightarrow> calm sp sp'"
  "sp_reconfigure S cfg md sp = Some (r, sp') \<Longrightarrow> calm sp sp'"
  "sp_trim S oi sp = Some (res, sp') \<Longrightarrow> calm sp sp'"
  "sp_snapshot S P oi local sp = Some (res, sp') \<Longrightarrow> calm sp sp'"
  "handle_compaction S P c sp = Some sp' \<Longrightarrow> calm sp sp'"
  "resend_message_timeout sp = Some sp' \<Longrightarrow> calm sp sp'"
  "flush_batch_timeout S sp = Some sp' \<Longrightarrow> calm sp sp'"
  "take_outgoing_msgs buffer sp = (buffer', sp') \<Longrightarrow> calm sp sp'"
proof -
  show "calm sp sp'" if "sp_append S e sp = Some (r, sp')"
    using that
    by (auto simp: sp_append_def propose_entry_def bind_eq_Some_conv
        split: if_split_asm prod.split_asm role.split_asm phase.split_asm intro: leader_append_calm)
  show "calm sp sp'" if "sp_reconfigure S cfg md sp = Some (r, sp')"
    using that
    by (auto simp: sp_reconfigure_def Let_def bind_eq_Some_conv
        split: if_split_asm prod.split_asm role.split_asm phase.split_asm intro: accept_stopsign_leader_calm)
  show "calm sp sp'" if "sp_trim S oi sp = Some (res, sp')"
    using that
    by (auto simp: sp_trim_def bind_eq_Some_conv Let_def split: if_split_asm option.split_asm
        intro: upd_storage_calm [OF promise_kept(10)] calm_trans [OF upd_storage_calm [OF promise_kept(10)] sends_calm])
  have snap: "calm sp sp'" if "sp_snapshot S P oi local sp = Some (res, sp')" for oi local res
    using that
    by (auto simp: sp_snapshot_def bind_eq_Some_conv Let_def split: if_split_asm
        intro: upd_storage_calm [OF promise_kept(11)] calm_trans [OF upd_storage_calm [OF promise_kept(11)] sends_calm])
  then show "calm sp sp'" if "sp_snapshot S P oi local sp = Some (res, sp')" using that by blast
  show "calm sp sp'" if "handle_compaction S P c sp = Some sp'"
    using that snap
    by (auto simp: handle_compaction_def bind_eq_Some_conv split: compaction.split_asm
        intro: upd_storage_calm [OF promise_kept(10)])
  show "calm sp sp'" if "resend_message_timeout sp = Some sp'"
    using that by (auto simp: resend_message_timeout_def split: role.split_asm
        intro: sends_calm [OF resend_messages_leader_sends])
  show "calm sp sp'" if "flush_batch_timeout S sp = Some sp'"
    using that
    by (auto simp: flush_batch_timeout_def flush_batch_follower_def Let_def bind_eq_Some_conv
        split: prod.split_asm role.split_asm phase.split_asm if_split_asm
        dest!: reply_accepted_calm intro: leader_append_calm upd_storage_calm [OF promise_kept(1)]
          calm_trans [OF upd_storage_calm [OF promise_kept(1)]])
  show "calm sp sp'" if "take_outgoing_msgs buffer sp = (buffer', sp')"
    using that by (auto simp: take_outgoing_msgs_def Let_def calm_def sp_get_promise_def same_round_def wf_leader_def
        reset_latest_accept_meta_def max_promise_bound_def split: if_split_asm)
qed

end
