(* ===== verification/Replica_Invariants.thy ===== *)
theory Replica_Invariants
  imports Sequence_Paxos_Facts
begin

text \<open>
  Invariants of a replica over arbitrary runs (\<open>sp_step\<close>): its identity and the shape of its
  book-keeping, the promise and the accepted round, and, on a back-end that meets the contract, the
  agreement of cache and storage.
\<close>

section \<open>Identity and round\<close>

definition sp_inv :: "('s, 't, 'c, 'p) sequence_paxos \<Rightarrow> bool" where
  "sp_inv sp \<longleftrightarrow>
     wf_leader (sp_leader_state sp) \<and> known_pid (sp_leader_state sp) (sp_pid sp) \<and>
     (\<forall>p \<in> set (sp_peers sp). p \<noteq> 0 \<longrightarrow> known_pid (sp_leader_state sp) p) \<and>
     ballot_le (n_leader (sp_leader_state sp)) (sp_get_promise sp) \<and>
     (fst (sp_state sp) = Leader \<longrightarrow>
        sp_get_promise sp = n_leader (sp_leader_state sp) \<and> b_pid (n_leader (sp_leader_state sp)) = sp_pid sp) \<and>
     (sp_state sp = (Leader, PhasePrepare) \<longrightarrow> max_promise_bound (sp_leader_state sp))"

lemma sp_inv_leader_ok: "sp_inv sp \<Longrightarrow> leader_ok sp"
  by (simp add: sp_inv_def leader_ok_def)

lemma calm_inv: "calm sp sp' \<Longrightarrow> sp_inv sp \<Longrightarrow> sp_inv sp'"
  by (auto simp: calm_def sp_inv_def same_round_def known_pid_def)

lemma is_set_promise_get: "is_set_promise S b st = Some (r, st') \<Longrightarrow> is_get_promise st' = b"
  by (simp add: is_get_promise_def set_actions_cache)

text \<open>The two ways a replica enters a new round.\<close>

lemma handle_leader_new:
  assumes h: "handle_leader S n sp = Some sp'"
    and n: "ballot_lt (n_leader (sp_leader_state sp)) n" "ballot_lt (sp_get_promise sp) n" "b_pid n = sp_pid sp"
  shows "sp_get_promise sp' = n" "n_leader (sp_leader_state sp') = n" "sp_state sp' = (Leader, PhasePrepare)"
    "sp_pid sp' = sp_pid sp" "sp_peers sp' = sp_peers sp"
    "max_pid (sp_leader_state sp') = max_pid (sp_leader_state sp)"
    "ls_quorum (sp_leader_state sp') = ls_quorum (sp_leader_state sp)" "wf_leader (sp_leader_state sp')"
    "max_promise_bound (sp_leader_state sp')"
proof -
  obtain st2 ls prom b msg where st2: "is_get_promise st2 = n"
    and ls: "set_promise prom (sp_pid sp) True (leader_state_with n (max_pid (sp_leader_state sp))
        (ls_quorum (sp_leader_state sp))) = Some (b, ls)"
    and sp': "sp' = push_to_peers msg
          (sp\<lparr>sp_internal_storage := st2, sp_leader_state := ls, sp_state := (Leader, PhasePrepare)\<rparr>)"
    using h n [folded not_ballot_le]
    by (fastforce simp: handle_leader_def bind_eq_Some_conv Let_def dest!: is_set_promise_get)
  have "same_round (leader_state_with n (max_pid (sp_leader_state sp)) (ls_quorum (sp_leader_state sp))) ls"
    using set_promise_eq(5) [OF ls] .
  moreover have "max_promise_bound ls" using set_promise_bound [OF ls] by simp
  ultimately show "sp_get_promise sp' = n" "n_leader (sp_leader_state sp') = n" "sp_state sp' = (Leader, PhasePrepare)"
    "sp_pid sp' = sp_pid sp" "sp_peers sp' = sp_peers sp"
    "max_pid (sp_leader_state sp') = max_pid (sp_leader_state sp)"
    "ls_quorum (sp_leader_state sp') = ls_quorum (sp_leader_state sp)" "wf_leader (sp_leader_state sp')"
    "max_promise_bound (sp_leader_state sp')"
    using st2 by (simp_all add: sp' push_to_peers_eq sp_get_promise_def same_round_def leader_state_with_def wf_leader_def)
qed

lemma handle_leader_cases:
  assumes "handle_leader S n sp = Some sp'"
  shows "calm sp sp' \<or>
    (ballot_lt (sp_get_promise sp) n \<and> b_pid n = sp_pid sp \<and>
     sp_get_promise sp' = n \<and> n_leader (sp_leader_state sp') = n \<and> sp_state sp' = (Leader, PhasePrepare) \<and>
     sp_pid sp' = sp_pid sp \<and> sp_peers sp' = sp_peers sp \<and>
     max_pid (sp_leader_state sp') = max_pid (sp_leader_state sp) \<and>
     ls_quorum (sp_leader_state sp') = ls_quorum (sp_leader_state sp) \<and> wf_leader (sp_leader_state sp') \<and>
     max_promise_bound (sp_leader_state sp'))"
proof (cases "ballot_le n (n_leader (sp_leader_state sp)) \<or> ballot_le n (sp_get_promise sp) \<or> sp_pid sp \<noteq> b_pid n")
  case True
  with assms show ?thesis by (auto simp: handle_leader_def split: if_split_asm)
next
  case False
  with handle_leader_new [OF assms] show ?thesis by (auto simp: not_ballot_le)
qed

lemma handle_prepare_cases:
  assumes "handle_prepare S P prep from sp = Some sp'"
  shows "sp' = sp \<or>
    (ballot_le (sp_get_promise sp) (prep_n prep) \<and> sp_get_promise sp' = prep_n prep \<and>
     sp_state sp' = (Follower, PhasePrepare) \<and> sp_pid sp' = sp_pid sp \<and> sp_peers sp' = sp_peers sp \<and>
     sp_leader_state sp' = sp_leader_state sp)"
proof (cases "ballot_lt (sp_get_promise sp) (prep_n prep)
    \<or> (sp_get_promise sp = prep_n prep \<and> snd (sp_state sp) = PhaseRecover)")
  case False
  with assms show ?thesis by (simp add: handle_prepare_def Let_def)
next
  case True
  then have "ballot_le (sp_get_promise sp) (prep_n prep)" by auto
  moreover obtain st2 promise where "is_get_promise st2 = prep_n prep"
    "sp' = push_msg from (Promise promise)
        (sp\<lparr>sp_internal_storage := st2, sp_state := (Follower, PhasePrepare),
            sp_current_seq_num := sequence_number_default, sp_cached_promise_message := Some promise\<rparr>)"
    using assms True
    by (fastforce simp: handle_prepare_def bind_eq_Some_conv Let_def dest!: is_set_promise_get)
  ultimately show ?thesis by (simp add: sp_get_promise_def push_msg_def)
qed

lemma sp_handle_calm:
  assumes h: "sp_handle S P m sp = Some sp'" and "\<And>prep. pm_msg m \<noteq> Prepare prep"
  shows "calm sp sp'"
  using assms
  by (auto simp: sp_handle_def split: paxos_msg.split_asm prod.split_asm role.split_asm phase.split_asm
      intro: leader_misc_calm handle_promise_calm handle_accepted_calm handle_acceptsync_calm
        handle_acceptdecide_calm handle_accept_stopsign_calm handle_decide_calm user_calm)

lemma sp_step_cases:
  assumes "sp_step S P strict sp sp'"
  shows "calm sp sp' \<or> (\<exists>n. handle_leader S n sp = Some sp') \<or> (\<exists>prep from. handle_prepare S P prep from sp = Some sp')"
  using assms
proof cases
  case (step_handle m)
  show ?thesis
  proof (cases "\<exists>prep. pm_msg m = Prepare prep")
    case True
    with step_handle(2) show ?thesis by (auto simp: sp_handle_def)
  next
    case False
    with sp_handle_calm [OF step_handle(2)] show ?thesis by blast
  qed
qed (auto intro: user_calm)

lemma sp_step_inv:
  assumes "sp_step S P strict sp sp'" and inv: "sp_inv sp"
  shows "sp_inv sp'"
proof -
  consider "calm sp sp'" | n where "handle_leader S n sp = Some sp'" "\<not> calm sp sp'"
    | prep "from" where "handle_prepare S P prep from sp = Some sp'"
    using sp_step_cases [OF assms(1)] by blast
  then show ?thesis
  proof cases
    case 1
    then show ?thesis using inv by (rule calm_inv)
  next
    case 2
    with handle_leader_cases [OF 2(1)] inv show ?thesis by (auto simp: sp_inv_def known_pid_def)
  next
    case 3
    with handle_prepare_cases [OF 3] inv show ?thesis
      by (auto simp: sp_inv_def known_pid_def intro: ballot_le_trans)
  qed
qed

lemma sp_run_inv: "(sp_step S P strict)\<^sup>*\<^sup>* sp sp' \<Longrightarrow> sp_inv sp \<Longrightarrow> sp_inv sp'"
  by (induction rule: rtranclp_induct) (auto intro: sp_step_inv)

text \<open>What no step changes: the node, its peers and its quorum.\<close>

definition same_server :: "('s, 't, 'c, 'p) sequence_paxos \<Rightarrow> ('s, 't, 'c, 'p) sequence_paxos \<Rightarrow> bool" where
  "same_server sp sp' \<longleftrightarrow> sp_pid sp' = sp_pid sp \<and> sp_peers sp' = sp_peers sp \<and>
     max_pid (sp_leader_state sp') = max_pid (sp_leader_state sp) \<and>
     ls_quorum (sp_leader_state sp') = ls_quorum (sp_leader_state sp)"

lemma sp_step_same_server: "sp_step S P strict sp sp' \<Longrightarrow> same_server sp sp'"
  by (drule sp_step_cases)
    (auto simp: same_server_def calm_def same_round_def dest!: handle_leader_cases handle_prepare_cases)

lemma sp_run_same_server: "(sp_step S P strict)\<^sup>*\<^sup>* sp sp' \<Longrightarrow> same_server sp sp'"
  by (induction rule: rtranclp_induct) (auto simp: same_server_def dest!: sp_step_same_server)

lemma sp_run_acts:
  "(sp_step S P strict)\<^sup>*\<^sup>* sp sp' \<Longrightarrow> sp_inv sp \<Longrightarrow> acts S P strict (sp_internal_storage sp) (sp_internal_storage sp')"
proof (induction rule: rtranclp_induct)
  case base
  show ?case by simp
next
  case (step y z)
  have "leader_ok y" using sp_run_inv [OF step.hyps(1) step.prems] by (rule sp_inv_leader_ok)
  with step.IH [OF step.prems] sp_step_acts [OF step.hyps(2)] show ?case
    using rtranclp_trans [of "storage_act S P strict"] by blast
qed

text \<open>Over a run the promise and the accepted round only grow.\<close>

lemma sp_run_promise:
  assumes "(sp_step S P strict)\<^sup>*\<^sup>* sp sp'" "sp_inv sp"
  shows "ballot_le (sp_get_promise sp) (sp_get_promise sp')"
  using acts_promise [OF sp_run_acts [OF assms]] by (simp add: sp_get_promise_def)

lemma sp_run_round:
  assumes "(sp_step S P strict)\<^sup>*\<^sup>* sp sp'" "sp_inv sp" "round_ok (sp_internal_storage sp)"
  shows "round_ok (sp_internal_storage sp')"
    and "ballot_le (is_get_accepted_round (sp_internal_storage sp)) (is_get_accepted_round (sp_internal_storage sp'))"
  using acts_round [OF sp_run_acts [OF assms(1,2)] assms(3)] by blast+

context storage_contract
begin

lemma sp_run_wf:
  assumes "(sp_step S P True)\<^sup>*\<^sup>* sp sp'" "sp_inv sp" "is_wf sinv view (sp_internal_storage sp)"
  shows "is_wf sinv view (sp_internal_storage sp')"
  using acts_wf [OF sp_run_acts [OF assms(1,2)] assms(3)] .

end

section \<open>Starting\<close>

text \<open>What a server expects of the store it starts on; an empty store is consistent.\<close>

definition store_ok :: "('s \<Rightarrow> bool) \<Rightarrow> ('s \<Rightarrow> ('t, 'c, 'p) storage_view) \<Rightarrow> 's \<Rightarrow> bool" where
  "store_ok sinv view s \<longleftrightarrow> sinv s \<and> v_trimmed (view s) = v_compacted_idx (view s) \<and>
     v_compacted_idx (view s) \<le> v_decided_idx (view s) \<and> v_decided_idx (view s) \<le> view_accepted_idx (view s) \<and>
     ballot_le (ballot_or_default (v_accepted_round (view s))) (ballot_or_default (v_promise (view s)))"

lemma memory_default_ok: "store_ok memory_inv memory_view memory_storage_default"
  by (simp add: store_ok_def memory_inv_def memory_view_def memory_storage_default_def view_accepted_idx_def
      ballot_or_default_def)

lemma is_wf_store_ok:
  assumes "is_wf sinv view st" "round_ok st"
  shows "store_ok sinv view (is_storage st)"
  using assms
  by (auto simp: is_wf_def is_coherent_def cache_matches_def indexes_ordered_def store_ok_def view_accepted_idx_def
      round_ok_def is_get_defs)

context storage_contract
begin

lemma sequence_paxos_with_start:
  assumes ok: "store_ok sinv view s" and start: "sequence_paxos_with S config s = Some sp"
    and pid: "1 \<le> spc_pid config"
  shows "sp_inv sp" "is_wf sinv view (sp_internal_storage sp)" "round_ok (sp_internal_storage sp)"
    and "sp_get_promise sp = ballot_or_default (v_promise (view s))"
    and "view (is_storage (sp_internal_storage sp)) =
           (view s)\<lparr>v_promise := Some (ballot_or_default (v_promise (view s)))\<rparr>"
    and "sp_pid sp = spc_pid config" "ls_quorum (sp_leader_state sp) =
           quorum_with (spc_flexible_quorum config) (length (spc_peers config) + 1)"
proof -
  have s: "sinv s" and tr: "v_trimmed (view s) = v_compacted_idx (view s)" using ok by (auto simp: store_ok_def)
  let ?b = "ballot_or_default (v_promise (view s))"
  obtain mx st st1 where mx: "max_last id (spc_peers config) = Some mx"
    and st: "internal_storage_with S s (spc_batch_size config) = Some st"
    and st1: "is_set_promise S ?b st = Some (Inr (), st1)"
    and f: "sp_internal_storage sp = st1" "sp_pid sp = spc_pid config" "sp_peers sp = spc_peers config"
      "fst (sp_state sp) = Follower"
    and ls: "sp_leader_state sp = leader_state_with ?b (max mx (spc_pid config))
        (quorum_with (spc_flexible_quorum config) (length (spc_peers config) + 1))"
    using start get_promise_ok [OF s]
    by (auto simp: sequence_paxos_with_def bind_eq_Some_conv Let_def ballot_or_default_def split: option.split_asm)
  show "sp_pid sp = spc_pid config" "ls_quorum (sp_leader_state sp) =
      quorum_with (spc_flexible_quorum config) (length (spc_peers config) + 1)"
    using f ls by (simp_all add: leader_state_with_def)
  note c = start_coherent [OF s tr st]
  have eq: "is_storage st = s" by (rule c(2))
  have wf: "is_wf sinv view st"
    using c ok by (auto simp: is_wf_def indexes_ordered_def store_ok_def is_coherent_def cache_matches_def
        view_accepted_idx_def)
  show "is_wf sinv view (sp_internal_storage sp)" unfolding f using set_wf(1) [OF wf st1] .
  show "sp_get_promise sp = ?b" using is_set_promise_get [OF st1] by (simp add: sp_get_promise_def f)
  have "is_get_accepted_round st1 = ballot_or_default (v_accepted_round (view s))"
    using c(1) eq set_actions_cache(1) [OF st1]
    by (simp add: is_get_accepted_round_def is_coherent_def cache_matches_def)
  then show "round_ok (sp_internal_storage sp)"
    using ok is_set_promise_get [OF st1] by (simp add: round_ok_def f store_ok_def)
  show "view (is_storage (sp_internal_storage sp)) = (view s)\<lparr>v_promise := Some ?b\<rparr>"
    using is_doesD(3) [OF is_set_promise_does st1] s by (simp add: eq f)
  have "p \<le> max mx (spc_pid config)" if "p \<in> set (spc_peers config)" for p
    using max_last_ge [OF mx that] by (simp add: max.coboundedI1)
  then show "sp_inv sp"
    using pid f ls is_set_promise_get [OF st1]
    by (auto simp: sp_inv_def known_pid_def leader_state_with_def wf_leader_def sp_get_promise_def)
qed

text \<open>Taking the lead of a higher round always succeeds.\<close>

lemma handle_leader_total:
  assumes s: "sinv (is_storage (sp_internal_storage sp))" and inv: "sp_inv sp"
  shows "\<exists>sp'. handle_leader S n sp = Some sp'"
proof (cases "ballot_le n (n_leader (sp_leader_state sp)) \<or> ballot_le n (sp_get_promise sp) \<or> sp_pid sp \<noteq> b_pid n")
  case True
  then show ?thesis by (auto simp: handle_leader_def)
next
  case False
  let ?ls = "leader_state_with n (max_pid (sp_leader_state sp)) (ls_quorum (sp_leader_state sp)) :: ('t, 'c, 'p) leader_state"
  obtain i st1 where f: "flush_batch S (sp_internal_storage sp) = Some (Inr i, st1)" and s1: "sinv (is_storage st1)"
    using flush_batch_does [OF s] by (auto simp: is_does_def)
  obtain st2 where p: "is_set_promise S n st1 = Some (Inr (), st2)"
    using is_set_promise_does [OF s1, of n] by (auto simp: is_does_def)
  have "known_pid ?ls (sp_pid sp)" using inv by (simp add: sp_inv_def known_pid_def leader_state_with_def)
  from set_promise_known [OF leader_state_with_wf this]
  obtain b ls where "set_promise \<lparr>prom_n = n, prom_n_accepted = is_get_accepted_round st2,
      prom_decided_idx = is_get_decided_idx st2, prom_accepted_idx = is_get_accepted_idx st2,
      prom_log_sync = None\<rparr> (sp_pid sp) True ?ls = Some (b, ls)" by blast
  with False f p show ?thesis by (simp add: handle_leader_def Let_def)
qed

end

end
