(* ===== verification/Log_Sync.thy ===== *)
theory Log_Sync
  imports Replica_Invariants
begin

text \<open>
  Synchronising one log with another: what \<^verbatim>\<open>create_log_sync\<close> at one server and \<^verbatim>\<open>sync_log\<close> at another
  achieve together. Logs are compared position by position (\<open>log_at\<close>), so that different compaction
  on the two sides does not matter.
\<close>

definition log_at :: "('t, 'c, 'p) storage_view \<Rightarrow> usize \<Rightarrow> 't option" where
  "log_at v k =
     (if v_compacted_idx v \<le> k \<and> k < v_compacted_idx v + length (v_log v)
      then Some (v_log v ! (k - v_compacted_idx v)) else None)"

text \<open>Two logs agree below a position where neither is compacted.\<close>

definition agree_below :: "usize \<Rightarrow> ('t, 'c, 'p) storage_view \<Rightarrow> ('t, 'c, 'p) storage_view \<Rightarrow> bool" where
  "agree_below i v w \<longleftrightarrow>
     (\<forall>k < i. v_compacted_idx v \<le> k \<longrightarrow> v_compacted_idx w \<le> k \<longrightarrow> log_at v k = log_at w k)"

text \<open>The same log, as far as it is not compacted on either side.\<close>

definition same_log :: "('t, 'c, 'p) storage_view \<Rightarrow> ('t, 'c, 'p) storage_view \<Rightarrow> bool" where
  "same_log v w \<longleftrightarrow>
     (\<forall>k. v_compacted_idx v \<le> k \<longrightarrow> v_compacted_idx w \<le> k \<longrightarrow> log_at v k = log_at w k) \<and>
     view_accepted_idx v = view_accepted_idx w \<and> v_stopsign v = v_stopsign w"

lemma log_at_suffix:
  assumes "v_compacted_idx v \<le> i" "i \<le> k"
  shows "log_at v k = (if k < i + length (drop (i - v_compacted_idx v) (v_log v))
    then Some (drop (i - v_compacted_idx v) (v_log v) ! (k - i)) else None)"
  using assms by (auto simp: log_at_def)

context storage_contract
begin

lemma create_log_sync_suffix:
  assumes coh: "is_coherent sinv view (sp_internal_storage sp)"
    and i: "is_get_compacted_idx (sp_internal_storage sp) \<le> i"
    and no: "\<not> (use_snapshots P \<and> i < is_get_decided_idx (sp_internal_storage sp))"
  shows "create_log_sync S P i d sp = Some \<lparr>decided_snapshot = None,
      sync_suffix = view_suffix (view (is_storage (sp_internal_storage sp))) i, sync_idx = i,
      sync_stopsign = v_stopsign (view (is_storage (sp_internal_storage sp)))\<rparr>"
proof -
  let ?st = "sp_internal_storage sp"
  have s: "sinv (is_storage ?st)" and m: "cache_matches (view (is_storage ?st)) (is_cache ?st)"
    using coh by (auto simp: is_coherent_def)
  have "is_get_suffix S i ?st = Some (Inr (view_suffix (view (is_storage ?st)) i))"
    unfolding is_get_suffix_def using m i by (intro get_suffix_ok s) (simp add: cache_matches_def is_get_defs)
  then show ?thesis
    using no m by (auto simp: create_log_sync_def Let_def is_get_stopsign_def cache_matches_def)
qed

text \<open>A suffix synchronisation makes the receiver's log the sender's.\<close>

lemma suffix_sync_same_log:
  assumes sender: "is_coherent sinv view (sp_internal_storage sp)"
    and receiver: "is_coherent sinv view st"
    and i: "is_get_compacted_idx (sp_internal_storage sp) \<le> i" "is_get_compacted_idx st \<le> i"
      "i \<le> is_get_compacted_idx st + length (v_log (view (is_storage st)))"
      "i \<le> is_get_compacted_idx (sp_internal_storage sp) + length (v_log (view (is_storage (sp_internal_storage sp))))"
    and no: "\<not> (use_snapshots P \<and> i < is_get_decided_idx (sp_internal_storage sp))"
    and agree: "agree_below i (view (is_storage (sp_internal_storage sp))) (view (is_storage st))"
    and sync: "create_log_sync S P i d sp = Some sync"
  shows "\<exists>st'. sync_log S P r dec (Some sync) st = Some (Inr (is_get_accepted_idx (sp_internal_storage sp)), st') \<and>
    is_coherent sinv view st' \<and> same_log (view (is_storage (sp_internal_storage sp))) (view (is_storage st')) \<and>
    is_get_accepted_round st' = r \<and> is_get_decided_idx st' = dec \<and>
    is_get_compacted_idx st' = is_get_compacted_idx st"
proof -
  let ?v = "view (is_storage (sp_internal_storage sp))" and ?w = "view (is_storage st)"
  have mv: "cache_matches ?v (is_cache (sp_internal_storage sp))" and mw: "cache_matches ?w (is_cache st)"
    using sender receiver by (auto simp: is_coherent_def)
  have ci: "v_compacted_idx ?v \<le> i" "v_compacted_idx ?w \<le> i" "i \<le> v_compacted_idx ?w + length (v_log ?w)"
    "i \<le> v_compacted_idx ?v + length (v_log ?v)"
    using i mv mw by (auto simp: cache_matches_def is_get_defs)
  have sy: "sync = \<lparr>decided_snapshot = None, sync_suffix = drop (i - v_compacted_idx ?v) (v_log ?v), sync_idx = i,
      sync_stopsign = v_stopsign ?v\<rparr>"
    using create_log_sync_suffix [OF sender i(1) no] sync mv by (simp add: view_suffix_def cache_matches_def)
  have app: "sync_applicable sync ?w" and none: "decided_snapshot sync = None"
    using ci by (auto simp: sync_applicable_def sy)
  let ?c = "synced_cache r dec sync (is_cache st)" and ?w' = "synced_view r dec sync (v_snapshot ?w) ?w"
  from sync_log_suffix [OF receiver app none, of P r dec] obtain s' where
    run: "sync_log S P r dec (Some sync) st = Some (Inr (c_accepted_idx ?c), \<lparr>is_storage = s', is_cache = ?c\<rparr>)"
    and s': "sinv s'" "view s' = ?w'"
    by (auto simp: is_does_def)
  have acc: "c_accepted_idx ?c = is_get_accepted_idx (sp_internal_storage sp)"
    using mv ci by (auto simp: synced_cache_def sy cache_matches_def is_get_defs)
  have coh': "is_coherent sinv view \<lparr>is_storage = s', is_cache = ?c\<rparr>"
    using s' synced_matches [OF mw app] by (simp add: is_coherent_def)
  have comp: "v_compacted_idx ?w' = v_compacted_idx ?w" by (simp add: synced_view_def none)
  have log': "v_log ?w' = take (i - v_compacted_idx ?w) (v_log ?w) @ drop (i - v_compacted_idx ?v) (v_log ?v)"
    using mw by (simp add: synced_view_def sy cache_matches_def)
  have "log_at ?v k = log_at ?w' k" if k: "v_compacted_idx ?v \<le> k" "v_compacted_idx ?w \<le> k" for k
  proof (cases "k < i")
    case True
    then have "log_at ?w' k = log_at ?w k"
      using k ci by (auto simp: log_at_def comp log' nth_append)
    with agree k True show ?thesis by (simp add: agree_below_def)
  next
    case False
    then have "log_at ?w' k = (if k < i + length (drop (i - v_compacted_idx ?v) (v_log ?v))
        then Some (drop (i - v_compacted_idx ?v) (v_log ?v) ! (k - i)) else None)"
      using k ci by (auto simp: log_at_def comp log' nth_append)
    with False ci show ?thesis using log_at_suffix [of ?v i k] by simp
  qed
  moreover have "view_accepted_idx ?v = view_accepted_idx ?w'"
  proof -
    have "v_stopsign ?w' = v_stopsign ?v" by (simp add: synced_view_def sy)
    then show ?thesis using ci unfolding view_accepted_idx_def comp log' by auto
  qed
  ultimately have "same_log ?v ?w'"
    by (simp add: same_log_def comp) (simp add: synced_view_def sy)
  with run acc coh' s' show ?thesis
    using mw by (auto simp: is_get_defs synced_cache_def none sy)
qed

text \<open>The snapshot a sender attaches for a receiver that has decided less than the sender compacted.\<close>

lemma create_diff_snapshot_complete:
  assumes wf: "is_wf sinv view st" and d: "d \<le> is_get_compacted_idx st"
    and p: "(if is_get_compacted_idx st < decided_without_stopsign (is_cache st)
             then create_snapshot S P (decided_without_stopsign (is_cache st)) st = Some (Inr p)
             else v_snapshot (view (is_storage st)) = Some p)"
  shows "create_diff_snapshot S P d st = Some (Inr (Some (Complete p), decided_without_stopsign (is_cache st)))"
proof -
  have m: "cache_matches (view (is_storage st)) (is_cache st)" and o: "indexes_ordered (is_cache st)"
    and s: "sinv (is_storage st)"
    using wf by (auto simp: is_wf_def is_coherent_def)
  show ?thesis
    using d p get_decided_idx_without_stopsign_eq [OF m o] get_snapshot_ok [OF s]
    by (auto simp: create_diff_snapshot_def is_get_snapshot_def Let_def split: if_split_asm)
qed

lemma complete_sync_same_log:
  assumes sender: "is_wf sinv view (sp_internal_storage sp)"
    and receiver: "is_coherent sinv view st"
    and use: "use_snapshots P" "i < is_get_decided_idx (sp_internal_storage sp)"
    and d: "d \<le> is_get_compacted_idx (sp_internal_storage sp)"
    and c: "is_get_compacted_idx st \<le> decided_without_stopsign (is_cache (sp_internal_storage sp))"
    and p: "(if is_get_compacted_idx (sp_internal_storage sp) < decided_without_stopsign (is_cache (sp_internal_storage sp))
             then create_snapshot S P (decided_without_stopsign (is_cache (sp_internal_storage sp))) (sp_internal_storage sp) = Some (Inr p)
             else v_snapshot (view (is_storage (sp_internal_storage sp))) = Some p)"
  shows "\<exists>sync st'. create_log_sync S P i d sp = Some sync \<and>
    sync_log S P r dec (Some sync) st = Some (Inr (is_get_accepted_idx (sp_internal_storage sp)), st') \<and>
    is_coherent sinv view st' \<and> same_log (view (is_storage (sp_internal_storage sp))) (view (is_storage st')) \<and>
    v_snapshot (view (is_storage st')) = Some p \<and>
    is_get_compacted_idx st' = decided_without_stopsign (is_cache (sp_internal_storage sp))"
proof -
  let ?st = "sp_internal_storage sp"
  let ?v = "view (is_storage ?st)" and ?w = "view (is_storage st)"
  define l where "l = decided_without_stopsign (is_cache ?st)"
  have mv: "cache_matches ?v (is_cache ?st)" and mw: "cache_matches ?w (is_cache st)" and s: "sinv (is_storage ?st)"
    and ov: "indexes_ordered (is_cache ?st)"
    using sender receiver by (auto simp: is_wf_def is_coherent_def)
  have l: "v_compacted_idx ?v \<le> l" "l \<le> v_compacted_idx ?v + length (v_log ?v)"
    using decided_without_stopsign_bounds [OF mv ov] mv by (auto simp: l_def cache_matches_def)
  have suf: "is_get_suffix S (is_get_decided_idx ?st) ?st = Some (Inr (drop (l - v_compacted_idx ?v) (v_log ?v)))"
  proof -
    have "v_trimmed ?v \<le> is_get_decided_idx ?st"
      using mv ov by (simp add: cache_matches_def indexes_ordered_def is_get_defs)
    then have "is_get_suffix S (is_get_decided_idx ?st) ?st = Some (Inr (view_suffix ?v (is_get_decided_idx ?st)))"
      unfolding is_get_suffix_def by (rule get_suffix_ok [OF s])
    moreover have "drop (is_get_decided_idx ?st - v_trimmed ?v) (v_log ?v) = drop (l - v_compacted_idx ?v) (v_log ?v)"
      using mv ov
      by (auto simp: l_def decided_without_stopsign_def cache_stopsign_is_decided_def is_get_defs cache_matches_def
          indexes_ordered_def)
    ultimately show ?thesis by (simp add: view_suffix_def)
  qed
  define sync where "sync = \<lparr>decided_snapshot = Some (Complete p), sync_suffix = drop (l - v_compacted_idx ?v) (v_log ?v),
      sync_idx = l, sync_stopsign = v_stopsign ?v\<rparr>"
  have cr: "create_log_sync S P i d sp = Some sync"
    using use create_diff_snapshot_complete [OF sender d p] suf mv
    by (simp add: create_log_sync_def Let_def sync_def l_def is_get_stopsign_def cache_matches_def)
  have app: "sync_applicable sync ?w"
    using c mw by (simp add: sync_applicable_def sync_def l_def cache_matches_def is_get_defs)
  let ?c = "synced_cache r dec sync (is_cache st)" and ?w' = "synced_view r dec sync (Some p) ?w"
  have "decided_snapshot sync = Some (Complete p)" by (simp add: sync_def)
  from sync_log_complete [OF receiver app this, of P r dec] obtain s' where
    run: "sync_log S P r dec (Some sync) st = Some (Inr (c_accepted_idx ?c), \<lparr>is_storage = s', is_cache = ?c\<rparr>)"
    and s': "sinv s'" "view s' = ?w'"
    by (auto simp: is_does_def)
  have acc: "c_accepted_idx ?c = is_get_accepted_idx ?st"
    using mv l by (auto simp: synced_cache_def sync_def cache_matches_def is_get_defs)
  have coh': "is_coherent sinv view \<lparr>is_storage = s', is_cache = ?c\<rparr>"
    using s' synced_matches [OF mw app] by (simp add: is_coherent_def)
  have f: "v_compacted_idx ?w' = l" "v_log ?w' = drop (l - v_compacted_idx ?v) (v_log ?v)"
    "v_stopsign ?w' = v_stopsign ?v" "v_snapshot ?w' = Some p"
    by (simp_all add: synced_view_def sync_def)
  have "log_at ?v k = log_at ?w' k" if "l \<le> k" for k
    using log_at_suffix [OF l(1) that] that by (auto simp: log_at_def f)
  moreover have "view_accepted_idx ?v = view_accepted_idx ?w'"
    using l by (auto simp: view_accepted_idx_def f)
  ultimately have "same_log ?v ?w'" using l by (simp add: same_log_def f)
  with cr run acc coh' s' f show ?thesis
    by (intro exI [of _ sync] exI [of _ "\<lparr>is_storage = s', is_cache = ?c\<rparr>"])
      (simp add: is_get_defs synced_cache_def sync_def l_def)
qed

end

end
