(* ===== verification/Replica_Behaviour.thy ===== *)
theory Replica_Behaviour
  imports Log_Sync
begin

text \<open>
  What single handlers of the replica do: stale rounds and gaps in the numbering leave the storage
  alone, a leader decides only what an accept quorum has accepted, unsent \<^verbatim>\<open>AcceptDecide\<close> messages are
  extended in place, and nothing is proposed after a stop sign.
\<close>

section \<open>Messages of another round\<close>

text \<open>The round of a message of the accept phase, and its sequence number where it has one.\<close>

fun accept_ballot :: "('t, 'c, 'p) paxos_msg \<Rightarrow> ballot option" where
  "accept_ballot (AcceptSync a) = Some (asy_n a)"
| "accept_ballot (AcceptDecide a) = Some (ad_n a)"
| "accept_ballot (AcceptStopSign a) = Some (ass_n a)"
| "accept_ballot (Decide d) = Some (dec_n d)"
| "accept_ballot _ = None"

fun accept_seq_num :: "('t, 'c, 'p) paxos_msg \<Rightarrow> sequence_number option" where
  "accept_seq_num (AcceptDecide a) = Some (ad_seq_num a)"
| "accept_seq_num (AcceptStopSign a) = Some (ass_seq_num a)"
| "accept_seq_num (Decide d) = Some (dec_seq_num d)"
| "accept_seq_num _ = None"

lemma check_valid_ballot_stale:
  "ballot_lt n (sp_get_promise sp) \<Longrightarrow>
     check_valid_ballot n sp = (False, push_msg (b_pid n) (NotAccepted \<lparr>nacc_n = sp_get_promise sp\<rparr>) sp)"
  by (simp add: check_valid_ballot_def Let_def ballot_cmp_def ballot_lt_key cmp_def)

lemma check_valid_ballot_future:
  "ballot_lt (sp_get_promise sp) n \<Longrightarrow> check_valid_ballot n sp = (False, sp_reconnected (b_pid n) sp)"
  by (simp add: check_valid_ballot_def Let_def ballot_cmp_def ballot_lt_key cmp_def)

lemma check_valid_ballot_current:
  "ballot_key (sp_get_promise sp) = ballot_key n \<Longrightarrow> check_valid_ballot n sp = (True, sp)"
  by (simp add: check_valid_ballot_def Let_def ballot_cmp_def cmp_def)

lemma sp_handle_invalid_ballot:
  assumes "accept_ballot (pm_msg m) = Some n" "check_valid_ballot n sp = (False, sp')"
  shows "sp_handle S P m sp = Some sp'"
  using assms
  by (cases "pm_msg m")
    (auto simp: sp_handle_def handle_acceptsync_def handle_acceptdecide_def handle_accept_stopsign_def
      handle_decide_def)

section \<open>Gaps in the numbering\<close>

lemma sp_handle_unexpected:
  assumes "accept_seq_num (pm_msg m) = Some sn" "check_msg_status (sp_current_seq_num sp) sn = Some status"
    "status \<noteq> Expected"
  shows "\<exists>sp'. sp_handle S P m sp = Some sp' \<and> sp_internal_storage sp' = sp_internal_storage sp \<and>
    sp_leader_state sp' = sp_leader_state sp \<and> sp_current_seq_num sp' = sp_current_seq_num sp"
proof -
  obtain n where n: "accept_ballot (pm_msg m) = Some n"
    using assms(1) by (cases "pm_msg m") auto
  obtain v sp1 where v: "check_valid_ballot n sp = (v, sp1)" by (cases "check_valid_ballot n sp")
  show ?thesis
  proof (cases v)
    case False
    with v n have "sp_handle S P m sp = Some sp1" by (simp add: sp_handle_invalid_ballot)
    moreover have "sp_current_seq_num sp1 = sp_current_seq_num sp"
      using v by (auto simp: check_valid_ballot_def Let_def sp_reconnected_def split: ordering.splits)
    ultimately show ?thesis using check_valid_ballot_storage [OF v] by blast
  next
    case True
    have sp1: "sp1 = sp" using check_valid_ballot_True [of n sp sp1] v True by simp
    have num: "handle_sequence_num sn pid sp = Some (status, (if status = DroppedPreceding then sp_reconnected pid sp else sp))" for pid
      using assms(2,3) by (cases status) (auto simp: handle_sequence_num_def)
    have seq: "sp_current_seq_num (sp_reconnected pid sp) = sp_current_seq_num sp" for pid
      by (simp add: sp_reconnected_def Let_def)
    show ?thesis
      using assms v n True sp1 num seq
      by (cases "pm_msg m")
        (auto simp: sp_handle_def handle_acceptdecide_def handle_accept_stopsign_def handle_decide_def)
  qed
qed

section \<open>Deciding\<close>

text \<open>
  The only step of a leader in the accept phase that moves its decided index is an \<^verbatim>\<open>Accepted\<close> that
  completes an accept quorum.
\<close>

lemma handle_accepted_decides:
  assumes h: "handle_accepted S a from sp = Some sp'"
    and moved: "is_get_decided_idx (sp_internal_storage sp') \<noteq> is_get_decided_idx (sp_internal_storage sp)"
  shows "acc_n a = n_leader (sp_leader_state sp)" "sp_state sp = (Leader, PhaseAccept)"
    "is_get_decided_idx (sp_internal_storage sp') = acc_accepted_idx a"
    "is_get_decided_idx (sp_internal_storage sp) < acc_accepted_idx a"
    "accepted_indexes (sp_leader_state sp') = (accepted_indexes (sp_leader_state sp))[from - 1 := acc_accepted_idx a]"
    "is_accept_quorum (ls_quorum (sp_leader_state sp')) (card (accepted_pids (acc_accepted_idx a) (sp_leader_state sp')))"
proof -
  obtain ls st fs where g: "acc_n a = n_leader (sp_leader_state sp)" "sp_state sp = (Leader, PhaseAccept)"
      "is_get_decided_idx (sp_internal_storage sp) < acc_accepted_idx a"
    and ls: "set_accepted_idx from (acc_accepted_idx a) (sp_leader_state sp) = Some ls"
    and ch: "is_chosen (acc_accepted_idx a) ls"
    and st: "is_set_decided_idx S (acc_accepted_idx a) (sp_internal_storage sp) = Some (Inr (), st)"
    and fe: "for_each (announce_decided (acc_accepted_idx a)) fs (sp\<lparr>sp_leader_state := ls, sp_internal_storage := st\<rparr>) = Some sp'"
    using h moved by (auto simp: handle_accepted_def bind_eq_Some_conv Let_def split: if_split_asm)
  have sd: "sends (sp\<lparr>sp_leader_state := ls, sp_internal_storage := st\<rparr>) sp'"
    by (rule for_each_sends [OF fe announce_decided_sends])
  have l: "sends_leader ls (sp_leader_state sp')" and st': "sp_internal_storage sp' = st"
    using sends_fields(1,10) [OF sd] by simp_all
  show "acc_n a = n_leader (sp_leader_state sp)" "sp_state sp = (Leader, PhaseAccept)"
    "is_get_decided_idx (sp_internal_storage sp) < acc_accepted_idx a" by (rule g)+
  show "is_get_decided_idx (sp_internal_storage sp') = acc_accepted_idx a"
    using set_actions_cache(2) [OF st] by (simp add: st' is_get_decided_idx_def)
  have eq: "accepted_indexes (sp_leader_state sp') = accepted_indexes ls" "ls_quorum (sp_leader_state sp') = ls_quorum ls"
    using l by (simp_all add: sends_leader_def same_round_def)
  then show "accepted_indexes (sp_leader_state sp') = (accepted_indexes (sp_leader_state sp))[from - 1 := acc_accepted_idx a]"
    using ls by (simp add: set_accepted_idx_eq)
  have "accepted_pids (acc_accepted_idx a) (sp_leader_state sp') = accepted_pids (acc_accepted_idx a) ls"
    by (simp add: accepted_pids_def eq)
  with ch eq show "is_accept_quorum (ls_quorum (sp_leader_state sp')) (card (accepted_pids (acc_accepted_idx a) (sp_leader_state sp')))"
    by (simp add: is_chosen_card)
qed

section \<open>Extending an unsent message\<close>

lemma get_latest_accdec_message_eq:
  "get_latest_accdec_message to sp = Some (Some (i, ad)) \<longleftrightarrow>
     1 \<le> to \<and> to - 1 < length (latest_accept_meta (sp_leader_state sp)) \<and>
     latest_accept_meta (sp_leader_state sp) ! (to - 1) = Some (n_leader (sp_leader_state sp), i) \<and>
     i < length (sp_outgoing sp) \<and>
     (\<exists>pm. sp_outgoing sp ! i = SequencePaxosMsg pm \<and> pm_msg pm = AcceptDecide ad)"
proof (cases "1 \<le> to \<and> to - 1 < length (latest_accept_meta (sp_leader_state sp))")
  case False
  then have "get_latest_accdec_message to sp = None"
    by (cases to) (auto simp: get_latest_accdec_message_def get_latest_accept_meta_def pid_to_idx_def
        checked_sub_def vec_get_def)
  with False show ?thesis by auto
next
  case True
  then have "get_latest_accept_meta to (sp_leader_state sp) = Some (latest_accept_meta (sp_leader_state sp) ! (to - 1))"
    by (simp add: get_latest_accept_meta_def)
  with True show ?thesis
    by (cases "latest_accept_meta (sp_leader_state sp) ! (to - 1)")
      (auto simp: get_latest_accdec_message_def bind_eq_Some_conv vec_get_eq_Some
        split: if_splits message.splits paxos_msg.splits)
qed

lemma send_accsync_keeps_meta:
  assumes "send_accsync S P to sp = Some sp'"
  shows "\<exists>asy. sp_outgoing sp' = sp_outgoing sp @ [paxos_envelope (sp_pid sp) to (AcceptSync asy)]"
    and "latest_accept_meta (sp_leader_state sp') = latest_accept_meta (sp_leader_state sp)"
    and "n_leader (sp_leader_state sp') = n_leader (sp_leader_state sp)"
  using assms
  by (auto simp: send_accsync_def Let_def bind_eq_Some_conv push_msg_def next_seq_num_eq increment_seq_num_session_eq)

text \<open>
  After a second \<^verbatim>\<open>Promise\<close> of a follower the leader appends an \<^verbatim>\<open>AcceptSync\<close> to the outgoing buffer, but
  it still remembers the unsent \<^verbatim>\<open>AcceptDecide\<close> before it: entries accepted from now on are put there,
  in front of the \<^verbatim>\<open>AcceptSync\<close> that starts the new session, and are part of no message of that session.
\<close>

lemma accsync_then_acceptdecide:
  assumes pending: "get_latest_accdec_message to sp = Some (Some (i, ad))"
    and sync: "send_accsync S P to sp = Some sp1"
    and new: "send_acceptdecide_to am to sp1 = Some sp2"
  shows "length (sp_outgoing sp2) = length (sp_outgoing sp) + 1"
    and "\<exists>asy. sp_outgoing sp2 ! length (sp_outgoing sp) = paxos_envelope (sp_pid sp) to (AcceptSync asy)"
    and "\<exists>pm. sp_outgoing sp2 ! i = SequencePaxosMsg pm \<and> i < length (sp_outgoing sp) \<and>
           pm_msg pm = AcceptDecide (ad\<lparr>ad_entries := ad_entries ad @ am_entries am,
             ad_decided_idx := sp_get_decided_idx sp1\<rparr>)"
proof -
  obtain asy where out: "sp_outgoing sp1 = sp_outgoing sp @ [paxos_envelope (sp_pid sp) to (AcceptSync asy)]"
    using send_accsync_keeps_meta(1) [OF sync] by blast
  from pending have i: "i < length (sp_outgoing sp)" by (simp add: get_latest_accdec_message_eq)
  have "get_latest_accdec_message to sp1 = Some (Some (i, ad))"
    using pending send_accsync_keeps_meta(2,3) [OF sync]
    by (auto simp: get_latest_accdec_message_eq out nth_append)
  then have sp2: "sp2 = set_outgoing_msg i (AcceptDecide (ad\<lparr>ad_entries := ad_entries ad @ am_entries am,
      ad_decided_idx := sp_get_decided_idx sp1\<rparr>)) sp1"
    using new by (simp add: send_acceptdecide_to_def Let_def sp_get_decided_idx_def)
  show "length (sp_outgoing sp2) = length (sp_outgoing sp) + 1" by (simp add: sp2 set_outgoing_msg_def out)
  show "\<exists>asy. sp_outgoing sp2 ! length (sp_outgoing sp) = paxos_envelope (sp_pid sp) to (AcceptSync asy)"
    using i by (simp add: sp2 set_outgoing_msg_def out nth_append)
  show "\<exists>pm. sp_outgoing sp2 ! i = SequencePaxosMsg pm \<and> i < length (sp_outgoing sp) \<and>
           pm_msg pm = AcceptDecide (ad\<lparr>ad_entries := ad_entries ad @ am_entries am,
             ad_decided_idx := sp_get_decided_idx sp1\<rparr>)"
    using i pending by (auto simp: sp2 set_outgoing_msg_def out nth_append get_latest_accdec_message_eq)
qed

section \<open>Proposals\<close>

lemma sp_append_stopped:
  "accepted_reconfiguration sp \<Longrightarrow> sp_append S e sp = Some (Inl (PendingReconfigEntry e), sp)"
  "accepted_reconfiguration sp \<Longrightarrow> sp_reconfigure S cfg md sp = Some (Inl (PendingReconfigConfig cfg md), sp)"
  by (simp_all add: sp_append_def sp_reconfigure_def)

section \<open>Synchronising a follower\<close>

text \<open>
  An accepted \<^verbatim>\<open>AcceptSync\<close> replaces the follower's decided index by the leader's, whether that is
  larger or smaller.
\<close>

lemma acceptsync_sets_decided:
  assumes msg: "pm_msg m = AcceptSync a" and st: "sp_state sp = (Follower, PhasePrepare)"
    and n: "ballot_key (sp_get_promise sp) = ballot_key (asy_n a)"
    and h: "sp_handle S P m sp = Some sp'"
  shows "sp_get_decided_idx sp' = asy_decided_idx a" "is_get_accepted_round (sp_internal_storage sp') = asy_n a"
    "sp_state sp' = (Follower, PhaseAccept)" "sp_current_seq_num sp' = asy_seq_num a"
proof -
  obtain i st1 where sync: "sync_log S P (asy_n a) (asy_decided_idx a) (Some (asy_log_sync a)) (sp_internal_storage sp)
      = Some (Inr i, st1)"
    and "sp_internal_storage sp' = st1" "sp_state sp' = (Follower, PhaseAccept)" "sp_current_seq_num sp' = asy_seq_num a"
    using h msg st check_valid_ballot_current [OF n]
    by (auto simp: sp_handle_def handle_acceptsync_def bind_eq_Some_conv Let_def split: if_split_asm)
  with sync_log_scalars [OF sync] show "sp_get_decided_idx sp' = asy_decided_idx a"
    "is_get_accepted_round (sp_internal_storage sp') = asy_n a"
    "sp_state sp' = (Follower, PhaseAccept)" "sp_current_seq_num sp' = asy_seq_num a"
    by (simp_all add: sp_get_decided_idx_def)
qed

section \<open>Crash and restart\<close>

context storage_contract
begin

text \<open>
  A server that stops and starts again on its store has the promise, the accepted round, the decided
  index, the log and the stop sign it had; it comes back as a follower that asks for a new prepare.
\<close>

lemma restart_recovers:
  assumes wf: "is_wf sinv view (sp_internal_storage sp)" and r: "round_ok (sp_internal_storage sp)"
    and pid: "1 \<le> spc_pid config"
    and start: "sequence_paxos_with S config (is_storage (sp_internal_storage sp)) = Some sp'"
  shows "sp_get_promise sp' = sp_get_promise sp"
    and "view (is_storage (sp_internal_storage sp')) =
           (view (is_storage (sp_internal_storage sp)))\<lparr>v_promise := Some (sp_get_promise sp)\<rparr>"
    and "is_wf sinv view (sp_internal_storage sp')" "sp_inv sp'" "round_ok (sp_internal_storage sp')"
    and "fst (sp_state sp') = Follower"
proof -
  note ok = is_wf_store_ok [OF wf r]
  note f = sequence_paxos_with_start [OF ok start pid]
  have p: "ballot_or_default (v_promise (view (is_storage (sp_internal_storage sp)))) = sp_get_promise sp"
    using wf by (simp add: is_wf_def is_coherent_def cache_matches_def sp_get_promise_def is_get_promise_def)
  show "sp_get_promise sp' = sp_get_promise sp"
    "view (is_storage (sp_internal_storage sp')) =
       (view (is_storage (sp_internal_storage sp)))\<lparr>v_promise := Some (sp_get_promise sp)\<rparr>"
    using f(4,5) p by simp_all
  show "is_wf sinv view (sp_internal_storage sp')" "sp_inv sp'" "round_ok (sp_internal_storage sp')" by (rule f)+
  show "fst (sp_state sp') = Follower"
    using start by (auto simp: sequence_paxos_with_def bind_eq_Some_conv Let_def split: option.split_asm)
qed

end

text \<open>The life of a replica: steps, and restarts on the store of the previous incarnation.\<close>

inductive life_step ::
  "('s, 't, 'c, 'p) storage_impl \<Rightarrow> ('t, 'p) snapshot_impl \<Rightarrow> sequence_paxos_config \<Rightarrow>
     ('s, 't, 'c, 'p) sequence_paxos \<Rightarrow> ('s, 't, 'c, 'p) sequence_paxos \<Rightarrow> bool"
  for S P config where
  life_run: "sp_step S P True sp sp' \<Longrightarrow> life_step S P config sp sp'"
| life_restart:
    "sequence_paxos_with S config (is_storage (sp_internal_storage sp)) = Some sp' \<Longrightarrow> life_step S P config sp sp'"

context storage_contract
begin

lemma life_step_inv:
  assumes step: "life_step S P config sp sp'" and pid: "1 \<le> spc_pid config"
    and inv: "sp_inv sp" "is_wf sinv view (sp_internal_storage sp)" "round_ok (sp_internal_storage sp)"
  shows "sp_inv sp' \<and> is_wf sinv view (sp_internal_storage sp') \<and> round_ok (sp_internal_storage sp') \<and>
    ballot_le (sp_get_promise sp) (sp_get_promise sp') \<and>
    ballot_le (is_get_accepted_round (sp_internal_storage sp)) (is_get_accepted_round (sp_internal_storage sp'))"
  using step
proof cases
  case life_run
  then have run: "(sp_step S P True)\<^sup>*\<^sup>* sp sp'" by simp
  show ?thesis
    using sp_run_inv [OF run inv(1)] sp_run_wf [OF run inv(1,2)] sp_run_round [OF run inv(1,3)]
      sp_run_promise [OF run inv(1)] by blast
next
  case life_restart
  note f = restart_recovers [OF inv(2,3) pid this]
  have "is_get_accepted_round (sp_internal_storage sp') = is_get_accepted_round (sp_internal_storage sp)"
    using f(2,3) inv(2) by (simp add: is_wf_def is_coherent_def cache_matches_def is_get_defs)
  with f show ?thesis by simp
qed

lemma life_inv:
  assumes run: "(life_step S P config)\<^sup>*\<^sup>* sp sp'" and pid: "1 \<le> spc_pid config"
    and inv: "sp_inv sp" "is_wf sinv view (sp_internal_storage sp)" "round_ok (sp_internal_storage sp)"
  shows "sp_inv sp' \<and> is_wf sinv view (sp_internal_storage sp') \<and> round_ok (sp_internal_storage sp') \<and>
    ballot_le (sp_get_promise sp) (sp_get_promise sp') \<and>
    ballot_le (is_get_accepted_round (sp_internal_storage sp)) (is_get_accepted_round (sp_internal_storage sp'))"
  using run
proof (induction rule: rtranclp_induct)
  case base
  show ?case using inv by simp
next
  case (step y z)
  with life_step_inv [OF step.hyps(2) pid] show ?case by (blast intro: ballot_le_trans)
qed

end

text \<open>The refusals of trim: not the leader, or an index that some process has not accepted.\<close>

lemma sp_trim_errors:
  assumes "sp_trim S oidx sp = Some (r, sp')"
  shows "fst (sp_state sp) \<noteq> Leader \<Longrightarrow> r = Inl (NotCurrentLeader (sp_get_current_leader sp)) \<and> sp' = sp"
    and "fst (sp_state sp) = Leader \<Longrightarrow> oidx = Some idx \<Longrightarrow> 1 \<le> pid \<Longrightarrow>
       pid \<le> length (accepted_indexes (sp_leader_state sp)) \<Longrightarrow>
       accepted_indexes (sp_leader_state sp) ! (pid - 1) < idx \<Longrightarrow>
       \<exists>m. r = Inl (NotAllDecided m) \<and> get_min_all_accepted_idx (sp_leader_state sp) = Some m \<and> sp' = sp"
    and "r = Inl e \<Longrightarrow> sp_outgoing sp' = sp_outgoing sp"
proof -
  show "r = Inl (NotCurrentLeader (sp_get_current_leader sp)) \<and> sp' = sp" if "fst (sp_state sp) \<noteq> Leader"
    using assms that by (auto simp: sp_trim_def)
  show "\<exists>m. r = Inl (NotAllDecided m) \<and> get_min_all_accepted_idx (sp_leader_state sp) = Some m \<and> sp' = sp"
    if l: "fst (sp_state sp) = Leader" and o: "oidx = Some idx" and pid: "1 \<le> pid" "pid \<le> length (accepted_indexes (sp_leader_state sp))"
      and a: "accepted_indexes (sp_leader_state sp) ! (pid - 1) < idx"
  proof -
    obtain m where m: "get_min_all_accepted_idx (sp_leader_state sp) = Some m"
      using assms l by (auto simp: sp_trim_def bind_eq_Some_conv)
    from get_min_all_accepted_idx_le [OF m pid] a have "\<not> idx \<le> m" by simp
    with assms l o m show ?thesis by (simp add: sp_trim_def)
  qed
  show "sp_outgoing sp' = sp_outgoing sp" if "r = Inl e"
    using assms that
    by (auto simp: sp_trim_def downcast_compaction_def Let_def
        split: Option.bind_split_asm if_split_asm option.split_asm sum.split_asm storage_err.split_asm)
qed

end
