(* ===== verification/Omni_Paxos_Facts.thy ===== *)
theory Omni_Paxos_Facts
  imports Omni_Paxos Replica_Behaviour
begin

text \<open>
  Facts on a whole server: building it from a validated configuration, the hand-over of an election
  result to the replica, and the outgoing messages.
\<close>

section \<open>Building a server\<close>

lemma build_invalid:
  "omni_paxos_config_validate config = Inl e \<Longrightarrow> omni_paxos_build S config s = Some (Inl e)"
  by (simp add: omni_paxos_build_def)

lemma server_config_validate_pid: "server_config_validate sc = Inr () \<Longrightarrow> 1 \<le> sc_pid sc"
  by (auto simp: server_config_validate_def valid_config_def split: if_split_asm)

lemma ble_with_total: "\<exists>ble. ble_with config rl = Some ble"
proof -
  have "checked_inc (0 :: u32) = Some 1" by (simp add: checked_inc_def)
  then show ?thesis by (auto simp: ble_with_def Let_def new_hb_round_def split: option.splits)
qed

text \<open>The quorum both components compute is the one of the cluster.\<close>

lemma component_quorums:
  assumes "distinct (cc_nodes (cluster_config_of config))"
    and "sc_pid (server_config_of config) \<in> set (cc_nodes (cluster_config_of config))"
  shows "quorum_with (spc_flexible_quorum (sequence_paxos_config_from config))
      (length (spc_peers (sequence_paxos_config_from config)) + 1) = cluster_quorum (cluster_config_of config)"
    and "quorum_with (blec_flexible_quorum (ble_config_from config))
      (length (blec_peers (ble_config_from config)) + 1) = cluster_quorum (cluster_config_of config)"
  using quorum_of_peers [OF assms]
  by (simp_all add: cluster_quorum_def sequence_paxos_config_from_def ble_config_from_def Let_def)

lemma peers_nonempty:
  assumes "distinct nodes" "1 < length nodes"
  shows "filter (\<lambda>x. x \<noteq> pid) nodes \<noteq> []"
proof
  assume "filter (\<lambda>x. x \<noteq> pid) nodes = []"
  then have "set nodes \<subseteq> {pid}" by (auto simp: filter_empty_conv)
  then have "card (set nodes) \<le> 1" by (metis card.empty card.insert card_mono empty_iff finite.emptyI finite_insert One_nat_def)
  with assms show False by (simp add: distinct_card)
qed

context storage_contract
begin

lemma sequence_paxos_with_total:
  assumes "sinv s" "spc_peers config \<noteq> []"
  shows "\<exists>sp. sequence_paxos_with S config s = Some sp"
proof -
  obtain mx where "max_last id (spc_peers config) = Some mx"
    using assms(2) by (cases "max_last id (spc_peers config)") auto
  moreover obtain st where st: "internal_storage_with S s (spc_batch_size config) = Some st" "is_storage st = s"
    using load_cache_does [of "\<lparr>is_storage = s, is_cache = state_cache_new (spc_batch_size config)\<rparr>"] assms(1)
    by (auto simp: internal_storage_with_def)
  moreover obtain st1 where "is_set_promise S (ballot_or_default (v_promise (view s))) st = Some (Inr (), st1)"
    using is_set_promise_does [of st] assms(1) st(2) by (force simp: is_does_def)
  ultimately show ?thesis
    using get_promise_ok [OF assms(1)]
    by (auto simp: sequence_paxos_with_def Let_def ballot_or_default_def split: option.splits)
qed

end

lemma mem_build_total:
  assumes valid: "omni_paxos_config_validate config = Inr ()" and nodes: "distinct (cc_nodes (cluster_config_of config))"
    and ok: "store_ok memory_inv memory_view s"
  shows "\<exists>om. omni_paxos_build memory_impl config s = Some (Inr om) \<and>
    sp_inv (op_seq_paxos om) \<and> is_wf memory_inv memory_view (sp_internal_storage (op_seq_paxos om)) \<and>
    round_ok (sp_internal_storage (op_seq_paxos om)) \<and> ble_wf (op_ble om) \<and>
    sp_pid (op_seq_paxos om) = sc_pid (server_config_of config) \<and> ble_pid (op_ble om) = sc_pid (server_config_of config) \<and>
    ls_quorum (sp_leader_state (op_seq_paxos om)) = cluster_quorum (cluster_config_of config) \<and>
    ble_quorum (op_ble om) = cluster_quorum (cluster_config_of config)"
proof -
  let ?spc = "sequence_paxos_config_from config"
  have v: "cluster_config_validate (cluster_config_of config) = Inr ()"
    "server_config_validate (server_config_of config) = Inr ()"
    "sc_pid (server_config_of config) \<in> set (cc_nodes (cluster_config_of config))"
    using valid by (auto simp: omni_paxos_config_validate_ok)
  have s: "memory_inv s" by (simp add: memory_inv_def)
  have pid: "1 \<le> spc_pid ?spc" using server_config_validate_pid [OF v(2)]
    by (simp add: sequence_paxos_config_from_def Let_def)
  have "spc_peers ?spc \<noteq> []"
    using peers_nonempty [OF nodes] v(1) by (simp add: sequence_paxos_config_from_def Let_def cluster_config_validate_ok)
  from mem.sequence_paxos_with_total [OF s this]
  obtain sp where sp: "sequence_paxos_with memory_impl ?spc s = Some sp" by blast
  obtain ble where ble: "ble_with (ble_config_from config) (ms_n_prom s) = Some ble"
    using ble_with_total by blast
  have "st_get_promise memory_impl s = Some (Inr (ms_n_prom s))" by (simp add: memory_impl_def ms_get_promise_def)
  then have "\<exists>om. omni_paxos_build memory_impl config s = Some (Inr om) \<and> op_seq_paxos om = sp \<and> op_ble om = ble"
    using valid sp ble by (simp add: omni_paxos_build_def)
  then show ?thesis
    using mem.sequence_paxos_with_start [OF ok sp pid] ble_with_wf [OF ble] component_quorums [OF nodes v(3)]
    by (auto simp: sequence_paxos_config_from_def ble_config_from_def Let_def)
qed

text \<open>Validation does not look at the identifiers: with no other server the constructor panics.\<close>

lemma build_no_peer:
  assumes "omni_paxos_config_validate config = Inr ()"
    and "set (cc_nodes (cluster_config_of config)) = {sc_pid (server_config_of config)}"
  shows "omni_paxos_build S config s = None"
proof -
  have "filter (\<lambda>x. x \<noteq> sc_pid (server_config_of config)) (cc_nodes (cluster_config_of config)) = []"
    using assms(2) by (auto simp: filter_empty_conv)
  then have "sequence_paxos_with S (sequence_paxos_config_from config) s = None"
    by (simp add: sequence_paxos_with_def sequence_paxos_config_from_def Let_def)
  then show ?thesis using assms(1) by (auto simp: omni_paxos_build_def split: Option.bind_splits)
qed

section \<open>Election\<close>

lemma hb_timeout_result:
  assumes "hb_timeout st p ble = Some (Some b, ble')" "ble_wf ble"
  shows "b = current_ballot ble'" "b = ble_leader ble'" "b_pid b = ble_pid ble" "ballot_le p b"
    "ballot_le (ble_leader ble) b"
proof -
  have r: "ble_leader ble' = current_ballot ble'" "b = current_ballot ble'"
    using assms(1) by (auto elim!: hb_timeoutE split: if_split_asm)
  note f = hb_timeout_frame [OF assms(1)]
  show "b = current_ballot ble'" "b = ble_leader ble'" using r by simp_all
  show "b_pid b = ble_pid ble" using f(1,7) r assms(2) by (simp add: ble_wf_def ble_same_node_def)
  show "ballot_le p b" "ballot_le (ble_leader ble) b" using f(2,3) r by simp_all
qed

text \<open>The election component and the replica of one server.\<close>

definition server_ok :: "('s, 't, 'p) omni_paxos \<Rightarrow> bool" where
  "server_ok om \<longleftrightarrow> sp_inv (op_seq_paxos om) \<and> ble_wf (op_ble om) \<and> ble_pid (op_ble om) = sp_pid (op_seq_paxos om)"

lemma election_timeoutE:
  assumes "election_timeout S om = Some om'"
  obtains r ble where
    "hb_timeout (sp_state (op_seq_paxos om)) (sp_get_promise (op_seq_paxos om)) (op_ble om) = Some (r, ble)"
    "op_ble om' = ble"
    "(case r of None \<Rightarrow> op_seq_paxos om' = op_seq_paxos om
      | Some b \<Rightarrow> handle_leader S b (op_seq_paxos om) = Some (op_seq_paxos om'))"
  using assms by (auto simp: election_timeout_def Let_def split: Option.bind_split_asm option.split_asm)

lemma election_timeout_ok:
  assumes "election_timeout S om = Some om'" "server_ok om"
  shows "server_ok om'"
    and "op_seq_paxos om' = op_seq_paxos om \<or>
      (sp_state (op_seq_paxos om') = (Leader, PhasePrepare) \<and>
       sp_get_promise (op_seq_paxos om') = current_ballot (op_ble om') \<and>
       ballot_lt (sp_get_promise (op_seq_paxos om)) (sp_get_promise (op_seq_paxos om')))"
proof -
  obtain r ble where hb: "hb_timeout (sp_state (op_seq_paxos om)) (sp_get_promise (op_seq_paxos om)) (op_ble om) = Some (r, ble)"
    and ble: "op_ble om' = ble"
    and sp: "case r of None \<Rightarrow> op_seq_paxos om' = op_seq_paxos om
      | Some b \<Rightarrow> handle_leader S b (op_seq_paxos om) = Some (op_seq_paxos om')"
    using assms(1) by (rule election_timeoutE)
  note f = hb_timeout_frame [OF hb]
  have wf: "ble_wf ble" using ble_step_wf [OF ble_timeout_step [OF hb]] assms(2) by (simp add: server_ok_def)
  have sp': "op_seq_paxos om' = op_seq_paxos om \<or>
      (sp_state (op_seq_paxos om') = (Leader, PhasePrepare) \<and> sp_inv (op_seq_paxos om') \<and>
       sp_pid (op_seq_paxos om') = sp_pid (op_seq_paxos om) \<and>
       sp_get_promise (op_seq_paxos om') = current_ballot (op_ble om') \<and>
       ballot_lt (sp_get_promise (op_seq_paxos om)) (sp_get_promise (op_seq_paxos om')))"
  proof (cases r)
    case None
    with sp show ?thesis by simp
  next
    case (Some b)
    with sp have h: "handle_leader S b (op_seq_paxos om) = Some (op_seq_paxos om')" by simp
    note res = hb_timeout_result [OF hb [unfolded Some]]
    have own: "b_pid b = sp_pid (op_seq_paxos om)" using res(3) assms(2) by (simp add: server_ok_def)
    show ?thesis
    proof (cases "ballot_le b (n_leader (sp_leader_state (op_seq_paxos om))) \<or> ballot_le b (sp_get_promise (op_seq_paxos om))")
      case True
      with h show ?thesis by (simp add: handle_leader_def)
    next
      case False
      then have "ballot_lt (n_leader (sp_leader_state (op_seq_paxos om))) b" "ballot_lt (sp_get_promise (op_seq_paxos om)) b"
        by (simp_all add: not_ballot_le)
      note new = this handle_leader_new(1,3,4) [OF h this own]
      have "sp_inv (op_seq_paxos om')"
        using sp_step_inv [OF step_leader [OF h]] assms(2) by (simp add: server_ok_def)
      then show ?thesis using new res(1) assms(2) ble by (simp add: server_ok_def)
    qed
  qed
  then show "op_seq_paxos om' = op_seq_paxos om \<or>
      (sp_state (op_seq_paxos om') = (Leader, PhasePrepare) \<and>
       sp_get_promise (op_seq_paxos om') = current_ballot (op_ble om') \<and>
       ballot_lt (sp_get_promise (op_seq_paxos om)) (sp_get_promise (op_seq_paxos om')))" by blast
  show "server_ok om'"
    using sp' assms(2) wf f(1) ble by (auto simp: server_ok_def ble_same_node_def)
qed

section \<open>Outgoing messages\<close>

lemma take_outgoing_messages_eq:
  assumes "take_outgoing_messages buffer om = (out, om')"
  shows "out = buffer @ sp_outgoing (op_seq_paxos om) @ map BLEMsg (ble_outgoing (op_ble om))"
    and "sp_outgoing (op_seq_paxos om') = []" "ble_outgoing (op_ble om') = []"
  using assms
  by (auto simp: take_outgoing_messages_def take_outgoing_msgs_def drain_ble_outgoing_def Let_def split: if_split_asm)

section \<open>Taking the lead on request\<close>

lemma try_become_leader_round:
  assumes ok: "server_ok om" and run: "try_become_leader S om = Some om'"
  shows "server_ok om' \<and> sp_state (op_seq_paxos om') = (Leader, PhasePrepare) \<and>
    b_pid (sp_get_promise (op_seq_paxos om')) = sp_pid (op_seq_paxos om) \<and>
    b_n (sp_get_promise (op_seq_paxos om')) = b_n (sp_get_promise (op_seq_paxos om)) + 1 \<and>
    ballot_lt (sp_get_promise (op_seq_paxos om)) (sp_get_promise (op_seq_paxos om'))"
proof -
  let ?p = "sp_get_promise (op_seq_paxos om)"
  let ?b = "(current_ballot (op_ble om))\<lparr>b_n := b_n ?p + 1\<rparr>"
  from run obtain sp where inc: "checked_inc (b_n ?p) = Some (b_n ?p + 1)"
    and h: "handle_leader S ?b (op_seq_paxos om) = Some sp" and om': "om' = om\<lparr>op_seq_paxos := sp\<rparr>"
    by (auto simp: try_become_leader_def get_current_ballot_def checked_inc_eq_Some bind_eq_Some_conv)
  have inv: "sp_inv (op_seq_paxos om)" "ble_wf (op_ble om)" "ble_pid (op_ble om) = sp_pid (op_seq_paxos om)"
    using ok by (simp_all add: server_ok_def)
  have lt: "ballot_lt ?p ?b"
    using checked_inc_greater [OF inc] by (intro ballot_lt_n) simp
  have pid: "b_pid ?b = sp_pid (op_seq_paxos om)" using inv(2,3) by (simp add: ble_wf_def)
  have "ballot_le (n_leader (sp_leader_state (op_seq_paxos om))) ?p" using inv(1) by (simp add: sp_inv_def)
  then have nl: "ballot_lt (n_leader (sp_leader_state (op_seq_paxos om))) ?b" using lt by (rule ballot_le_lt_trans)
  note new = handle_leader_new [OF h nl lt pid]
  have "sp_inv sp" using sp_step_inv [OF step_leader [OF h]] inv(1) by blast
  with new lt pid inv show ?thesis by (simp add: om' server_ok_def)
qed

section \<open>Reading what is decided\<close>

text \<open>Reading the decided suffix returns exactly the positions from the start up to the decided index,
  and never an entry marked undecided.\<close>

lemma decided_suffix_is_decided:
  assumes sc: "storage_contract S sinv view" and wf: "is_wf sinv view (sp_internal_storage (op_seq_paxos om))"
    and a: "a < omni_get_decided_idx om"
  shows "\<exists>es. read_decided_suffix S a om = Some (Some es) \<and>
    es = read_view (view (is_storage (sp_internal_storage (op_seq_paxos om)))) a (omni_get_decided_idx om) \<and>
    (\<forall>e \<in> set es. shows_decided e)"
proof -
  let ?st = "sp_internal_storage (op_seq_paxos om)"
  have d: "omni_get_decided_idx om = is_get_decided_idx ?st"
    by (simp add: omni_get_decided_idx_def sp_get_decided_idx_def)
  have c: "cache_matches (view (is_storage ?st)) (is_cache ?st)" "indexes_ordered (is_cache ?st)"
    using wf by (simp_all add: is_wf_def is_coherent_def)
  have m: "is_get_decided_idx ?st = v_decided_idx (view (is_storage ?st))"
    using c(1) by (simp add: cache_matches_def is_get_decided_idx_def)
  have le: "v_decided_idx (view (is_storage ?st)) \<le> view_accepted_idx (view (is_storage ?st))"
    using c(2) cache_matches_accepted [OF c(1)] by (simp add: indexes_ordered_def m [symmetric] is_get_decided_idx_def)
  have "a < is_get_decided_idx ?st" using a d by simp
  from storage_contract.read_decided_suffix_eq [OF sc wf this]
  have "read_decided_suffix S a om =
      Some (Some (read_view (view (is_storage ?st)) a (omni_get_decided_idx om)))"
    by (simp add: read_decided_suffix_def d)
  moreover have "\<forall>e \<in> set (read_view (view (is_storage ?st)) a (omni_get_decided_idx om)). shows_decided e"
    using read_view_decided [OF le] by (simp add: d m)
  ultimately show ?thesis by blast
qed

end
