(* ===== verification/KV_Store.thy ===== *)
theory KV_Store
  imports Storage
begin

text \<open>
  The snapshot type of the key-value example (\<^verbatim>\<open>examples/kv_store/src/kv.rs\<close>) and its proof against
  the snapshot laws. A \<^verbatim>\<open>HashMap\<close> is a map; the keys of a map are distinct, so the unspecified
  iteration order of \<^verbatim>\<open>merge\<close> does not matter and the loop is the override of one map by the other.
\<close>

record key_value =
  kv_key :: string
  kv_value :: u64

type_synonym kv_snapshot = "string \<rightharpoonup> u64"

definition kv_insert :: "key_value \<Rightarrow> kv_snapshot \<Rightarrow> kv_snapshot" where
  "kv_insert e snapshotted = snapshotted(kv_key e \<mapsto> kv_value e)"

definition kv_create :: "key_value list \<Rightarrow> kv_snapshot" where
  "kv_create entries = fold kv_insert entries Map.empty"

definition kv_merge :: "kv_snapshot \<Rightarrow> kv_snapshot \<Rightarrow> kv_snapshot" where
  "kv_merge self delta = self ++ delta"

definition kv_impl :: "(key_value, kv_snapshot) snapshot_impl" where
  "kv_impl = \<lparr>snap_create = (\<lambda>es. Some (kv_create es)), snap_merge = (\<lambda>p q. Some (kv_merge p q)),
              use_snapshots = True\<rparr>"

text \<open>Folding single insertions into a map overrides it by the map of all of them.\<close>

lemma fold_insert_add:
  assumes ins: "\<And>e m. ins e m = m ++ ins e Map.empty"
  shows "fold ins es m = m ++ fold ins es Map.empty"
proof (induction es arbitrary: m)
  case Nil
  show ?case by simp
next
  case (Cons e es)
  have "fold ins (e # es) m = (m ++ ins e Map.empty) ++ fold ins es Map.empty"
    using Cons.IH [of "ins e m"] ins [of e m] by simp
  also have "\<dots> = m ++ (ins e Map.empty ++ fold ins es Map.empty)" by (simp only: map_add_assoc)
  also have "ins e Map.empty ++ fold ins es Map.empty = fold ins (e # es) Map.empty"
    using Cons.IH [of "ins e Map.empty"] by simp
  finally show ?case .
qed

lemma kv_insert_add: "kv_insert e m = m ++ kv_insert e Map.empty"
  by (simp add: kv_insert_def)

lemma kv_create_append: "kv_create (es @ fs) = kv_merge (kv_create es) (kv_create fs)"
  using fold_insert_add [of kv_insert, OF kv_insert_add, of fs "kv_create es"]
  by (simp add: kv_create_def kv_merge_def)

text \<open>The summary answers with the last value written to a key.\<close>

lemma kv_create_lookup: "kv_create es k = map_option kv_value (find (\<lambda>e. kv_key e = k) (rev es))"
  by (induction es rule: rev_induct) (auto simp: kv_create_def kv_insert_def)

interpretation kv: snapshot_laws kv_impl
  by unfold_locales (auto simp: kv_impl_def kv_create_append)

end
