(* ===== verification/Snapshot_History.thy ===== *)
theory Snapshot_History
  imports Storage_Actions KV_Store
begin

text \<open>
  Compaction against the history of the log, for a back-end that meets the storage contract and a
  snapshot type that meets the snapshot laws (\<open>snapshotting\<close>), interpreted on the in-memory back-end
  with the key-value snapshots: the stored snapshot summarises exactly the entries removed from the
  log. The last section shows where this fails: a delta snapshot merged during synchronisation.
\<close>

text \<open>The snapshot of a view summarises the entries \<open>es\<close>, the ones before the compacted index.\<close>

definition summarises :: "('t, 'p) snapshot_impl \<Rightarrow> 't list \<Rightarrow> ('t, 'c, 'p) storage_view \<Rightarrow> bool" where
  "summarises P es v \<longleftrightarrow>
     v_compacted_idx v = length es \<and>
     (case v_snapshot v of None \<Rightarrow> es = [] | Some p \<Rightarrow> snap_create P es = Some p)"

text \<open>The whole history a view stands for, given what its snapshot summarises.\<close>

definition history :: "'t list \<Rightarrow> ('t, 'c, 'p) storage_view \<Rightarrow> 't list" where
  "history es v = es @ v_log v"

locale snapshotting = storage_contract S sinv view + snapshot_laws P
  for S :: "('s, 't, 'c, 'p) storage_impl" and sinv and view and P :: "('t, 'p) snapshot_impl"
begin

lemma create_snapshot_summary:
  assumes wf: "is_wf sinv view st" and sum: "summarises P es (view (is_storage st))"
    and i: "is_get_compacted_idx st \<le> i"
      "i \<le> is_get_compacted_idx st + length (v_log (view (is_storage st)))"
  shows "\<exists>p. create_snapshot S P i st = Some (Inr p) \<and>
    snap_create P (es @ take (i - is_get_compacted_idx st) (v_log (view (is_storage st)))) = Some p"
proof -
  let ?v = "view (is_storage st)"
  let ?fs = "take (i - is_get_compacted_idx st) (v_log ?v)"
  have coh: "is_coherent sinv view st" and m: "cache_matches ?v (is_cache st)"
    using wf by (auto simp: is_wf_def is_coherent_def)
  have fs: "view_entries ?v (c_compacted_idx (is_cache st)) i = ?fs"
    using i m by (auto simp: view_entries_def cache_matches_def is_get_defs)
  obtain q where q: "snap_create P ?fs = Some q" using create_total by blast
  have eq: "create_snapshot S P i st = (case v_snapshot ?v of
      Some s \<Rightarrow> do { m \<leftarrow> snap_merge P s q; Some (Inr m) } | None \<Rightarrow> Some (Inr q))"
    using create_snapshot_does [OF coh, of i P] i(1) fs q by (simp add: is_get_defs split: option.splits)
  show ?thesis
  proof (cases "v_snapshot ?v")
    case None
    with sum eq q show ?thesis by (simp add: summarises_def)
  next
    case (Some s)
    with sum have "snap_create P es = Some s" by (simp add: summarises_def)
    from merge_create_ok [OF this q] Some eq show ?thesis by auto
  qed
qed

text \<open>Snapshotting succeeds at every decided index and keeps the history.\<close>

lemma try_snapshot_history:
  assumes wf: "is_wf sinv view st" and sum: "summarises P es (view (is_storage st))"
    and idx: "\<And>i. oidx = Some i \<Longrightarrow> i \<le> is_get_decided_idx st"
  shows "\<exists>st' es'. try_snapshot S P oidx st = Some (Inr (), st') \<and> is_wf sinv view st' \<and>
    summarises P es' (view (is_storage st')) \<and>
    history es' (view (is_storage st')) = history es (view (is_storage st)) \<and>
    is_get_compacted_idx st' = max (is_get_compacted_idx st)
      (case oidx of None \<Rightarrow> decided_without_stopsign (is_cache st) | Some j \<Rightarrow> compaction_target j (is_cache st))"
proof -
  let ?v = "view (is_storage st)"
  define i where "i = (case oidx of None \<Rightarrow> decided_without_stopsign (is_cache st)
                | Some j \<Rightarrow> compaction_target j (is_cache st))"
  have m: "cache_matches ?v (is_cache st)" and o: "indexes_ordered (is_cache st)"
    using wf by (auto simp: is_wf_def is_coherent_def)
  have idx': "\<And>i. oidx = Some i \<Longrightarrow> i \<le> c_decided_idx (is_cache st)"
    using idx by (simp add: is_get_decided_idx_def)
  have iv: "i \<le> v_compacted_idx ?v + length (v_log ?v)"
    using compaction_target_bounds [OF m o] decided_without_stopsign_bounds [OF m o]
    by (auto simp: i_def split: option.splits)
  show ?thesis
  proof (cases "is_get_compacted_idx st < i")
    case False
    then have "try_snapshot S P oidx st = Some (Inr (), st)"
      using idx' get_decided_idx_without_stopsign_eq [OF m o]
      by (auto simp: try_snapshot_def i_def is_get_decided_idx_def is_get_compacted_idx_def cmp_def
          compaction_target_def Let_def split: option.splits if_splits)
    with False wf sum show ?thesis by (auto simp: i_def max_def)
  next
    case True
    obtain p where p: "create_snapshot S P i st = Some (Inr p)"
      and sp: "snap_create P (es @ take (i - is_get_compacted_idx st) (v_log ?v)) = Some p"
      using create_snapshot_summary [OF wf sum, of i] True iv m by (auto simp: cache_matches_def is_get_defs)
    have new: "c_compacted_idx (is_cache st) < i" using True by (simp add: is_get_compacted_idx_def)
    from try_snapshot_does [OF wf idx' i_def new p] obtain st' where
      run: "try_snapshot S P oidx st = Some (Inr (), st')"
      and st': "view (is_storage st') = ?v\<lparr>v_log := drop (i - c_compacted_idx (is_cache st)) (v_log ?v), v_trimmed := i,
               v_compacted_idx := i, v_snapshot := Some p\<rparr>"
        "is_cache st' = (is_cache st)\<lparr>c_compacted_idx := i\<rparr>"
      by (auto simp: is_does_def)
    let ?es = "es @ take (i - is_get_compacted_idx st) (v_log ?v)"
    have "is_wf sinv view st'" using try_snapshot_wf [OF wf run] .
    moreover have "summarises P ?es (view (is_storage st'))"
      using sp sum m iv True by (auto simp: summarises_def st' cache_matches_def is_get_defs min_def)
    moreover have "history ?es (view (is_storage st')) = history es ?v"
      by (simp add: history_def st' is_get_compacted_idx_def)
    moreover have "is_get_compacted_idx st' = max (is_get_compacted_idx st) i"
      using True by (simp add: st' is_get_compacted_idx_def)
    ultimately show ?thesis using run unfolding i_def by blast
  qed
qed

end

interpretation mem_kv: snapshotting memory_impl memory_inv memory_view kv_impl ..

section \<open>A delta snapshot\<close>

text \<open>
  During synchronisation the receiver first overwrites its decided index and then snapshots its own
  decided log up to that index. When the new index lies beyond the end of its log, the back-end
  answers with no entries at all, and the entries the receiver had decided itself are in neither
  part of the merged snapshot.
\<close>

lemma delta_sync_forgets:
  assumes coh: "is_coherent memory_inv memory_view st"
    and none: "v_snapshot (memory_view (is_storage st)) = None" "is_get_stopsign st = None"
    and beyond: "is_get_accepted_idx st < d"
    and sync: "decided_snapshot sync = Some (Delta q)" "is_get_compacted_idx st \<le> sync_idx sync"
  shows "\<exists>i st'. sync_log memory_impl kv_impl r d (Some sync) st = Some (Inr i, st') \<and>
    v_snapshot (memory_view (is_storage st')) = Some q \<and> is_get_compacted_idx st' = sync_idx sync"
proof -
  let ?st = "upd_cache (\<lambda>c. c\<lparr>c_accepted_round := r, c_decided_idx := d\<rparr>) st"
  have m: "cache_matches (memory_view (is_storage st)) (is_cache st)" using coh by (simp add: is_coherent_def)
  have "get_decided_idx_without_stopsign ?st = Some d"
    using none by (simp add: get_decided_idx_without_stopsign_def is_get_defs)
  moreover have "st_get_entries memory_impl (c_compacted_idx (is_cache st)) d (is_storage st) = Some (Inr [])"
    using m none beyond
    by (subst mem.get_entries_ok) (auto simp: memory_inv_def cache_matches_def is_get_defs view_entries_def)
  ultimately have "create_decided_snapshot memory_impl kv_impl ?st = Some (Inr (kv_create []))"
    using m none beyond
    by (auto simp: create_decided_snapshot_def create_snapshot_def is_get_defs kv_impl_def cache_matches_def
        mem.get_snapshot_ok memory_inv_def)
  moreover have "snap_merge kv_impl (kv_create []) q = Some q"
    by (simp add: kv_impl_def kv_merge_def kv_create_def)
  moreover have "sync_applicable sync (memory_view (is_storage st))"
    using sync m by (simp add: sync_applicable_def cache_matches_def is_get_defs)
  ultimately have "is_does memory_inv memory_view (sync_log memory_impl kv_impl r d (Some sync) st)
      (c_accepted_idx (synced_cache r d sync (is_cache st)))
      (synced_view r d sync (Some q) (memory_view (is_storage st))) (synced_cache r d sync (is_cache st))"
    using sync(1) by (intro mem.sync_log_delta [OF coh])
  then show ?thesis
    by (auto simp: is_does_def synced_view_def synced_cache_def is_get_defs sync)
qed

end
