(* ===== verification/Demo.thy ===== *)
theory Demo
  imports Omni_Paxos_Facts Snapshot_History
begin

text \<open>
  A small cluster for concrete instances: three servers with the in-memory back-end and the
  key-value snapshots, the replica of server 1 after its start, and the same replica after it has
  taken the lead of a first round.
\<close>

type_synonym demo_store = "(key_value, cluster_config, kv_snapshot) memory_storage"
type_synonym demo_sp = "(demo_store, key_value, cluster_config, kv_snapshot) sequence_paxos"

definition demo_cluster :: cluster_config where
  "demo_cluster = \<lparr>cc_configuration_id = 1, cc_nodes = [1, 2, 3], cc_flexible_quorum = None\<rparr>"

definition demo_config :: omni_paxos_config where
  "demo_config = \<lparr>cluster_config_of = demo_cluster, server_config_of = server_config_default\<lparr>sc_pid := 1\<rparr>\<rparr>"

definition demo_spc :: sequence_paxos_config where
  "demo_spc = sequence_paxos_config_from demo_config"

definition demo_ballot :: ballot where
  "demo_ballot = ballot_with 1 1 0 1"

definition demo_kv :: key_value where
  "demo_kv = \<lparr>kv_key = ''x'', kv_value = 7\<rparr>"

definition demo_replica :: demo_sp where
  "demo_replica = the (sequence_paxos_with memory_impl demo_spc memory_storage_default)"

definition demo_leader :: demo_sp where
  "demo_leader = the (handle_leader memory_impl demo_ballot demo_replica)"

text \<open>The promise of server 2, which completes the quorum of the round.\<close>

definition demo_promise :: "(key_value, cluster_config, kv_snapshot) paxos_message" where
  "demo_promise = \<lparr>pm_from = 2, pm_to = 1, pm_msg = Promise \<lparr>prom_n = demo_ballot,
     prom_n_accepted = ballot_default, prom_decided_idx = 0, prom_accepted_idx = 0, prom_log_sync = None\<rparr>\<rparr>"

definition demo_accepting :: demo_sp where
  "demo_accepting = the (sp_handle memory_impl kv_impl demo_promise demo_leader)"

definition demo_appended :: demo_sp where
  "demo_appended = snd (the (sp_append memory_impl demo_kv demo_accepting))"

definition demo_accepted :: "(key_value, cluster_config, kv_snapshot) paxos_message" where
  "demo_accepted = \<lparr>pm_from = 2, pm_to = 1, pm_msg = Accepted \<lparr>acc_n = demo_ballot, acc_accepted_idx = 1\<rparr>\<rparr>"

definition demo_decided :: demo_sp where
  "demo_decided = the (sp_handle memory_impl kv_impl demo_accepted demo_appended)"

definition demo_ble :: ballot_leader_election where
  "demo_ble = the (ble_with (ble_config_from demo_config) None)"

definition demo_om :: "(demo_store, key_value, kv_snapshot) omni_paxos" where
  "demo_om = \<lparr>op_seq_paxos = demo_replica, op_ble = demo_ble, op_election_clock = logical_clock_with 1,
     op_resend_message_clock = logical_clock_with 100, op_flush_batch_clock = logical_clock_with 200\<rparr>"

text \<open>The empty store of a server that joins.\<close>

definition demo_empty :: "(demo_store, key_value, cluster_config) internal_storage" where
  "demo_empty = \<lparr>is_storage = memory_storage_default, is_cache = state_cache_new 1\<rparr>"

section \<open>Evaluation\<close>

lemmas demo_defs = demo_cluster_def demo_config_def demo_spc_def demo_ballot_def demo_kv_def demo_promise_def
  demo_accepted_def sequence_paxos_config_from_def server_config_default_def ballot_with_def ballot_default_def
  sequence_number_default_def BUFFER_SIZE_def ELECTION_TIMEOUT_def RESEND_MESSAGE_TIMEOUT_def FLUSH_BATCH_TIMEOUT_def
  memory_storage_default_def promise_meta_default_def

lemmas storage_eval = memory_impl_def ms_write_defs ms_read_defs ms_get_entries_def ms_get_suffix_def
  vec_range_def checked_sub_def on_storage_def internal_storage_with_def load_cache_def state_cache_new_def
  is_get_defs flush_batch_def take_batched_entries_def append_entries_without_batching_def is_set_promise_def
  is_set_decided_idx_def append_entry_with_batching_def cache_append_entry_def take_entries_if_batch_is_full_def
  flush_if_full_batch_def sync_log_def get_decided_idx_without_stopsign_def is_get_suffix_def

lemmas replica_eval = sequence_paxos_with_def quorum_with_def leader_state_with_def handle_leader_def 
  sp_get_promise_def set_promise_def pid_to_idx_def vec_set_def vec_get_def num_promised_def push_to_peers_eq
  promise_meta_gt_def promise_meta_partial_cmp_def ballot_lt_def ballot_le_def ballot_cmp_def ballot_key_def cmp_def
  less_prod_def less_eq_prod_def sp_handle_def handle_promise_prepare_def handle_majority_promises_def take_max_promise_sync_def
  get_max_decided_idx_def append_buffered_def append_buffered_proposals_def append_buffered_stopsign_def
  accepted_reconfiguration_def set_accepted_idx_def get_promised_followers_def send_accsync_def get_max_promise_meta_def
  get_promise_meta_def get_follower_decided_idx_def create_log_sync_def increment_seq_num_session_def next_seq_num_def
  checked_inc_def push_msg_def sp_append_def propose_entry_def accept_entry_leader_def
  after_leader_append_def send_acceptdecide_def send_acceptdecide_to_def get_latest_accdec_message_def
  get_latest_accept_meta_def set_latest_accept_meta_def handle_accepted_def is_chosen_def announce_decided_def
  set_outgoing_msg_def msg_fits_def sync_fits_def sp_get_decided_idx_def List.map_filter_def kv_impl_def

lemma replicate_3: "replicate 3 x = [x, x, x]"
  by (simp add: numeral_3_eq_3)

lemmas demo_eval = demo_defs storage_eval replica_eval replicate_3 Let_def

lemma demo_replica_eq: "demo_replica = \<lparr>sp_internal_storage =
      \<lparr>is_storage = memory_storage_default\<lparr>ms_n_prom := Some ballot_default\<rparr>, is_cache = state_cache_new 1\<rparr>,
    sp_pid = 1, sp_peers = [2, 3], sp_state = (Follower, PhaseNone), sp_buffered_proposals = [],
    sp_buffered_stopsign = None, sp_outgoing = [], sp_leader_state = leader_state_with ballot_default 3 (Majority 2),
    sp_latest_accepted_meta = None, sp_current_seq_num = sequence_number_default, sp_cached_promise_message = None\<rparr>"
  by (simp add: demo_replica_def demo_eval)


text \<open>A run of server 1: start, election, promise of server 2, an entry, its acceptance.\<close>

lemma demo_start: "sequence_paxos_with memory_impl demo_spc memory_storage_default = Some demo_replica"
  by (simp add: demo_replica_eq demo_eval)

lemma demo_elect: "handle_leader memory_impl demo_ballot demo_replica = Some demo_leader"
  by (simp add: demo_leader_def demo_replica_eq demo_eval)

lemma demo_leader_eq: "demo_leader = \<lparr>sp_internal_storage =
      \<lparr>is_storage = memory_storage_default\<lparr>ms_n_prom := Some demo_ballot\<rparr>,
       is_cache = (state_cache_new 1)\<lparr>c_promise := demo_ballot\<rparr>\<rparr>,
    sp_pid = 1, sp_peers = [2, 3], sp_state = (Leader, PhasePrepare), sp_buffered_proposals = [],
    sp_buffered_stopsign = None,
    sp_outgoing = map (\<lambda>p. paxos_envelope 1 p (Prepare \<lparr>prep_n = demo_ballot, prep_decided_idx = 0,
      prep_n_accepted = ballot_default, prep_accepted_idx = 0\<rparr>)) [2, 3],
    sp_leader_state = (leader_state_with demo_ballot 3 (Majority 2))\<lparr>promises_meta :=
      [Promised \<lparr>pmd_n_accepted = ballot_default, pmd_accepted_idx = 0, pmd_decided_idx = 0, pmd_pid = 1\<rparr>,
       NotPromised, NotPromised]\<rparr>,
    sp_latest_accepted_meta = None, sp_current_seq_num = sequence_number_default, sp_cached_promise_message = None\<rparr>"
  by (simp add: demo_leader_def demo_replica_eq demo_eval)

lemma demo_promised: "sp_handle memory_impl kv_impl demo_promise demo_leader = Some demo_accepting"
  by (simp add: demo_accepting_def demo_leader_eq demo_eval)

lemma demo_append: "sp_append memory_impl demo_kv demo_accepting = Some (Inr (), demo_appended)"
  by (simp add: demo_appended_def demo_accepting_def demo_leader_eq demo_eval)

lemma demo_decide: "sp_handle memory_impl kv_impl demo_accepted demo_appended = Some demo_decided"
  by (simp add: demo_decided_def demo_appended_def demo_accepting_def demo_leader_eq demo_eval)

lemma demo_appended_storage: "sp_internal_storage demo_appended =
    \<lparr>is_storage = memory_storage_default\<lparr>ms_log := [demo_kv], ms_n_prom := Some demo_ballot, ms_acc_round := Some demo_ballot\<rparr>,
     is_cache = (state_cache_new 1)\<lparr>c_promise := demo_ballot, c_accepted_round := demo_ballot, c_accepted_idx := 1\<rparr>\<rparr>"
  by (simp add: demo_appended_def demo_accepting_def demo_leader_eq demo_eval)

lemma demo_decided_storage: "sp_internal_storage demo_decided =
    \<lparr>is_storage = memory_storage_default\<lparr>ms_log := [demo_kv], ms_n_prom := Some demo_ballot, ms_acc_round := Some demo_ballot,
       ms_ld := 1\<rparr>,
     is_cache = (state_cache_new 1)\<lparr>c_promise := demo_ballot, c_accepted_round := demo_ballot, c_decided_idx := 1,
       c_accepted_idx := 1\<rparr>\<rparr>"
  by (simp add: demo_decided_def demo_appended_def demo_accepting_def demo_leader_eq demo_eval)

lemma demo_steps:
  "sp_step memory_impl kv_impl True demo_replica demo_leader"
  "sp_step memory_impl kv_impl True demo_leader demo_accepting"
  "sp_step memory_impl kv_impl True demo_accepting demo_appended"
  "sp_step memory_impl kv_impl True demo_appended demo_decided"
proof -
  show "sp_step memory_impl kv_impl True demo_replica demo_leader"
    by (rule step_leader [OF demo_elect])
  show "sp_step memory_impl kv_impl True demo_leader demo_accepting"
    by (rule step_handle [OF _ demo_promised]) (simp add: demo_leader_eq demo_eval)
  show "sp_step memory_impl kv_impl True demo_accepting demo_appended"
    by (rule step_append [OF demo_append])
  show "sp_step memory_impl kv_impl True demo_appended demo_decided"
    by (rule step_handle [OF _ demo_decide]) (simp add: demo_appended_storage demo_eval)
qed

lemma demo_life_to_leader: "(life_step memory_impl kv_impl demo_spc)\<^sup>*\<^sup>* demo_replica demo_leader"
  using life_run [OF demo_steps(1)] by blast

lemma demo_life: "(life_step memory_impl kv_impl demo_spc)\<^sup>*\<^sup>* demo_replica demo_decided"
  using demo_life_to_leader life_run [OF demo_steps(2)] life_run [OF demo_steps(3)] life_run [OF demo_steps(4)]
  by (meson rtranclp.rtrancl_into_rtrancl)

lemma demo_ble_eq: "demo_ble = \<lparr>ble_configuration_id = 1, ble_pid = 1, ble_peers = [2, 3], hb_round = 1,
    heartbeat_replies = [], prev_replies = [], current_ballot = demo_ballot, ble_leader = demo_ballot,
    ble_happy = True, ble_quorum = Majority 2,
    ble_outgoing = map (\<lambda>p. \<lparr>bm_from = 1, bm_to = p, bm_msg = Request \<lparr>hbq_round = 1\<rparr>\<rparr>) [2, 3]\<rparr>"
  by (simp add: demo_ble_def ble_with_def ble_config_from_def new_hb_round_def INITIAL_ROUND_def demo_eval)

lemma demo_hb: "\<exists>ble'. hb_timeout (Follower, PhaseNone) ballot_default demo_ble = Some (Some demo_ballot, ble')"
  by (simp add: demo_ble_eq hb_timeout_def update_leader_def update_happiness_def can_form_quorum_def
      check_takeover_def takes_over_def new_hb_round_def adopt_promise_def demo_eval)

lemma demo_empty_wf: "is_wf memory_inv memory_view demo_empty"
  by (simp add: is_wf_def is_coherent_def cache_matches_def indexes_ordered_def demo_empty_def memory_inv_def
      memory_view_def memory_storage_default_def state_cache_new_def ballot_or_default_def)

lemma demo_storage_wf:
  "is_wf memory_inv memory_view (sp_internal_storage demo_appended)"
  "is_wf memory_inv memory_view (sp_internal_storage demo_decided)"
  by (simp_all add: demo_appended_storage demo_decided_storage is_wf_def is_coherent_def cache_matches_def
      indexes_ordered_def memory_inv_def memory_view_def memory_storage_default_def state_cache_new_def
      ballot_or_default_def)

lemma demo_server_ok: "server_ok demo_om"
  using mem.sequence_paxos_with_start(1) [OF memory_default_ok demo_start]
  by (simp add: server_ok_def demo_om_def demo_ble_eq ble_wf_def demo_ballot_def ballot_with_def demo_replica_eq
      demo_spc_def sequence_paxos_config_from_def demo_config_def Let_def)

end
