(* ===== verification/Replication.thy ===== *)
theory Replication
  imports Replica_Behaviour
begin

text \<open>
  The follower's side of replication: what an \<^verbatim>\<open>AcceptDecide\<close> of its round does when it arrives in order.
  The lemma covers the plain and the erasure-coded replica, whose handlers agree.
\<close>

section \<open>Replies\<close>

text \<open>The cached position of the last \<^verbatim>\<open>Accepted\<close> lies in the outgoing buffer.\<close>

definition reply_meta_ok :: "('s, 't, 'c, 'p) sequence_paxos \<Rightarrow> bool" where
  "reply_meta_ok sp \<longleftrightarrow>
     (case sp_latest_accepted_meta sp of None \<Rightarrow> True | Some (b, i) \<Rightarrow> i < length (sp_outgoing sp))"

lemma reply_accepted_total:
  assumes "reply_meta_ok sp"
  shows "\<exists>sp'. reply_accepted n i sp = Some sp' \<and> sp_internal_storage sp' = sp_internal_storage sp \<and>
     sp_current_seq_num sp' = sp_current_seq_num sp"
proof -
  have "get_latest_accepted_message n sp \<noteq> None"
    using assms by (auto simp: reply_meta_ok_def get_latest_accepted_message_def split: option.splits)
  then obtain r where "get_latest_accepted_message n sp = Some r" by blast
  then show ?thesis
    by (auto simp: reply_accepted_def set_outgoing_msg_def push_msg_def split: option.split message.split)
qed

section \<open>Accepting entries in order\<close>

text \<open>The decided index a follower takes over: never beyond what it has accepted, never backwards.\<close>

definition adopt_decided :: "usize \<Rightarrow> usize \<Rightarrow> usize \<Rightarrow> usize" where
  "adopt_decided own accepted new = (if new \<le> own then own else min new accepted)"

context storage_contract
begin

lemma update_decided_total:
  assumes "sinv (is_storage (sp_internal_storage sp))" "c_batched_entries (is_cache (sp_internal_storage sp)) = []"
  shows "\<exists>r st. update_decided_idx_and_get_accepted_idx S d sp = Some (r, upd_storage st sp) \<and> sinv (is_storage st) \<and>
     v_log (vw st) = v_log (vw (sp_internal_storage sp)) \<and>
     is_get_accepted_idx st = is_get_accepted_idx (sp_internal_storage sp) \<and>
     is_get_decided_idx st = adopt_decided (is_get_decided_idx (sp_internal_storage sp))
       (is_get_accepted_idx (sp_internal_storage sp)) d"
proof -
  let ?st = "sp_internal_storage sp"
  let ?acc = "c_accepted_idx (is_cache ?st)"
  consider "d \<le> is_get_decided_idx ?st" | "is_get_decided_idx ?st < d" "?acc < d" | "is_get_decided_idx ?st < d" "d \<le> ?acc"
    by linarith
  then show ?thesis
  proof cases
    case 1
    then have "update_decided_idx_and_get_accepted_idx S d sp = Some (None, upd_storage ?st sp)"
      by (simp add: update_decided_idx_and_get_accepted_idx_def Let_def)
    with 1 assms(1) show ?thesis by (intro exI conjI) (auto simp: adopt_decided_def)
  next
    case 2
    obtain s1 where f: "flush_batch S ?st = Some (Inr ?acc, \<lparr>is_storage = s1, is_cache = is_cache ?st\<rparr>)"
      and s1: "sinv s1" "view s1 = vw ?st"
      using flush_batch_does [OF assms(1)] assms(2) by (auto simp: is_does_def)
    let ?st1 = "\<lparr>is_storage = s1, is_cache = is_cache ?st\<rparr>"
    obtain s2 where "is_set_decided_idx S ?acc ?st1 = Some (Inr (), \<lparr>is_storage = s2, is_cache = (is_cache ?st)\<lparr>c_decided_idx := ?acc\<rparr>\<rparr>)"
      "sinv s2" "view s2 = (vw ?st)\<lparr>v_decided_idx := ?acc\<rparr>"
      using is_set_decided_idx_does [of ?st1 ?acc] s1 by (auto simp: is_does_def)
    then show ?thesis
      using 2 f by (intro exI [of _ "Some ?acc"] exI [of _ "\<lparr>is_storage = s2, is_cache = (is_cache ?st)\<lparr>c_decided_idx := ?acc\<rparr>\<rparr>"])
        (simp add: update_decided_idx_and_get_accepted_idx_def Let_def is_get_accepted_idx_def min_def
          is_get_decided_idx_def adopt_decided_def)
  next
    case 3
    obtain s2 where "is_set_decided_idx S d ?st = Some (Inr (), \<lparr>is_storage = s2, is_cache = (is_cache ?st)\<lparr>c_decided_idx := d\<rparr>\<rparr>)"
      "sinv s2" "view s2 = (vw ?st)\<lparr>v_decided_idx := d\<rparr>"
      using is_set_decided_idx_does [OF assms(1), of d] by (auto simp: is_does_def)
    then show ?thesis
      using 3 by (intro exI [of _ None] exI [of _ "\<lparr>is_storage = s2, is_cache = (is_cache ?st)\<lparr>c_decided_idx := d\<rparr>\<rparr>"])
        (simp add: update_decided_idx_and_get_accepted_idx_def Let_def is_get_accepted_idx_def min_def
          is_get_decided_idx_def adopt_decided_def)
  qed
qed

lemma handle_acceptdecide_in_order:
  assumes sp: "sinv (is_storage (sp_internal_storage sp))" "sp_state sp = (Follower, PhaseAccept)" "reply_meta_ok sp"
    and batch: "c_batch_size (is_cache (sp_internal_storage sp))
      \<le> length (c_batched_entries (is_cache (sp_internal_storage sp)) @ ad_entries a)"
    and msg: "ballot_key (sp_get_promise sp) = ballot_key (ad_n a)"
      "check_msg_status (sp_current_seq_num sp) (ad_seq_num a) = Some Expected"
  shows "\<exists>sp'. handle_acceptdecide S a sp = Some sp' \<and> sinv (is_storage (sp_internal_storage sp')) \<and>
     v_log (vw (sp_internal_storage sp')) = v_log (vw (sp_internal_storage sp)) @
       c_batched_entries (is_cache (sp_internal_storage sp)) @ ad_entries a \<and>
     sp_current_seq_num sp' = ad_seq_num a \<and>
     sp_get_decided_idx sp' = adopt_decided (sp_get_decided_idx sp) (is_get_accepted_idx (sp_internal_storage sp')) (ad_decided_idx a)"
proof -
  let ?st = "sp_internal_storage sp" and ?sp1 = "sp\<lparr>sp_current_seq_num := ad_seq_num a\<rparr>"
  have seq: "handle_sequence_num (ad_seq_num a) (b_pid (ad_n a)) sp = Some (Expected, ?sp1)"
    using msg(2) by (simp add: handle_sequence_num_def)
  from append_entries_and_get_accepted_idx_full [OF sp(1) batch] obtain i st1
    where app: "append_entries_and_get_accepted_idx S (ad_entries a) ?st = Some (Inr (Some i), st1)"
    and st1: "sinv (is_storage st1)" "v_log (vw st1) = v_log (vw ?st) @ c_batched_entries (is_cache ?st) @ ad_entries a"
      "c_batched_entries (is_cache st1) = []" "is_get_decided_idx st1 = is_get_decided_idx ?st"
    by (auto simp: is_does_def is_get_decided_idx_def)
  from update_decided_total [of "upd_storage st1 ?sp1" "ad_decided_idx a"] st1 obtain r st2
    where upd: "update_decided_idx_and_get_accepted_idx S (ad_decided_idx a) (upd_storage st1 ?sp1) = Some (r, upd_storage st2 ?sp1)"
    and st2: "sinv (is_storage st2)" "v_log (vw st2) = v_log (vw st1)"
      "is_get_decided_idx st2 = adopt_decided (is_get_decided_idx ?st) (is_get_accepted_idx st2) (ad_decided_idx a)"
    by auto
  have "reply_meta_ok (upd_storage st2 ?sp1)" using sp(3) by (auto simp: reply_meta_ok_def split: option.splits)
  from reply_accepted_total [OF this, of "ad_n a" "case r of Some j \<Rightarrow> j | None \<Rightarrow> i"] obtain sp'
    where reply: "reply_accepted (ad_n a) (case r of Some j \<Rightarrow> j | None \<Rightarrow> i) (upd_storage st2 ?sp1) = Some sp'"
    and sp': "sp_internal_storage sp' = st2" "sp_current_seq_num sp' = ad_seq_num a" by auto
  have "handle_acceptdecide S a sp = Some sp'"
    using check_valid_ballot_current [OF msg(1)] sp(2) seq app upd reply
    by (cases r) (simp_all add: handle_acceptdecide_def Let_def)
  then show ?thesis using st1 st2 sp' by (auto simp: sp_get_decided_idx_def)
qed

end

end
