(* ===== verification/Commit.thy ===== *)
theory Commit
  imports Replication Log_Sync
begin

text \<open>
  The way of an entry through a cluster: the leader appends it and sends it to its followers, they
  accept it, the leader counts their answers, decides, and tells them. The theory composes the handlers
  of the two sides and the messages between them, under reliable delivery. Batching is off, as in the
  default configuration, and outgoing messages are taken between the steps.
\<close>

section \<open>Messages to the followers\<close>

definition seq_of :: "('t, 'c, 'p) leader_state \<Rightarrow> node_id \<Rightarrow> sequence_number" where
  "seq_of ls p = follower_seq_nums ls ! (p - 1)"

definition next_sn :: "sequence_number \<Rightarrow> sequence_number" where
  "next_sn sn = sn\<lparr>sn_counter := sn_counter sn + 1\<rparr>"

lemma seq_of_accepted [simp]: "seq_of (ls\<lparr>accepted_indexes := a\<rparr>) = seq_of ls"
  by (simp add: seq_of_def fun_eq_iff)

lemma length_fold_update [simp]: "length (fold (\<lambda>p a. a[f p := i]) ps a) = length a"
  by (induction ps arbitrary: a) auto

text \<open>A follower that the leader can send to: its cells exist, nothing waits for it, its counter can go on.\<close>

definition reachable :: "('t, 'c, 'p) leader_state \<Rightarrow> node_id \<Rightarrow> bool" where
  "reachable ls p \<longleftrightarrow> known_pid ls p \<and> latest_accept_meta ls ! (p - 1) = None \<and> sn_counter (seq_of ls p) \<noteq> - 1"

text \<open>What sending changes of the leader's state: numbers and the positions of unsent messages.\<close>

definition same_book :: "('t, 'c, 'p) leader_state \<Rightarrow> ('t, 'c, 'p) leader_state \<Rightarrow> bool" where
  "same_book ls ls' \<longleftrightarrow> same_round ls ls' \<and> wf_leader ls' \<and> promises_meta ls' = promises_meta ls \<and>
     accepted_indexes ls' = accepted_indexes ls"

definition sent_to :: "node_id list \<Rightarrow> ('t, 'c, 'p) leader_state \<Rightarrow> ('t, 'c, 'p) leader_state \<Rightarrow> bool" where
  "sent_to ps ls ls' \<longleftrightarrow> same_book ls ls' \<and>
     (\<forall>p. known_pid ls p \<longrightarrow> seq_of ls' p = (if p \<in> set ps then next_sn (seq_of ls p) else seq_of ls p)) \<and>
     (\<forall>p. known_pid ls p \<longrightarrow> p \<notin> set ps \<longrightarrow> latest_accept_meta ls' ! (p - 1) = latest_accept_meta ls ! (p - 1))"

lemma sent_to_Nil: "wf_leader ls \<Longrightarrow> sent_to [] ls ls"
  by (simp add: sent_to_def same_book_def)

lemma sent_to_Cons:
  assumes "sent_to [p] ls ls1" "sent_to ps ls1 ls2" "p \<notin> set ps"
  shows "sent_to (p # ps) ls ls2"
  using assms by (auto simp: sent_to_def same_book_def same_round_def known_pid_def)

lemma sent_to_reachable: "sent_to [p] ls ls1 \<Longrightarrow> q \<noteq> p \<Longrightarrow> reachable ls q \<Longrightarrow> reachable ls1 q"
  by (auto simp: sent_to_def same_book_def same_round_def reachable_def known_pid_def)

text \<open>A loop that sends one numbered message to each follower.\<close>

lemma send_loop:
  assumes one: "\<And>p sp. sp_internal_storage sp = st \<Longrightarrow> n_leader (sp_leader_state sp) = n \<Longrightarrow> wf_leader (sp_leader_state sp) \<Longrightarrow>
      reachable (sp_leader_state sp) p \<Longrightarrow>
      \<exists>ls. g p sp = Some (push_msg p (M (next_sn (seq_of (sp_leader_state sp) p))) (upd_leader ls sp)) \<and> sent_to [p] (sp_leader_state sp) ls"
    and sp: "sp_internal_storage sp = st" "n_leader (sp_leader_state sp) = n" "wf_leader (sp_leader_state sp)"
    and ps: "distinct ps" "\<forall>p \<in> set ps. reachable (sp_leader_state sp) p"
  shows "\<exists>ls. for_each g ps sp = Some (sp\<lparr>sp_leader_state := ls, sp_outgoing := sp_outgoing sp @
      map (\<lambda>p. paxos_envelope (sp_pid sp) p (M (next_sn (seq_of (sp_leader_state sp) p)))) ps\<rparr>) \<and> sent_to ps (sp_leader_state sp) ls"
  using sp ps
proof (induction ps arbitrary: sp)
  case Nil
  then show ?case by (intro exI [of _ "sp_leader_state sp"]) (simp add: sent_to_Nil)
next
  case (Cons p ps)
  obtain ls1 where g: "g p sp = Some (push_msg p (M (next_sn (seq_of (sp_leader_state sp) p))) (upd_leader ls1 sp))"
    and s1: "sent_to [p] (sp_leader_state sp) ls1"
    using one [of sp p] Cons.prems by auto
  let ?sp1 = "push_msg p (M (next_sn (seq_of (sp_leader_state sp) p))) (upd_leader ls1 sp)"
  have ls1: "n_leader ls1 = n" "wf_leader ls1"
    using s1 Cons.prems(2) by (auto simp: sent_to_def same_book_def same_round_def)
  have "\<forall>q \<in> set ps. reachable ls1 q" using sent_to_reachable [OF s1] Cons.prems(4,5) by (metis distinct.simps(2) list.set_intros(2))
  then obtain ls2 where r: "for_each g ps ?sp1 = Some (?sp1\<lparr>sp_leader_state := ls2, sp_outgoing := sp_outgoing ?sp1 @
      map (\<lambda>q. paxos_envelope (sp_pid sp) q (M (next_sn (seq_of ls1 q)))) ps\<rparr>)" and s2: "sent_to ps ls1 ls2"
    using Cons.IH [of ?sp1] Cons.prems ls1 by (auto simp: push_msg_def)
  have "map (\<lambda>q. paxos_envelope (sp_pid sp) q (M (next_sn (seq_of ls1 q)))) ps =
      map (\<lambda>q. paxos_envelope (sp_pid sp) q (M (next_sn (seq_of (sp_leader_state sp) q)))) ps"
    using s1 Cons.prems(4,5) by (auto simp: sent_to_def reachable_def)
  then have "for_each g (p # ps) sp = Some (sp\<lparr>sp_leader_state := ls2, sp_outgoing := sp_outgoing sp @
      map (\<lambda>p. paxos_envelope (sp_pid sp) p (M (next_sn (seq_of (sp_leader_state sp) p)))) (p # ps)\<rparr>)"
    using g r by (simp add: push_msg_def)
  moreover have "sent_to (p # ps) (sp_leader_state sp) ls2" using sent_to_Cons [OF s1 s2] Cons.prems(4) by simp
  ultimately show ?case by blast
qed

lemma next_seq_num_reachable:
  assumes "wf_leader ls" "reachable ls p"
  shows "next_seq_num p ls = Some (next_sn (seq_of ls p), ls\<lparr>follower_seq_nums := (follower_seq_nums ls)[p - 1 := next_sn (seq_of ls p)]\<rparr>)"
  using assms by (simp add: next_seq_num_eq reachable_def known_pid_def wf_leader_def seq_of_def next_sn_def) linarith

lemma list_update_other: "known_pid ls p \<Longrightarrow> known_pid ls q \<Longrightarrow> q \<noteq> p \<Longrightarrow> q - 1 \<noteq> p - (1 :: nat)"
  by (auto simp: known_pid_def)

lemma sent_to_one:
  assumes "wf_leader ls" "reachable ls p" "m = latest_accept_meta ls \<or> (\<exists>x. m = (latest_accept_meta ls)[p - 1 := x])"
  shows "sent_to [p] ls (ls\<lparr>latest_accept_meta := m, follower_seq_nums := (follower_seq_nums ls)[p - 1 := next_sn (seq_of ls p)]\<rparr>)"
  using assms list_update_other [of ls p]
  by (auto simp: sent_to_def same_book_def same_round_def wf_leader_def known_pid_def reachable_def seq_of_def nth_list_update)

lemma no_latest_accdec:
  assumes "wf_leader (sp_leader_state sp)" "reachable (sp_leader_state sp) p"
  shows "get_latest_accdec_message p sp = Some None"
proof -
  have "1 \<le> p" "p - 1 < length (latest_accept_meta (sp_leader_state sp))"
    using assms by (auto simp: reachable_def known_pid_def wf_leader_def)
  then show ?thesis using assms(2) by (simp add: get_latest_accdec_message_def get_latest_accept_meta_def reachable_def)
qed

lemma send_acceptdecide_one:
  assumes "wf_leader (sp_leader_state sp)" "reachable (sp_leader_state sp) p"
  shows "\<exists>ls. send_acceptdecide_to am p sp = Some (push_msg p (AcceptDecide \<lparr>ad_n = n_leader (sp_leader_state sp),
      ad_seq_num = next_sn (seq_of (sp_leader_state sp) p), ad_decided_idx = is_get_decided_idx (sp_internal_storage sp),
      ad_entries = am_entries am\<rparr>) (upd_leader ls sp)) \<and> sent_to [p] (sp_leader_state sp) ls"
proof -
  let ?ls = "sp_leader_state sp"
  let ?ls1 = "?ls\<lparr>latest_accept_meta := (latest_accept_meta ?ls)[p - 1 := Some (n_leader ?ls, length (sp_outgoing sp))]\<rparr>"
  have m: "set_latest_accept_meta p (Some (length (sp_outgoing sp))) ?ls = Some ?ls1"
    using assms by (simp add: set_latest_accept_meta_eq reachable_def known_pid_def wf_leader_def) linarith
  have s: "next_seq_num p ?ls1 = Some (next_sn (seq_of ?ls p), ?ls1\<lparr>follower_seq_nums := (follower_seq_nums ?ls)[p - 1 := next_sn (seq_of ?ls p)]\<rparr>)"
    using assms by (simp add: next_seq_num_eq reachable_def known_pid_def wf_leader_def seq_of_def next_sn_def) linarith
  show ?thesis
    using no_latest_accdec [OF assms] m s sent_to_one [OF assms, of "latest_accept_meta ?ls1"]
    by (auto simp: send_acceptdecide_to_def)
qed

lemma announce_decided_one:
  assumes "wf_leader (sp_leader_state sp)" "reachable (sp_leader_state sp) p"
  shows "\<exists>ls. announce_decided i p sp = Some (push_msg p (Decide \<lparr>dec_n = n_leader (sp_leader_state sp),
      dec_seq_num = next_sn (seq_of (sp_leader_state sp) p), dec_decided_idx = i\<rparr>) (upd_leader ls sp)) \<and> sent_to [p] (sp_leader_state sp) ls"
  using no_latest_accdec [OF assms] next_seq_num_reachable [OF assms] sent_to_one [OF assms, of "latest_accept_meta (sp_leader_state sp)"]
  by (auto simp: announce_decided_def send_decide_def leader_seq_num_def)

section \<open>The follower\<close>

definition unbatched :: "('s, 't, 'c) internal_storage \<Rightarrow> bool" where
  "unbatched st \<longleftrightarrow> c_batch_size (is_cache st) \<le> 1 \<and> c_batched_entries (is_cache st) = []"

context storage_contract
begin

lemma update_decided_exact:
  assumes "is_coherent sinv view (sp_internal_storage sp)" "c_batched_entries (is_cache (sp_internal_storage sp)) = []"
  shows "\<exists>r s. update_decided_idx_and_get_accepted_idx S d sp = Some (r, upd_storage \<lparr>is_storage = s,
       is_cache = (is_cache (sp_internal_storage sp))\<lparr>c_decided_idx := adopt_decided (sp_get_decided_idx sp) (is_get_accepted_idx (sp_internal_storage sp)) d\<rparr>\<rparr> sp) \<and>
     sinv s \<and> view s = (vw (sp_internal_storage sp))\<lparr>v_decided_idx := adopt_decided (sp_get_decided_idx sp) (is_get_accepted_idx (sp_internal_storage sp)) d\<rparr> \<and>
     (r = None \<or> r = Some (is_get_accepted_idx (sp_internal_storage sp))) \<and> (d \<le> is_get_accepted_idx (sp_internal_storage sp) \<longrightarrow> r = None)"
proof -
  let ?st = "sp_internal_storage sp"
  let ?acc = "c_accepted_idx (is_cache ?st)"
  have inv: "sinv (is_storage ?st)" and dec: "c_decided_idx (is_cache ?st) = v_decided_idx (vw ?st)"
    using assms(1) by (auto simp: is_coherent_def cache_matches_def)
  note defs = update_decided_idx_and_get_accepted_idx_def Let_def is_get_accepted_idx_def min_def
    is_get_decided_idx_def adopt_decided_def sp_get_decided_idx_def
  consider "d \<le> is_get_decided_idx ?st" | "is_get_decided_idx ?st < d" "?acc < d" | "is_get_decided_idx ?st < d" "d \<le> ?acc"
    by linarith
  then show ?thesis
  proof cases
    case 1
    then show ?thesis using inv dec
      by (intro exI [of _ None] exI [of _ "is_storage ?st"]) (simp add: defs)
  next
    case 2
    obtain s1 where f: "flush_batch S ?st = Some (Inr ?acc, \<lparr>is_storage = s1, is_cache = is_cache ?st\<rparr>)"
      and s1: "sinv s1" "view s1 = vw ?st"
      using flush_batch_does [OF inv] assms(2) by (auto simp: is_does_def)
    obtain s2 where "is_set_decided_idx S ?acc \<lparr>is_storage = s1, is_cache = is_cache ?st\<rparr> =
        Some (Inr (), \<lparr>is_storage = s2, is_cache = (is_cache ?st)\<lparr>c_decided_idx := ?acc\<rparr>\<rparr>)"
      "sinv s2" "view s2 = (vw ?st)\<lparr>v_decided_idx := ?acc\<rparr>"
      using is_set_decided_idx_does [of "\<lparr>is_storage = s1, is_cache = is_cache ?st\<rparr>" ?acc] s1 by (auto simp: is_does_def)
    then show ?thesis using 2 f by (intro exI [of _ "Some ?acc"] exI [of _ s2]) (simp add: defs)
  next
    case 3
    obtain s2 where "is_set_decided_idx S d ?st = Some (Inr (), \<lparr>is_storage = s2, is_cache = (is_cache ?st)\<lparr>c_decided_idx := d\<rparr>\<rparr>)"
      "sinv s2" "view s2 = (vw ?st)\<lparr>v_decided_idx := d\<rparr>"
      using is_set_decided_idx_does [OF inv, of d] by (auto simp: is_does_def)
    then show ?thesis using 3 by (intro exI [of _ None] exI [of _ s2]) (simp add: defs)
  qed
qed

text \<open>The answer to an \<^verbatim>\<open>AcceptDecide\<close> in order, with nothing else waiting to be sent.\<close>

lemma follower_accepts:
  assumes sp: "is_coherent sinv view (sp_internal_storage sp)" "sp_state sp = (Follower, PhaseAccept)" "sp_latest_accepted_meta sp = None"
    and batch: "unbatched (sp_internal_storage sp)" "ad_entries a \<noteq> []" and no_ss: "is_get_stopsign (sp_internal_storage sp) = None"
    and msg: "ballot_key (sp_get_promise sp) = ballot_key (ad_n a)" "check_msg_status (sp_current_seq_num sp) (ad_seq_num a) = Some Expected"
  defines "acc \<equiv> is_get_accepted_idx (sp_internal_storage sp) + length (ad_entries a)"
  defines "dec \<equiv> adopt_decided (sp_get_decided_idx sp) acc (ad_decided_idx a)"
  shows "\<exists>s. handle_acceptdecide S a sp = Some (push_msg (b_pid (ad_n a)) (Accepted \<lparr>acc_n = ad_n a, acc_accepted_idx = acc\<rparr>)
      (sp\<lparr>sp_internal_storage := \<lparr>is_storage = s, is_cache = (is_cache (sp_internal_storage sp))\<lparr>c_accepted_idx := acc, c_decided_idx := dec\<rparr>\<rparr>,
          sp_current_seq_num := ad_seq_num a, sp_latest_accepted_meta := Some (ad_n a, length (sp_outgoing sp))\<rparr>)) \<and>
    sinv s \<and> view s = (vw (sp_internal_storage sp))\<lparr>v_log := v_log (vw (sp_internal_storage sp)) @ ad_entries a, v_decided_idx := dec\<rparr>"
proof -
  let ?st = "sp_internal_storage sp" and ?sp1 = "sp\<lparr>sp_current_seq_num := ad_seq_num a\<rparr>"
  have inv: "sinv (is_storage ?st)" using sp(1) by (simp add: is_coherent_def)
  have seq: "handle_sequence_num (ad_seq_num a) (b_pid (ad_n a)) sp = Some (Expected, ?sp1)"
    using msg(2) by (simp add: handle_sequence_num_def)
  let ?c1 = "(is_cache ?st)\<lparr>c_accepted_idx := acc\<rparr>"
  have "c_batch_size (is_cache ?st) \<le> length (c_batched_entries (is_cache ?st) @ ad_entries a)"
    using batch by (cases "ad_entries a") (auto simp: unbatched_def)
  from append_entries_and_get_accepted_idx_full [OF inv this] obtain s1
    where app: "append_entries_and_get_accepted_idx S (ad_entries a) ?st = Some (Inr (Some acc), \<lparr>is_storage = s1, is_cache = ?c1\<rparr>)"
    and s1: "sinv s1" "view s1 = (vw ?st)\<lparr>v_log := v_log (vw ?st) @ ad_entries a\<rparr>"
    using batch by (auto simp: is_does_def unbatched_def acc_def is_get_accepted_idx_def)
  let ?sp2 = "upd_storage \<lparr>is_storage = s1, is_cache = ?c1\<rparr> ?sp1"
  have coh: "is_coherent sinv view (sp_internal_storage ?sp2)"
    using sp(1) s1 no_ss by (auto simp: is_coherent_def cache_matches_def acc_def is_get_defs)
  have "c_batched_entries (is_cache (sp_internal_storage ?sp2)) = []" using batch by (simp add: unbatched_def)
  from update_decided_exact [OF coh this, of "ad_decided_idx a"] obtain r s
    where upd: "update_decided_idx_and_get_accepted_idx S (ad_decided_idx a) ?sp2 =
        Some (r, upd_storage \<lparr>is_storage = s, is_cache = ?c1\<lparr>c_decided_idx := dec\<rparr>\<rparr> ?sp1)"
    and s: "sinv s" "view s = (view s1)\<lparr>v_decided_idx := dec\<rparr>" and r: "r = None \<or> r = Some acc"
    by (auto simp: dec_def acc_def sp_get_decided_idx_def is_get_defs)
  have "handle_acceptdecide S a sp = reply_accepted (ad_n a) acc (upd_storage \<lparr>is_storage = s, is_cache = ?c1\<lparr>c_decided_idx := dec\<rparr>\<rparr> ?sp1)"
    using check_valid_ballot_current [OF msg(1)] sp(2) seq app upd r by (elim disjE) (simp_all add: handle_acceptdecide_def Let_def)
  also have "\<dots> = Some (push_msg (b_pid (ad_n a)) (Accepted \<lparr>acc_n = ad_n a, acc_accepted_idx = acc\<rparr>)
      (sp\<lparr>sp_internal_storage := \<lparr>is_storage = s, is_cache = (is_cache ?st)\<lparr>c_accepted_idx := acc, c_decided_idx := dec\<rparr>\<rparr>,
          sp_current_seq_num := ad_seq_num a, sp_latest_accepted_meta := Some (ad_n a, length (sp_outgoing sp))\<rparr>))"
    using sp(3) by (cases sp) (simp add: reply_accepted_def get_latest_accepted_message_def)
  finally show ?thesis using s s1 by (intro exI [of _ s]) simp
qed

text \<open>A \<^verbatim>\<open>Decide\<close> in order for entries the follower has.\<close>

lemma follower_decides:
  assumes sp: "is_coherent sinv view (sp_internal_storage sp)" "sp_state sp = (Follower, PhaseAccept)"
    and batch: "unbatched (sp_internal_storage sp)"
    and msg: "ballot_key (sp_get_promise sp) = ballot_key (dec_n m)" "check_msg_status (sp_current_seq_num sp) (dec_seq_num m) = Some Expected"
      "sp_get_decided_idx sp \<le> dec_decided_idx m" "dec_decided_idx m \<le> is_get_accepted_idx (sp_internal_storage sp)"
  shows "\<exists>s. handle_decide S m sp = Some (sp\<lparr>sp_internal_storage := \<lparr>is_storage = s,
        is_cache = (is_cache (sp_internal_storage sp))\<lparr>c_decided_idx := dec_decided_idx m\<rparr>\<rparr>, sp_current_seq_num := dec_seq_num m\<rparr>) \<and>
    sinv s \<and> view s = (vw (sp_internal_storage sp))\<lparr>v_decided_idx := dec_decided_idx m\<rparr>"
proof -
  let ?sp1 = "sp\<lparr>sp_current_seq_num := dec_seq_num m\<rparr>"
  have seq: "handle_sequence_num (dec_seq_num m) (b_pid (dec_n m)) sp = Some (Expected, ?sp1)"
    using msg(2) by (simp add: handle_sequence_num_def)
  have "adopt_decided (sp_get_decided_idx sp) (is_get_accepted_idx (sp_internal_storage sp)) (dec_decided_idx m) = dec_decided_idx m"
    using msg(3,4) by (simp add: adopt_decided_def)
  with update_decided_exact [of ?sp1 "dec_decided_idx m"] sp(1) batch msg(4) obtain s
    where "update_decided_idx_and_get_accepted_idx S (dec_decided_idx m) ?sp1 = Some (None, upd_storage \<lparr>is_storage = s,
        is_cache = (is_cache (sp_internal_storage sp))\<lparr>c_decided_idx := dec_decided_idx m\<rparr>\<rparr> ?sp1)"
      "sinv s" "view s = (vw (sp_internal_storage sp))\<lparr>v_decided_idx := dec_decided_idx m\<rparr>"
    by (auto simp: unbatched_def sp_get_decided_idx_def)
  then show ?thesis
    using check_valid_ballot_current [OF msg(1)] sp(2) seq by (intro exI [of _ s]) (cases sp, simp add: handle_decide_def Let_def)
qed

text \<open>The leader appends an entry and sends it to every follower that has promised.\<close>

lemma leader_appends:
  assumes sp: "sinv (is_storage (sp_internal_storage sp))" "sp_state sp = (Leader, PhaseAccept)" "\<not> accepted_reconfiguration sp"
    and batch: "unbatched (sp_internal_storage sp)"
    and ls: "wf_leader (sp_leader_state sp)" "known_pid (sp_leader_state sp) (sp_pid sp)"
    and fs: "get_promised_followers (sp_leader_state sp) = Some fs" "distinct fs" "\<forall>p \<in> set fs. reachable (sp_leader_state sp) p"
  defines "acc \<equiv> is_get_accepted_idx (sp_internal_storage sp) + 1"
  defines "ls0 \<equiv> (sp_leader_state sp)\<lparr>accepted_indexes := (accepted_indexes (sp_leader_state sp))[sp_pid sp - 1 := acc]\<rparr>"
  shows "\<exists>s ls'. sp_append S e sp = Some (Inr (), sp\<lparr>
      sp_internal_storage := \<lparr>is_storage = s, is_cache = (is_cache (sp_internal_storage sp))\<lparr>c_accepted_idx := acc\<rparr>\<rparr>, sp_leader_state := ls',
      sp_outgoing := sp_outgoing sp @ map (\<lambda>p. paxos_envelope (sp_pid sp) p (AcceptDecide \<lparr>ad_n = n_leader (sp_leader_state sp),
        ad_seq_num = next_sn (seq_of (sp_leader_state sp) p), ad_decided_idx = sp_get_decided_idx sp, ad_entries = [e]\<rparr>)) fs\<rparr>) \<and>
    sinv s \<and> view s = (vw (sp_internal_storage sp))\<lparr>v_log := v_log (vw (sp_internal_storage sp)) @ [e]\<rparr> \<and> sent_to fs ls0 ls'"
proof -
  let ?st = "sp_internal_storage sp" and ?ls = "sp_leader_state sp"
  let ?c1 = "(is_cache ?st)\<lparr>c_accepted_idx := acc\<rparr>"
  have one: "append_entry_with_batching S e ?st = append_entries_with_batching S [e] ?st"
    by (simp add: append_entry_with_batching_def append_entries_with_batching_def cache_append_entry_def cache_append_entries_def)
  obtain s where app: "append_entry_with_batching S e ?st =
      Some (Inr (Some \<lparr>am_accepted_idx = acc, am_entries = [e]\<rparr>), \<lparr>is_storage = s, is_cache = ?c1\<rparr>)"
    and s: "sinv s" "view s = (vw ?st)\<lparr>v_log := v_log (vw ?st) @ [e]\<rparr>"
    using append_entries_with_batching_full [OF sp(1), of "[e]"] batch unfolding one
    by (auto simp: is_does_def unbatched_def acc_def is_get_accepted_idx_def)
  have set: "set_accepted_idx (sp_pid sp) acc ?ls = Some ls0"
    using ls by (auto simp: set_accepted_idx_eq known_pid_def wf_leader_def ls0_def)
  let ?sp0 = "sp\<lparr>sp_internal_storage := \<lparr>is_storage = s, is_cache = ?c1\<rparr>, sp_leader_state := ls0\<rparr>"
  have ls0: "wf_leader ls0" "n_leader ls0 = n_leader ?ls" "\<forall>p \<in> set fs. reachable ls0 p" "get_promised_followers ls0 = Some fs"
    "seq_of ls0 = seq_of ?ls"
    using ls(1) fs by (auto simp: ls0_def wf_leader_def reachable_def known_pid_def seq_of_def get_promised_followers_def)
  let ?am = "\<lparr>am_accepted_idx = acc, am_entries = [e]\<rparr>" and ?st1 = "\<lparr>is_storage = s, is_cache = ?c1\<rparr>"
  let ?M = "\<lambda>sn. AcceptDecide \<lparr>ad_n = n_leader ?ls, ad_seq_num = sn, ad_decided_idx = sp_get_decided_idx sp, ad_entries = [e]\<rparr>"
  have one_msg: "\<exists>ls. send_acceptdecide_to ?am p sp' = Some (push_msg p (?M (next_sn (seq_of (sp_leader_state sp') p))) (upd_leader ls sp')) \<and>
      sent_to [p] (sp_leader_state sp') ls"
    if "sp_internal_storage sp' = ?st1" "n_leader (sp_leader_state sp') = n_leader ?ls" "wf_leader (sp_leader_state sp')"
      "reachable (sp_leader_state sp') p" for p and sp' :: "('s, 't, 'c, 'p) sequence_paxos"
    using send_acceptdecide_one [OF that(3,4), of ?am] that(1,2) by (simp add: sp_get_decided_idx_def is_get_defs)
  obtain ls' where send: "for_each (send_acceptdecide_to ?am) fs ?sp0 = Some (?sp0\<lparr>sp_leader_state := ls',
      sp_outgoing := sp_outgoing sp @ map (\<lambda>p. paxos_envelope (sp_pid sp) p (?M (next_sn (seq_of ls0 p)))) fs\<rparr>)" and sent: "sent_to fs ls0 ls'"
    using send_loop [of ?st1 "n_leader ?ls" "send_acceptdecide_to ?am" ?M ?sp0 fs, OF one_msg] ls0(1-3) fs(2) by auto
  show ?thesis
    using sp(2,3) app set send sent s ls0(4,5)
    by (intro exI [of _ s] exI [of _ ls'])
      (cases sp, simp add: sp_append_def propose_entry_def accept_entry_leader_def after_leader_append_def send_acceptdecide_def expect_def)
qed

text \<open>Counting answers: once the index is decided, the rest only fills the table.\<close>

abbreviation tally :: "ballot \<Rightarrow> usize \<Rightarrow> node_id list \<Rightarrow> ('s, 't, 'c, 'p) sequence_paxos \<Rightarrow> ('s, 't, 'c, 'p) sequence_paxos option" where
  "tally n i \<equiv> for_each (handle_accepted S \<lparr>acc_n = n, acc_accepted_idx = i\<rparr>)"

lemma tally_after:
  assumes "sp_state sp = (Leader, PhaseAccept)" "n_leader (sp_leader_state sp) = n" "i \<le> sp_get_decided_idx sp"
    and "wf_leader (sp_leader_state sp)" "\<forall>p \<in> set ps. known_pid (sp_leader_state sp) p"
  shows "tally n i ps sp = Some (upd_leader ((sp_leader_state sp)\<lparr>accepted_indexes :=
    fold (\<lambda>p a. a[p - 1 := i]) ps (accepted_indexes (sp_leader_state sp))\<rparr>) sp)"
  using assms
proof (induction ps arbitrary: sp)
  case (Cons p ps)
  let ?ls = "(sp_leader_state sp)\<lparr>accepted_indexes := (accepted_indexes (sp_leader_state sp))[p - 1 := i]\<rparr>"
  have set: "set_accepted_idx p i (sp_leader_state sp) = Some ?ls"
    using Cons.prems(4,5) by (auto simp: set_accepted_idx_eq known_pid_def wf_leader_def)
  have "handle_accepted S \<lparr>acc_n = n, acc_accepted_idx = i\<rparr> p sp = Some (upd_leader ?ls sp)"
    using Cons.prems set by (simp add: handle_accepted_def sp_get_decided_idx_def)
  then show ?case using Cons.IH [of "upd_leader ?ls sp"] Cons.prems
    by (simp add: sp_get_decided_idx_def wf_leader_def known_pid_def)
qed simp

lemma leader_decides:
  assumes sp: "sinv (is_storage (sp_internal_storage sp))" "sp_state sp = (Leader, PhaseAccept)" "sp_get_decided_idx sp < i"
    and ls: "wf_leader (sp_leader_state sp)" "n_leader (sp_leader_state sp) = n" "\<forall>p \<in> set ps. known_pid (sp_leader_state sp) p"
    and fs: "get_promised_followers (sp_leader_state sp) = Some fs" "distinct fs" "\<forall>p \<in> set fs. reachable (sp_leader_state sp) p"
    and ps: "ps \<noteq> []" "is_chosen i ((sp_leader_state sp)\<lparr>accepted_indexes := fold (\<lambda>p a. a[p - 1 := i]) ps (accepted_indexes (sp_leader_state sp))\<rparr>)"
  shows "\<exists>s ls'. tally n i ps sp = Some (sp\<lparr>
      sp_internal_storage := \<lparr>is_storage = s, is_cache = (is_cache (sp_internal_storage sp))\<lparr>c_decided_idx := i\<rparr>\<rparr>, sp_leader_state := ls',
      sp_outgoing := sp_outgoing sp @ map (\<lambda>p. paxos_envelope (sp_pid sp) p (Decide \<lparr>dec_n = n,
        dec_seq_num = next_sn (seq_of (sp_leader_state sp) p), dec_decided_idx = i\<rparr>)) fs\<rparr>) \<and>
    sinv s \<and> view s = (vw (sp_internal_storage sp))\<lparr>v_decided_idx := i\<rparr> \<and>
    sent_to fs ((sp_leader_state sp)\<lparr>accepted_indexes := fold (\<lambda>p a. a[p - 1 := i]) ps (accepted_indexes (sp_leader_state sp))\<rparr>) ls'"
  using assms
proof (induction ps arbitrary: sp)
  case (Cons p ps)
  let ?ls = "sp_leader_state sp" and ?st = "sp_internal_storage sp"
  let ?ls1 = "?ls\<lparr>accepted_indexes := (accepted_indexes ?ls)[p - 1 := i]\<rparr>"
  have set: "set_accepted_idx p i ?ls = Some ?ls1"
    using Cons.prems(4,6) by (auto simp: set_accepted_idx_eq known_pid_def wf_leader_def)
  have ls1: "wf_leader ?ls1" "n_leader ?ls1 = n" "get_promised_followers ?ls1 = Some fs" "\<forall>p \<in> set fs. reachable ?ls1 p" "seq_of ?ls1 = seq_of ?ls"
    "\<forall>p \<in> set ps. known_pid ?ls1 p"
    using Cons.prems by (auto simp: wf_leader_def reachable_def known_pid_def seq_of_def get_promised_followers_def)
  show ?case
  proof (cases "is_chosen i ?ls1")
    case True
    obtain s where set_dec: "is_set_decided_idx S i ?st = Some (Inr (), \<lparr>is_storage = s, is_cache = (is_cache ?st)\<lparr>c_decided_idx := i\<rparr>\<rparr>)"
      and s: "sinv s" "view s = (vw ?st)\<lparr>v_decided_idx := i\<rparr>"
      using is_set_decided_idx_does [OF Cons.prems(1), of i] by (auto simp: is_does_def)
    let ?st1 = "\<lparr>is_storage = s, is_cache = (is_cache ?st)\<lparr>c_decided_idx := i\<rparr>\<rparr>"
    let ?sp1 = "sp\<lparr>sp_leader_state := ?ls1, sp_internal_storage := ?st1\<rparr>"
    let ?M = "\<lambda>sn. Decide \<lparr>dec_n = n, dec_seq_num = sn, dec_decided_idx = i\<rparr>"
    have one: "\<exists>ls. announce_decided i p sp' = Some (push_msg p (?M (next_sn (seq_of (sp_leader_state sp') p))) (upd_leader ls sp')) \<and>
        sent_to [p] (sp_leader_state sp') ls"
      if "sp_internal_storage sp' = ?st1" "n_leader (sp_leader_state sp') = n" "wf_leader (sp_leader_state sp')"
        "reachable (sp_leader_state sp') p" for p and sp' :: "('s, 't, 'c, 'p) sequence_paxos"
      using announce_decided_one [OF that(3,4), of i] that(2) by simp
    obtain ls2 where ann: "for_each (announce_decided i) fs ?sp1 = Some (?sp1\<lparr>sp_leader_state := ls2,
        sp_outgoing := sp_outgoing sp @ map (\<lambda>p. paxos_envelope (sp_pid sp) p (?M (next_sn (seq_of ?ls p)))) fs\<rparr>)" and sent: "sent_to fs ?ls1 ls2"
      using send_loop [of ?st1 n "announce_decided i" ?M ?sp1 fs, OF one] ls1 Cons.prems(8) by auto
    let ?sp2 = "?sp1\<lparr>sp_leader_state := ls2,
        sp_outgoing := sp_outgoing sp @ map (\<lambda>p. paxos_envelope (sp_pid sp) p (?M (next_sn (seq_of ?ls p)))) fs\<rparr>"
    have h: "handle_accepted S \<lparr>acc_n = n, acc_accepted_idx = i\<rparr> p sp = Some ?sp2"
      using Cons.prems set True set_dec ls1(3) ann by (simp add: handle_accepted_def sp_get_decided_idx_def expect_def)
    let ?acc = "fold (\<lambda>p a. a[p - 1 := i]) ps (accepted_indexes ?ls1)"
    have ls2: "accepted_indexes ls2 = accepted_indexes ?ls1" "n_leader ls2 = n" "wf_leader ls2" "\<forall>p \<in> set ps. known_pid ls2 p"
      using sent ls1 by (auto simp: sent_to_def same_book_def same_round_def known_pid_def)
    have "tally n i ps ?sp2 = Some (upd_leader (ls2\<lparr>accepted_indexes := ?acc\<rparr>) ?sp2)"
      using tally_after [of ?sp2 n i ps] Cons.prems ls2 by (simp add: sp_get_decided_idx_def is_get_defs)
    moreover have "sent_to fs (?ls\<lparr>accepted_indexes := ?acc\<rparr>) (ls2\<lparr>accepted_indexes := ?acc\<rparr>)"
      using sent ls2(3) by (auto simp: sent_to_def same_book_def same_round_def wf_leader_def known_pid_def seq_of_def)
    ultimately show ?thesis using h s
      by (intro exI [of _ s] exI [of _ "ls2\<lparr>accepted_indexes := ?acc\<rparr>"]) (cases sp, simp)
  next
    case False
    have h: "handle_accepted S \<lparr>acc_n = n, acc_accepted_idx = i\<rparr> p sp = Some (upd_leader ?ls1 sp)"
      using Cons.prems set False by (simp add: handle_accepted_def sp_get_decided_idx_def)
    have "ps \<noteq> []" using False Cons.prems(11) by auto
    then show ?thesis
      using Cons.IH [of "upd_leader ?ls1 sp"] Cons.prems ls1 h by (auto simp: sp_get_decided_idx_def)
  qed
qed simp

end

end
