(* ===== verification/Cluster.thy ===== *)
theory Cluster
  imports Commit
begin

text \<open>
  A round of replication in a cluster: a leader, its followers as a map from process identifiers to
  replicas, and the messages between them, delivered to the followers of a given list. The functions
  here only pass messages between the operations of the replicas (\<^verbatim>\<open>append\<close>, \<^verbatim>\<open>handle\<close>,
  \<^verbatim>\<open>take_outgoing_msgs\<close>).
\<close>

section \<open>Delivery\<close>

definition to_node :: "node_id \<Rightarrow> ('t, 'c, 'p) message list \<Rightarrow> ('t, 'c, 'p) paxos_message list" where
  "to_node p msgs = List.map_filter (\<lambda>m. case m of SequencePaxosMsg pm \<Rightarrow> if pm_to pm = p then Some pm else None | BLEMsg _ \<Rightarrow> None) msgs"

definition deliver where
  "deliver S P p msgs sp = for_each (sp_handle S P) (to_node p msgs) sp"

text \<open>The followers \<open>ps\<close> handle what is addressed to them; the leader \<open>l\<close> handles their answers.\<close>

definition to_followers where
  "to_followers S P msgs ps F = for_each (\<lambda>p F. map_option (\<lambda>sp. F(p := sp)) (deliver S P p msgs (F p))) ps F"

definition answers where
  "answers S P l ps L F = for_each (\<lambda>p (L, F). case take_outgoing_msgs [] (F p) of
     (out, sp) \<Rightarrow> map_option (\<lambda>L'. (L', F(p := sp))) (deliver S P l out L)) ps (L, F)"

definition commit_round where
  "commit_round S P e ps L F = do {
     (_, L1) \<leftarrow> sp_append S e L;
     let (out1, L2) = take_outgoing_msgs [] L1;
     F1 \<leftarrow> to_followers S P out1 ps F;
     (L3, F2) \<leftarrow> answers S P (sp_pid L) ps L2 F1;
     let (out3, L4) = take_outgoing_msgs [] L3;
     F3 \<leftarrow> to_followers S P out3 ps F2;
     Some (L4, F3)
   }"

lemma to_node_envelopes:
  assumes "distinct fs" "p \<in> set fs"
  shows "to_node p (map (\<lambda>q. paxos_envelope l q (M q)) fs) = [\<lparr>pm_from = l, pm_to = p, pm_msg = M p\<rparr>]"
proof -
  have "to_node p (map (\<lambda>q. paxos_envelope l q (M q)) fs) = map (\<lambda>q. \<lparr>pm_from = l, pm_to = q, pm_msg = M q\<rparr>) (filter (\<lambda>q. q = p) fs)" for fs
    by (induction fs) (auto simp: to_node_def List.map_filter_def)
  moreover have "filter (\<lambda>q. q = p) fs = [p]"
    using assms by (induction fs) (auto simp: filter_empty_conv)
  ultimately show ?thesis by simp
qed

lemma to_node_one: "to_node p [paxos_envelope q p m] = [\<lparr>pm_from = q, pm_to = p, pm_msg = m\<rparr>]"
  by (simp add: to_node_def List.map_filter_def)

lemma deliver_one: "to_node p msgs = [m] \<Longrightarrow> deliver S P p msgs sp = sp_handle S P m sp"
  by (cases "sp_handle S P m sp") (simp_all add: deliver_def)

lemma for_each_cong: "(\<And>x. x \<in> set xs \<Longrightarrow> f x = g x) \<Longrightarrow> for_each f xs s = for_each g xs s"
  by (induction xs arbitrary: s) (auto intro!: Option.bind_cong)

lemma for_each_nodes:
  assumes "distinct ps" "\<And>p. p \<in> set ps \<Longrightarrow> h p (F p) = Some (G p)"
  shows "for_each (\<lambda>p F. map_option (\<lambda>sp. F(p := sp)) (h p (F p))) ps F = Some (\<lambda>p. if p \<in> set ps then G p else F p)"
  using assms
proof (induction ps arbitrary: F)
  case (Cons p ps)
  have "for_each (\<lambda>p F. map_option (\<lambda>sp. F(p := sp)) (h p (F p))) ps (F(p := G p)) =
      Some (\<lambda>q. if q \<in> set ps then G q else (F(p := G p)) q)"
    using Cons.prems by (intro Cons.IH) auto
  moreover have "(\<lambda>q. if q \<in> set ps then G q else (F(p := G p)) q) = (\<lambda>q. if q \<in> set (p # ps) then G q else F q)"
    by (rule ext) auto
  ultimately show ?case using Cons.prems(2) [of p] by (simp add: fun_upd_def)
qed simp

lemma answers_eq:
  assumes "distinct ps"
  shows "answers S P l ps L F = map_option (\<lambda>L'. (L', \<lambda>p. if p \<in> set ps then snd (take_outgoing_msgs [] (F p)) else F p))
    (for_each (\<lambda>p. deliver S P l (fst (take_outgoing_msgs [] (F p)))) ps L)"
  using assms
proof (induction ps arbitrary: L F)
  case Nil
  then show ?case by (simp add: answers_def)
next
  case (Cons p ps)
  obtain out sp where t: "take_outgoing_msgs [] (F p) = (out, sp)" by fastforce
  show ?case
  proof (cases "deliver S P l out L")
    case None
    then show ?thesis using t by (simp add: answers_def)
  next
    case (Some L1)
    have "answers S P l (p # ps) L F = answers S P l ps L1 (F(p := sp))" using t Some by (simp add: answers_def)
    moreover have "for_each (\<lambda>q. deliver S P l (fst (take_outgoing_msgs [] ((F(p := sp)) q)))) ps L1 =
        for_each (\<lambda>q. deliver S P l (fst (take_outgoing_msgs [] (F q)))) ps L1"
      using Cons.prems by (intro for_each_cong) auto
    moreover have "(\<lambda>q. if q \<in> set ps then snd (take_outgoing_msgs [] ((F(p := sp)) q)) else (F(p := sp)) q) =
        (\<lambda>q. if q \<in> set (p # ps) then snd (take_outgoing_msgs [] (F q)) else F q)"
      using Cons.prems t by (intro ext) auto
    ultimately show ?thesis using Cons.IH [of L1 "F(p := sp)"] Cons.prems t Some by (simp add: fun_upd_def)
  qed
qed

section \<open>Quorums of answers\<close>

lemma nth_fold_update:
  assumes "1 \<le> q" "q \<le> length a" "\<forall>p \<in> set ps. 1 \<le> p"
  shows "fold (\<lambda>p a. a[p - 1 := i]) ps a ! (q - 1) = (if q \<in> set ps then i else a ! (q - 1 :: nat))"
  using assms
proof (induction ps arbitrary: a)
  case (Cons p ps)
  have "q - 1 = p - 1 \<longleftrightarrow> q = p" using Cons.prems by auto
  then show ?case using Cons.IH [of "a[p - 1 := i]"] Cons.prems by (auto simp: nth_list_update)
qed simp

text \<open>The leader and the followers that answered make up the quorum.\<close>

lemma answers_chosen:
  assumes "wf_leader ls" "known_pid ls l" "\<forall>p \<in> set ps. known_pid ls p" "distinct ps" "l \<notin> set ps"
    and "i \<le> accepted_indexes ls ! (l - 1)" "is_accept_quorum (ls_quorum ls) (Suc (length ps))"
  shows "is_chosen i (ls\<lparr>accepted_indexes := fold (\<lambda>p a. a[p - 1 := i]) ps (accepted_indexes ls)\<rparr>)"
proof -
  let ?ls = "ls\<lparr>accepted_indexes := fold (\<lambda>p a. a[p - 1 := i]) ps (accepted_indexes ls)\<rparr>"
  have "insert l (set ps) \<subseteq> accepted_pids i ?ls"
    using assms(1-3,5,6) nth_fold_update [of _ "accepted_indexes ls" ps i]
    by (auto simp: accepted_pids_def known_pid_def wf_leader_def)
  then have "card (insert l (set ps)) \<le> card (accepted_pids i ?ls)" by (intro card_mono) auto
  moreover have "card (insert l (set ps)) = Suc (length ps)" using assms(4,5) by (simp add: distinct_card)
  ultimately show ?thesis unfolding is_chosen_card using assms(7) is_accept_quorum_mono by auto
qed

section \<open>Leader and follower in agreement\<close>

text \<open>A leader of the accept phase with nothing unsent.\<close>

definition leading :: "('s \<Rightarrow> bool) \<Rightarrow> ('s \<Rightarrow> ('t, 'c, 'p) storage_view) \<Rightarrow> ('s, 't, 'c, 'p) sequence_paxos \<Rightarrow> bool" where
  "leading sinv view L \<longleftrightarrow> is_coherent sinv view (sp_internal_storage L) \<and> sp_state L = (Leader, PhaseAccept) \<and>
     is_get_stopsign (sp_internal_storage L) = None \<and> unbatched (sp_internal_storage L) \<and>
     wf_leader (sp_leader_state L) \<and> known_pid (sp_leader_state L) (sp_pid L) \<and> b_pid (n_leader (sp_leader_state L)) = sp_pid L \<and>
     sp_get_decided_idx L \<le> is_get_accepted_idx (sp_internal_storage L) \<and> sp_outgoing L = [] \<and>
     latest_accept_meta (sp_leader_state L) = replicate (max_pid (sp_leader_state L)) None"

text \<open>A follower of the same round that has received everything sent to it and has the leader's log.\<close>

definition following ::
  "('s \<Rightarrow> bool) \<Rightarrow> ('s \<Rightarrow> ('t, 'c, 'p) storage_view) \<Rightarrow> ('s, 't, 'c, 'p) sequence_paxos \<Rightarrow> node_id \<Rightarrow>
     ('s, 't, 'c, 'p) sequence_paxos \<Rightarrow> bool" where
  "following sinv view L p F \<longleftrightarrow> is_coherent sinv view (sp_internal_storage F) \<and> sp_state F = (Follower, PhaseAccept) \<and>
     unbatched (sp_internal_storage F) \<and> sp_outgoing F = [] \<and> sp_latest_accepted_meta F = None \<and> sp_pid F = p \<and>
     ballot_key (sp_get_promise F) = ballot_key (n_leader (sp_leader_state L)) \<and>
     sp_current_seq_num F = seq_of (sp_leader_state L) p \<and> sp_get_decided_idx F \<le> is_get_accepted_idx (sp_internal_storage F) \<and>
     same_log (view (is_storage (sp_internal_storage L))) (view (is_storage (sp_internal_storage F)))"

lemma log_at_decided [simp]: "log_at (v\<lparr>v_decided_idx := d\<rparr>) = log_at v" "view_accepted_idx (v\<lparr>v_decided_idx := d\<rparr>) = view_accepted_idx v"
  by (simp_all add: fun_eq_iff log_at_def view_accepted_idx_def)

lemma same_log_decided: "same_log v w \<Longrightarrow> same_log (v\<lparr>v_decided_idx := d\<rparr>) (w\<lparr>v_decided_idx := d'\<rparr>)"
  by (simp add: same_log_def)

lemma same_log_append:
  assumes "same_log v w" "v_stopsign v = None"
  shows "same_log (v\<lparr>v_log := v_log v @ es, v_decided_idx := d\<rparr>) (w\<lparr>v_log := v_log w @ es, v_decided_idx := d'\<rparr>)"
proof -
  have len: "v_compacted_idx v + length (v_log v) = v_compacted_idx w + length (v_log w)" "v_stopsign w = None"
    using assms by (auto simp: same_log_def view_accepted_idx_def)
  have "log_at (v\<lparr>v_log := v_log v @ es, v_decided_idx := d\<rparr>) k = log_at (w\<lparr>v_log := v_log w @ es, v_decided_idx := d'\<rparr>) k"
    if k: "v_compacted_idx v \<le> k" "v_compacted_idx w \<le> k" for k
  proof (cases "k < v_compacted_idx v + length (v_log v)")
    case True
    then have "log_at v k = log_at w k" using assms(1) k by (simp add: same_log_def)
    then show ?thesis using True len(1) k by (auto simp: log_at_def nth_append split: if_splits)
  next
    case False
    then have "k - v_compacted_idx v - length (v_log v) = k - v_compacted_idx w - length (v_log w)" using len(1) by linarith
    then show ?thesis using False len(1) k by (auto simp: log_at_def nth_append)
  qed
  then show ?thesis using len assms(2) by (auto simp: same_log_def view_accepted_idx_def)
qed

section \<open>The steps of a round\<close>

text \<open>The leader has sent one numbered message to each follower, and these were taken from its buffer.\<close>

definition moved :: "node_id list \<Rightarrow> ('s, 't, 'c, 'p) sequence_paxos \<Rightarrow> ('s, 't, 'c, 'p) sequence_paxos \<Rightarrow> bool" where
  "moved fs L L' \<longleftrightarrow> sp_pid L' = sp_pid L \<and> same_round (sp_leader_state L) (sp_leader_state L') \<and>
     promises_meta (sp_leader_state L') = promises_meta (sp_leader_state L) \<and>
     (\<forall>p \<in> set fs. seq_of (sp_leader_state L') p = next_sn (seq_of (sp_leader_state L) p))"

lemma seq_of_reset [simp]: "seq_of (reset_latest_accept_meta ls) = seq_of ls"
  by (simp add: seq_of_def fun_eq_iff reset_latest_accept_meta_def)

lemma sent_to_moved:
  assumes "sent_to fs ls0 ls'" "ls0 = (sp_leader_state L)\<lparr>accepted_indexes := a\<rparr>" "\<forall>p \<in> set fs. known_pid (sp_leader_state L) p"
    and "sp_pid L' = sp_pid L" "sp_leader_state L' = reset_latest_accept_meta ls'" "wf_leader (sp_leader_state L)" "length a = length (accepted_indexes (sp_leader_state L))"
  shows "moved fs L L'" "accepted_indexes (sp_leader_state L') = a" "wf_leader (sp_leader_state L')"
    "latest_accept_meta (sp_leader_state L') = replicate (max_pid (sp_leader_state L')) None"
  using assms
  by (auto simp: moved_def sent_to_def same_book_def same_round_def known_pid_def wf_leader_def reset_latest_accept_meta_def seq_of_def)

lemma leading_reachable:
  assumes "leading sinv view L" "\<forall>p \<in> set fs. known_pid (sp_leader_state L) p \<and> sn_counter (seq_of (sp_leader_state L) p) \<noteq> - 1"
  shows "\<forall>p \<in> set fs. reachable (sp_leader_state L) p"
  using assms by (auto simp: leading_def reachable_def known_pid_def)

context storage_contract
begin

lemma round_append:
  assumes L: "leading sinv view L" and fs: "get_promised_followers (sp_leader_state L) = Some fs" "distinct fs"
      "\<forall>p \<in> set fs. known_pid (sp_leader_state L) p \<and> sn_counter (seq_of (sp_leader_state L) p) \<noteq> - 1"
  shows "\<exists>L1 L2. sp_append S e L = Some (Inr (), L1) \<and>
    take_outgoing_msgs [] L1 = (map (\<lambda>p. paxos_envelope (sp_pid L) p (AcceptDecide \<lparr>ad_n = n_leader (sp_leader_state L),
      ad_seq_num = next_sn (seq_of (sp_leader_state L) p), ad_decided_idx = sp_get_decided_idx L, ad_entries = [e]\<rparr>)) fs, L2) \<and>
    leading sinv view L2 \<and> moved fs L L2 \<and> vw (sp_internal_storage L2) = (vw (sp_internal_storage L))\<lparr>v_log := v_log (vw (sp_internal_storage L)) @ [e]\<rparr> \<and>
    is_get_accepted_idx (sp_internal_storage L2) = is_get_accepted_idx (sp_internal_storage L) + 1 \<and> sp_get_decided_idx L2 = sp_get_decided_idx L \<and>
    accepted_indexes (sp_leader_state L2) ! (sp_pid L - 1) = is_get_accepted_idx (sp_internal_storage L) + 1"
proof -
  let ?st = "sp_internal_storage L" and ?ls = "sp_leader_state L"
  let ?acc = "is_get_accepted_idx ?st + 1"
  let ?a = "(accepted_indexes ?ls)[sp_pid L - 1 := ?acc]"
  let ?out = "map (\<lambda>p. paxos_envelope (sp_pid L) p (AcceptDecide \<lparr>ad_n = n_leader ?ls,
      ad_seq_num = next_sn (seq_of ?ls p), ad_decided_idx = sp_get_decided_idx L, ad_entries = [e]\<rparr>)) fs"
  have LL: "sinv (is_storage ?st)" "sp_state L = (Leader, PhaseAccept)" "\<not> accepted_reconfiguration L" "unbatched ?st" "wf_leader ?ls"
    "known_pid ?ls (sp_pid L)" "sp_outgoing L = []" "cache_matches (vw ?st) (is_cache ?st)"
    using L by (auto simp: leading_def is_coherent_def accepted_reconfiguration_def)
  obtain s ls' where app: "sp_append S e L = Some (Inr (), L\<lparr>sp_internal_storage := \<lparr>is_storage = s, is_cache = (is_cache ?st)\<lparr>c_accepted_idx := ?acc\<rparr>\<rparr>,
      sp_leader_state := ls', sp_outgoing := ?out\<rparr>)"
    and s: "sinv s" "view s = (vw ?st)\<lparr>v_log := v_log (vw ?st) @ [e]\<rparr>" and sent: "sent_to fs (?ls\<lparr>accepted_indexes := ?a\<rparr>) ls'"
    using leader_appends [OF LL(1-6) fs(1,2) leading_reachable [OF L fs(3)], of e] unfolding LL(7) append_Nil by blast
  define L2 where "L2 = L\<lparr>sp_internal_storage := \<lparr>is_storage = s, is_cache = (is_cache ?st)\<lparr>c_accepted_idx := ?acc\<rparr>\<rparr>,
      sp_leader_state := reset_latest_accept_meta ls', sp_outgoing := [], sp_latest_accepted_meta := None\<rparr>"
  have take: "take_outgoing_msgs [] (L\<lparr>sp_internal_storage := \<lparr>is_storage = s, is_cache = (is_cache ?st)\<lparr>c_accepted_idx := ?acc\<rparr>\<rparr>,
      sp_leader_state := ls', sp_outgoing := ?out\<rparr>) = (?out, L2)"
    by (cases L) (simp add: take_outgoing_msgs_def L2_def)
  have mv: "moved fs L L2" "accepted_indexes (sp_leader_state L2) = ?a" "wf_leader (sp_leader_state L2)"
    "latest_accept_meta (sp_leader_state L2) = replicate (max_pid (sp_leader_state L2)) None"
    using sent_to_moved [OF sent refl, of L2] fs(3) LL(5) by (auto simp: L2_def)
  have "leading sinv view L2"
    using L mv s LL(8) by (auto simp: leading_def moved_def same_round_def known_pid_def is_coherent_def cache_matches_def L2_def
        is_get_defs unbatched_def sp_get_decided_idx_def)
  moreover have "?a ! (sp_pid L - 1) = ?acc" using LL(5,6) by (auto simp: wf_leader_def known_pid_def)
  moreover have "vw (sp_internal_storage L2) = (vw ?st)\<lparr>v_log := v_log (vw ?st) @ [e]\<rparr>" "is_get_accepted_idx (sp_internal_storage L2) = ?acc"
    "sp_get_decided_idx L2 = sp_get_decided_idx L"
    using s by (simp_all add: L2_def is_get_defs sp_get_decided_idx_def)
  ultimately show ?thesis using app take mv(1,2) by (intro exI conjI) (assumption | simp only:)+
qed

lemma round_follow:
  assumes F: "following sinv view L p F" and L: "leading sinv view L" "sn_counter (seq_of (sp_leader_state L) p) \<noteq> - 1"
    and L2: "moved fs L L2" "p \<in> set fs" "vw (sp_internal_storage L2) = (vw (sp_internal_storage L))\<lparr>v_log := v_log (vw (sp_internal_storage L)) @ [e]\<rparr>"
  shows "\<exists>F1 F2. handle_acceptdecide S \<lparr>ad_n = n_leader (sp_leader_state L), ad_seq_num = next_sn (seq_of (sp_leader_state L) p),
       ad_decided_idx = sp_get_decided_idx L, ad_entries = [e]\<rparr> F = Some F1 \<and>
     take_outgoing_msgs [] F1 = ([paxos_envelope p (sp_pid L) (Accepted \<lparr>acc_n = n_leader (sp_leader_state L),
       acc_accepted_idx = is_get_accepted_idx (sp_internal_storage L) + 1\<rparr>)], F2) \<and> following sinv view L2 p F2"
proof -
  let ?st = "sp_internal_storage F" and ?n = "n_leader (sp_leader_state L)"
  let ?a = "\<lparr>ad_n = ?n, ad_seq_num = next_sn (seq_of (sp_leader_state L) p), ad_decided_idx = sp_get_decided_idx L, ad_entries = [e]\<rparr>"
  have FF: "is_coherent sinv view ?st" "sp_state F = (Follower, PhaseAccept)" "sp_latest_accepted_meta F = None" "unbatched ?st"
    "ballot_key (sp_get_promise F) = ballot_key (ad_n ?a)" "sp_outgoing F = []" "sp_pid F = p"
    and log: "same_log (vw (sp_internal_storage L)) (vw ?st)"
    using F by (auto simp: following_def)
  have seq: "check_msg_status (sp_current_seq_num F) (ad_seq_num ?a) = Some Expected"
    using F L(2) by (simp add: following_def check_msg_status_Expected next_sn_def)
  have cm: "cache_matches (vw (sp_internal_storage L)) (is_cache (sp_internal_storage L))" "cache_matches (vw ?st) (is_cache ?st)"
    and pid: "b_pid ?n = sp_pid L" and ss: "v_stopsign (vw (sp_internal_storage L)) = None"
    using L(1) FF(1) by (auto simp: leading_def is_coherent_def cache_matches_def is_get_stopsign_def)
  have no_ss: "is_get_stopsign ?st = None" using log ss cm(2) by (simp add: same_log_def cache_matches_def is_get_stopsign_def)
  have acc: "is_get_accepted_idx ?st = is_get_accepted_idx (sp_internal_storage L)"
    using log cm by (simp add: same_log_def cache_matches_accepted is_get_accepted_idx_def)
  let ?acc = "is_get_accepted_idx ?st + 1"
  define d where "d = adopt_decided (sp_get_decided_idx F) ?acc (sp_get_decided_idx L)"
  obtain s where h: "handle_acceptdecide S ?a F = Some (push_msg (b_pid ?n) (Accepted \<lparr>acc_n = ?n, acc_accepted_idx = ?acc\<rparr>)
      (F\<lparr>sp_internal_storage := \<lparr>is_storage = s, is_cache = (is_cache ?st)\<lparr>c_accepted_idx := ?acc, c_decided_idx := d\<rparr>\<rparr>,
          sp_current_seq_num := ad_seq_num ?a, sp_latest_accepted_meta := Some (?n, length (sp_outgoing F))\<rparr>))"
    and s: "sinv s" "view s = (vw ?st)\<lparr>v_log := v_log (vw ?st) @ [e], v_decided_idx := d\<rparr>"
    using follower_accepts [OF FF(1-4) _ no_ss FF(5) seq] unfolding d_def by auto
  define F2 where "F2 = F\<lparr>sp_internal_storage := \<lparr>is_storage = s, is_cache = (is_cache ?st)\<lparr>c_accepted_idx := ?acc, c_decided_idx := d\<rparr>\<rparr>,
      sp_current_seq_num := ad_seq_num ?a, sp_latest_accepted_meta := None, sp_outgoing := [],
      sp_leader_state := reset_latest_accept_meta (sp_leader_state F)\<rparr>"
  have take: "take_outgoing_msgs [] (push_msg (b_pid ?n) (Accepted \<lparr>acc_n = ?n, acc_accepted_idx = ?acc\<rparr>)
      (F\<lparr>sp_internal_storage := \<lparr>is_storage = s, is_cache = (is_cache ?st)\<lparr>c_accepted_idx := ?acc, c_decided_idx := d\<rparr>\<rparr>,
          sp_current_seq_num := ad_seq_num ?a, sp_latest_accepted_meta := Some (?n, length (sp_outgoing F))\<rparr>)) =
      ([paxos_envelope p (sp_pid L) (Accepted \<lparr>acc_n = ?n, acc_accepted_idx = ?acc\<rparr>)], F2)"
    using FF(6,7) pid by (cases F) (simp add: take_outgoing_msgs_def push_msg_def F2_def)
  have "d \<le> ?acc" using F by (auto simp: d_def adopt_decided_def following_def)
  moreover have "same_log (vw (sp_internal_storage L2)) (view s)"
    using same_log_append [OF log ss, where es = "[e]" and d = "v_decided_idx (vw (sp_internal_storage L))" and d' = d] s L2(3) by simp
  moreover have "is_coherent sinv view (sp_internal_storage F2)"
    using s FF(1) no_ss by (auto simp: F2_def is_coherent_def cache_matches_def is_get_defs)
  ultimately have "following sinv view L2 p F2"
    using F L2(1,2) s(2) by (auto simp: following_def F2_def unbatched_def sp_get_promise_def is_get_defs moved_def same_round_def sp_get_decided_idx_def)
  then show ?thesis using h take acc by auto
qed

lemma round_decide:
  assumes L: "leading sinv view L" and fs: "get_promised_followers (sp_leader_state L) = Some fs" "distinct fs"
      "\<forall>p \<in> set fs. known_pid (sp_leader_state L) p \<and> sn_counter (seq_of (sp_leader_state L) p) \<noteq> - 1"
    and ps: "ps \<noteq> []" "distinct ps" "set ps \<subseteq> set fs" "sp_pid L \<notin> set ps" "is_accept_quorum (ls_quorum (sp_leader_state L)) (Suc (length ps))"
    and new: "sp_get_decided_idx L < is_get_accepted_idx (sp_internal_storage L)"
      "accepted_indexes (sp_leader_state L) ! (sp_pid L - 1) = is_get_accepted_idx (sp_internal_storage L)"
  shows "\<exists>L3 L4. tally (n_leader (sp_leader_state L)) (is_get_accepted_idx (sp_internal_storage L)) ps L = Some L3 \<and>
    take_outgoing_msgs [] L3 = (map (\<lambda>p. paxos_envelope (sp_pid L) p (Decide \<lparr>dec_n = n_leader (sp_leader_state L),
      dec_seq_num = next_sn (seq_of (sp_leader_state L) p), dec_decided_idx = is_get_accepted_idx (sp_internal_storage L)\<rparr>)) fs, L4) \<and>
    leading sinv view L4 \<and> moved fs L L4 \<and>
    vw (sp_internal_storage L4) = (vw (sp_internal_storage L))\<lparr>v_decided_idx := is_get_accepted_idx (sp_internal_storage L)\<rparr> \<and>
    is_get_accepted_idx (sp_internal_storage L4) = is_get_accepted_idx (sp_internal_storage L) \<and>
    sp_get_decided_idx L4 = is_get_accepted_idx (sp_internal_storage L)"
proof -
  let ?st = "sp_internal_storage L" and ?ls = "sp_leader_state L"
  let ?i = "is_get_accepted_idx ?st" and ?n = "n_leader ?ls"
  let ?a = "fold (\<lambda>p a. a[p - 1 := ?i]) ps (accepted_indexes ?ls)"
  let ?out = "map (\<lambda>p. paxos_envelope (sp_pid L) p (Decide \<lparr>dec_n = ?n, dec_seq_num = next_sn (seq_of ?ls p), dec_decided_idx = ?i\<rparr>)) fs"
  have LL: "sinv (is_storage ?st)" "sp_state L = (Leader, PhaseAccept)" "wf_leader ?ls" "known_pid ?ls (sp_pid L)" "sp_outgoing L = []"
    "cache_matches (vw ?st) (is_cache ?st)"
    using L by (auto simp: leading_def is_coherent_def)
  have kn: "\<forall>p \<in> set ps. known_pid ?ls p" using fs(3) ps(3) by blast
  have chosen: "is_chosen ?i (?ls\<lparr>accepted_indexes := ?a\<rparr>)"
    using answers_chosen [OF LL(3,4) kn ps(2,4) _ ps(5)] new(2) by simp
  let ?st3 = "\<lambda>s. \<lparr>is_storage = s, is_cache = (is_cache ?st)\<lparr>c_decided_idx := ?i\<rparr>\<rparr>"
  obtain s ls' where t: "tally ?n ?i ps L = Some (L\<lparr>sp_internal_storage := ?st3 s, sp_leader_state := ls', sp_outgoing := ?out\<rparr>)"
    and s: "sinv s" "view s = (vw ?st)\<lparr>v_decided_idx := ?i\<rparr>" and sent: "sent_to fs (?ls\<lparr>accepted_indexes := ?a\<rparr>) ls'"
    using leader_decides [OF LL(1,2) new(1) LL(3) refl kn fs(1,2) leading_reachable [OF L fs(3)] ps(1) chosen] unfolding LL(5) append_Nil by blast
  define L4 where "L4 = L\<lparr>sp_internal_storage := ?st3 s, sp_leader_state := reset_latest_accept_meta ls', sp_outgoing := [], sp_latest_accepted_meta := None\<rparr>"
  have take: "take_outgoing_msgs [] (L\<lparr>sp_internal_storage := ?st3 s, sp_leader_state := ls', sp_outgoing := ?out\<rparr>) = (?out, L4)"
    by (cases L) (simp add: take_outgoing_msgs_def L4_def)
  have mv: "moved fs L L4" "wf_leader (sp_leader_state L4)" "latest_accept_meta (sp_leader_state L4) = replicate (max_pid (sp_leader_state L4)) None"
    using sent_to_moved [OF sent refl, of L4] fs(3) LL(3) by (auto simp: L4_def)
  have "leading sinv view L4"
    using L mv s LL(6) by (auto simp: leading_def moved_def same_round_def known_pid_def is_coherent_def cache_matches_def L4_def
        is_get_defs unbatched_def sp_get_decided_idx_def)
  moreover have "vw (sp_internal_storage L4) = (vw ?st)\<lparr>v_decided_idx := ?i\<rparr>" "is_get_accepted_idx (sp_internal_storage L4) = ?i" "sp_get_decided_idx L4 = ?i"
    using s by (simp_all add: L4_def is_get_defs sp_get_decided_idx_def)
  ultimately show ?thesis using t take mv(1) by (intro exI conjI) (assumption | simp only:)+
qed

lemma round_learn:
  assumes F: "following sinv view L p F" "sp_get_decided_idx F \<le> i" and L: "leading sinv view L" "sn_counter (seq_of (sp_leader_state L) p) \<noteq> - 1"
    and i: "i = is_get_accepted_idx (sp_internal_storage L)"
    and L4: "moved fs L L4" "p \<in> set fs" "vw (sp_internal_storage L4) = (vw (sp_internal_storage L))\<lparr>v_decided_idx := i\<rparr>"
  shows "\<exists>F3. handle_decide S \<lparr>dec_n = n_leader (sp_leader_state L), dec_seq_num = next_sn (seq_of (sp_leader_state L) p), dec_decided_idx = i\<rparr> F = Some F3 \<and>
     following sinv view L4 p F3 \<and> sp_get_decided_idx F3 = i"
proof -
  let ?st = "sp_internal_storage F"
  let ?m = "\<lparr>dec_n = n_leader (sp_leader_state L), dec_seq_num = next_sn (seq_of (sp_leader_state L) p), dec_decided_idx = i\<rparr>"
  have FF: "is_coherent sinv view ?st" "sp_state F = (Follower, PhaseAccept)" "unbatched ?st" "ballot_key (sp_get_promise F) = ballot_key (dec_n ?m)"
    and log: "same_log (vw (sp_internal_storage L)) (vw ?st)"
    using F(1) by (auto simp: following_def)
  have seq: "check_msg_status (sp_current_seq_num F) (dec_seq_num ?m) = Some Expected"
    using F(1) L(2) by (simp add: following_def check_msg_status_Expected next_sn_def)
  have "cache_matches (vw (sp_internal_storage L)) (is_cache (sp_internal_storage L))" "cache_matches (vw ?st) (is_cache ?st)"
    using L(1) FF(1) by (auto simp: leading_def is_coherent_def)
  then have acc: "i = is_get_accepted_idx ?st"
    using log i by (simp add: same_log_def cache_matches_accepted is_get_accepted_idx_def)
  obtain s where h: "handle_decide S ?m F = Some (F\<lparr>sp_internal_storage := \<lparr>is_storage = s, is_cache = (is_cache ?st)\<lparr>c_decided_idx := i\<rparr>\<rparr>,
      sp_current_seq_num := dec_seq_num ?m\<rparr>)" and s: "sinv s" "view s = (vw ?st)\<lparr>v_decided_idx := i\<rparr>"
    using follower_decides [OF FF seq] F(2) acc by auto
  have "same_log (vw (sp_internal_storage L4)) (view s)"
    using same_log_decided [OF log] s L4(3) by simp
  then have "following sinv view L4 p (F\<lparr>sp_internal_storage := \<lparr>is_storage = s, is_cache = (is_cache ?st)\<lparr>c_decided_idx := i\<rparr>\<rparr>,
      sp_current_seq_num := dec_seq_num ?m\<rparr>)"
    using F(1) L4(1,2) s acc FF(1)
    by (auto simp: following_def unbatched_def sp_get_promise_def is_get_defs moved_def same_round_def sp_get_decided_idx_def is_coherent_def cache_matches_def)
  then show ?thesis using h by (auto simp: sp_get_decided_idx_def is_get_defs)
qed

end

section \<open>Rounds\<close>

text \<open>The counters of the followers have room for \<open>k\<close> more rounds of two messages.\<close>

definition counter_room :: "nat \<Rightarrow> node_id list \<Rightarrow> ('t, 'c, 'p) leader_state \<Rightarrow> bool" where
  "counter_room k fs ls \<longleftrightarrow> (\<forall>p \<in> set fs. unat (sn_counter (seq_of ls p)) + 2 * k < 2 ^ 64)"

lemma counter_step:
  assumes "unat (c :: u64) + 1 < 2 ^ 64"
  shows "c \<noteq> - 1" "unat (c + 1) = unat c + 1"
proof -
  show ne: "c \<noteq> - 1" using assms by (auto simp: unsigned_minus_1_eq_mask mask_eq_exp_minus_1)
  show "unat (c + 1) = unat c + 1" using ne by (metis Suc_eq_plus1 unatSuc add.commute add_eq_0_iff)
qed

lemma counter_room_moved:
  assumes "moved fs L L'" "\<forall>p \<in> set fs. unat (sn_counter (seq_of (sp_leader_state L) p)) + Suc n < 2 ^ 64"
  shows "\<forall>p \<in> set fs. unat (sn_counter (seq_of (sp_leader_state L') p)) + n < 2 ^ 64"
  using assms counter_step(2) by (fastforce simp: moved_def next_sn_def)

text \<open>A leader, its followers of the round, and those of them that take part.\<close>

definition replicating ::
  "('s \<Rightarrow> bool) \<Rightarrow> ('s \<Rightarrow> ('t, 'c, 'p) storage_view) \<Rightarrow> node_id list \<Rightarrow> ('s, 't, 'c, 'p) sequence_paxos \<Rightarrow>
     (node_id \<Rightarrow> ('s, 't, 'c, 'p) sequence_paxos) \<Rightarrow> bool" where
  "replicating sinv view ps L F \<longleftrightarrow> leading sinv view L \<and> ps \<noteq> [] \<and> distinct ps \<and>
     (\<forall>p \<in> set ps. p \<noteq> sp_pid L \<and> known_pid (sp_leader_state L) p \<and> is_promised (promises_meta (sp_leader_state L) ! (p - 1)) \<and>
        following sinv view L p (F p)) \<and>
     is_accept_quorum (ls_quorum (sp_leader_state L)) (Suc (length ps))"

lemma leading_followers:
  assumes "leading sinv view L"
  obtains fs where "get_promised_followers (sp_leader_state L) = Some fs" "distinct fs" "\<forall>p \<in> set fs. known_pid (sp_leader_state L) p"
    "\<And>p. p \<noteq> sp_pid L \<Longrightarrow> known_pid (sp_leader_state L) p \<Longrightarrow> is_promised (promises_meta (sp_leader_state L) ! (p - 1)) \<Longrightarrow> p \<in> set fs"
proof -
  have "1 \<le> b_pid (n_leader (sp_leader_state L))" using assms by (auto simp: leading_def known_pid_def)
  from get_promised_followers_eq [OF this] assms that show thesis by (auto simp: leading_def known_pid_def wf_leader_def)
qed

lemma moved_followers: "moved fs L L' \<Longrightarrow> get_promised_followers (sp_leader_state L') = get_promised_followers (sp_leader_state L)"
  by (simp add: moved_def same_round_def get_promised_followers_def)

lemma moved_known: "moved fs L L' \<Longrightarrow> known_pid (sp_leader_state L') = known_pid (sp_leader_state L)"
  by (simp add: moved_def same_round_def known_pid_def fun_eq_iff)

context storage_contract
begin

lemma commit_round_ok:
  assumes R: "replicating sinv view ps L F"
    and fs: "get_promised_followers (sp_leader_state L) = Some fs" and room: "counter_room (Suc k) fs (sp_leader_state L)"
  defines "i \<equiv> is_get_accepted_idx (sp_internal_storage L) + 1"
  shows "\<exists>L' F'. commit_round S P e ps L F = Some (L', F') \<and> replicating sinv view ps L' F' \<and>
    get_promised_followers (sp_leader_state L') = Some fs \<and> counter_room k fs (sp_leader_state L') \<and>
    vw (sp_internal_storage L') = (vw (sp_internal_storage L))\<lparr>v_log := v_log (vw (sp_internal_storage L)) @ [e], v_decided_idx := i\<rparr> \<and>
    is_get_accepted_idx (sp_internal_storage L') = i \<and> (\<forall>p \<in> set ps. sp_get_decided_idx (F' p) = i)"
proof -
  let ?n = "n_leader (sp_leader_state L)" and ?l = "sp_pid L"
  have L: "leading sinv view L" and ps: "ps \<noteq> []" "distinct ps" "?l \<notin> set ps" "is_accept_quorum (ls_quorum (sp_leader_state L)) (Suc (length ps))"
    and fol: "\<And>p. p \<in> set ps \<Longrightarrow> following sinv view L p (F p)"
    using R by (auto simp: replicating_def)
  have fsd: "distinct fs" "\<forall>p \<in> set fs. known_pid (sp_leader_state L) p" and sub: "set ps \<subseteq> set fs"
    using leading_followers [OF L] R fs by (auto simp: replicating_def elim!: leading_followers [OF L])
  have r0: "\<forall>p \<in> set fs. unat (sn_counter (seq_of (sp_leader_state L) p)) + Suc (Suc (2 * k)) < 2 ^ 64"
    using room by (auto simp: counter_room_def)
  then have c0: "\<forall>p \<in> set fs. known_pid (sp_leader_state L) p \<and> sn_counter (seq_of (sp_leader_state L) p) \<noteq> - 1"
    using fsd(2) counter_step(1) by fastforce
  obtain L1 L2 where app: "sp_append S e L = Some (Inr (), L1)"
    and out1: "take_outgoing_msgs [] L1 = (map (\<lambda>p. paxos_envelope ?l p (AcceptDecide \<lparr>ad_n = ?n,
      ad_seq_num = next_sn (seq_of (sp_leader_state L) p), ad_decided_idx = sp_get_decided_idx L, ad_entries = [e]\<rparr>)) fs, L2)"
    and L2: "leading sinv view L2" "moved fs L L2" "vw (sp_internal_storage L2) = (vw (sp_internal_storage L))\<lparr>v_log := v_log (vw (sp_internal_storage L)) @ [e]\<rparr>"
      "is_get_accepted_idx (sp_internal_storage L2) = i" "sp_get_decided_idx L2 = sp_get_decided_idx L" "accepted_indexes (sp_leader_state L2) ! (?l - 1) = i"
    using round_append [OF L fs fsd(1) c0, of e] unfolding i_def by blast
  have r2: "\<forall>p \<in> set fs. unat (sn_counter (seq_of (sp_leader_state L2) p)) + Suc (2 * k) < 2 ^ 64"
    using counter_room_moved [OF L2(2) r0] .
  then have c2: "\<forall>p \<in> set fs. known_pid (sp_leader_state L2) p \<and> sn_counter (seq_of (sp_leader_state L2) p) \<noteq> - 1"
    using fsd(2) counter_step(1) moved_known [OF L2(2)] by fastforce
  have same: "n_leader (sp_leader_state L2) = ?n" "sp_pid L2 = ?l" "ls_quorum (sp_leader_state L2) = ls_quorum (sp_leader_state L)"
    using L2(2) by (auto simp: moved_def same_round_def)
  have "\<forall>p \<in> set ps. \<exists>F1 F2. handle_acceptdecide S \<lparr>ad_n = ?n, ad_seq_num = next_sn (seq_of (sp_leader_state L) p),
       ad_decided_idx = sp_get_decided_idx L, ad_entries = [e]\<rparr> (F p) = Some F1 \<and>
     take_outgoing_msgs [] F1 = ([paxos_envelope p ?l (Accepted \<lparr>acc_n = ?n, acc_accepted_idx = i\<rparr>)], F2) \<and> following sinv view L2 p F2"
    using round_follow [OF fol L _ L2(2) _ L2(3)] c0 sub unfolding i_def by blast
  then obtain F1 F2 where F1: "\<And>p. p \<in> set ps \<Longrightarrow> handle_acceptdecide S \<lparr>ad_n = ?n, ad_seq_num = next_sn (seq_of (sp_leader_state L) p),
       ad_decided_idx = sp_get_decided_idx L, ad_entries = [e]\<rparr> (F p) = Some (F1 p)"
    and F2: "\<And>p. p \<in> set ps \<Longrightarrow> take_outgoing_msgs [] (F1 p) = ([paxos_envelope p ?l (Accepted \<lparr>acc_n = ?n, acc_accepted_idx = i\<rparr>)], F2 p)"
      "\<And>p. p \<in> set ps \<Longrightarrow> following sinv view L2 p (F2 p)"
    by metis
  let ?F1 = "\<lambda>p. if p \<in> set ps then F1 p else F p" and ?F2 = "\<lambda>p. if p \<in> set ps then F2 p else F p"
  have to1: "to_followers S P (fst (take_outgoing_msgs [] L1)) ps F = Some ?F1"
    unfolding to_followers_def using F1 sub fsd(1) ps(2)
    by (intro for_each_nodes) (auto simp: deliver_def out1 to_node_envelopes sp_handle_def)
  obtain L3 L4 where tal: "tally ?n i ps L2 = Some L3"
    and out3: "take_outgoing_msgs [] L3 = (map (\<lambda>p. paxos_envelope ?l p (Decide \<lparr>dec_n = ?n,
      dec_seq_num = next_sn (seq_of (sp_leader_state L2) p), dec_decided_idx = i\<rparr>)) fs, L4)"
    and L4: "leading sinv view L4" "moved fs L2 L4" "vw (sp_internal_storage L4) = (vw (sp_internal_storage L2))\<lparr>v_decided_idx := i\<rparr>"
      "is_get_accepted_idx (sp_internal_storage L4) = i"
    using round_decide [OF L2(1) _ fsd(1) c2 ps(1,2) sub] ps(3,4) fs moved_followers [OF L2(2)] same L2(4-6) L
    by (auto simp: leading_def i_def)
  have ans: "answers S P ?l ps L2 ?F1 = Some (L3, ?F2)"
  proof -
    have "for_each (\<lambda>p. deliver S P ?l (fst (take_outgoing_msgs [] (?F1 p)))) ps L2 = tally ?n i ps L2"
      using F2(1) by (intro for_each_cong) (auto simp: fun_eq_iff deliver_one [OF to_node_one] sp_handle_def)
    moreover have "(\<lambda>p. if p \<in> set ps then snd (take_outgoing_msgs [] (?F1 p)) else ?F1 p) = ?F2" using F2(1) by (intro ext) auto
    ultimately show ?thesis using answers_eq [OF ps(2), of S P ?l L2 ?F1] tal by simp
  qed
  have "\<forall>p \<in> set ps. \<exists>F3. handle_decide S \<lparr>dec_n = ?n, dec_seq_num = next_sn (seq_of (sp_leader_state L2) p), dec_decided_idx = i\<rparr> (F2 p) = Some F3 \<and>
     following sinv view L4 p F3 \<and> sp_get_decided_idx F3 = i"
  proof
    fix p assume p: "p \<in> set ps"
    have "sp_get_decided_idx (F2 p) \<le> i"
      using F2(2) [OF p] L2(1,4) by (auto simp: following_def leading_def is_coherent_def same_log_def cache_matches_accepted is_get_accepted_idx_def)
    from round_learn [OF F2(2) [OF p] this L2(1) _ _ L4(2) _ L4(3)] p sub c2 L2(4)
    show "\<exists>F3. handle_decide S \<lparr>dec_n = ?n, dec_seq_num = next_sn (seq_of (sp_leader_state L2) p), dec_decided_idx = i\<rparr> (F2 p) = Some F3 \<and>
        following sinv view L4 p F3 \<and> sp_get_decided_idx F3 = i"
      using same(1) by auto
  qed
  then obtain F3 where F3: "\<And>p. p \<in> set ps \<Longrightarrow> handle_decide S \<lparr>dec_n = ?n, dec_seq_num = next_sn (seq_of (sp_leader_state L2) p), dec_decided_idx = i\<rparr> (F2 p) = Some (F3 p)"
    "\<And>p. p \<in> set ps \<Longrightarrow> following sinv view L4 p (F3 p)" "\<And>p. p \<in> set ps \<Longrightarrow> sp_get_decided_idx (F3 p) = i"
    by metis
  let ?F3 = "\<lambda>p. if p \<in> set ps then F3 p else ?F2 p"
  have to3: "to_followers S P (fst (take_outgoing_msgs [] L3)) ps ?F2 = Some ?F3"
    unfolding to_followers_def using F3(1) sub fsd(1) ps(2)
    by (intro for_each_nodes) (auto simp: deliver_def out3 to_node_envelopes sp_handle_def)
  have "commit_round S P e ps L F = Some (L4, ?F3)"
    using app out1 to1 ans out3 to3 by (simp add: commit_round_def)
  moreover have "replicating sinv view ps L4 ?F3"
    using R L4(1,2) L2(2) F3(2) by (auto simp: replicating_def moved_def same_round_def known_pid_def)
  moreover have "get_promised_followers (sp_leader_state L4) = Some fs" using fs moved_followers [OF L2(2)] moved_followers [OF L4(2)] by simp
  moreover have "counter_room k fs (sp_leader_state L4)" using counter_room_moved [OF L4(2) r2] by (simp add: counter_room_def)
  ultimately show ?thesis using L4(3,4) L2(3) F3(3) by (intro exI conjI) (assumption | simp)+
qed

text \<open>Entry after entry.\<close>

lemma commit_rounds_ok:
  assumes "replicating sinv view ps L F" "get_promised_followers (sp_leader_state L) = Some fs"
    "counter_room (length es) fs (sp_leader_state L)" "es \<noteq> []"
  shows "\<exists>L' F'. for_each (\<lambda>e (L, F). commit_round S P e ps L F) es (L, F) = Some (L', F') \<and> replicating sinv view ps L' F' \<and>
    v_log (vw (sp_internal_storage L')) = v_log (vw (sp_internal_storage L)) @ es \<and>
    sp_get_decided_idx L' = is_get_accepted_idx (sp_internal_storage L) + length es \<and>
    (\<forall>p \<in> set ps. sp_get_decided_idx (F' p) = is_get_accepted_idx (sp_internal_storage L) + length es)"
  using assms
proof (induction es arbitrary: L F)
  case (Cons e es)
  let ?i = "is_get_accepted_idx (sp_internal_storage L) + 1"
  obtain L1 F1 where r: "commit_round S P e ps L F = Some (L1, F1)" "replicating sinv view ps L1 F1"
    "get_promised_followers (sp_leader_state L1) = Some fs" "counter_room (length es) fs (sp_leader_state L1)"
    "vw (sp_internal_storage L1) = (vw (sp_internal_storage L))\<lparr>v_log := v_log (vw (sp_internal_storage L)) @ [e], v_decided_idx := ?i\<rparr>"
    "is_get_accepted_idx (sp_internal_storage L1) = ?i" "\<forall>p \<in> set ps. sp_get_decided_idx (F1 p) = ?i"
    using commit_round_ok [OF Cons.prems(1,2), of "length es" P e] Cons.prems(3) by auto
  have "sp_get_decided_idx L1 = ?i"
    using r(2,5) by (auto simp: replicating_def leading_def is_coherent_def cache_matches_def sp_get_decided_idx_def is_get_defs)
  then show ?case using r Cons.IH [OF r(2-4)] by (cases "es = []") auto
qed simp

end

end
