(* ===== verification/Replica_Messages.thy ===== *)
theory Replica_Messages
  imports Replica_Invariants
begin

text \<open>
  What a replica tells the others about its promise. Every promise it sends, or keeps for sending again, names a round that it has
  promised; and its book of promises changes only by promises that it receives. Most steps are \<open>quiet\<close>: they add no promise
  to the book or to the outgoing messages and do not begin the accept phase.
\<close>

section \<open>Quiet steps\<close>

definition plain_msg :: "('t, 'c, 'p) paxos_msg \<Rightarrow> bool" where
  "plain_msg m = (case m of Promise _ \<Rightarrow> False | _ \<Rightarrow> True)"

lemma plain_msg_simps [simp]:
  "plain_msg (PrepareReq a)" "plain_msg (Prepare b)" "\<not> plain_msg (Promise c)" "plain_msg (AcceptSync d)" "plain_msg (AcceptDecide e)"
  "plain_msg (NotAccepted f)" "plain_msg (Accepted g)" "plain_msg (Decide h)" "plain_msg (ProposalForward i)" "plain_msg (Compaction j)"
  "plain_msg (AcceptStopSign k)" "plain_msg (ForwardStopSign l)"
  by (simp_all add: plain_msg_def)

definition from_own :: "node_id \<Rightarrow> ('t, 'c, 'p) message \<Rightarrow> bool" where
  "from_own pid m \<longleftrightarrow> (\<exists>pm. m = SequencePaxosMsg pm \<and> pm_from pm = pid)"

definition own_plain :: "node_id \<Rightarrow> ('t, 'c, 'p) message \<Rightarrow> bool" where
  "own_plain pid m \<longleftrightarrow> (\<exists>pm. m = SequencePaxosMsg pm \<and> pm_from pm = pid \<and> plain_msg (pm_msg pm))"

lemma own_plain_from: "own_plain pid m \<Longrightarrow> from_own pid m"
  by (auto simp: own_plain_def from_own_def)

lemma own_plain_envelope [simp]: "own_plain pid (paxos_envelope p to msg) \<longleftrightarrow> p = pid \<and> plain_msg msg"
  by (auto simp: own_plain_def)

definition adds_plain :: "('s, 't, 'c, 'p) sequence_paxos \<Rightarrow> ('s, 't, 'c, 'p) sequence_paxos \<Rightarrow> bool" where
  "adds_plain sp sp' \<longleftrightarrow> sp_pid sp' = sp_pid sp \<and> ((\<forall>m \<in> set (sp_outgoing sp). from_own (sp_pid sp) m) \<longrightarrow>
     (\<forall>m \<in> set (sp_outgoing sp'). m \<in> set (sp_outgoing sp) \<or> own_plain (sp_pid sp) m))"

lemma adds_plain_trans: "adds_plain a b \<Longrightarrow> adds_plain b c \<Longrightarrow> adds_plain a c"
  unfolding adds_plain_def using own_plain_from by metis

definition quiet :: "('s, 't, 'c, 'p) sequence_paxos \<Rightarrow> ('s, 't, 'c, 'p) sequence_paxos \<Rightarrow> bool" where
  "quiet sp sp' \<longleftrightarrow> adds_plain sp sp' \<and>
     n_leader (sp_leader_state sp') = n_leader (sp_leader_state sp) \<and>
     promised_pids (sp_leader_state sp') \<subseteq> promised_pids (sp_leader_state sp) \<and>
     (sp_state sp' = (Leader, PhaseAccept) \<longrightarrow> sp_state sp = (Leader, PhaseAccept)) \<and>
     (sp_cached_promise_message sp' = None \<or> sp_cached_promise_message sp' = sp_cached_promise_message sp)"

lemma adds_plain_refl [simp]: "adds_plain sp sp"
  by (simp add: adds_plain_def)

lemma quiet_refl [simp]: "quiet sp sp"
  by (simp add: quiet_def)

lemma quiet_trans [trans]: "quiet a b \<Longrightarrow> quiet b c \<Longrightarrow> quiet a c"
  by (auto simp: quiet_def intro: adds_plain_trans)

lemma quiet_same_out:
  assumes "sp_outgoing sp' = sp_outgoing sp" "sp_pid sp' = sp_pid sp" "sp_leader_state sp' = sp_leader_state sp"
    "sp_state sp' = sp_state sp \<or> snd (sp_state sp') \<noteq> PhaseAccept \<or> fst (sp_state sp') \<noteq> Leader"
    "sp_cached_promise_message sp' = None \<or> sp_cached_promise_message sp' = sp_cached_promise_message sp"
  shows "quiet sp sp'"
  using assms by (auto simp: quiet_def adds_plain_def)

lemma sends_quiet: "sends sp sp' \<Longrightarrow> adds_plain sp sp' \<Longrightarrow> quiet sp sp'"
  by (auto simp: quiet_def sends_fields promised_pids_def sends_leader_def same_round_def dest: sends_fields(10))

lemma quiet_leader:
  assumes "n_leader ls = n_leader (sp_leader_state sp)" "promised_pids ls \<subseteq> promised_pids (sp_leader_state sp)"
  shows "quiet sp (upd_leader ls sp)"
  using assms by (simp add: quiet_def adds_plain_def)

lemma quiet_storage [simp]: "quiet sp (upd_storage st sp)"
  by (simp add: quiet_def adds_plain_def)

lemma quiet_storageD: "quiet (upd_storage st sp) sp' \<Longrightarrow> quiet sp sp'"
  by (rule quiet_trans [OF quiet_storage])

lemma push_msg_plain [simp]: "plain_msg msg \<Longrightarrow> adds_plain sp (push_msg to msg sp)"
  by (auto simp: adds_plain_def)

lemma push_to_peers_plain [simp]: "plain_msg msg \<Longrightarrow> adds_plain sp (push_to_peers msg sp)"
  by (auto simp: adds_plain_def push_to_peers_eq)

lemma push_quiet [simp]:
  "plain_msg msg \<Longrightarrow> quiet sp (push_msg to msg sp)" "plain_msg msg \<Longrightarrow> quiet sp (push_to_peers msg sp)" "quiet sp (send_prepare to sp)"
  by (simp_all add: sends_quiet send_prepare_def Let_def)

lemma set_outgoing_quiet [simp]:
  assumes "plain_msg msg"
  shows "quiet sp (set_outgoing_msg i msg sp)"
proof (rule sends_quiet)
  show "adds_plain sp (set_outgoing_msg i msg sp)"
  proof (cases "i < length (sp_outgoing sp)")
    case True
    have "own_plain (sp_pid sp) (case sp_outgoing sp ! i of SequencePaxosMsg pm \<Rightarrow> SequencePaxosMsg (pm\<lparr>pm_msg := msg\<rparr>) | BLEMsg b \<Rightarrow> BLEMsg b)"
      if "from_own (sp_pid sp) (sp_outgoing sp ! i)"
      using that assms by (auto simp: from_own_def own_plain_def)
    with True show ?thesis
      by (auto simp: adds_plain_def set_outgoing_msg_def dest!: set_update_subset_insert [THEN subsetD])
  qed (simp add: adds_plain_def set_outgoing_msg_def list_update_beyond)
qed simp

lemma for_each_quiet:
  assumes "for_each f xs sp = Some sp'" "\<And>x s s'. f x s = Some s' \<Longrightarrow> quiet s s'"
  shows "quiet sp sp'"
  by (rule for_each_inv [OF assms(1), of "quiet sp"]) (auto intro: quiet_trans assms(2))

section \<open>The leader's sending\<close>

lemma book_quiet:
  "set_latest_accept_meta pid j (sp_leader_state sp) = Some ls \<Longrightarrow> quiet sp (upd_leader ls sp)"
  "next_seq_num pid (sp_leader_state sp) = Some (sn, ls) \<Longrightarrow> quiet sp (upd_leader ls sp)"
  "set_accepted_idx pid i (sp_leader_state sp) = Some ls \<Longrightarrow> quiet sp (upd_leader ls sp)"
  by (auto intro!: quiet_leader simp: set_latest_accept_meta_eq next_seq_num_eq set_accepted_idx_eq promised_pids_def)

lemma reset_cell_quiet:
  "set_promise_state st pid (sp_leader_state sp) = Some ls \<Longrightarrow> \<not> is_promised st \<Longrightarrow> quiet sp (upd_leader ls sp)"
  by (intro quiet_leader) (auto simp: set_promise_state_eq promised_pids_def nth_list_update split: if_splits)

lemma quiet_push: "quiet sp sp1 \<Longrightarrow> plain_msg msg \<Longrightarrow> quiet sp (push_msg to msg sp1)"
  by (rule quiet_trans [OF _ push_quiet(1)])

lemma send_acceptdecide_to_quiet: "send_acceptdecide_to am pid sp = Some sp' \<Longrightarrow> quiet sp sp'"
proof -
  assume h: "send_acceptdecide_to am pid sp = Some sp'"
  then consider i msg where "sp' = set_outgoing_msg i (AcceptDecide msg) sp" | ls msg where "sp' = push_msg pid (AcceptDecide msg) (upd_leader ls sp)"
    by (auto simp: send_acceptdecide_to_def Let_def bind_eq_Some_conv split: option.split_asm)
  then show "quiet sp sp'"
  proof cases
    case 2
    then show ?thesis using sends_quiet [OF send_acceptdecide_to_sends [OF h]] by (auto simp: adds_plain_def)
  qed simp
qed

lemma send_acceptdecide_quiet: "send_acceptdecide am sp = Some sp' \<Longrightarrow> quiet sp sp'"
  by (auto simp: send_acceptdecide_def bind_eq_Some_conv intro: for_each_quiet send_acceptdecide_to_quiet)

lemma leader_seq_num_quiet: "leader_seq_num resend to sp = Some (sn, sp') \<Longrightarrow> quiet sp sp'"
  by (auto simp: leader_seq_num_def bind_eq_Some_conv split: if_splits intro: book_quiet)

lemma numbered_quiet:
  "send_accept_stopsign to ss resend sp = Some sp' \<Longrightarrow> quiet sp sp'" "send_decide to d resend sp = Some sp' \<Longrightarrow> quiet sp sp'"
  by (auto simp: send_accept_stopsign_def send_decide_def bind_eq_Some_conv intro!: quiet_push dest: leader_seq_num_quiet)

lemma announce_decided_quiet: "announce_decided d pid sp = Some sp' \<Longrightarrow> quiet sp sp'"
  by (auto simp: announce_decided_def bind_eq_Some_conv split: option.splits intro: numbered_quiet)

lemma send_accsync_quiet: "send_accsync S P to sp = Some sp' \<Longrightarrow> quiet sp sp'"
  using send_accsync_sends [of S P to sp sp']
  by (auto simp: send_accsync_def Let_def bind_eq_Some_conv intro!: sends_quiet) (auto simp: adds_plain_def)

lemma resend_prepares_quiet: "resend_prepares sp = Some sp' \<Longrightarrow> quiet sp sp'"
proof -
  have "quiet sp (fold send_prepare ps sp)" for ps
    by (induction ps arbitrary: sp) (auto intro: quiet_trans [OF push_quiet(3)])
  then show "resend_prepares sp = Some sp' \<Longrightarrow> quiet sp sp'" by (auto simp: resend_prepares_def bind_eq_Some_conv)
qed

lemma resend_messages_leader_quiet: "resend_messages_leader sp = Some sp' \<Longrightarrow> quiet sp sp'"
proof -
  have "resend_stopsign_to ss d pid sp = Some sp' \<Longrightarrow> quiet sp sp'" for ss d pid and sp sp' :: "('a, 'b, 'c, 'd) sequence_paxos"
    by (auto simp: resend_stopsign_to_def bind_eq_Some_conv split: if_splits intro: numbered_quiet)
  then show "resend_messages_leader sp = Some sp' \<Longrightarrow> quiet sp sp'"
    by (auto simp: resend_messages_leader_def bind_eq_Some_conv Let_def split: phase.splits option.splits
        dest!: resend_prepares_quiet) (meson for_each_quiet quiet_trans)
qed

section \<open>Appending\<close>

lemma after_leader_append_quiet: "after_leader_append am sp = Some sp' \<Longrightarrow> quiet sp sp'"
  by (auto simp: after_leader_append_def bind_eq_Some_conv split: option.splits
      intro: quiet_trans [OF book_quiet(3) send_acceptdecide_quiet])

lemma leader_append_quiet:
  "accept_entries_leader S es sp = Some sp' \<Longrightarrow> quiet sp sp'"
  "accept_entry_leader S e sp = Some sp' \<Longrightarrow> quiet sp sp'"
  "flush_batch_leader S sp = Some sp' \<Longrightarrow> quiet sp sp'"
  by (auto simp: accept_entries_leader_def accept_entry_leader_def flush_batch_leader_def bind_eq_Some_conv
      intro: quiet_trans [OF quiet_storage after_leader_append_quiet])

lemma accept_stopsign_leader_quiet:
  assumes "accept_stopsign_leader S ss sp = Some sp'"
  shows "quiet sp sp'"
proof -
  obtain am st sp1 ls fs where s1: "(case am of Some metadata \<Rightarrow> send_acceptdecide metadata (upd_storage st sp)
                       | None \<Rightarrow> Some (upd_storage st sp)) = Some sp1"
    and ls: "set_accepted_idx (sp_pid sp1) (is_get_accepted_idx (sp_internal_storage sp1)) (sp_leader_state sp1) = Some ls"
    and fe: "for_each (\<lambda>pid. send_accept_stopsign pid ss False) fs (upd_leader ls sp1) = Some sp'"
    using assms by (fastforce simp: accept_stopsign_leader_def bind_eq_Some_conv Let_def)
  have "quiet sp (upd_storage st sp)" by simp
  also have "quiet (upd_storage st sp) sp1" using s1 by (auto split: option.splits intro: send_acceptdecide_quiet)
  also have "quiet sp1 (upd_leader ls sp1)" using ls by (rule book_quiet)
  also have "quiet (upd_leader ls sp1) sp'" using fe by (rule for_each_quiet) (rule numbered_quiet)
  finally show ?thesis .
qed

lemma append_buffered_quiet: "append_buffered S i sp = Some (j, sp') \<Longrightarrow> quiet sp sp'"
  by (auto simp: append_buffered_def append_buffered_proposals_def append_buffered_stopsign_def bind_eq_Some_conv
      split: if_splits option.splits intro!: quiet_same_out)

section \<open>The other handlers\<close>

lemma simple_quiet [simp]:
  "quiet sp (sp_reconnected pid sp)" "quiet sp (forward_proposals es sp)" "quiet sp (forward_stopsign ss sp)"
  "quiet sp (forward_buffered_proposals sp)" "quiet sp (become_follower sp)"
  "quiet sp (sp\<lparr>sp_buffered_proposals := b\<rparr>)" "quiet sp (sp\<lparr>sp_buffered_stopsign := bs\<rparr>)"
  "quiet sp (sp\<lparr>sp_current_seq_num := sn\<rparr>)" "quiet sp (sp\<lparr>sp_latest_accepted_meta := lm\<rparr>)"
proof -
  show fp: "quiet sp (forward_proposals es sp)" for sp :: "('a, 'b, 'c, 'd) sequence_paxos" and es
    by (auto simp: forward_proposals_def Let_def intro: quiet_same_out)
  have "quiet sp (sp\<lparr>sp_buffered_proposals := []\<rparr>)" by (rule quiet_same_out) simp_all
  then show "quiet sp (forward_buffered_proposals sp)"
    by (auto simp: forward_buffered_proposals_def Let_def intro: quiet_trans fp)
  have "quiet sp (sp\<lparr>sp_state := (Follower, PhaseRecover)\<rparr>)" by (rule quiet_same_out) simp_all
  then show "quiet sp (sp_reconnected pid sp)"
    by (auto simp: sp_reconnected_def Let_def intro: quiet_trans push_quiet(1))
  show "quiet sp (forward_stopsign ss sp)" by (auto simp: forward_stopsign_def Let_def intro: quiet_same_out)
  show "quiet sp (become_follower sp)" unfolding become_follower_def by (rule quiet_same_out) simp_all
  show "quiet sp (sp\<lparr>sp_buffered_proposals := b\<rparr>)" "quiet sp (sp\<lparr>sp_buffered_stopsign := bs\<rparr>)"
    "quiet sp (sp\<lparr>sp_current_seq_num := sn\<rparr>)" "quiet sp (sp\<lparr>sp_latest_accepted_meta := lm\<rparr>)"
    by (rule quiet_same_out; simp)+
qed

lemma check_valid_ballot_quiet: "check_valid_ballot b sp = (v, sp') \<Longrightarrow> quiet sp sp'"
  by (auto simp: check_valid_ballot_def Let_def split: ordering.splits)

lemma handle_sequence_num_quiet: "handle_sequence_num sn from sp = Some (st, sp') \<Longrightarrow> quiet sp sp'"
  by (auto simp: handle_sequence_num_def bind_eq_Some_conv split: message_status.splits)

lemma reply_accepted_quiet: "reply_accepted n i sp = Some sp' \<Longrightarrow> quiet sp sp'"
  by (auto simp: reply_accepted_def bind_eq_Some_conv split: option.splits intro!: quiet_push)

lemma update_decided_quiet: "update_decided_idx_and_get_accepted_idx S d sp = Some (r, sp') \<Longrightarrow> quiet sp sp'"
  by (auto simp: update_decided_idx_and_get_accepted_idx_def Let_def bind_eq_Some_conv split: if_splits)

lemma handle_accepted_quiet: "handle_accepted S a from sp = Some sp' \<Longrightarrow> quiet sp sp'"
proof -
  have "quiet sp sp'" if "set_accepted_idx from i (sp_leader_state sp) = Some ls"
    "for_each (announce_decided i) fs (sp\<lparr>sp_leader_state := ls, sp_internal_storage := st\<rparr>) = Some sp'" for i ls st fs
  proof -
    have "quiet sp (upd_leader ls sp)" using that(1) by (rule book_quiet)
    also have "quiet \<dots> (upd_storage st (upd_leader ls sp))" by simp
    also have "quiet \<dots> sp'" using that(2) by (rule for_each_quiet) (rule announce_decided_quiet)
    finally show ?thesis .
  qed
  then show "handle_accepted S a from sp = Some sp' \<Longrightarrow> quiet sp sp'"
    by (auto simp: handle_accepted_def bind_eq_Some_conv Let_def split: if_split_asm intro: book_quiet)
qed

lemma handle_preparereq_quiet: "handle_preparereq pr from sp = Some sp' \<Longrightarrow> quiet sp sp'"
proof -
  have "quiet sp (send_prepare from (upd_leader ls2 sp))"
    if "reset_promise from (sp_leader_state sp) = Some ls1" "set_latest_accept_meta from None ls1 = Some ls2" for ls1 ls2
  proof -
    have "quiet sp (upd_leader ls1 sp)" using that(1) by (intro reset_cell_quiet) (auto simp: reset_promise_def)
    also have "quiet \<dots> (upd_leader ls2 (upd_leader ls1 sp))" using that(2) by (intro book_quiet(1)) simp
    also have "quiet \<dots> (send_prepare from (upd_leader ls2 (upd_leader ls1 sp)))" by simp
    finally show ?thesis by simp
  qed
  then show "handle_preparereq pr from sp = Some sp' \<Longrightarrow> quiet sp sp'"
    by (auto simp: handle_preparereq_def bind_eq_Some_conv split: if_split_asm)
qed

lemma leader_misc_quiet:
  "handle_notaccepted na from sp = Some sp' \<Longrightarrow> quiet sp sp'"
  "handle_forwarded_proposal S es sp = Some sp' \<Longrightarrow> quiet sp sp'"
  "handle_forwarded_stopsign S ss sp = Some sp' \<Longrightarrow> quiet sp sp'"
  by (auto simp: handle_notaccepted_def handle_forwarded_proposal_def handle_forwarded_stopsign_def bind_eq_Some_conv lost_promise_def
      split: if_split_asm prod.split_asm role.split_asm phase.split_asm
      intro: leader_append_quiet accept_stopsign_leader_quiet reset_cell_quiet)

lemma handle_decide_quiet:
  assumes "handle_decide S dec sp = Some sp'"
  shows "quiet sp sp'"
proof -
  obtain v sp1 where v: "check_valid_ballot (dec_n dec) sp = (v, sp1)" by (cases "check_valid_ballot (dec_n dec) sp")
  have "quiet sp1 sp'"
    using assms v
    by (auto simp: handle_decide_def bind_eq_Some_conv split: if_split_asm option.split_asm
        dest!: handle_sequence_num_quiet update_decided_quiet reply_accepted_quiet intro: quiet_trans)
  with check_valid_ballot_quiet [OF v] show ?thesis by (rule quiet_trans)
qed

lemma handle_acceptdecide_quiet:
  assumes "handle_acceptdecide S ad sp = Some sp'"
  shows "quiet sp sp'"
proof -
  obtain v sp1 where v: "check_valid_ballot (ad_n ad) sp = (v, sp1)" by (cases "check_valid_ballot (ad_n ad) sp")
  have "quiet sp1 sp'"
    using assms v
    by (auto simp: handle_acceptdecide_def bind_eq_Some_conv Let_def split: if_split_asm option.split_asm
        dest!: handle_sequence_num_quiet quiet_storageD [OF update_decided_quiet] reply_accepted_quiet intro: quiet_trans)
      (meson quiet_trans)
  with check_valid_ballot_quiet [OF v] show ?thesis by (rule quiet_trans)
qed

lemma handle_accept_stopsign_quiet:
  assumes "handle_accept_stopsign S ass sp = Some sp'"
  shows "quiet sp sp'"
proof -
  obtain v sp1 where v: "check_valid_ballot (ass_n ass) sp = (v, sp1)" by (cases "check_valid_ballot (ass_n ass) sp")
  have "quiet sp1 sp'"
    using assms v
    by (auto simp: handle_accept_stopsign_def bind_eq_Some_conv split: if_split_asm
        dest!: handle_sequence_num_quiet quiet_storageD [OF reply_accepted_quiet] intro: quiet_trans)
  with check_valid_ballot_quiet [OF v] show ?thesis by (rule quiet_trans)
qed

lemma handle_acceptsync_quiet:
  assumes "handle_acceptsync S P a from sp = Some sp'"
  shows "quiet sp sp'"
proof -
  obtain v sp1 where v: "check_valid_ballot (asy_n a) sp = (v, sp1)" by (cases "check_valid_ballot (asy_n a) sp")
  have "quiet sp1 sp'"
  proof (cases "v \<and> sp_state sp1 = (Follower, PhasePrepare)")
    case False
    with assms v show ?thesis by (auto simp: handle_acceptsync_def)
  next
    case True
    with assms v obtain i st where sp': "sp' = (let sp1 = sp1\<lparr>sp_cached_promise_message := None, sp_internal_storage := st\<rparr>;
            sp2 = (if is_get_stopsign st = None then forward_buffered_proposals sp1 else sp1)
          in push_msg from (Accepted \<lparr>acc_n = asy_n a, acc_accepted_idx = i\<rparr>)
         (sp2\<lparr>sp_state := (Follower, PhaseAccept), sp_current_seq_num := asy_seq_num a,
              sp_latest_accepted_meta := Some (asy_n a, length (sp_outgoing sp2))\<rparr>))"
      by (auto simp: handle_acceptsync_def bind_eq_Some_conv Let_def)
    define spa where "spa = sp1\<lparr>sp_cached_promise_message := None, sp_internal_storage := st\<rparr>"
    define spb where "spb = (if is_get_stopsign st = None then forward_buffered_proposals spa else spa)"
    have "quiet sp1 spa" unfolding spa_def by (rule quiet_same_out) simp_all
    also have "quiet spa spb" by (simp add: spb_def)
    also have "quiet spb (spb\<lparr>sp_state := (Follower, PhaseAccept), sp_current_seq_num := asy_seq_num a,
        sp_latest_accepted_meta := Some (asy_n a, length (sp_outgoing spb))\<rparr>)" by (rule quiet_same_out) simp_all
    finally show ?thesis unfolding sp' Let_def spb_def spa_def by (rule quiet_push) simp
  qed
  with check_valid_ballot_quiet [OF v] show ?thesis by (rule quiet_trans)
qed

lemma user_quiet:
  "sp_append S e sp = Some (r, sp') \<Longrightarrow> quiet sp sp'"
  "sp_reconfigure S cfg md sp = Some (r, sp') \<Longrightarrow> quiet sp sp'"
  "sp_trim S oi sp = Some (res, sp') \<Longrightarrow> quiet sp sp'"
  "sp_snapshot S P oi local sp = Some (res, sp') \<Longrightarrow> quiet sp sp'"
  "handle_compaction S P c sp = Some sp' \<Longrightarrow> quiet sp sp'"
  "flush_batch_timeout S sp = Some sp' \<Longrightarrow> quiet sp sp'"
proof -
  show "quiet sp sp'" if "sp_append S e sp = Some (r, sp')"
    using that
    by (auto simp: sp_append_def propose_entry_def bind_eq_Some_conv
        split: if_split_asm prod.split_asm role.split_asm phase.split_asm intro: leader_append_quiet)
  show "quiet sp sp'" if "sp_reconfigure S cfg md sp = Some (r, sp')"
    using that
    by (auto simp: sp_reconfigure_def Let_def bind_eq_Some_conv
        split: if_split_asm prod.split_asm role.split_asm phase.split_asm intro: accept_stopsign_leader_quiet)
  show "quiet sp sp'" if "sp_trim S oi sp = Some (res, sp')"
    using that
    by (auto simp: sp_trim_def bind_eq_Some_conv Let_def split: if_split_asm option.split_asm
        intro: quiet_trans [OF quiet_storage push_quiet(2)])
  have snap: "quiet sp sp'" if "sp_snapshot S P oi local sp = Some (res, sp')" for oi local res
    using that
    by (auto simp: sp_snapshot_def bind_eq_Some_conv Let_def split: if_split_asm
        intro: quiet_trans [OF quiet_storage push_quiet(2)])
  then show "quiet sp sp'" if "sp_snapshot S P oi local sp = Some (res, sp')" using that by blast
  show "quiet sp sp'" if "handle_compaction S P c sp = Some sp'"
    using that by (auto simp: handle_compaction_def bind_eq_Some_conv split: compaction.splits intro: snap)
  show "quiet sp sp'" if "flush_batch_timeout S sp = Some sp'"
    using that
    by (auto simp: flush_batch_timeout_def flush_batch_follower_def bind_eq_Some_conv Let_def
        split: if_split_asm prod.split_asm role.split_asm phase.split_asm
        intro: leader_append_quiet quiet_trans [OF quiet_storage reply_accepted_quiet])
qed

section \<open>Sound replicas\<close>

text \<open>The promises a replica has on their way are of rounds it has promised.\<close>

definition msg_sound :: "('s, 't, 'c, 'p) sequence_paxos \<Rightarrow> ('t, 'c, 'p) message \<Rightarrow> bool" where
  "msg_sound sp m \<longleftrightarrow> (\<exists>pm. m = SequencePaxosMsg pm \<and> pm_from pm = sp_pid sp \<and>
     (\<forall>prom. pm_msg pm = Promise prom \<longrightarrow> ballot_le (prom_n prom) (sp_get_promise sp)))"

definition out_sound :: "('s, 't, 'c, 'p) sequence_paxos \<Rightarrow> bool" where
  "out_sound sp \<longleftrightarrow> (\<forall>m \<in> set (sp_outgoing sp). msg_sound sp m) \<and>
     (\<forall>prom. sp_cached_promise_message sp = Some prom \<longrightarrow> ballot_le (prom_n prom) (sp_get_promise sp))"

lemma msg_sound_mono: "msg_sound sp m \<Longrightarrow> sp_pid sp' = sp_pid sp \<Longrightarrow> ballot_le (sp_get_promise sp) (sp_get_promise sp') \<Longrightarrow> msg_sound sp' m"
  by (auto simp: msg_sound_def intro: ballot_le_trans)

lemma msg_sound_own: "msg_sound sp m \<Longrightarrow> from_own (sp_pid sp) m"
  by (auto simp: msg_sound_def from_own_def)

lemma own_plain_sound: "own_plain (sp_pid sp) m \<Longrightarrow> msg_sound sp m"
  by (auto simp: own_plain_def msg_sound_def)

lemma plain_out_sound:
  assumes "adds_plain sp sp'" "sp_cached_promise_message sp' = None \<or> sp_cached_promise_message sp' = sp_cached_promise_message sp"
    "out_sound sp" "ballot_le (sp_get_promise sp) (sp_get_promise sp')"
  shows "out_sound sp'"
proof -
  have pid: "sp_pid sp' = sp_pid sp" using assms(1) by (simp add: adds_plain_def)
  have "msg_sound sp' m" if "m \<in> set (sp_outgoing sp')" for m
  proof -
    have "\<forall>m \<in> set (sp_outgoing sp). from_own (sp_pid sp) m" using assms(3) msg_sound_own by (auto simp: out_sound_def)
    then have "m \<in> set (sp_outgoing sp) \<or> own_plain (sp_pid sp) m" using assms(1) that by (simp add: adds_plain_def)
    then have "msg_sound sp m" using assms(3) own_plain_sound by (auto simp: out_sound_def)
    then show ?thesis using pid assms(4) by (rule msg_sound_mono)
  qed
  moreover have "ballot_le (prom_n prom) (sp_get_promise sp')" if "sp_cached_promise_message sp' = Some prom" for prom
  proof -
    have "sp_cached_promise_message sp = Some prom" using assms(2) that by simp
    then show ?thesis using assms(3,4) by (auto simp: out_sound_def intro: ballot_le_trans)
  qed
  ultimately show ?thesis by (simp add: out_sound_def)
qed

lemma quiet_out_sound: "quiet sp sp' \<Longrightarrow> out_sound sp \<Longrightarrow> ballot_le (sp_get_promise sp) (sp_get_promise sp') \<Longrightarrow> out_sound sp'"
  by (rule plain_out_sound) (auto simp: quiet_def)

text \<open>
  What a step does to the book of promises: it is quiet, or begins a round with the own promise alone, or enters one promise
  of the round; the accept phase begins only with a quorum of promises.
\<close>

definition book_step :: "('t, 'c, 'p) paxos_message option \<Rightarrow> ('s, 't, 'c, 'p) sequence_paxos \<Rightarrow> ('s, 't, 'c, 'p) sequence_paxos \<Rightarrow> bool" where
  "book_step om sp sp' \<longleftrightarrow>
     (n_leader (sp_leader_state sp') = n_leader (sp_leader_state sp) \<and>
      promised_pids (sp_leader_state sp') \<subseteq> promised_pids (sp_leader_state sp) \<and>
      (sp_state sp' = (Leader, PhaseAccept) \<longrightarrow> sp_state sp = (Leader, PhaseAccept))) \<or>
     (\<exists>m prom. om = Some m \<and> pm_msg m = Promise prom \<and> prom_n prom = n_leader (sp_leader_state sp) \<and>
        n_leader (sp_leader_state sp') = n_leader (sp_leader_state sp) \<and>
        promised_pids (sp_leader_state sp') \<subseteq> insert (pm_from m) (promised_pids (sp_leader_state sp)) \<and>
        (sp_state sp' = (Leader, PhaseAccept) \<longrightarrow> sp_state sp = (Leader, PhaseAccept) \<or>
           is_prepare_quorum (ls_quorum (sp_leader_state sp)) (card (insert (pm_from m) (promised_pids (sp_leader_state sp)))))) \<or>
     (n_leader (sp_leader_state sp') = sp_get_promise sp' \<and> promised_pids (sp_leader_state sp') \<subseteq> {sp_pid sp} \<and>
      sp_state sp' = (Leader, PhasePrepare))"

lemma quiet_book: "quiet sp sp' \<Longrightarrow> book_step om sp sp'"
  by (auto simp: quiet_def book_step_def)

lemma promised_pids_set:
  assumes "set_promise prom from chk ls = Some (b, ls')"
  shows "promised_pids ls' = insert from (promised_pids ls)"
  using set_promise_eq(1-3) [OF assms]
  by (auto simp: promised_pids_def nth_list_update split: if_splits)

lemma promised_pids_new [simp]: "promised_pids (leader_state_with n m q) = {}"
  by (auto simp: promised_pids_def leader_state_with_def)

lemma handle_majority_book:
  assumes "handle_majority_promises S P sp = Some sp'"
  shows "n_leader (sp_leader_state sp') = n_leader (sp_leader_state sp)" "promised_pids (sp_leader_state sp') \<subseteq> promised_pids (sp_leader_state sp)"
    "adds_plain sp sp'" "sp_cached_promise_message sp' = None \<or> sp_cached_promise_message sp' = sp_cached_promise_message sp"
proof -
  obtain idx st new sp1 ls1 fs where
    app: "append_buffered S idx (sp\<lparr>sp_leader_state := (sp_leader_state sp)\<lparr>max_promise_sync := None\<rparr>,
       sp_internal_storage := st\<rparr>) = Some (new, sp1)"
    and ls1: "set_accepted_idx (sp_pid sp1) new (sp_leader_state sp1) = Some ls1"
    and fe: "for_each (send_accsync S P) fs (sp1\<lparr>sp_state := (Leader, PhaseAccept), sp_leader_state := ls1\<rparr>) = Some sp'"
    using assms by (rule handle_majority_promisesE)
  define sp2 where "sp2 = sp1\<lparr>sp_state := (Leader, PhaseAccept), sp_leader_state := ls1\<rparr>"
  have "quiet sp (upd_storage st (upd_leader ((sp_leader_state sp)\<lparr>max_promise_sync := None\<rparr>) sp))"
    by (simp add: quiet_def adds_plain_def promised_pids_def)
  then have q1: "quiet sp sp1" using quiet_trans append_buffered_quiet [OF app] by fastforce
  have "quiet sp1 (upd_leader ls1 sp1)" using ls1 by (rule book_quiet)
  with q1 have q2: "quiet sp (upd_leader ls1 sp1)" by (rule quiet_trans)
  have q3: "quiet sp2 sp'" using fe unfolding sp2_def by (rule for_each_quiet) (rule send_accsync_quiet)
  show "n_leader (sp_leader_state sp') = n_leader (sp_leader_state sp)" "promised_pids (sp_leader_state sp') \<subseteq> promised_pids (sp_leader_state sp)"
    "sp_cached_promise_message sp' = None \<or> sp_cached_promise_message sp' = sp_cached_promise_message sp"
    using q2 q3 by (auto simp: quiet_def sp2_def)
  have "adds_plain sp sp2" using q2 by (simp add: quiet_def adds_plain_def sp2_def)
  then show "adds_plain sp sp'" using q3 by (auto simp: quiet_def intro: adds_plain_trans)
qed

lemma enters_promise:
  assumes "set_promise prom from chk (sp_leader_state sp) = Some (b, ls)"
  shows "n_leader ls = n_leader (sp_leader_state sp)" "promised_pids ls = insert from (promised_pids (sp_leader_state sp))"
    "b = is_prepare_quorum (ls_quorum (sp_leader_state sp)) (card (insert from (promised_pids (sp_leader_state sp))))"
    "adds_plain sp (upd_leader ls sp)"
  using set_promise_eq(4,5) [OF assms] promised_pids_set [OF assms] by (auto simp: same_round_def num_promised_card adds_plain_def)

lemma handle_promise_prepare_book:
  assumes "handle_promise_prepare S P prom (pm_from m) sp = Some sp'" "pm_msg m = Promise prom" "sp_state sp = (Leader, PhasePrepare)"
  shows "book_step (Some m) sp sp'" "adds_plain sp sp'" "sp_cached_promise_message sp' = None \<or> sp_cached_promise_message sp' = sp_cached_promise_message sp"
proof -
  consider "sp' = sp" | b ls where "prom_n prom = n_leader (sp_leader_state sp)"
      "set_promise prom (pm_from m) True (sp_leader_state sp) = Some (b, ls)"
      "if b then handle_majority_promises S P (upd_leader ls sp) = Some sp' else sp' = upd_leader ls sp"
    using assms(1) by (auto simp: handle_promise_prepare_def bind_eq_Some_conv split: if_split_asm)
  then have "book_step (Some m) sp sp' \<and> adds_plain sp sp' \<and> (sp_cached_promise_message sp' = None \<or> sp_cached_promise_message sp' = sp_cached_promise_message sp)"
  proof cases
    case 1
    then show ?thesis by (simp add: quiet_book)
  next
    case 2
    note e = enters_promise [OF 2(2)]
    have "n_leader (sp_leader_state sp') = n_leader ls \<and> promised_pids (sp_leader_state sp') \<subseteq> promised_pids ls \<and> adds_plain (upd_leader ls sp) sp' \<and>
        (sp_cached_promise_message sp' = None \<or> sp_cached_promise_message sp' = sp_cached_promise_message sp) \<and>
        (sp_state sp' = (Leader, PhaseAccept) \<longrightarrow> b)"
      using 2(3) handle_majority_book [of S P "upd_leader ls sp" sp'] assms(3) by (auto split: if_split_asm)
    with e 2(1) assms(2) show ?thesis using adds_plain_trans [OF e(4)] by (auto simp: book_step_def)
  qed
  then show "book_step (Some m) sp sp'" "adds_plain sp sp'" "sp_cached_promise_message sp' = None \<or> sp_cached_promise_message sp' = sp_cached_promise_message sp"
    by blast+
qed

lemma handle_promise_accept_book:
  assumes "handle_promise_accept S P prom (pm_from m) sp = Some sp'" "pm_msg m = Promise prom" "sp_state sp = (Leader, PhaseAccept)"
  shows "book_step (Some m) sp sp'" "adds_plain sp sp'" "sp_cached_promise_message sp' = None \<or> sp_cached_promise_message sp' = sp_cached_promise_message sp"
proof -
  consider "sp' = sp" | b ls where "prom_n prom = n_leader (sp_leader_state sp)"
      "set_promise prom (pm_from m) False (sp_leader_state sp) = Some (b, ls)" "quiet (upd_leader ls sp) sp'"
    using assms(1) by (auto simp: handle_promise_accept_def bind_eq_Some_conv split: if_split_asm dest: send_accsync_quiet)
  then have "book_step (Some m) sp sp' \<and> adds_plain sp sp' \<and> (sp_cached_promise_message sp' = None \<or> sp_cached_promise_message sp' = sp_cached_promise_message sp)"
  proof cases
    case 1
    then show ?thesis by (simp add: quiet_book)
  next
    case 2
    note e = enters_promise [OF 2(2)]
    from 2(3) e 2(1) assms(2,3) show ?thesis using adds_plain_trans [OF e(4)] by (auto simp: book_step_def quiet_def)
  qed
  then show "book_step (Some m) sp sp'" "adds_plain sp sp'" "sp_cached_promise_message sp' = None \<or> sp_cached_promise_message sp' = sp_cached_promise_message sp"
    by blast+
qed

lemma handle_prepare_book:
  assumes "handle_prepare S P prep from sp = Some sp'"
  shows "book_step om sp sp'" "out_sound sp \<Longrightarrow> out_sound sp'"
proof -
  have "book_step om sp sp' \<and> (out_sound sp \<longrightarrow> out_sound sp')"
  proof (cases "ballot_lt (sp_get_promise sp) (prep_n prep) \<or> (sp_get_promise sp = prep_n prep \<and> snd (sp_state sp) = PhaseRecover)")
    case False
    with assms have "sp' = sp" by (simp add: handle_prepare_def Let_def)
    then show ?thesis by (simp add: quiet_book)
  next
    case True
    then have le: "ballot_le (sp_get_promise sp) (prep_n prep)" by auto
    obtain st l where st: "is_get_promise st = prep_n prep"
      and sp': "sp' = push_msg from (Promise \<lparr>prom_n = prep_n prep, prom_n_accepted = is_get_accepted_round st, prom_decided_idx = is_get_decided_idx st,
          prom_accepted_idx = is_get_accepted_idx st, prom_log_sync = l\<rparr>)
        (sp\<lparr>sp_internal_storage := st, sp_state := (Follower, PhasePrepare), sp_current_seq_num := sequence_number_default,
            sp_cached_promise_message := Some \<lparr>prom_n = prep_n prep, prom_n_accepted = is_get_accepted_round st,
              prom_decided_idx = is_get_decided_idx st, prom_accepted_idx = is_get_accepted_idx st, prom_log_sync = l\<rparr>\<rparr>)"
      using assms True by (fastforce simp: handle_prepare_def bind_eq_Some_conv Let_def dest!: is_set_promise_get)
    have prom: "sp_get_promise sp' = prep_n prep" "sp_pid sp' = sp_pid sp" using st by (simp_all add: sp' sp_get_promise_def)
    have "msg_sound sp' m" if "msg_sound sp m" for m
      using that by (rule msg_sound_mono) (use prom le in simp_all)
    moreover have "msg_sound sp' (paxos_envelope (sp_pid sp) from (Promise p))" if "prom_n p = prep_n prep" for p
      using prom that by (simp add: msg_sound_def)
    ultimately have "out_sound sp \<longrightarrow> out_sound sp'" using prom(1) by (auto simp: out_sound_def) (auto simp: sp' push_msg_def)
    moreover have "book_step om sp sp'" by (simp add: book_step_def sp')
    ultimately show ?thesis by blast
  qed
  then show "book_step om sp sp'" "out_sound sp \<Longrightarrow> out_sound sp'" by blast+
qed

lemma resend_follower_book:
  shows "book_step om sp (resend_messages_follower sp)" "out_sound sp \<Longrightarrow> out_sound (resend_messages_follower sp)"
proof -
  have "quiet sp (sp\<lparr>sp_state := (Follower, PhaseRecover)\<rparr>)" by (rule quiet_same_out) simp_all
  then have req: "quiet sp (send_preparereq_to_all_peers (sp\<lparr>sp_state := (Follower, PhaseRecover)\<rparr>))" "quiet sp (send_preparereq_to_all_peers sp)"
    by (auto simp: send_preparereq_to_all_peers_def intro: quiet_trans)
  have cached: "out_sound (push_msg to (Promise prom) sp)" if "out_sound sp" "sp_cached_promise_message sp = Some prom" for to prom
    using that by (auto simp: out_sound_def msg_sound_def push_msg_def sp_get_promise_def)
  have le: "ballot_le (sp_get_promise sp) (sp_get_promise (resend_messages_follower sp))" by (simp add: sp_get_promise_def)
  show "book_step om sp (resend_messages_follower sp)"
    using quiet_book [OF req(1)] quiet_book [OF req(2)]
    by (auto simp: resend_messages_follower_def quiet_book book_step_def push_msg_def split: phase.splits option.splits)
  show "out_sound (resend_messages_follower sp)" if "out_sound sp"
    using quiet_out_sound [OF req(1) that] quiet_out_sound [OF req(2) that] le cached that
    by (auto simp: resend_messages_follower_def split: phase.splits option.splits)
qed

lemma handle_leaderE:
  assumes "handle_leader S n sp = Some sp'"
    and f: "\<not> ballot_le n (n_leader (sp_leader_state sp))" "\<not> ballot_le n (sp_get_promise sp)" "b_pid n = sp_pid sp"
  obtains st2 ls prom b prep where "is_get_promise st2 = n"
    "set_promise prom (sp_pid sp) True (leader_state_with n (max_pid (sp_leader_state sp)) (ls_quorum (sp_leader_state sp))) = Some (b, ls)"
    "sp' = push_to_peers (Prepare prep) (sp\<lparr>sp_internal_storage := st2, sp_leader_state := ls, sp_state := (Leader, PhasePrepare)\<rparr>)"
proof -
  have "\<exists>x st1 y st2 prom b ls prep. expect (flush_batch S (sp_internal_storage sp)) = Some (x, st1) \<and> expect (is_set_promise S n st1) = Some (y, st2) \<and>
     set_promise prom (sp_pid sp) True (leader_state_with n (max_pid (sp_leader_state sp)) (ls_quorum (sp_leader_state sp))) = Some (b, ls) \<and>
     sp' = push_to_peers (Prepare prep) (sp\<lparr>sp_internal_storage := st2, sp_leader_state := ls, sp_state := (Leader, PhasePrepare)\<rparr>)"
    using assms by (auto simp: handle_leader_def bind_eq_Some_conv Let_def simp del: ex_simps) blast
  then show thesis using that by (auto dest!: is_set_promise_get)
qed
lemma handle_leader_book:
  assumes "handle_leader S n sp = Some sp'"
  shows "book_step om sp sp'" "out_sound sp \<Longrightarrow> out_sound sp'"
proof -
  have "book_step om sp sp' \<and> (out_sound sp \<longrightarrow> out_sound sp')"
  proof (cases "ballot_le n (n_leader (sp_leader_state sp)) \<or> ballot_le n (sp_get_promise sp) \<or> sp_pid sp \<noteq> b_pid n")
    case True
    then have "sp' = sp \<or> sp' = become_follower sp" using assms by (auto simp: handle_leader_def split: if_split_asm)
    then show ?thesis using quiet_out_sound [of sp "become_follower sp"] by (auto simp: quiet_book sp_get_promise_def)
  next
    case False
    then have f: "\<not> ballot_le n (n_leader (sp_leader_state sp))" "\<not> ballot_le n (sp_get_promise sp)" "b_pid n = sp_pid sp" by simp_all
    obtain st2 ls prom b prep where st2: "is_get_promise st2 = n"
      and ls: "set_promise prom (sp_pid sp) True (leader_state_with n (max_pid (sp_leader_state sp)) (ls_quorum (sp_leader_state sp))) = Some (b, ls)"
      and sp': "sp' = push_to_peers (Prepare prep) (sp\<lparr>sp_internal_storage := st2, sp_leader_state := ls, sp_state := (Leader, PhasePrepare)\<rparr>)"
      using assms f by (rule handle_leaderE)
    have pl: "promised_pids ls \<subseteq> {sp_pid sp}" using promised_pids_set [OF ls] by simp
    have prom: "sp_get_promise sp' = n" "n_leader (sp_leader_state sp') = n" "sp_leader_state sp' = ls"
      using st2 set_promise_eq(5) [OF ls] by (auto simp: sp' push_to_peers_eq sp_get_promise_def same_round_def leader_state_with_def)
    have "adds_plain sp sp'" "sp_cached_promise_message sp' = sp_cached_promise_message sp"
      by (auto simp: sp' push_to_peers_eq adds_plain_def)
    moreover have "ballot_le (sp_get_promise sp) (sp_get_promise sp')" using f(2) by (auto simp: prom(1) not_ballot_le)
    ultimately have "out_sound sp \<longrightarrow> out_sound sp'" using plain_out_sound by blast
    then show ?thesis using pl prom by (simp add: book_step_def) (simp add: sp' push_to_peers_eq)
  qed
  then show "book_step om sp sp'" "out_sound sp \<Longrightarrow> out_sound sp'" by blast+
qed

lemma take_outgoing_quiet: "take_outgoing_msgs buffer sp = (buffer', sp') \<Longrightarrow> quiet sp sp'"
  by (auto simp: take_outgoing_msgs_def Let_def quiet_def adds_plain_def promised_pids_def reset_latest_accept_meta_def split: if_split_asm)

section \<open>Every step\<close>

lemma sp_handle_quiet:
  assumes "sp_handle S P m sp = Some sp'" "\<And>prep. pm_msg m \<noteq> Prepare prep" "\<And>prom. pm_msg m \<noteq> Promise prom"
  shows "quiet sp sp'"
  using assms
  by (auto simp: sp_handle_def split: paxos_msg.split_asm
      intro: handle_preparereq_quiet leader_misc_quiet handle_accepted_quiet handle_acceptsync_quiet
        handle_acceptdecide_quiet handle_accept_stopsign_quiet handle_decide_quiet user_quiet)

lemma sp_handle_book:
  assumes "sp_handle S P m sp = Some sp'" "sp_inv sp"
  shows "book_step (Some m) sp sp'" "out_sound sp \<Longrightarrow> out_sound sp'"
proof -
  have le: "ballot_le (sp_get_promise sp) (sp_get_promise sp')"
    using sp_run_promise [OF r_into_rtranclp [of "sp_step S P False", OF step_handle [OF _ assms(1)]] assms(2)] by simp
  have "book_step (Some m) sp sp' \<and> (out_sound sp \<longrightarrow> out_sound sp')"
  proof (cases "pm_msg m")
    case (Prepare prep)
    then show ?thesis using assms(1) handle_prepare_book by (auto simp: sp_handle_def)
  next
    case (Promise prom)
    then consider "sp' = sp" | "sp_state sp = (Leader, PhasePrepare)" "handle_promise_prepare S P prom (pm_from m) sp = Some sp'"
      | "sp_state sp = (Leader, PhaseAccept)" "handle_promise_accept S P prom (pm_from m) sp = Some sp'"
      using assms(1) by (auto simp: sp_handle_def split: prod.split_asm role.split_asm phase.split_asm)
    then show ?thesis
    proof cases
      case 2
      note b = handle_promise_prepare_book [OF 2(2) Promise 2(1)]
      show ?thesis using b(1) plain_out_sound [OF b(2,3) _ le] by blast
    next
      case 3
      note b = handle_promise_accept_book [OF 3(2) Promise 3(1)]
      show ?thesis using b(1) plain_out_sound [OF b(2,3) _ le] by blast
    qed (simp add: quiet_book)
  qed (use sp_handle_quiet [OF assms(1)] quiet_book quiet_out_sound le in \<open>auto\<close>)
  then show "book_step (Some m) sp sp'" "out_sound sp \<Longrightarrow> out_sound sp'" by blast+
qed

lemma sp_step_out_sound:
  assumes "sp_step S P strict sp sp'" "sp_inv sp" "out_sound sp"
  shows "out_sound sp'"
proof -
  have le: "ballot_le (sp_get_promise sp) (sp_get_promise sp')"
    using sp_run_promise [of S P strict sp sp'] assms(1,2) by blast
  show ?thesis
    using assms(1)
  proof cases
    case (step_handle m)
    then show ?thesis using sp_handle_book(2) assms(2,3) by blast
  next
    case (step_leader n)
    then show ?thesis using handle_leader_book(2) assms(3) by blast
  next
    case step_resend
    then show ?thesis using resend_follower_book(2) [OF assms(3)] quiet_out_sound [OF resend_messages_leader_quiet assms(3) le]
      by (auto simp: resend_message_timeout_def split: role.split_asm)
  next
    case (step_take buffer buffer')
    then show ?thesis using quiet_out_sound [OF take_outgoing_quiet assms(3) le] by blast
  qed (use le in \<open>auto intro: quiet_out_sound [OF _ assms(3)] user_quiet\<close>)
qed

text \<open>Without a message the book only loses promises, or a new round begins.\<close>

lemma other_steps_book:
  "handle_leader S n sp = Some sp' \<Longrightarrow> book_step None sp sp'"
  "sp_append S e sp = Some (r, sp') \<Longrightarrow> book_step None sp sp'"
  "sp_reconfigure S cfg md sp = Some (r', sp') \<Longrightarrow> book_step None sp sp'"
  "sp_trim S oi sp = Some (res, sp') \<Longrightarrow> book_step None sp sp'"
  "sp_snapshot S P oi local sp = Some (res', sp') \<Longrightarrow> book_step None sp sp'"
  "book_step None sp (sp_reconnected pid sp)"
  "resend_message_timeout sp = Some sp' \<Longrightarrow> book_step None sp sp'"
  "flush_batch_timeout S sp = Some sp' \<Longrightarrow> book_step None sp sp'"
  "take_outgoing_msgs buffer sp = (buffer', sp') \<Longrightarrow> book_step None sp sp'"
  by (auto simp: resend_message_timeout_def split: role.split_asm
      intro: handle_leader_book quiet_book user_quiet resend_messages_leader_quiet resend_follower_book take_outgoing_quiet)

end
