(* ===== verification/Network.thy ===== *)
theory Network
  imports Replica_Messages Replica_Behaviour
begin

text \<open>
  Several replicas and the messages between them. The network keeps every message that was ever sent and delivers any of them,
  in any order, any number of times or never; replicas tick, are called by clients, are asked to lead by an election that may name any
  ballot, stop and start again on their stores. The theory shows what Paxos rests on: a leader
  in the accept phase has the promises of a prepare quorum of servers, and they stay promised.
\<close>

section \<open>The system\<close>

record ('s, 't, 'c, 'p) network =
  nw_replica :: "node_id \<Rightarrow> ('s, 't, 'c, 'p) sequence_paxos"
  nw_sent :: "('t, 'c, 'p) message set"

definition put :: "node_id \<Rightarrow> ('s, 't, 'c, 'p) sequence_paxos \<Rightarrow> ('s, 't, 'c, 'p) network \<Rightarrow> ('s, 't, 'c, 'p) network" where
  "put p sp N = N\<lparr>nw_replica := (nw_replica N)(p := sp)\<rparr>"

text \<open>
  With \<open>strict\<close>, deliveries are of messages that fit the receiver (as in \<open>sp_step\<close>), and servers may crash and restart.
  Clients append entries out of the set \<open>proposals\<close>.
\<close>

inductive net_step ::
  "('s, 't, 'c, 'p) storage_impl \<Rightarrow> ('t, 'p) snapshot_impl \<Rightarrow> (node_id \<Rightarrow> sequence_paxos_config) \<Rightarrow> bool \<Rightarrow> 't set \<Rightarrow> node_id set \<Rightarrow>
     ('s, 't, 'c, 'p) network \<Rightarrow> ('s, 't, 'c, 'p) network \<Rightarrow> bool"
  for S P configs strict proposals nodes where
  net_deliver: "p \<in> nodes \<Longrightarrow> SequencePaxosMsg m \<in> nw_sent N \<Longrightarrow> pm_to m = p \<Longrightarrow> (strict \<Longrightarrow> msg_fits m (nw_replica N p)) \<Longrightarrow>
     sp_handle S P m (nw_replica N p) = Some sp \<Longrightarrow> net_step S P configs strict proposals nodes N (put p sp N)"
| net_elect: "p \<in> nodes \<Longrightarrow> handle_leader S n (nw_replica N p) = Some sp \<Longrightarrow> net_step S P configs strict proposals nodes N (put p sp N)"
| net_append: "p \<in> nodes \<Longrightarrow> sp_append S e (nw_replica N p) = Some (r, sp) \<Longrightarrow> e \<in> proposals \<Longrightarrow> net_step S P configs strict proposals nodes N (put p sp N)"
| net_reconfigure: "p \<in> nodes \<Longrightarrow> sp_reconfigure S cfg md (nw_replica N p) = Some (r, sp) \<Longrightarrow> net_step S P configs strict proposals nodes N (put p sp N)"
| net_trim: "p \<in> nodes \<Longrightarrow> sp_trim S oi (nw_replica N p) = Some (res, sp) \<Longrightarrow> net_step S P configs strict proposals nodes N (put p sp N)"
| net_snapshot: "p \<in> nodes \<Longrightarrow> sp_snapshot S P oi local (nw_replica N p) = Some (res, sp) \<Longrightarrow> net_step S P configs strict proposals nodes N (put p sp N)"
| net_reconnected: "p \<in> nodes \<Longrightarrow> net_step S P configs strict proposals nodes N (put p (sp_reconnected q (nw_replica N p)) N)"
| net_resend: "p \<in> nodes \<Longrightarrow> resend_message_timeout (nw_replica N p) = Some sp \<Longrightarrow> net_step S P configs strict proposals nodes N (put p sp N)"
| net_flush: "p \<in> nodes \<Longrightarrow> flush_batch_timeout S (nw_replica N p) = Some sp \<Longrightarrow> net_step S P configs strict proposals nodes N (put p sp N)"
| net_send: "p \<in> nodes \<Longrightarrow> take_outgoing_msgs [] (nw_replica N p) = (out, sp) \<Longrightarrow>
     net_step S P configs strict proposals nodes N ((put p sp N)\<lparr>nw_sent := nw_sent N \<union> set out\<rparr>)"
| net_restart: "p \<in> nodes \<Longrightarrow> strict \<Longrightarrow>
     sequence_paxos_with S (configs p) (is_storage (sp_internal_storage (nw_replica N p))) = Some sp \<Longrightarrow>
     net_step S P configs strict proposals nodes N (put p sp N)"

inductive_cases net_stepE: "net_step S P configs strict proposals nodes N N'"

section \<open>The invariant\<close>

text \<open>A set of servers that have promised a round.\<close>

definition promised_by :: "('s, 't, 'c, 'p) network \<Rightarrow> ballot \<Rightarrow> node_id set \<Rightarrow> bool" where
  "promised_by N n Q \<longleftrightarrow> (\<forall>q \<in> Q. ballot_le n (sp_get_promise (nw_replica N q)))"

definition book_sound :: "node_id set \<Rightarrow> ('s, 't, 'c, 'p) network \<Rightarrow> ('s, 't, 'c, 'p) sequence_paxos \<Rightarrow> bool" where
  "book_sound nodes N sp \<longleftrightarrow> promised_pids (sp_leader_state sp) \<subseteq> nodes \<and> promised_by N (n_leader (sp_leader_state sp)) (promised_pids (sp_leader_state sp)) \<and>
     (sp_state sp = (Leader, PhaseAccept) \<longrightarrow> (\<exists>Q. Q \<subseteq> nodes \<and> finite Q \<and>
        is_prepare_quorum (ls_quorum (sp_leader_state sp)) (card Q) \<and> promised_by N (n_leader (sp_leader_state sp)) Q))"

definition sent_sound :: "node_id set \<Rightarrow> ('s, 't, 'c, 'p) network \<Rightarrow> ('t, 'c, 'p) message \<Rightarrow> bool" where
  "sent_sound nodes N m \<longleftrightarrow> (\<forall>pm prom. m = SequencePaxosMsg pm \<longrightarrow> pm_msg pm = Promise prom \<longrightarrow>
     pm_from pm \<in> nodes \<and> ballot_le (prom_n prom) (sp_get_promise (nw_replica N (pm_from pm))))"

definition net_inv :: "node_id set \<Rightarrow> ('s, 't, 'c, 'p) network \<Rightarrow> bool" where
  "net_inv nodes N \<longleftrightarrow>
     (\<forall>p \<in> nodes. sp_inv (nw_replica N p) \<and> sp_pid (nw_replica N p) = p \<and> out_sound (nw_replica N p) \<and> book_sound nodes N (nw_replica N p)) \<and>
     (\<forall>m \<in> nw_sent N. sent_sound nodes N m)"

definition promises_grow :: "('s, 't, 'c, 'p) network \<Rightarrow> ('s, 't, 'c, 'p) network \<Rightarrow> bool" where
  "promises_grow N N' \<longleftrightarrow> (\<forall>q. ballot_le (sp_get_promise (nw_replica N q)) (sp_get_promise (nw_replica N' q)))"

lemma promised_by_mono: "promises_grow N N' \<Longrightarrow> promised_by N n Q \<Longrightarrow> promised_by N' n Q"
  unfolding promises_grow_def promised_by_def using ballot_le_trans by blast

lemma book_sound_mono: "promises_grow N N' \<Longrightarrow> book_sound nodes N sp \<Longrightarrow> book_sound nodes N' sp"
  unfolding book_sound_def using promised_by_mono by blast

lemma sent_sound_mono: "promises_grow N N' \<Longrightarrow> sent_sound nodes N m \<Longrightarrow> sent_sound nodes N' m"
  unfolding promises_grow_def sent_sound_def using ballot_le_trans by blast

lemma msg_sound_sent: "msg_sound (nw_replica N p) m \<Longrightarrow> sp_pid (nw_replica N p) = p \<Longrightarrow> p \<in> nodes \<Longrightarrow> sent_sound nodes N m"
  by (auto simp: msg_sound_def sent_sound_def)

lemma finite_promised_pids [simp]: "finite (promised_pids ls)"
  by (rule finite_subset [of _ "{..length (promises_meta ls)}"]) (auto simp: promised_pids_def)

text \<open>A step of one replica on a received message keeps its book sound.\<close>

lemma book_step_sound:
  assumes b: "book_step om sp sp'" and inv: "book_sound nodes N sp" and grow: "promises_grow N N'"
    and own: "sp_pid sp \<in> nodes" "sp_get_promise (nw_replica N' (sp_pid sp)) = sp_get_promise sp'"
    and m: "\<And>m. om = Some m \<Longrightarrow> sent_sound nodes N (SequencePaxosMsg m)"
    and q: "ls_quorum (sp_leader_state sp') = ls_quorum (sp_leader_state sp)"
  shows "book_sound nodes N' sp'"
proof -
  have inv': "book_sound nodes N' sp" using book_sound_mono [OF grow inv] .
  from b show ?thesis
    unfolding book_step_def
  proof (elim disjE exE conjE, goal_cases)
    case 1
    then show ?thesis using inv' q by (auto simp: book_sound_def promised_by_def)
  next
    case (2 m prom)
    let ?Q = "insert (pm_from m) (promised_pids (sp_leader_state sp))"
    have "sent_sound nodes N' (SequencePaxosMsg m)" using sent_sound_mono [OF grow m [OF 2(1)]] .
    then have Q: "?Q \<subseteq> nodes" "promised_by N' (n_leader (sp_leader_state sp)) ?Q" "finite ?Q"
      using 2(2,3) inv' by (auto simp: sent_sound_def book_sound_def promised_by_def)
    have "\<exists>Q. Q \<subseteq> nodes \<and> finite Q \<and> is_prepare_quorum (ls_quorum (sp_leader_state sp)) (card Q) \<and> promised_by N' (n_leader (sp_leader_state sp)) Q"
      if "sp_state sp' = (Leader, PhaseAccept)"
      using 2(6) that Q inv' by (cases "sp_state sp = (Leader, PhaseAccept)") (simp add: book_sound_def, blast)
    then show ?thesis using 2(4,5) Q q by (auto simp: book_sound_def promised_by_def)
  next
    case 3
    then show ?thesis using own by (auto simp: book_sound_def promised_by_def)
  qed
qed

text \<open>A replica that has just started.\<close>

lemma start_sound:
  assumes "sequence_paxos_with S config s = Some sp"
  shows "out_sound sp" "promised_pids (sp_leader_state sp) = {}" "sp_pid sp = spc_pid config" "sp_state sp \<noteq> (Leader, PhaseAccept)"
proof -
  have new: "sp_cached_promise_message sp = None" "\<forall>m \<in> set (sp_outgoing sp). own_plain (sp_pid sp) m"
    "promised_pids (sp_leader_state sp) = {}" "sp_pid sp = spc_pid config" "sp_state sp \<noteq> (Leader, PhaseAccept)"
    using assms by (auto simp: sequence_paxos_with_def bind_eq_Some_conv Let_def split: option.split_asm)
  then show "out_sound sp" using own_plain_sound [of sp] by (auto simp: out_sound_def)
qed (use assms in \<open>auto simp: sequence_paxos_with_def bind_eq_Some_conv Let_def split: option.split_asm\<close>)

text \<open>A step at one server.\<close>

lemma net_update:
  assumes inv: "net_inv nodes N" and p: "p \<in> nodes"
    and sp: "sp_inv sp" "sp_pid sp = p" "out_sound sp" "ballot_le (sp_get_promise (nw_replica N p)) (sp_get_promise sp)"
    and book: "book_sound nodes (put p sp N) sp" and M: "\<And>m. m \<in> M \<Longrightarrow> sent_sound nodes N m"
  shows "net_inv nodes ((put p sp N)\<lparr>nw_sent := nw_sent N \<union> M\<rparr>)" "promises_grow N (put p sp N)"
proof -
  show g: "promises_grow N (put p sp N)" using sp(4) by (simp add: promises_grow_def put_def)
  have same: "promised_by (x\<lparr>nw_sent := s\<rparr>) = promised_by x" "book_sound nodes (x\<lparr>nw_sent := s\<rparr>) = book_sound nodes x"
    "sent_sound nodes (x\<lparr>nw_sent := s\<rparr>) = sent_sound nodes x" for x s
    by (simp_all add: promised_by_def book_sound_def sent_sound_def fun_eq_iff)
  have "sent_sound nodes (put p sp N) m" if "m \<in> nw_sent N \<union> M" for m
    using that inv M sent_sound_mono [OF g] by (auto simp: net_inv_def)
  moreover have "book_sound nodes (put p sp N) (nw_replica N q)" if "q \<in> nodes" for q
    using inv that book_sound_mono [OF g] by (simp add: net_inv_def)
  ultimately show "net_inv nodes ((put p sp N)\<lparr>nw_sent := nw_sent N \<union> M\<rparr>)"
    using inv p sp book by (simp add: net_inv_def same put_def)
qed

lemma net_update_step:
  assumes inv: "net_inv nodes N" and p: "p \<in> nodes" and step: "sp_step S P strict (nw_replica N p) sp"
    and b: "book_step om (nw_replica N p) sp" and m: "\<And>m. om = Some m \<Longrightarrow> SequencePaxosMsg m \<in> nw_sent N"
  shows "net_inv nodes (put p sp N) \<and> promises_grow N (put p sp N)"
proof -
  have i: "sp_inv (nw_replica N p)" "sp_pid (nw_replica N p) = p" "out_sound (nw_replica N p)" "book_sound nodes N (nw_replica N p)"
    using inv p by (auto simp: net_inv_def)
  have s: "same_server (nw_replica N p) sp" using step by (rule sp_step_same_server)
  have le: "ballot_le (sp_get_promise (nw_replica N p)) (sp_get_promise sp)"
    using sp_run_promise [of S P strict "nw_replica N p" sp] step i(1) by blast
  have g: "promises_grow N (put p sp N)" using le by (simp add: promises_grow_def put_def)
  have "book_sound nodes (put p sp N) sp"
    by (rule book_step_sound [OF b i(4) g]) (use i p s m inv in \<open>auto simp: put_def same_server_def net_inv_def\<close>)
  from net_update [OF inv p sp_step_inv [OF step i(1)] _ sp_step_out_sound [OF step i(1,3)] le this, of "{}"] s i(2)
  show ?thesis by (simp add: same_server_def put_def)
qed

context storage_contract
begin

definition net_wf :: "node_id set \<Rightarrow> ('s, 't, 'c, 'p) network \<Rightarrow> bool" where
  "net_wf nodes N \<longleftrightarrow> (\<forall>p \<in> nodes. is_wf sinv view (sp_internal_storage (nw_replica N p)) \<and> round_ok (sp_internal_storage (nw_replica N p)))"

lemma net_wf_step:
  assumes "net_inv nodes N" "net_wf nodes N" "p \<in> nodes" "sp_step S P True (nw_replica N p) sp"
  shows "net_wf nodes (put p sp N)"
proof -
  have "(sp_step S P True)\<^sup>*\<^sup>* (nw_replica N p) sp" using assms(4) by blast
  moreover have "sp_inv (nw_replica N p)" using assms(1,3) by (simp add: net_inv_def)
  ultimately have "is_wf sinv view (sp_internal_storage sp)" "round_ok (sp_internal_storage sp)"
    using assms(2,3) sp_run_wf sp_run_round(1) unfolding net_wf_def by blast+
  then show ?thesis using assms(2) by (simp add: net_wf_def put_def)
qed

lemma net_update_ok:
  assumes "net_inv nodes N" "strict \<longrightarrow> net_wf nodes N" "p \<in> nodes" "sp_step S P strict (nw_replica N p) sp"
    "book_step om (nw_replica N p) sp" "\<And>m. om = Some m \<Longrightarrow> SequencePaxosMsg m \<in> nw_sent N"
  shows "net_inv nodes (put p sp N) \<and> (strict \<longrightarrow> net_wf nodes (put p sp N)) \<and> promises_grow N (put p sp N)"
  using net_update_step [OF assms(1,3-6)] net_wf_step [OF assms(1) _ assms(3), of P sp] assms(2,4) by (cases strict) auto

lemma net_restart_ok:
  assumes inv: "net_inv nodes N" "net_wf nodes N" and p: "p \<in> nodes" "spc_pid config = p" "1 \<le> p"
    and start: "sequence_paxos_with S config (is_storage (sp_internal_storage (nw_replica N p))) = Some sp"
  shows "net_inv nodes (put p sp N) \<and> net_wf nodes (put p sp N) \<and> promises_grow N (put p sp N)"
proof -
  have wf: "is_wf sinv view (sp_internal_storage (nw_replica N p))" "round_ok (sp_internal_storage (nw_replica N p))"
    using inv(2) p(1) by (auto simp: net_wf_def)
  note r = restart_recovers [OF wf _ start, unfolded p(2), OF p(3)]
  note new = start_sound [OF start]
  have "book_sound nodes (put p sp N) sp" using new(2,4) by (simp add: book_sound_def promised_by_def)
  moreover have "ballot_le (sp_get_promise (nw_replica N p)) (sp_get_promise sp)" using r(1) by simp
  ultimately have "net_inv nodes ((put p sp N)\<lparr>nw_sent := nw_sent N \<union> {}\<rparr>)" "promises_grow N (put p sp N)"
    using net_update [OF inv(1) p(1) r(4), of "{}"] new(1,3) p(2) by blast+
  moreover have "net_wf nodes (put p sp N)" using inv(2) r(3,5) by (simp add: net_wf_def put_def)
  ultimately show ?thesis by (simp add: put_def)
qed

lemma net_send_ok:
  assumes inv: "net_inv nodes N" "strict \<longrightarrow> net_wf nodes N" and p: "p \<in> nodes" and send: "take_outgoing_msgs [] (nw_replica N p) = (out, sp)"
  shows "net_inv nodes ((put p sp N)\<lparr>nw_sent := nw_sent N \<union> set out\<rparr>) \<and> (strict \<longrightarrow> net_wf nodes ((put p sp N)\<lparr>nw_sent := nw_sent N \<union> set out\<rparr>)) \<and>
    promises_grow N ((put p sp N)\<lparr>nw_sent := nw_sent N \<union> set out\<rparr>)"
proof -
  have ok: "net_inv nodes (put p sp N)" "strict \<longrightarrow> net_wf nodes (put p sp N)" "promises_grow N (put p sp N)"
    using net_update_ok [OF inv p step_take [OF send] other_steps_book(9) [OF send]] by auto
  have "sent_sound nodes N m" if "m \<in> set out" for m
  proof (rule msg_sound_sent)
    have "m \<in> set (sp_outgoing (nw_replica N p))" using send that by (auto simp: take_outgoing_msgs_def)
    then show "msg_sound (nw_replica N p) m" using inv(1) p by (simp add: net_inv_def out_sound_def)
  qed (use inv(1) p in \<open>simp_all add: net_inv_def\<close>)
  then have "\<forall>m \<in> nw_sent N \<union> set out. sent_sound nodes (put p sp N) m"
    using inv(1) sent_sound_mono [OF ok(3)] by (auto simp: net_inv_def)
  then show ?thesis
    using ok by (auto simp: net_inv_def net_wf_def promises_grow_def book_sound_def promised_by_def sent_sound_def)
qed

lemma net_step_inv:
  assumes "net_step S P configs strict proposals nodes N N'" and inv: "net_inv nodes N" "strict \<longrightarrow> net_wf nodes N"
    and cfg: "\<forall>p \<in> nodes. spc_pid (configs p) = p \<and> 1 \<le> p"
  shows "net_inv nodes N' \<and> (strict \<longrightarrow> net_wf nodes N') \<and> promises_grow N N'"
  using assms(1)
proof cases
  case (net_deliver p m sp)
  have "sp_inv (nw_replica N p)" using inv(1) net_deliver(2) by (simp add: net_inv_def)
  from net_update_ok [OF inv net_deliver(2) step_handle [OF net_deliver(5,6)] sp_handle_book(1) [OF net_deliver(6) this]] net_deliver
  show ?thesis by simp
next
  case (net_elect p n sp)
  then show ?thesis using net_update_ok [OF inv net_elect(2) step_leader other_steps_book(1)] by simp
next
  case (net_append p e r sp)
  then show ?thesis using net_update_ok [OF inv net_append(2) step_append other_steps_book(2)] by simp
next
  case (net_reconfigure p c md r sp)
  then show ?thesis using net_update_ok [OF inv net_reconfigure(2) step_reconfigure other_steps_book(3)] by simp
next
  case (net_trim p oi res sp)
  then show ?thesis using net_update_ok [OF inv net_trim(2) step_trim other_steps_book(4)] by simp
next
  case (net_snapshot p oi local res sp)
  then show ?thesis using net_update_ok [OF inv net_snapshot(2) step_snapshot other_steps_book(5)] by simp
next
  case (net_reconnected p q)
  then show ?thesis using net_update_ok [OF inv net_reconnected(2) step_reconnected other_steps_book(6)] by simp
next
  case (net_resend p sp)
  then show ?thesis using net_update_ok [OF inv net_resend(2) step_resend other_steps_book(7)] by simp
next
  case (net_flush p sp)
  then show ?thesis using net_update_ok [OF inv net_flush(2) step_flush other_steps_book(8)] by simp
next
  case (net_send p out sp)
  then show ?thesis using net_send_ok [OF inv net_send(2,3)] by simp
next
  case (net_restart p sp)
  then show ?thesis using net_restart_ok [OF inv(1) _ net_restart(2) _ _ net_restart(4)] inv(2) cfg by simp
qed

end

section \<open>Runs\<close>

text \<open>Servers that have just started on consistent stores, and no message sent.\<close>

definition net_start ::
  "('s, 't, 'c, 'p) storage_impl \<Rightarrow> ('s \<Rightarrow> bool) \<Rightarrow> ('s \<Rightarrow> ('t, 'c, 'p) storage_view) \<Rightarrow> (node_id \<Rightarrow> sequence_paxos_config) \<Rightarrow> node_id set \<Rightarrow>
     ('s, 't, 'c, 'p) network \<Rightarrow> bool" where
  "net_start S sinv view configs nodes N \<longleftrightarrow> nw_sent N = {} \<and> (\<forall>p \<in> nodes. spc_pid (configs p) = p \<and> 1 \<le> p \<and>
     (\<exists>s. store_ok sinv view s \<and> sequence_paxos_with S (configs p) s = Some (nw_replica N p)))"

context storage_contract
begin

lemma net_start_inv:
  assumes "net_start S sinv view configs nodes N"
  shows "net_inv nodes N" "net_wf nodes N"
proof -
  have "sp_inv (nw_replica N p) \<and> sp_pid (nw_replica N p) = p \<and> out_sound (nw_replica N p) \<and> book_sound nodes N (nw_replica N p) \<and>
      is_wf sinv view (sp_internal_storage (nw_replica N p)) \<and> round_ok (sp_internal_storage (nw_replica N p))" if p0: "p \<in> nodes" for p
  proof -
    have p: "spc_pid (configs p) = p" "1 \<le> spc_pid (configs p)" using assms p0 by (simp_all add: net_start_def)
    obtain s where s: "store_ok sinv view s" "sequence_paxos_with S (configs p) s = Some (nw_replica N p)"
      using assms p0 by (auto simp: net_start_def)
    show ?thesis
      using sequence_paxos_with_start [OF s p(2)] start_sound [OF s(2)] p(1) by (simp add: book_sound_def promised_by_def)
  qed
  then show "net_inv nodes N" "net_wf nodes N" using assms by (auto simp: net_inv_def net_wf_def net_start_def)
qed

lemma net_run_inv:
  assumes "(net_step S P configs strict proposals nodes)\<^sup>*\<^sup>* N N'" "net_start S sinv view configs nodes N"
  shows "net_inv nodes N' \<and> (strict \<longrightarrow> net_wf nodes N') \<and> promises_grow N N'"
  using assms(1)
proof (induction rule: rtranclp_induct)
  case base
  show ?case using net_start_inv [OF assms(2)] by (simp add: promises_grow_def)
next
  case (step y z)
  have "\<forall>p \<in> nodes. spc_pid (configs p) = p \<and> 1 \<le> p" using assms(2) by (simp add: net_start_def)
  with net_step_inv [OF step.hyps(2)] step.IH show ?case
    unfolding promises_grow_def by (meson ballot_le_trans)
qed

lemma accepting_leader:
  assumes run: "net_start S sinv view configs nodes N0" "(net_step S P configs strict proposals nodes)\<^sup>*\<^sup>* N0 N" and p: "p \<in> nodes"
    and lead: "sp_state (nw_replica N p) = (Leader, PhaseAccept)"
  shows "\<exists>Q. Q \<subseteq> nodes \<and> is_prepare_quorum (ls_quorum (sp_leader_state (nw_replica N p))) (card Q) \<and>
      promised_by N (n_leader (sp_leader_state (nw_replica N p))) Q"
    and "\<forall>q \<in> nodes. q \<noteq> p \<longrightarrow> fst (sp_state (nw_replica N q)) = Leader \<longrightarrow>
      n_leader (sp_leader_state (nw_replica N q)) \<noteq> n_leader (sp_leader_state (nw_replica N p))"
proof -
  have inv: "net_inv nodes N" using net_run_inv [OF run(2,1)] by blast
  then have "book_sound nodes N (nw_replica N p)" using p by (simp add: net_inv_def)
  then show "\<exists>Q. Q \<subseteq> nodes \<and> is_prepare_quorum (ls_quorum (sp_leader_state (nw_replica N p))) (card Q) \<and>
      promised_by N (n_leader (sp_leader_state (nw_replica N p))) Q"
    using lead by (auto simp: book_sound_def)
  have "b_pid (n_leader (sp_leader_state (nw_replica N q))) = q" if "q \<in> nodes" "fst (sp_state (nw_replica N q)) = Leader" for q
    using inv that by (auto simp: net_inv_def sp_inv_def)
  then show "\<forall>q \<in> nodes. q \<noteq> p \<longrightarrow> fst (sp_state (nw_replica N q)) = Leader \<longrightarrow>
      n_leader (sp_leader_state (nw_replica N q)) \<noteq> n_leader (sp_leader_state (nw_replica N p))"
    using p lead by (metis fst_conv)
qed

end

end
