(* ===== verification/Cluster_Demo.thy ===== *)
theory Cluster_Demo
  imports Cluster Network Demo
begin

text \<open>Servers 1 and 2 of the cluster of \<open>Demo\<close>, synchronised by the messages of server 1.\<close>

definition demo_peer :: demo_sp where
  "demo_peer = the (sequence_paxos_with memory_impl (demo_spc\<lparr>spc_pid := 2, spc_peers := [1, 3]\<rparr>) memory_storage_default)"

definition demo_head :: demo_sp where
  "demo_head = snd (take_outgoing_msgs [] demo_accepting)"

definition demo_synced :: demo_sp where
  "demo_synced = snd (take_outgoing_msgs [] (the (deliver memory_impl kv_impl 2 (sp_outgoing demo_accepting) demo_peer)))"

lemmas peer_eval = handle_prepare_def handle_acceptsync_def check_valid_ballot_def to_node_def deliver_def take_outgoing_msgs_def
  reset_latest_accept_meta_def forward_buffered_proposals_def sync_snapshot_def sync_stopsign_ops_def

lemma demo_head_eq: "demo_head = \<lparr>sp_internal_storage =
      \<lparr>is_storage = memory_storage_default\<lparr>ms_n_prom := Some demo_ballot, ms_acc_round := Some demo_ballot\<rparr>,
       is_cache = (state_cache_new 1)\<lparr>c_promise := demo_ballot, c_accepted_round := demo_ballot\<rparr>\<rparr>,
    sp_pid = 1, sp_peers = [2, 3], sp_state = (Leader, PhaseAccept), sp_buffered_proposals = [],
    sp_buffered_stopsign = None, sp_outgoing = [],
    sp_leader_state = (leader_state_with demo_ballot 3 (Majority 2))\<lparr>
      promises_meta := map (\<lambda>p. Promised \<lparr>pmd_n_accepted = ballot_default, pmd_accepted_idx = 0, pmd_decided_idx = 0,
        pmd_pid = p\<rparr>) [1, 2] @ [NotPromised],
      follower_seq_nums := [sequence_number_default, \<lparr>sn_session = 1, sn_counter = 1\<rparr>, sequence_number_default]\<rparr>,
    sp_latest_accepted_meta = None, sp_current_seq_num = sequence_number_default, sp_cached_promise_message = None\<rparr>"
  by (simp add: demo_head_def demo_accepting_def demo_leader_eq demo_eval peer_eval)

lemma demo_synced_eq: "demo_synced = \<lparr>sp_internal_storage = sp_internal_storage demo_head, sp_pid = 2, sp_peers = [1, 3],
    sp_state = (Follower, PhaseAccept), sp_buffered_proposals = [], sp_buffered_stopsign = None, sp_outgoing = [],
    sp_leader_state = leader_state_with ballot_default 3 (Majority 2), sp_latest_accepted_meta = None,
    sp_current_seq_num = \<lparr>sn_session = 1, sn_counter = 1\<rparr>, sp_cached_promise_message = None\<rparr>"
  by (simp add: demo_synced_def demo_peer_def demo_accepting_def demo_leader_eq demo_head_eq demo_eval peer_eval)

lemma demo_replicating: "replicating memory_inv memory_view [2] demo_head (\<lambda>_. demo_synced)"
  by (simp add: replicating_def leading_def following_def demo_head_eq demo_synced_eq demo_eval
     is_coherent_def cache_matches_def unbatched_def wf_leader_def known_pid_def seq_of_def memory_inv_def memory_view_def ballot_or_default_def same_log_def)

lemma demo_followers: "get_promised_followers (sp_leader_state demo_head) = Some [2]"
  by (simp add: demo_head_eq demo_eval)

lemma demo_counter_room: "counter_room 2 [2] (sp_leader_state demo_head)"
  by (simp add: demo_head_eq demo_eval counter_room_def seq_of_def)

section \<open>A run of the network\<close>

definition demo_configs :: "node_id \<Rightarrow> sequence_paxos_config" where
  "demo_configs p = demo_spc\<lparr>spc_pid := p, spc_peers := filter (\<lambda>q. q \<noteq> p) [1, 2, 3]\<rparr>"

text \<open>The leader and server 2 after their messages are sent.\<close>

definition demo_asking :: demo_sp where
  "demo_asking = snd (take_outgoing_msgs [] demo_leader)"

definition demo_prepare :: "(key_value, cluster_config, kv_snapshot) paxos_message" where
  "demo_prepare = \<lparr>pm_from = 1, pm_to = 2, pm_msg = Prepare \<lparr>prep_n = demo_ballot, prep_decided_idx = 0,
     prep_n_accepted = ballot_default, prep_accepted_idx = 0\<rparr>\<rparr>"

definition demo_promising :: demo_sp where
  "demo_promising = the (sp_handle memory_impl kv_impl demo_prepare demo_peer)"

definition demo_majority :: demo_sp where
  "demo_majority = the (sp_handle memory_impl kv_impl demo_promise demo_asking)"

definition demo_net :: "(demo_store, key_value, cluster_config, kv_snapshot) network" where
  "demo_net = \<lparr>nw_replica = (\<lambda>p. if p = 1 then demo_replica else demo_peer), nw_sent = {}\<rparr>"

lemma demo_net_start: "net_start memory_impl memory_inv memory_view demo_configs {1, 2} demo_net"
proof -
  have "sequence_paxos_with memory_impl (demo_configs 1) memory_storage_default = Some demo_replica"
    "sequence_paxos_with memory_impl (demo_configs 2) memory_storage_default = Some demo_peer"
    by (simp_all add: demo_replica_eq demo_peer_def demo_configs_def demo_eval)
  then show ?thesis using memory_default_ok by (auto simp: net_start_def demo_net_def demo_configs_def)
qed

lemma demo_net_empty: "ms_log (is_storage (sp_internal_storage (nw_replica demo_net p))) = []"
  by (simp add: demo_net_def demo_replica_eq demo_peer_def demo_eval)

lemma demo_asking_eq: "demo_asking = demo_leader\<lparr>sp_outgoing := []\<rparr>"
  "take_outgoing_msgs [] demo_leader = (map SequencePaxosMsg [demo_prepare, demo_prepare\<lparr>pm_to := 3\<rparr>], demo_asking)"
  by (simp_all add: demo_asking_def demo_leader_eq demo_prepare_def demo_eval peer_eval)

lemma demo_promising_eq: "sp_handle memory_impl kv_impl demo_prepare demo_peer = Some demo_promising"
  "sp_outgoing demo_promising = [SequencePaxosMsg demo_promise]"
  by (simp_all add: demo_promising_def demo_peer_def demo_prepare_def demo_promise_def demo_eval peer_eval)

lemma demo_majority_eq: "sp_handle memory_impl kv_impl demo_promise demo_asking = Some demo_majority"
  "sp_state demo_majority = (Leader, PhaseAccept)" "n_leader (sp_leader_state demo_majority) = demo_ballot"
  by (simp_all add: demo_majority_def demo_asking_eq demo_leader_eq demo_eval peer_eval)

text \<open>Server 1 asks server 2 for its promise and gets it.\<close>

lemma demo_net_run:
  "(net_step memory_impl kv_impl demo_configs False A {1, 2})\<^sup>*\<^sup>* demo_net
     \<lparr>nw_replica = (nw_replica demo_net)(1 := demo_majority, 2 := snd (take_outgoing_msgs [] demo_promising)),
      nw_sent = set (map SequencePaxosMsg [demo_prepare, demo_prepare\<lparr>pm_to := 3\<rparr>, demo_promise])\<rparr>" (is "?step\<^sup>*\<^sup>* _ ?N5")
proof -
  let ?prep = "set (map SequencePaxosMsg [demo_prepare, demo_prepare\<lparr>pm_to := 3\<rparr>])"
  let ?two = "snd (take_outgoing_msgs [] demo_promising)"
  let ?N2 = "\<lparr>nw_replica = (nw_replica demo_net)(1 := demo_asking), nw_sent = ?prep\<rparr>"
  let ?N3 = "\<lparr>nw_replica = (nw_replica demo_net)(1 := demo_asking, 2 := demo_promising), nw_sent = ?prep\<rparr>"
  let ?N4 = "\<lparr>nw_replica = (nw_replica demo_net)(1 := demo_asking, 2 := ?two), nw_sent = ?prep \<union> {SequencePaxosMsg demo_promise}\<rparr>"
  have "?step demo_net (put 1 demo_leader demo_net)" by (rule net_elect [of _ _ _ demo_ballot]) (simp_all add: demo_net_def demo_elect)
  moreover have "?step (put 1 demo_leader demo_net) ?N2"
    using net_send [of 1 "{1, 2}" "put 1 demo_leader demo_net" _ demo_asking memory_impl kv_impl demo_configs False A] demo_asking_eq(2)
    by (simp add: put_def demo_net_def)
  moreover have "?step ?N2 ?N3"
    using net_deliver [of 2 "{1, 2}" demo_prepare ?N2 False memory_impl kv_impl demo_promising demo_configs A] demo_promising_eq(1)
    by (simp add: put_def demo_net_def demo_prepare_def)
  moreover have "take_outgoing_msgs [] demo_promising = ([SequencePaxosMsg demo_promise], ?two)"
    using demo_promising_eq(2) by (simp add: take_outgoing_msgs_def)
  then have "?step ?N3 ?N4"
    using net_send [of 2 "{1, 2}" ?N3 "[SequencePaxosMsg demo_promise]" ?two memory_impl kv_impl demo_configs False A] by (simp add: put_def insert_commute)
  moreover have "?step ?N4 ?N5"
    using net_deliver [of 1 "{1, 2}" demo_promise ?N4 False memory_impl kv_impl demo_majority demo_configs A] demo_majority_eq(1)
    by (simp add: put_def demo_promise_def fun_upd_twist insert_commute)
  ultimately show ?thesis by (meson converse_rtranclp_into_rtranclp rtranclp.rtrancl_refl)
qed

end
