(* ===== verification/Disagreement.thy ===== *)
theory Disagreement
  imports Cluster_Demo
begin

text \<open>
  A run of the network in which two servers decide different entries at the same position. Server 1 leads and has promises of itself and
  of server 2. The first \<^verbatim>\<open>AcceptSync\<close> to server 2 is lost, server 2 sends its promise again, and the promise arrives between two
  appends whose messages are not yet taken from the outgoing buffer: the second entry goes into the \<^verbatim>\<open>AcceptDecide\<close> of the
  first session, which server 2 never accepts, and the new session starts without it.
\<close>

section \<open>The states of the run\<close>

text \<open>Server 1 as leader in the accept phase: its log, the decided index, and what it keeps about server 2.\<close>

definition dis_leader :: "key_value list \<Rightarrow> usize \<Rightarrow> usize \<Rightarrow> sequence_number \<Rightarrow> usize option \<Rightarrow>
    (key_value, cluster_config, kv_snapshot) paxos_msg list \<Rightarrow> demo_sp" where
  "dis_leader log decided accepted seq meta out = \<lparr>sp_internal_storage =
      \<lparr>is_storage = memory_storage_default\<lparr>ms_log := log, ms_n_prom := Some demo_ballot, ms_acc_round := Some demo_ballot, ms_ld := decided\<rparr>,
       is_cache = (state_cache_new 1)\<lparr>c_promise := demo_ballot, c_accepted_round := demo_ballot, c_accepted_idx := length log,
         c_decided_idx := decided\<rparr>\<rparr>,
    sp_pid = 1, sp_peers = [2, 3], sp_state = (Leader, PhaseAccept), sp_buffered_proposals = [],
    sp_buffered_stopsign = None, sp_outgoing = map (paxos_envelope 1 2) out,
    sp_leader_state = (leader_state_with demo_ballot 3 (Majority 2))\<lparr>
      promises_meta := map (\<lambda>p. Promised \<lparr>pmd_n_accepted = ballot_default, pmd_accepted_idx = 0, pmd_decided_idx = 0,
        pmd_pid = p\<rparr>) [1, 2] @ [NotPromised],
      follower_seq_nums := [sequence_number_default, seq, sequence_number_default],
      accepted_indexes := [length log, accepted, 0], latest_accept_meta := [None, map_option (Pair demo_ballot) meta, None]\<rparr>,
    sp_latest_accepted_meta = None, sp_current_seq_num = sequence_number_default, sp_cached_promise_message = None\<rparr>"

text \<open>Server 2 as follower in the accept phase.\<close>

definition dis_follower :: "key_value list \<Rightarrow> usize \<Rightarrow> sequence_number \<Rightarrow> usize option \<Rightarrow>
    (key_value, cluster_config, kv_snapshot) paxos_msg list \<Rightarrow> demo_sp" where
  "dis_follower log decided seq meta out = \<lparr>sp_internal_storage =
      \<lparr>is_storage = memory_storage_default\<lparr>ms_log := log, ms_n_prom := Some demo_ballot, ms_acc_round := Some demo_ballot, ms_ld := decided\<rparr>,
       is_cache = (state_cache_new 1)\<lparr>c_promise := demo_ballot, c_accepted_round := demo_ballot, c_accepted_idx := length log,
         c_decided_idx := decided\<rparr>\<rparr>,
    sp_pid = 2, sp_peers = [1, 3], sp_state = (Follower, PhaseAccept), sp_buffered_proposals = [],
    sp_buffered_stopsign = None, sp_outgoing = map (paxos_envelope 2 1) out,
    sp_leader_state = leader_state_with ballot_default 3 (Majority 2),
    sp_latest_accepted_meta = map_option (Pair demo_ballot) meta, sp_current_seq_num = seq, sp_cached_promise_message = None\<rparr>"

abbreviation (input) seq_num :: "u64 \<Rightarrow> u64 \<Rightarrow> sequence_number" where
  "seq_num s c \<equiv> \<lparr>sn_session = s, sn_counter = c\<rparr>"

definition dis_sync :: "u64 \<Rightarrow> key_value list \<Rightarrow> (key_value, cluster_config, kv_snapshot) paxos_msg" where
  "dis_sync session log = AcceptSync \<lparr>asy_n = demo_ballot, asy_seq_num = seq_num session 1, asy_decided_idx = 0,
     asy_log_sync = \<lparr>decided_snapshot = None, sync_suffix = log, sync_idx = 0, sync_stopsign = None\<rparr>\<rparr>"

definition dis_entries :: "u64 \<Rightarrow> key_value list \<Rightarrow> (key_value, cluster_config, kv_snapshot) paxos_msg" where
  "dis_entries session es = AcceptDecide \<lparr>ad_n = demo_ballot, ad_seq_num = seq_num session 2, ad_decided_idx = 0, ad_entries = es\<rparr>"

definition dis_accepted :: "usize \<Rightarrow> (key_value, cluster_config, kv_snapshot) paxos_msg" where
  "dis_accepted i = Accepted \<lparr>acc_n = demo_ballot, acc_accepted_idx = i\<rparr>"

definition dis_decide :: "(key_value, cluster_config, kv_snapshot) paxos_msg" where
  "dis_decide = Decide \<lparr>dec_n = demo_ballot, dec_seq_num = seq_num 2 3, dec_decided_idx = 2\<rparr>"

lemmas dis_eval = dis_leader_def dis_follower_def dis_sync_def dis_entries_def dis_accepted_def dis_decide_def
  handle_promise_accept_def

section \<open>The steps of the servers\<close>

lemma dis_start: "demo_majority = dis_leader [] 0 0 (seq_num 1 1) None [dis_sync 1 []]"
  by (simp add: demo_majority_def demo_asking_eq demo_leader_eq dis_eval demo_eval peer_eval)

lemma dis_append_1: "sp_append memory_impl a (dis_leader [] 0 0 (seq_num 1 1) None [dis_sync 1 []]) =
    Some (Inr (), dis_leader [a] 0 0 (seq_num 1 2) (Some 1) [dis_sync 1 [], dis_entries 1 [a]])"
  by (simp add: dis_eval demo_eval peer_eval)

lemma dis_promise_again: "sp_handle memory_impl kv_impl demo_promise (dis_leader [a] 0 0 (seq_num 1 2) (Some 1) [dis_sync 1 [], dis_entries 1 [a]]) =
    Some (dis_leader [a] 0 0 (seq_num 2 1) (Some 1) [dis_sync 1 [], dis_entries 1 [a], dis_sync 2 [a]])"
  by (simp add: dis_eval demo_eval peer_eval)

lemma dis_append_2: "sp_append memory_impl b (dis_leader [a] 0 0 (seq_num 2 1) (Some 1) [dis_sync 1 [], dis_entries 1 [a], dis_sync 2 [a]]) =
    Some (Inr (), dis_leader [a, b] 0 0 (seq_num 2 1) (Some 1) [dis_sync 1 [], dis_entries 1 [a, b], dis_sync 2 [a]])"
  by (simp add: dis_eval demo_eval peer_eval)

lemma dis_append_3: "sp_append memory_impl c (dis_leader [a, b] 0 0 (seq_num 2 1) None []) =
    Some (Inr (), dis_leader [a, b, c] 0 0 (seq_num 2 2) (Some 0) [dis_entries 2 [c]])"
  by (simp add: dis_eval demo_eval peer_eval)

lemma dis_take: "take_outgoing_msgs [] (dis_leader log d acc seq meta out) = (map (paxos_envelope 1 2) out, dis_leader log d acc seq None [])"
  "take_outgoing_msgs [] (dis_follower log d seq meta out) = (map (paxos_envelope 2 1) out, dis_follower log d seq None [])"
  by (simp_all add: dis_eval demo_eval peer_eval)

text \<open>Server 2 before the synchronisation, and that it sends its promise again when its timer is due.\<close>

definition dis_promised :: demo_sp where
  "dis_promised = snd (take_outgoing_msgs [] demo_promising)"

lemma dis_resend: "\<exists>sp. resend_message_timeout dis_promised = Some sp \<and> sp_outgoing sp = [SequencePaxosMsg demo_promise] \<and>
    snd (take_outgoing_msgs [] sp) = dis_promised"
  by (simp add: dis_promised_def demo_promising_def demo_peer_def demo_prepare_def resend_message_timeout_def resend_messages_follower_def
      demo_eval peer_eval)

lemma dis_synced: "sp_handle memory_impl kv_impl \<lparr>pm_from = 1, pm_to = 2, pm_msg = dis_sync 2 [a]\<rparr> dis_promised =
    Some (dis_follower [a] 0 (seq_num 2 1) (Some 0) [dis_accepted 1])"
  by (simp add: dis_promised_def demo_promising_def demo_peer_def demo_prepare_def dis_eval demo_eval peer_eval)

lemma dis_receive: "sp_handle memory_impl kv_impl \<lparr>pm_from = 1, pm_to = 2, pm_msg = dis_entries 2 [c]\<rparr> (dis_follower [a] 0 (seq_num 2 1) None []) =
    Some (dis_follower [a, c] 0 (seq_num 2 2) (Some 0) [dis_accepted 2])"
  by (simp add: dis_eval handle_acceptdecide_def handle_sequence_num_def check_msg_status_def append_entries_and_get_accepted_idx_def
      append_entries_with_batching_def cache_append_entries_def
      update_decided_idx_and_get_accepted_idx_def reply_accepted_def get_latest_accepted_message_def demo_eval peer_eval)

lemma dis_chosen: "sp_handle memory_impl kv_impl \<lparr>pm_from = 2, pm_to = 1, pm_msg = dis_accepted 2\<rparr> (dis_leader [a, b, c] 0 0 (seq_num 2 2) None []) =
    Some (dis_leader [a, b, c] 2 2 (seq_num 2 3) None [dis_decide])"
  by (simp add: dis_eval send_decide_def leader_seq_num_def demo_eval peer_eval)

lemma dis_learned: "sp_handle memory_impl kv_impl \<lparr>pm_from = 1, pm_to = 2, pm_msg = dis_decide\<rparr> (dis_follower [a, c] 0 (seq_num 2 2) None []) =
    Some (dis_follower [a, c] 2 (seq_num 2 3) None [])"
  by (simp add: dis_eval handle_decide_def handle_sequence_num_def check_msg_status_def update_decided_idx_and_get_accepted_idx_def
      demo_eval peer_eval)

section \<open>The run\<close>

definition dis_net :: "demo_sp \<Rightarrow> demo_sp \<Rightarrow> (key_value, cluster_config, kv_snapshot) message set \<Rightarrow>
    (demo_store, key_value, cluster_config, kv_snapshot) network" where
  "dis_net one two sent = \<lparr>nw_replica = (nw_replica demo_net)(1 := one, 2 := two), nw_sent = sent\<rparr>"

abbreviation (input) demo_step where
  "demo_step A \<equiv> net_step memory_impl kv_impl demo_configs False A {1, 2}"

lemma put_dis: "put 1 sp (dis_net one two sent) = dis_net sp two sent" "put 2 sp (dis_net one two sent) = dis_net one sp sent"
  by (simp_all add: put_def dis_net_def fun_upd_twist)

lemma replica_dis [simp]: "nw_replica (dis_net one two sent) 1 = one" "nw_replica (dis_net one two sent) (Suc 0) = one"
  "nw_replica (dis_net one two sent) 2 = two" "nw_sent (dis_net one two sent) = sent"
  "(dis_net one two sent)\<lparr>nw_sent := sent'\<rparr> = dis_net one two sent'"
  by (simp_all add: dis_net_def)

lemma dis_steps:
  "sp_append memory_impl e one = Some (r, one') \<Longrightarrow> e \<in> A \<Longrightarrow> demo_step A (dis_net one two sent) (dis_net one' two sent)"
  "SequencePaxosMsg m \<in> sent \<Longrightarrow> pm_to m = 1 \<Longrightarrow> sp_handle memory_impl kv_impl m one = Some one' \<Longrightarrow>
     demo_step A (dis_net one two sent) (dis_net one' two sent)"
  "SequencePaxosMsg m \<in> sent \<Longrightarrow> pm_to m = 2 \<Longrightarrow> sp_handle memory_impl kv_impl m two = Some two' \<Longrightarrow>
     demo_step A (dis_net one two sent) (dis_net one two' sent)"
  "take_outgoing_msgs [] one = (out, one') \<Longrightarrow> demo_step A (dis_net one two sent) (dis_net one' two (sent \<union> set out))"
  "take_outgoing_msgs [] two = (out, two') \<Longrightarrow> demo_step A (dis_net one two sent) (dis_net one two' (sent \<union> set out))"
  using net_append [of 1 "{1, 2}" memory_impl e "dis_net one two sent" r one' A kv_impl demo_configs False]
    net_deliver [of 1 "{1, 2}" m "dis_net one two sent" False memory_impl kv_impl one' demo_configs A]
    net_deliver [of 2 "{1, 2}" m "dis_net one two sent" False memory_impl kv_impl two' demo_configs A]
    net_send [of 1 "{1, 2}" "dis_net one two sent" out one' memory_impl kv_impl demo_configs False A]
    net_send [of 2 "{1, 2}" "dis_net one two sent" out two' memory_impl kv_impl demo_configs False A]
  by (simp_all add: put_dis del: One_nat_def)

lemma dis_prefix: "\<exists>sent. SequencePaxosMsg demo_promise \<in> sent \<and>
    (demo_step A)\<^sup>*\<^sup>* demo_net (dis_net (dis_leader [] 0 0 (seq_num 1 1) None [dis_sync 1 []]) dis_promised sent)"
proof -
  let ?sent = "set (map SequencePaxosMsg [demo_prepare, demo_prepare\<lparr>pm_to := 3\<rparr>, demo_promise])"
  have "SequencePaxosMsg demo_promise \<in> ?sent" by simp
  moreover have "(demo_step A)\<^sup>*\<^sup>* demo_net (dis_net (dis_leader [] 0 0 (seq_num 1 1) None [dis_sync 1 []]) dis_promised ?sent)"
    unfolding dis_net_def dis_promised_def dis_start [symmetric] by (rule demo_net_run)
  ultimately show ?thesis by blast
qed

lemmas dis_run = dis_steps [THEN r_into_rtranclp [of "demo_step A" for A]]

text \<open>The second entry is lost for server 2.\<close>

lemma dis_lost:
  assumes "SequencePaxosMsg demo_promise \<in> sent" "a \<in> A" "b \<in> A"
  shows "\<exists>sent'. (demo_step A)\<^sup>*\<^sup>* (dis_net (dis_leader [] 0 0 (seq_num 1 1) None [dis_sync 1 []]) dis_promised sent)
    (dis_net (dis_leader [a, b] 0 0 (seq_num 2 1) None []) (dis_follower [a] 0 (seq_num 2 1) None []) sent')"
proof -
  have to: "pm_to demo_promise = 1" by (simp add: demo_promise_def)
  let ?sent = "sent \<union> set (map (paxos_envelope 1 2) [dis_sync 1 [], dis_entries 1 [a, b], dis_sync 2 [a]])"
  have sync: "paxos_envelope 1 2 (dis_sync 2 [a]) \<in> ?sent" by simp
  note trans = rtranclp_trans [where r = "demo_step A"]
  show ?thesis
    using trans [OF dis_run(1) [OF dis_append_1 assms(2)] trans [OF dis_run(2) [OF assms(1) to dis_promise_again] trans [OF dis_run(1) [OF dis_append_2 assms(3)]
      trans [OF dis_run(4) [OF dis_take(1)] trans [OF dis_run(3) [OF sync _ dis_synced] dis_run(5) [OF dis_take(2)]]]]]]
    by fastforce
qed

text \<open>The third entry takes its place, and both servers decide.\<close>

lemma dis_decided:
  assumes "c \<in> A"
  shows "\<exists>sent'. (demo_step A)\<^sup>*\<^sup>* (dis_net (dis_leader [a, b] 0 0 (seq_num 2 1) None []) (dis_follower [a] 0 (seq_num 2 1) None []) sent)
    (dis_net (dis_leader [a, b, c] 2 2 (seq_num 2 3) None []) (dis_follower [a, c] 2 (seq_num 2 3) None []) sent')"
proof -
  let ?s1 = "sent \<union> set (map (paxos_envelope 1 2) [dis_entries 2 [c]])"
  let ?s2 = "?s1 \<union> set (map (paxos_envelope 2 1) [dis_accepted 2])"
  let ?s3 = "?s2 \<union> set (map (paxos_envelope 1 2) [dis_decide])"
  have m: "paxos_envelope 1 2 (dis_entries 2 [c]) \<in> ?s1" "paxos_envelope 2 1 (dis_accepted 2) \<in> ?s2" "paxos_envelope 1 2 dis_decide \<in> ?s3"
    by simp_all
  have to: "pm_to \<lparr>pm_from = p, pm_to = q, pm_msg = msg\<rparr> = q" for p q msg by simp
  note trans = rtranclp_trans [where r = "demo_step A"]
  show ?thesis
    using trans [OF dis_run(1) [OF dis_append_3 assms] trans [OF dis_run(4) [OF dis_take(1)] trans [OF dis_run(3) [OF m(1) to dis_receive]
      trans [OF dis_run(5) [OF dis_take(2)] trans [OF dis_run(2) [OF m(2) to dis_chosen] trans [OF dis_run(4) [OF dis_take(1)]
      dis_run(3) [OF m(3) to dis_learned]]]]]]]
    by blast
qed

lemma dis_read:
  "is_read_decided_suffix memory_impl 0 (sp_internal_storage (dis_leader [a, b, c] 2 2 seq None [])) = Some (Inr (Some [Decided a, Decided b]))"
  "is_read_decided_suffix memory_impl 0 (sp_internal_storage (dis_follower [a, c] 2 seq None [])) = Some (Inr (Some [Decided a, Decided c]))"
  by (simp_all add: is_read_decided_suffix_def read_range_def get_entry_type_def create_read_log_entries_def is_get_entries_def try_get_def dis_eval demo_eval)

lemma servers_diverge:
  "\<exists>N. (demo_step {a, b, c})\<^sup>*\<^sup>* demo_net N \<and>
     is_read_decided_suffix memory_impl 0 (sp_internal_storage (nw_replica N 1)) = Some (Inr (Some [Decided a, Decided b])) \<and>
     is_read_decided_suffix memory_impl 0 (sp_internal_storage (nw_replica N 2)) = Some (Inr (Some [Decided a, Decided c]))"
proof -
  obtain sent1 where one: "SequencePaxosMsg demo_promise \<in> sent1"
    "(demo_step {a, b, c})\<^sup>*\<^sup>* demo_net (dis_net (dis_leader [] 0 0 (seq_num 1 1) None [dis_sync 1 []]) dis_promised sent1)"
    using dis_prefix by blast
  obtain sent2 where two: "(demo_step {a, b, c})\<^sup>*\<^sup>* (dis_net (dis_leader [] 0 0 (seq_num 1 1) None [dis_sync 1 []]) dis_promised sent1)
      (dis_net (dis_leader [a, b] 0 0 (seq_num 2 1) None []) (dis_follower [a] 0 (seq_num 2 1) None []) sent2)"
    using dis_lost [OF one(1), of a "{a, b, c}" b] by blast
  obtain sent3 where three: "(demo_step {a, b, c})\<^sup>*\<^sup>* (dis_net (dis_leader [a, b] 0 0 (seq_num 2 1) None []) (dis_follower [a] 0 (seq_num 2 1) None []) sent2)
      (dis_net (dis_leader [a, b, c] 2 2 (seq_num 2 3) None []) (dis_follower [a, c] 2 (seq_num 2 3) None []) sent3)"
    using dis_decided [of c "{a, b, c}" a b] by blast
  from one(2) two three have "(demo_step {a, b, c})\<^sup>*\<^sup>* demo_net
      (dis_net (dis_leader [a, b, c] 2 2 (seq_num 2 3) None []) (dis_follower [a, c] 2 (seq_num 2 3) None []) sent3)"
    by (meson rtranclp_trans)
  then show ?thesis using dis_read replica_dis(1,3) by metis
qed

end
