(* ===== verification/Election.thy ===== *)
theory Election
  imports BLE
begin

text \<open>
  The elections of the servers of a cluster, round by round. In a round, the live servers send their heartbeat requests, answer the
  requests of each other, and end the round with \<^verbatim>\<open>hb_timeout\<close>. When the leader has crashed, three rounds are enough for the others
  to follow one new leader.
\<close>

section \<open>Rounds\<close>

text \<open>Every live server handles the messages to it that the live servers have in their buffers.\<close>

definition inbox :: "node_id list \<Rightarrow> (node_id \<Rightarrow> ballot_leader_election) \<Rightarrow> node_id \<Rightarrow> ble_message list" where
  "inbox live E p = concat (map (\<lambda>q. filter (\<lambda>m. bm_to m = p) (fst (drain_ble_outgoing (E q)))) live)"

definition pass_messages :: "node_id list \<Rightarrow> (node_id \<Rightarrow> ballot_leader_election) \<Rightarrow> node_id \<Rightarrow> ballot_leader_election" where
  "pass_messages live E p = fold ble_handle (inbox live E p) (snd (drain_ble_outgoing (E p)))"

text \<open>First the requests, then the replies.\<close>

definition exchange :: "node_id list \<Rightarrow> (node_id \<Rightarrow> ballot_leader_election) \<Rightarrow> node_id \<Rightarrow> ballot_leader_election" where
  "exchange live E = pass_messages live (pass_messages live E)"

definition heartbeat_round :: "node_id list \<Rightarrow> (node_id \<Rightarrow> role \<times> phase) \<Rightarrow> (node_id \<Rightarrow> ballot) \<Rightarrow>
    (node_id \<Rightarrow> ballot_leader_election) \<Rightarrow> node_id \<Rightarrow> (ballot option \<times> ballot_leader_election) option" where
  "heartbeat_round live st promise E p = hb_timeout (st p) (promise p) (exchange live E p)"

section \<open>Servers at the start of a round\<close>

definition round_requests :: "ballot_leader_election \<Rightarrow> ble_message list" where
  "round_requests ble = map (\<lambda>peer. \<lparr>bm_from = ble_pid ble, bm_to = peer, bm_msg = Request \<lparr>hbq_round = hb_round ble\<rparr>\<rparr>) (ble_peers ble)"

definition ready :: "node_id list \<Rightarrow> u32 \<Rightarrow> nat \<Rightarrow> (node_id \<Rightarrow> ballot_leader_election) \<Rightarrow> bool" where
  "ready live cid k E \<longleftrightarrow> distinct live \<and>
     (\<forall>p \<in> set live. ble_pid (E p) = p \<and> p \<notin> set (ble_peers (E p)) \<and> distinct (ble_peers (E p)) \<and> set live \<subseteq> insert p (set (ble_peers (E p))) \<and>
        ble_configuration_id (E p) = cid \<and> b_config_id (current_ballot (E p)) = cid \<and> b_pid (current_ballot (E p)) = p \<and>
        heartbeat_replies (E p) = [] \<and> ble_outgoing (E p) = round_requests (E p) \<and> unat (hb_round (E p)) + k < 2 ^ 32)"

definition reply_of :: "u32 \<Rightarrow> ballot_leader_election \<Rightarrow> heartbeat_reply" where
  "reply_of round ble = \<lparr>hbr_round = round, hbr_ballot = current_ballot ble, hbr_leader = ble_leader ble, hbr_happy = ble_happy ble\<rparr>"

definition replies_to :: "node_id list \<Rightarrow> (node_id \<Rightarrow> ballot_leader_election) \<Rightarrow> node_id \<Rightarrow> heartbeat_reply list" where
  "replies_to live E p = map (\<lambda>q. reply_of (hb_round (E p)) (E q)) (filter (\<lambda>q. q \<noteq> p) live)"

section \<open>The exchange\<close>

lemma filter_single: "distinct xs \<Longrightarrow> filter (\<lambda>x. x = a) xs = (if a \<in> set xs then [a] else [])"
  by (induction xs) auto

lemma fold_requests:
  "fold ble_handle (map (\<lambda>q. \<lparr>bm_from = q, bm_to = p, bm_msg = Request \<lparr>hbq_round = f q\<rparr>\<rparr>) qs) ble =
     ble\<lparr>ble_outgoing := ble_outgoing ble @ map (\<lambda>q. \<lparr>bm_from = ble_pid ble, bm_to = q, bm_msg = Reply (reply_of (f q) ble)\<rparr>) qs\<rparr>"
  by (induction qs arbitrary: ble) (simp_all add: ble_handle_def handle_request_def reply_of_def)

lemma fold_replies:
  assumes "\<forall>q \<in> set qs. hbr_round (rep q) = hb_round ble \<and> b_config_id (hbr_ballot (rep q)) = ble_configuration_id ble"
  shows "fold ble_handle (map (\<lambda>q. \<lparr>bm_from = q, bm_to = p, bm_msg = Reply (rep q)\<rparr>) qs) ble =
     ble\<lparr>heartbeat_replies := heartbeat_replies ble @ map rep qs\<rparr>"
  using assms by (induction qs arbitrary: ble) (simp_all add: ble_handle_def handle_reply_def)

lemma concat_others: "concat (map (\<lambda>q. if q = p then [] else [f q]) qs) = map f (filter (\<lambda>q. q \<noteq> p) qs)"
  by (induction qs) auto

lemma pass_requests:
  assumes ok: "ready live cid k E" and p: "p \<in> set live"
  shows "pass_messages live E p = (E p)\<lparr>ble_outgoing :=
    map (\<lambda>q. \<lparr>bm_from = p, bm_to = q, bm_msg = Reply (reply_of (hb_round (E q)) (E p))\<rparr>) (filter (\<lambda>q. q \<noteq> p) live)\<rparr>"
proof -
  have "filter (\<lambda>m. bm_to m = p) (ble_outgoing (E q)) =
      (if q = p then [] else [\<lparr>bm_from = q, bm_to = p, bm_msg = Request \<lparr>hbq_round = hb_round (E q)\<rparr>\<rparr>])" if "q \<in> set live" for q
    using ok p that filter_single [of "ble_peers (E q)" p] by (auto simp: ready_def round_requests_def filter_map comp_def)
  then have "inbox live E p = map (\<lambda>q. \<lparr>bm_from = q, bm_to = p, bm_msg = Request \<lparr>hbq_round = hb_round (E q)\<rparr>\<rparr>) (filter (\<lambda>q. q \<noteq> p) live)"
    unfolding inbox_def drain_ble_outgoing_def concat_others [symmetric] by (intro arg_cong [of _ _ concat]) simp
  then show ?thesis using ok p by (simp add: pass_messages_def drain_ble_outgoing_def fold_requests reply_of_def ready_def)
qed

lemma exchange_replies:
  assumes ok: "ready live cid k E" and p: "p \<in> set live"
  shows "exchange live E p = (E p)\<lparr>ble_outgoing := [], heartbeat_replies := replies_to live E p\<rparr>"
proof -
  let ?F = "pass_messages live E"
  have d: "distinct (filter (\<lambda>q'. q' \<noteq> q) live)" for q using ok by (simp add: ready_def)
  have "filter (\<lambda>m. bm_to m = p) (ble_outgoing (?F q)) =
      (if q = p then [] else [\<lparr>bm_from = q, bm_to = p, bm_msg = Reply (reply_of (hb_round (E p)) (E q))\<rparr>])" if "q \<in> set live" for q
    using pass_requests [OF ok that] p filter_single [OF d, of p q] by (auto simp: filter_map comp_def)
  then have "inbox live ?F p = map (\<lambda>q. \<lparr>bm_from = q, bm_to = p, bm_msg = Reply (reply_of (hb_round (E p)) (E q))\<rparr>) (filter (\<lambda>q. q \<noteq> p) live)"
    unfolding inbox_def drain_ble_outgoing_def concat_others [symmetric] by (intro arg_cong [of _ _ concat]) simp
  then show ?thesis using ok p fold_replies [of "filter (\<lambda>q. q \<noteq> p) live" "\<lambda>q. reply_of (hb_round (E p)) (E q)"
        "(E p)\<lparr>ble_outgoing := []\<rparr>" p]
    by (simp add: exchange_def pass_messages_def [of live ?F] pass_requests [OF ok p] drain_ble_outgoing_def replies_to_def reply_of_def ready_def)
qed

section \<open>The end of a round\<close>

definition next_round :: "ballot \<Rightarrow> ballot \<Rightarrow> bool \<Rightarrow> heartbeat_reply list \<Rightarrow> ballot_leader_election \<Rightarrow> ballot_leader_election" where
  "next_round current leader happy replies ble = (
     let ble1 = ble\<lparr>current_ballot := current, ble_leader := leader, ble_happy := happy, prev_replies := replies, heartbeat_replies := [],
           hb_round := hb_round ble + 1\<rparr>
     in ble1\<lparr>ble_outgoing := round_requests ble1\<rparr>)"

lemma next_round_simps [simp]:
  "current_ballot (next_round c l h R ble) = c" "ble_leader (next_round c l h R ble) = l" "ble_happy (next_round c l h R ble) = h"
  "ble_quorum (next_round c l h R ble) = ble_quorum ble"
  by (simp_all add: next_round_def Let_def)

lemma ready_next_round:
  assumes "ready live cid (Suc k) E" "\<forall>p \<in> set live. b_config_id (c p) = cid \<and> b_pid (c p) = p"
  shows "ready live cid k (\<lambda>p. next_round (c p) (l p) (h p) (R p) (E p))"
proof -
  have "unat (w + 1) + k < 2 ^ 32" if "unat w + Suc k < 2 ^ 32" for w :: u32
    using that by (simp add: unat_word_ariths)
  then show ?thesis using assms by (auto simp: ready_def next_round_def round_requests_def Let_def)
qed

lemma round_counts:
  assumes "ready live cid (Suc k) E" "p \<in> set live"
  shows "hb_round (E p) \<noteq> - 1"
proof
  assume "hb_round (E p) = - 1"
  then have "unat (hb_round (E p)) = 2 ^ 32 - 1" by (simp add: unsigned_minus_1_eq_mask mask_eq_exp_minus_1)
  then show False using assms by (fastforce simp: ready_def)
qed

text \<open>A round that ends without a takeover, and one that ends with it.\<close>

lemma hb_timeout_follows:
  assumes "hb_round ble \<noteq> - 1" "update_leader (ble\<lparr>ble_outgoing := [], heartbeat_replies := R\<rparr>) = ble\<lparr>ble_outgoing := [], heartbeat_replies := R, ble_leader := L\<rparr>"
    "h = ble_happy (update_happiness st (ble\<lparr>ble_outgoing := [], heartbeat_replies := R, ble_leader := L\<rparr>))"
    "h \<or> (\<exists>r \<in> set R. hbr_happy r)" "ballot_le promise L"
  shows "hb_timeout st promise (ble\<lparr>ble_outgoing := [], heartbeat_replies := R\<rparr>) =
    Some (if L = current_ballot ble then Some L else None, next_round (current_ballot ble) L h R ble)"
proof -
  have "update_happiness st (ble\<lparr>ble_outgoing := [], heartbeat_replies := R, ble_leader := L\<rparr>) =
      ble\<lparr>ble_outgoing := [], heartbeat_replies := R, ble_leader := L, ble_happy := h\<rparr>"
    using assms(3) by (simp add: update_happiness_def)
  moreover have "\<not> takes_over (ble\<lparr>ble_outgoing := [], heartbeat_replies := R, ble_leader := L, ble_happy := h\<rparr>)"
    using assms(4) by (auto simp: takes_over_def list_all_iff)
  moreover have "\<not> ballot_lt L promise" using assms(5) by (simp add: not_ballot_lt)
  ultimately show ?thesis using assms(1,2)
    by (auto simp: hb_timeout_def check_takeover_def new_hb_round_def checked_inc_def adopt_promise_def next_round_def round_requests_def Let_def)
qed

lemma hb_timeout_takes_over:
  assumes "hb_round ble \<noteq> - 1" "update_leader (ble\<lparr>ble_outgoing := [], heartbeat_replies := R\<rparr>) = ble\<lparr>ble_outgoing := [], heartbeat_replies := R, ble_leader := L\<rparr>"
    "\<not> ble_happy (update_happiness st (ble\<lparr>ble_outgoing := [], heartbeat_replies := R, ble_leader := L\<rparr>))"
    "\<forall>r \<in> set R. \<not> hbr_happy r" "is_prepare_quorum (ble_quorum ble) (length R + 1)" "b_n L \<noteq> - 1" "ballot_le promise L"
  shows "hb_timeout st promise (ble\<lparr>ble_outgoing := [], heartbeat_replies := R\<rparr>) =
    Some (Some ((current_ballot ble)\<lparr>b_n := b_n L + 1\<rparr>),
      next_round ((current_ballot ble)\<lparr>b_n := b_n L + 1\<rparr>) ((current_ballot ble)\<lparr>b_n := b_n L + 1\<rparr>) True R ble)"
proof -
  let ?b = "(current_ballot ble)\<lparr>b_n := b_n L + 1\<rparr>"
  have "update_happiness st (ble\<lparr>ble_outgoing := [], heartbeat_replies := R, ble_leader := L\<rparr>) =
      ble\<lparr>ble_outgoing := [], heartbeat_replies := R, ble_leader := L, ble_happy := False\<rparr>"
    using assms(3) by (simp add: update_happiness_def)
  moreover have "takes_over (ble\<lparr>ble_outgoing := [], heartbeat_replies := R, ble_leader := L, ble_happy := False\<rparr>)"
    using assms(4,5) by (auto simp: takes_over_def list_all_iff)
  moreover have "ballot_lt L ?b" using checked_inc_greater [of "b_n L"] assms(6) by (intro ballot_lt_n) (simp add: checked_inc_def)
  then have "\<not> ballot_lt ?b promise" using assms(7) by (meson ballot_le_lt_trans ballot_lt_trans ballot_lt_irrefl)
  ultimately show ?thesis using assms(1,2,6)
    by (simp add: hb_timeout_def check_takeover_def new_hb_round_def checked_inc_def adopt_promise_def next_round_def round_requests_def Let_def)
qed

lemma update_leader_keeps:
  assumes "ble_leader ble = L" "\<forall>r \<in> set (heartbeat_replies ble). ballot_le (hbr_ballot r) L"
  shows "update_leader ble = ble\<lparr>ble_leader := L\<rparr>"
proof -
  have "update_leader ble = ble"
    using assms(1) assms(2) [folded not_ballot_lt] max_last_in [of ballot_key "map hbr_ballot (heartbeat_replies ble)"]
    by (auto simp: update_leader_def split: option.splits)
  then show ?thesis using assms(1) by (cases ble) simp
qed

lemma update_leader_learns:
  assumes "r \<in> set (heartbeat_replies ble)" "hbr_ballot r = L" "\<forall>r \<in> set (heartbeat_replies ble). ballot_le (hbr_ballot r) L \<and> b_config_id (hbr_ballot r) = b_config_id L"
    "ballot_le (ble_leader ble) L" "b_config_id (ble_leader ble) = b_config_id L"
  shows "update_leader ble = ble\<lparr>ble_leader := L\<rparr>"
proof -
  obtain mx where mx: "max_last ballot_key (map hbr_ballot (heartbeat_replies ble)) = Some mx"
    using assms(1) by (cases "max_last ballot_key (map hbr_ballot (heartbeat_replies ble))") auto
  have "ballot_key L \<le> ballot_key mx" using max_last_ge [OF mx, of L] assms(1,2) by auto
  moreover obtain r' where "r' \<in> set (heartbeat_replies ble)" "mx = hbr_ballot r'" using max_last_in [OF mx] by auto
  ultimately have "mx = L" using assms(3) by (intro ballot_eqI) (auto simp: ballot_le_key)
  moreover have "ble_leader ble = L" if "\<not> ballot_lt (ble_leader ble) L"
    using that assms(4,5) by (intro ballot_eqI) (auto simp: ballot_order not_less)
  ultimately show ?thesis using mx by (auto simp: update_leader_def)
qed

section \<open>Rounds of a cluster\<close>

lemma replies_set: "r \<in> set (replies_to live E p) \<longleftrightarrow> (\<exists>q \<in> set live. q \<noteq> p \<and> r = reply_of (hb_round (E p)) (E q))"
  by (auto simp: replies_to_def)

lemma reply_of_simps [simp]: "hbr_ballot (reply_of n ble) = current_ballot ble" "hbr_leader (reply_of n ble) = ble_leader ble"
  "hbr_happy (reply_of n ble) = ble_happy ble"
  by (simp_all add: reply_of_def)

lemma length_others: "distinct xs \<Longrightarrow> p \<in> set xs \<Longrightarrow> length (filter (\<lambda>q. q \<noteq> p) xs) + 1 = length xs"
proof (induction xs)
  case (Cons a xs)
  show ?case
  proof (cases "a = p")
    case True
    with Cons.prems have "filter (\<lambda>q. q \<noteq> p) xs = xs" by (auto simp: filter_id_conv)
    with True show ?thesis by simp
  qed (use Cons in simp)
qed simp

lemma replies_length: "distinct live \<Longrightarrow> p \<in> set live \<Longrightarrow> length (replies_to live E p) + 1 = length live"
  by (simp only: replies_to_def length_map length_others)

text \<open>When the highest ballot belongs to a happy live server that follows itself, all follow it after the round.\<close>

lemma round_agrees:
  assumes ok: "ready live cid (Suc k) E" and m: "m \<in> set live" "ble_leader (E m) = current_ballot (E m)" "ble_happy (E m)"
    and top: "\<forall>q \<in> set live. ballot_le (current_ballot (E q)) (current_ballot (E m)) \<and> ballot_le (ble_leader (E q)) (current_ballot (E m)) \<and>
      b_config_id (ble_leader (E q)) = cid"
    and promise: "\<forall>q \<in> set live. ballot_le (promise q) (current_ballot (E m))"
    and quorum: "is_prepare_quorum (ble_quorum (E m)) (length live)" "is_accept_quorum (ble_quorum (E m)) (length live)"
    and p: "p \<in> set live"
  shows "heartbeat_round live st promise E p =
    Some (if p = m then Some (current_ballot (E m)) else None, next_round (current_ballot (E p)) (current_ballot (E m)) True (replies_to live E p) (E p))"
proof -
  let ?M = "current_ballot (E m)" and ?R = "replies_to live E p"
  let ?b = "(E p)\<lparr>ble_outgoing := [], heartbeat_replies := ?R\<rparr>"
  have cid: "b_config_id (current_ballot (E q)) = cid" "b_pid (current_ballot (E q)) = q" if "q \<in> set live" for q
    using ok that by (simp_all add: ready_def)
  have le: "\<forall>r \<in> set ?R. ballot_le (hbr_ballot r) ?M \<and> b_config_id (hbr_ballot r) = b_config_id ?M"
    using top cid m(1) by (auto simp: replies_set)
  have upd: "update_leader ?b = ?b\<lparr>ble_leader := ?M\<rparr>"
  proof (cases "p = m")
    case True
    then show ?thesis using update_leader_keeps [of ?b ?M] le m(2) by simp
  next
    case False
    then have "reply_of (hb_round (E p)) (E m) \<in> set ?R" using m(1) by (auto simp: replies_set)
    then show ?thesis using update_leader_learns [of _ ?b ?M] le top p cid(1) [OF m(1)] by simp
  qed
  have happy: "ble_happy (update_happiness (st p) (?b\<lparr>ble_leader := ?M\<rparr>))"
  proof (cases "p = m")
    case True
    have "filter (\<lambda>r. ballot_le (hbr_leader r) ?M) ?R = ?R" using top by (auto simp: filter_id_conv replies_set)
    then have "can_form_quorum (st p) (?b\<lparr>ble_leader := ?M\<rparr>)"
      using True quorum replies_length [of live p E] ok p by (simp add: can_form_quorum_def ready_def)
    then show ?thesis using True by (simp add: update_happiness_def)
  next
    case False
    then have "?M \<noteq> current_ballot (E p)" using cid(2) m(1) p by metis
    moreover have "list_ex (\<lambda>r. hbr_ballot r = ?M \<and> hbr_happy r) ?R" using False m by (force simp: list_ex_iff replies_set)
    ultimately show ?thesis by (simp add: update_happiness_def)
  qed
  have "?M = current_ballot (E p) \<longleftrightarrow> p = m" using cid(2) m(1) p by metis
  then show ?thesis
    using hb_timeout_follows [of "E p" ?R ?M True "st p" "promise p"] upd happy promise p round_counts [OF ok p]
    by (simp add: heartbeat_round_def exchange_replies [OF ok p])
qed

text \<open>The leader has crashed: nobody is happy after one round, and everybody takes over after two.\<close>

lemma round_unhappy:
  assumes ok: "ready live cid (Suc k) E" and lead: "\<forall>q \<in> set live. ble_leader (E q) = L \<and> ballot_lt (current_ballot (E q)) L"
    and others: "\<forall>q \<in> set live. ble_happy (E q)" "2 \<le> length live"
    and promise: "\<forall>q \<in> set live. ballot_le (promise q) L" and p: "p \<in> set live"
  shows "heartbeat_round live st promise E p = Some (None, next_round (current_ballot (E p)) L False (replies_to live E p) (E p))"
proof -
  let ?R = "replies_to live E p" and ?b = "(E p)\<lparr>ble_outgoing := [], heartbeat_replies := replies_to live E p\<rparr>"
  have lt: "\<forall>r \<in> set ?R. ballot_lt (hbr_ballot r) L \<and> hbr_happy r" using lead others(1) by (auto simp: replies_set)
  have upd: "update_leader ?b = ?b\<lparr>ble_leader := L\<rparr>" using update_leader_keeps [of ?b L] lt lead p by auto
  have ne: "L \<noteq> current_ballot (E p)" using lead p by auto
  have unhappy: "\<not> ble_happy (update_happiness (st p) (?b\<lparr>ble_leader := L\<rparr>))" using ne lt by (auto simp: update_happiness_def list_ex_iff)
  have "?R \<noteq> []" using replies_length [of live p E] ok p others(2) by (auto simp: ready_def)
  then have "\<exists>r \<in> set ?R. hbr_happy r" using lt by (cases ?R) auto
  then show ?thesis
    using hb_timeout_follows [of "E p" ?R L False "st p" "promise p"] upd unhappy promise p round_counts [OF ok p] ne
    by (simp add: heartbeat_round_def exchange_replies [OF ok p])
qed

lemma round_takes_over:
  assumes ok: "ready live cid (Suc k) E" and lead: "\<forall>q \<in> set live. ble_leader (E q) = L \<and> ballot_lt (current_ballot (E q)) L"
    and others: "\<forall>q \<in> set live. \<not> ble_happy (E q)" and quorum: "is_prepare_quorum (ble_quorum (E p)) (length live)" and n: "b_n L \<noteq> - 1"
    and promise: "\<forall>q \<in> set live. ballot_le (promise q) L" and p: "p \<in> set live"
  shows "heartbeat_round live st promise E p = Some (Some ((current_ballot (E p))\<lparr>b_n := b_n L + 1\<rparr>),
    next_round ((current_ballot (E p))\<lparr>b_n := b_n L + 1\<rparr>) ((current_ballot (E p))\<lparr>b_n := b_n L + 1\<rparr>) True (replies_to live E p) (E p))"
proof -
  let ?R = "replies_to live E p" and ?b = "(E p)\<lparr>ble_outgoing := [], heartbeat_replies := replies_to live E p\<rparr>"
  have lt: "\<forall>r \<in> set ?R. ballot_lt (hbr_ballot r) L \<and> \<not> hbr_happy r" using lead others by (auto simp: replies_set)
  have upd: "update_leader ?b = ?b\<lparr>ble_leader := L\<rparr>" using update_leader_keeps [of ?b L] lt lead p by auto
  have ne: "L \<noteq> current_ballot (E p)" using lead p by auto
  have "\<not> ble_happy (update_happiness (st p) (?b\<lparr>ble_leader := L\<rparr>))" using ne lt by (auto simp: update_happiness_def list_ex_iff)
  then show ?thesis
    using hb_timeout_takes_over [of "E p" ?R L "st p" "promise p"] upd lt promise p round_counts [OF ok p] quorum n
      replies_length [of live p E] ok
    by (simp add: heartbeat_round_def exchange_replies [OF ok p] ready_def)
qed

section \<open>Elections that succeed\<close>

definition after_round :: "node_id list \<Rightarrow> (node_id \<Rightarrow> role \<times> phase) \<Rightarrow> (node_id \<Rightarrow> ballot) \<Rightarrow>
    (node_id \<Rightarrow> ballot_leader_election) \<Rightarrow> node_id \<Rightarrow> ballot_leader_election" where
  "after_round live st promise E p = snd (the (heartbeat_round live st promise E p))"

lemma ready_cong: "(\<And>p. p \<in> set live \<Longrightarrow> E p = E' p) \<Longrightarrow> ready live cid k E \<longleftrightarrow> ready live cid k E'"
  by (simp add: ready_def)

lemma ready_after:
  assumes "ready live cid (Suc k) E" "\<And>p. p \<in> set live \<Longrightarrow> heartbeat_round live st promise E p = Some (r p, next_round (c p) (l p) (h p) (R p) (E p))"
    "\<forall>p \<in> set live. b_config_id (c p) = cid \<and> b_pid (c p) = p"
  shows "ready live cid k (after_round live st promise E)"
  using ready_next_round [OF assms(1,3)] assms(2) ready_cong [of live "after_round live st promise E"] by (simp add: after_round_def)

text \<open>A cluster that has agreed on a live leader keeps it.\<close>

definition agreed :: "node_id list \<Rightarrow> u32 \<Rightarrow> nat \<Rightarrow> node_id \<Rightarrow> ballot \<Rightarrow> (node_id \<Rightarrow> ballot_leader_election) \<Rightarrow> bool" where
  "agreed live cid k m M E \<longleftrightarrow> ready live cid k E \<and> m \<in> set live \<and> current_ballot (E m) = M \<and>
     (\<forall>p \<in> set live. ble_leader (E p) = M \<and> ballot_le (current_ballot (E p)) M \<and> ble_happy (E p) \<and>
        is_prepare_quorum (ble_quorum (E p)) (length live) \<and> is_accept_quorum (ble_quorum (E p)) (length live))"

lemma round_agreed:
  assumes ok: "ready live cid (Suc k) E" and m: "m \<in> set live" "ble_leader (E m) = current_ballot (E m)" "ble_happy (E m)"
    and top: "\<forall>q \<in> set live. ballot_le (current_ballot (E q)) (current_ballot (E m)) \<and> ballot_le (ble_leader (E q)) (current_ballot (E m)) \<and>
      b_config_id (ble_leader (E q)) = cid"
    and promise: "\<forall>q \<in> set live. ballot_le (promise q) (current_ballot (E m))"
    and quorum: "\<forall>q \<in> set live. is_prepare_quorum (ble_quorum (E q)) (length live) \<and> is_accept_quorum (ble_quorum (E q)) (length live)"
  shows "\<forall>p \<in> set live. heartbeat_round live st promise E p =
      Some (if p = m then Some (current_ballot (E m)) else None, after_round live st promise E p)"
    and "agreed live cid k m (current_ballot (E m)) (after_round live st promise E)"
proof -
  note r = round_agrees [OF ok m top promise, of _ st]
  have q: "is_prepare_quorum (ble_quorum (E m)) (length live)" "is_accept_quorum (ble_quorum (E m)) (length live)" using quorum m(1) by auto
  show "\<forall>p \<in> set live. heartbeat_round live st promise E p =
      Some (if p = m then Some (current_ballot (E m)) else None, after_round live st promise E p)"
    using r [OF q] by (simp add: after_round_def)
  have "\<forall>p \<in> set live. b_config_id (current_ballot (E p)) = cid \<and> b_pid (current_ballot (E p)) = p" using ok by (simp add: ready_def)
  from ready_after [OF ok r [OF q] this] show "agreed live cid k m (current_ballot (E m)) (after_round live st promise E)"
    using r [OF q] top quorum m(1) by (simp add: agreed_def after_round_def)
qed

lemma agreed_stays:
  assumes "agreed live cid (Suc k) m M E" "\<forall>q \<in> set live. ballot_le (promise q) M"
  shows "\<forall>p \<in> set live. heartbeat_round live st promise E p = Some (if p = m then Some M else None, after_round live st promise E p)"
    and "agreed live cid k m M (after_round live st promise E)"
proof -
  have "b_config_id M = cid" using assms(1) by (auto simp: agreed_def ready_def)
  then show "\<forall>p \<in> set live. heartbeat_round live st promise E p = Some (if p = m then Some M else None, after_round live st promise E p)"
    and "agreed live cid k m M (after_round live st promise E)"
    using assms round_agreed [of live cid k E m promise st] by (simp_all add: agreed_def)
qed

text \<open>The crash of a leader.\<close>

lemma election_recovers:
  fixes E live st1 promise1 st2 promise2 L
  defines "E1 \<equiv> after_round live st1 promise1 E"
  defines "E2 \<equiv> after_round live st2 promise2 E1"
  defines "M p \<equiv> (current_ballot (E p))\<lparr>b_n := b_n L + 1\<rparr>"
  assumes ok: "ready live cid (k + 3) E" and lead: "\<forall>q \<in> set live. ble_leader (E q) = L \<and> ballot_lt (current_ballot (E q)) L \<and> ble_happy (E q)"
    and two: "2 \<le> length live" and n: "b_n L \<noteq> - 1"
    and quorum: "\<forall>q \<in> set live. is_prepare_quorum (ble_quorum (E q)) (length live) \<and> is_accept_quorum (ble_quorum (E q)) (length live)"
    and m: "m \<in> set live" "\<forall>q \<in> set live. (b_priority (current_ballot (E q)), q) \<le> (b_priority (current_ballot (E m)), m)"
    and promise: "\<forall>q \<in> set live. ballot_le (promise1 q) L \<and> ballot_le (promise2 q) L \<and> ballot_le (promise3 q) (M m)"
  shows "\<forall>p \<in> set live. heartbeat_round live st1 promise1 E p = Some (None, E1 p) \<and>
      heartbeat_round live st2 promise2 E1 p = Some (Some (M p), E2 p) \<and>
      heartbeat_round live st3 promise3 E2 p = Some (if p = m then Some (M m) else None, after_round live st3 promise3 E2 p)"
    and "agreed live cid k m (M m) (after_round live st3 promise3 E2)"
proof -
  have ok1: "ready live cid (Suc (k + 2)) E" using ok by (simp add: numeral_3_eq_3)
  have ids: "\<forall>p \<in> set live. b_config_id (current_ballot (E p)) = cid \<and> b_pid (current_ballot (E p)) = p" using ok by (simp add: ready_def)
  have r1: "heartbeat_round live st1 promise1 E p = Some (None, next_round (current_ballot (E p)) L False (replies_to live E p) (E p))"
    if "p \<in> set live" for p
    using round_unhappy [OF ok1, of L promise1 p st1] lead two promise that by simp
  have e1: "E1 p = next_round (current_ballot (E p)) L False (replies_to live E p) (E p)" if "p \<in> set live" for p
    using r1 [OF that] by (simp add: E1_def after_round_def)
  have ok2: "ready live cid (Suc (k + 1)) E1" using ready_after [OF ok1 r1 ids] by (simp add: E1_def)
  have r2: "heartbeat_round live st2 promise2 E1 p = Some (Some (M p), next_round (M p) (M p) True (replies_to live E1 p) (E1 p))"
    if "p \<in> set live" for p
    using round_takes_over [OF ok2, of L p promise2 st2] lead quorum n promise that by (simp add: e1 M_def)
  have e2: "E2 p = next_round (M p) (M p) True (replies_to live E1 p) (E1 p)" if "p \<in> set live" for p
    using r2 [OF that] by (simp add: E2_def after_round_def)
  have "\<forall>p \<in> set live. b_config_id (M p) = cid \<and> b_pid (M p) = p" using ids by (simp add: M_def)
  from ready_after [OF ok2 r2 this] have ok3: "ready live cid (Suc k) E2" by (simp add: E2_def)
  have "\<forall>q \<in> set live. ballot_le (M q) (M m)" using m ids by (simp add: ballot_le_key ballot_key_def M_def less_eq_prod_def)
  moreover have "\<forall>q \<in> set live. b_config_id (M q) = cid" using ids by (simp add: M_def)
  ultimately have r3: "\<forall>p \<in> set live. heartbeat_round live st3 promise3 E2 p = Some (if p = m then Some (M m) else None, after_round live st3 promise3 E2 p)"
    "agreed live cid k m (M m) (after_round live st3 promise3 E2)"
    using round_agreed [OF ok3 m(1), of promise3 st3] e1 e2 m(1) quorum promise by simp_all
  show "\<forall>p \<in> set live. heartbeat_round live st1 promise1 E p = Some (None, E1 p) \<and>
      heartbeat_round live st2 promise2 E1 p = Some (Some (M p), E2 p) \<and>
      heartbeat_round live st3 promise3 E2 p = Some (if p = m then Some (M m) else None, after_round live st3 promise3 E2 p)"
    using r1 e1 r2 e2 r3(1) by simp
  show "agreed live cid k m (M m) (after_round live st3 promise3 E2)" by (rule r3(2))
qed

text \<open>Servers 1 and 2 of a cluster of three, following server 3.\<close>

definition orphaned :: "node_id \<Rightarrow> ballot_leader_election" where
  "orphaned p = (let ble = \<lparr>ble_configuration_id = 1, ble_pid = p, ble_peers = filter (\<lambda>q. q \<noteq> p) [1, 2, 3], hb_round = 1, heartbeat_replies = [],
     prev_replies = [], current_ballot = ballot_with 1 0 0 p, ble_leader = ballot_with 1 1 0 3, ble_happy = True, ble_quorum = Majority 2, ble_outgoing = []\<rparr>
   in ble\<lparr>ble_outgoing := round_requests ble\<rparr>)"

end
