(* ===== verification/Erasure.thy ===== *)
theory Erasure
  imports Prelude
begin

text \<open>
  Erasure coding of values (\<^verbatim>\<open>omnipaxos/src/erasure/ec_service.rs\<close>). A value is prefixed with its length,
  padded, cut into data shards and extended by parity shards. The Reed-Solomon code itself is the crate
  \<^verbatim>\<open>reed_solomon_erasure\<close>: its three calls are the fields of \<open>rs_impl\<close>, and what its documentation
  promises is the locale \<open>reed_solomon\<close>.
\<close>

section \<open>Big-endian bytes\<close>

text \<open>The \<open>k\<close> least significant bytes of a number, most significant first, and the number they denote.\<close>

fun be_bytes :: "nat \<Rightarrow> nat \<Rightarrow> u8 list" where
  "be_bytes 0 n = []"
| "be_bytes (Suc k) n = be_bytes k (n div 256) @ [of_nat n]"

definition from_be_bytes :: "u8 list \<Rightarrow> usize" where
  "from_be_bytes bs = foldl (\<lambda>a b. a * 256 + unat b) 0 bs"

lemma length_be_bytes [simp]: "length (be_bytes k n) = k"
  by (induction k arbitrary: n) auto

lemma from_be_bytes_snoc [simp]: "from_be_bytes (bs @ [b]) = from_be_bytes bs * 256 + unat b"
  by (simp add: from_be_bytes_def)

lemma from_be_be_bytes: "from_be_bytes (be_bytes k n) = n mod 256 ^ k"
proof (induction k arbitrary: n)
  case 0
  show ?case by (simp add: from_be_bytes_def)
next
  case (Suc k)
  have "n mod 256 ^ Suc k = (n div 256) mod 256 ^ k * 256 + n mod 256"
    by (simp add: mod_mult2_eq mult.commute)
  with Suc show ?case by (simp add: unat_of_nat)
qed

text \<open>\<^verbatim>\<open>usize::to_be_bytes\<close> on a 64-bit target; addition of two \<^verbatim>\<open>usize\<close> panics beyond its range.\<close>

definition LENGTH_PREFIX_BYTES :: usize where
  "LENGTH_PREFIX_BYTES = 8"

definition to_be_bytes :: "usize \<Rightarrow> u8 list" where
  "to_be_bytes n = be_bytes LENGTH_PREFIX_BYTES n"

definition usize_add :: "usize \<Rightarrow> usize \<Rightarrow> usize option" where
  "usize_add a b = (if a + b < 2 ^ 64 then Some (a + b) else None)"

lemma length_to_be_bytes [simp]: "length (to_be_bytes n) = LENGTH_PREFIX_BYTES"
  by (simp add: to_be_bytes_def)

lemma from_to_be_bytes: "n < 2 ^ 64 \<Longrightarrow> from_be_bytes (to_be_bytes n) = n"
  by (simp add: to_be_bytes_def from_be_be_bytes LENGTH_PREFIX_BYTES_def)

section \<open>Fragments and the service\<close>

record entry_fragment =
  frag_idx :: usize
  frag_data :: "u8 list"

definition entry_fragment_new :: "usize \<Rightarrow> u8 list \<Rightarrow> entry_fragment" where
  "entry_fragment_new i data = \<lparr>frag_idx = i, frag_data = data\<rparr>"

definition entry_fragment_for_request :: "u8 list \<Rightarrow> entry_fragment" where
  "entry_fragment_for_request data = \<lparr>frag_idx = 0, frag_data = data\<rparr>"

definition entry_fragment_default :: entry_fragment where
  "entry_fragment_default = \<lparr>frag_idx = 0, frag_data = []\<rparr>"

datatype rs_error = TooFewShardsPresent | IncorrectShardSize | OtherRSError string

record 'rs rs_impl =
  rs_new :: "usize \<Rightarrow> usize \<Rightarrow> rs_error + 'rs"
  rs_encode :: "'rs \<Rightarrow> u8 list list \<Rightarrow> rs_error + u8 list list"
  rs_reconstruct :: "'rs \<Rightarrow> u8 list option list \<Rightarrow> rs_error + u8 list option list"

record 'rs ec_service =
  data_shards :: usize
  parity_shards :: usize
  ec_rs :: 'rs

definition ec_service_new :: "'rs rs_impl \<Rightarrow> usize \<Rightarrow> usize \<Rightarrow> rs_error + 'rs ec_service" where
  "ec_service_new R d p =
     (case rs_new R d p of
        Inl e \<Rightarrow> Inl e
      | Inr rs \<Rightarrow> Inr \<lparr>data_shards = d, parity_shards = p, ec_rs = rs\<rparr>)"

text \<open>\<^verbatim>\<open>Vec::resize(n, 0)\<close>.\<close>

definition resize_zero :: "usize \<Rightarrow> u8 list \<Rightarrow> u8 list" where
  "resize_zero n xs = take n xs @ replicate (n - length xs) 0"

definition ec_shard_size :: "'rs ec_service \<Rightarrow> usize \<Rightarrow> usize option" where
  "ec_shard_size ec payload_len = do {
     t \<leftarrow> checked_sub (payload_len + data_shards ec) 1;
     (if data_shards ec = 0 then None else Some (t div data_shards ec))
   }"

definition ec_encode :: "'rs rs_impl \<Rightarrow> 'rs ec_service \<Rightarrow> u8 list \<Rightarrow> (rs_error + entry_fragment list) option" where
  "ec_encode R ec val = do {
     let data_with_len_prefix = to_be_bytes (length val) @ val;
     shard_size \<leftarrow> ec_shard_size ec (length data_with_len_prefix);
     let padded_payload = resize_zero (shard_size * data_shards ec) data_with_len_prefix;
     let shards = map (\<lambda>i. take shard_size (drop (i * shard_size) padded_payload)) [0..<data_shards ec]
                  @ replicate (parity_shards ec) (replicate shard_size 0);
     (case rs_encode R (ec_rs ec) shards of
        Inl _ \<Rightarrow> None
      | Inr encoded \<Rightarrow> Some (Inr (map (\<lambda>(i, shard). entry_fragment_new i shard) (enumerate 0 encoded))))
   }"

definition place_fragment :: "usize \<Rightarrow> entry_fragment \<Rightarrow> u8 list option list \<Rightarrow> u8 list option list" where
  "place_fragment total_shards f shards =
     (if frag_idx f < total_shards then shards[frag_idx f := Some (frag_data f)] else shards)"

text \<open>The loop that joins the data shards, each of which has to be there.\<close>

definition join_data_shards :: "usize \<Rightarrow> u8 list option list \<Rightarrow> u8 list option" where
  "join_data_shards d shards = map_option concat (those (map (\<lambda>i. Option.bind (vec_get shards i) id) [0..<d]))"

definition strip_length :: "u8 list \<Rightarrow> (rs_error + u8 list) option" where
  "strip_length reconstructed =
     (if length reconstructed < LENGTH_PREFIX_BYTES then Some (Inl IncorrectShardSize)
      else do {
        let original_len = from_be_bytes (take LENGTH_PREFIX_BYTES reconstructed);
        end_idx \<leftarrow> usize_add original_len LENGTH_PREFIX_BYTES;
        (if end_idx > length reconstructed then Some (Inl IncorrectShardSize)
         else Some (Inr (take original_len (drop LENGTH_PREFIX_BYTES reconstructed))))
      })"

definition ec_decode :: "'rs rs_impl \<Rightarrow> 'rs ec_service \<Rightarrow> entry_fragment list \<Rightarrow> (rs_error + u8 list) option" where
  "ec_decode R ec fragments = (
     let total_shards = data_shards ec + parity_shards ec;
         shards = fold (place_fragment total_shards) fragments (replicate total_shards None);
         present_shards = length (filter (\<lambda>s. s \<noteq> None) shards)
     in if present_shards < data_shards ec then Some (Inl TooFewShardsPresent)
        else (case rs_reconstruct R (ec_rs ec) shards of
            Inl e \<Rightarrow> Some (Inl e)
          | Inr shards1 \<Rightarrow> do {
              reconstructed \<leftarrow> join_data_shards (data_shards ec) shards1;
              strip_length reconstructed
            }))"

definition fragment_index_for_node :: "node_id \<Rightarrow> usize \<Rightarrow> usize option" where
  "fragment_index_for_node pid total_shards = (if total_shards = 0 then None else Some (pid mod total_shards))"

end
