(* ===== verification/Sequence_Paxos_EC.thy ===== *)
theory Sequence_Paxos_EC
  imports Sequence_Paxos Erasure
begin

text \<open>
  The erasure-coded replica (\<^verbatim>\<open>omnipaxos/src/sequence_paxos_ec/\<close>). It has the fields of the plain replica
  and an \<open>ec_service\<close>; most of its methods are, line by line, methods of the plain replica with the types
  renamed, and are those definitions applied to the common fields (\<open>ec_on\<close>). What differs is what the
  leader stores and sends: the entry is encoded, and every server gets the one fragment that is its own.
  \<^verbatim>\<open>RoleEC\<close> and \<^verbatim>\<open>PhaseEC\<close> have the constructors of \<^verbatim>\<open>Role\<close> and \<^verbatim>\<open>Phase\<close> and are identified with them.
\<close>

section \<open>Entries that carry fragments\<close>

datatype operation_type = OpNULL | OpGET | OpRECONSTRUCT | OpSET | OpDELETE

record 't ec_entry_impl =
  ee_operation :: "'t \<Rightarrow> operation_type"
  ee_key :: "'t \<Rightarrow> string"
  ee_value :: "'t \<Rightarrow> entry_fragment"
  ee_from_parts :: "string \<Rightarrow> entry_fragment \<Rightarrow> operation_type \<Rightarrow> 't"

fun operation_type_fmt :: "operation_type \<Rightarrow> string" where
  "operation_type_fmt OpGET = ''GET''"
| "operation_type_fmt OpRECONSTRUCT = ''GET_RECONSTRUCT''"
| "operation_type_fmt OpNULL = ''NULL''"
| "operation_type_fmt OpSET = ''SET''"
| "operation_type_fmt OpDELETE = ''DEL''"

text \<open>
  What the methods use beside their fields: the operations of the entry type, the Reed-Solomon code,
  and the serialisation of a stop sign by the crate \<^verbatim>\<open>bincode\<close> (\<open>None\<close> when it fails).
\<close>

record ('t, 'c, 'rs) ec_env =
  env_entry :: "'t ec_entry_impl"
  env_rs :: "'rs rs_impl"
  env_serialize :: "'c stop_sign \<Rightarrow> u8 list option"

record ('s, 't, 'c, 'p, 'rs) sequence_paxos_ec =
  spe_base :: "('s, 't, 'c, 'p) sequence_paxos"
  spe_ec_service :: "'rs ec_service"

text \<open>A method whose text is that of the plain replica.\<close>

definition ec_on ::
  "(('s, 't, 'c, 'p) sequence_paxos \<Rightarrow> ('s, 't, 'c, 'p) sequence_paxos option) \<Rightarrow>
     ('s, 't, 'c, 'p, 'rs) sequence_paxos_ec \<Rightarrow> ('s, 't, 'c, 'p, 'rs) sequence_paxos_ec option" where
  "ec_on f spe = map_option (\<lambda>sp. spe\<lparr>spe_base := sp\<rparr>) (f (spe_base spe))"

abbreviation ec_upd ::
  "('s, 't, 'c, 'p) sequence_paxos \<Rightarrow> ('s, 't, 'c, 'p, 'rs) sequence_paxos_ec \<Rightarrow>
     ('s, 't, 'c, 'p, 'rs) sequence_paxos_ec" where
  "ec_upd sp spe \<equiv> spe\<lparr>spe_base := sp\<rparr>"

section \<open>The leader\<close>

definition ec_handle_leader ::
  "('s, 't, 'c, 'p) storage_impl \<Rightarrow> ballot \<Rightarrow> ('s, 't, 'c, 'p, 'rs) sequence_paxos_ec \<Rightarrow>
     ('s, 't, 'c, 'p, 'rs) sequence_paxos_ec option" where
  "ec_handle_leader S n = ec_on (handle_leader S n)"

definition ec_become_follower ::
  "('s, 't, 'c, 'p, 'rs) sequence_paxos_ec \<Rightarrow> ('s, 't, 'c, 'p, 'rs) sequence_paxos_ec" where
  "ec_become_follower spe = ec_upd (become_follower (spe_base spe)) spe"

definition ec_handle_preparereq ::
  "prepare_req \<Rightarrow> node_id \<Rightarrow> ('s, 't, 'c, 'p, 'rs) sequence_paxos_ec \<Rightarrow>
     ('s, 't, 'c, 'p, 'rs) sequence_paxos_ec option" where
  "ec_handle_preparereq prepreq from = ec_on (handle_preparereq prepreq from)"

definition ec_send_prepare ::
  "node_id \<Rightarrow> ('s, 't, 'c, 'p, 'rs) sequence_paxos_ec \<Rightarrow> ('s, 't, 'c, 'p, 'rs) sequence_paxos_ec" where
  "ec_send_prepare to spe = ec_upd (send_prepare to (spe_base spe)) spe"

text \<open>\<^verbatim>\<open>self.ec_service.encode(..).expect(..)\<close>, and the entry with the fragment of one server.\<close>

definition spe_encode ::
  "('t, 'c, 'rs) ec_env \<Rightarrow> u8 list \<Rightarrow> ('s, 't, 'c, 'p, 'rs) sequence_paxos_ec \<Rightarrow> entry_fragment list option" where
  "spe_encode X data spe = expect_get (ec_encode (env_rs X) (spe_ec_service spe) data)"

definition entry_for ::
  "('t, 'c, 'rs) ec_env \<Rightarrow> string \<Rightarrow> operation_type \<Rightarrow> entry_fragment list \<Rightarrow> usize \<Rightarrow> node_id \<Rightarrow> 't option" where
  "entry_for X key op fragments total_shards pid = do {
     idx \<leftarrow> fragment_index_for_node pid total_shards;
     f \<leftarrow> vec_get fragments idx;
     Some (ee_from_parts (env_entry X) key f op)
   }"

definition ec_send_acceptdecide_to ::
  "('t, 'c, 'rs) ec_env \<Rightarrow> string \<Rightarrow> operation_type \<Rightarrow> entry_fragment list \<Rightarrow> node_id \<Rightarrow>
     ('s, 't, 'c, 'p, 'rs) sequence_paxos_ec \<Rightarrow> ('s, 't, 'c, 'p, 'rs) sequence_paxos_ec option" where
  "ec_send_acceptdecide_to X key op fragments pid spe = do {
     let sp = spe_base spe;
     let decided_idx = is_get_decided_idx (sp_internal_storage sp);
     let total_shards = length (sp_peers sp) + 1;
     entry \<leftarrow> entry_for X key op fragments total_shards pid;
     (seq, ls) \<leftarrow> next_seq_num pid (sp_leader_state sp);
     Some (ec_upd (push_msg pid (AcceptDecide \<lparr>ad_n = n_leader ls, ad_seq_num = seq,
             ad_decided_idx = decided_idx, ad_entries = [entry]\<rparr>) (upd_leader ls sp)) spe)
   }"

definition ec_send_acceptdecide ::
  "('t, 'c, 'rs) ec_env \<Rightarrow> string \<Rightarrow> operation_type \<Rightarrow> entry_fragment list \<Rightarrow>
     ('s, 't, 'c, 'p, 'rs) sequence_paxos_ec \<Rightarrow> ('s, 't, 'c, 'p, 'rs) sequence_paxos_ec option" where
  "ec_send_acceptdecide X key op fragments spe =
     for_each (ec_send_acceptdecide_to X key op fragments) (sp_peers (spe_base spe)) spe"

definition ec_accept_entry_leader ::
  "('t, 'c, 'rs) ec_env \<Rightarrow> ('s, 't, 'c, 'p) storage_impl \<Rightarrow> 't \<Rightarrow>
     ('s, 't, 'c, 'p, 'rs) sequence_paxos_ec \<Rightarrow> ('s, 't, 'c, 'p, 'rs) sequence_paxos_ec option" where
  "ec_accept_entry_leader X S entry spe = do {
     let sp = spe_base spe;
     let key = ee_key (env_entry X) entry;
     let op = ee_operation (env_entry X) entry;
     let total_shards = length (sp_peers sp) + 1;
     fragments \<leftarrow> spe_encode X (frag_data (ee_value (env_entry X) entry)) spe;
     my_entry \<leftarrow> entry_for X key op fragments total_shards (sp_pid sp);
     (accepted_metadata, st) \<leftarrow> expect (append_entry_with_batching S my_entry (sp_internal_storage sp));
     (case accepted_metadata of
        Some metadata \<Rightarrow> do {
          ls \<leftarrow> set_accepted_idx (sp_pid sp) (am_accepted_idx metadata) (sp_leader_state sp);
          ec_send_acceptdecide X key op fragments (ec_upd (upd_leader ls (upd_storage st sp)) spe)
        }
      | None \<Rightarrow> Some (ec_upd (upd_storage st sp) spe))
   }"

definition ec_send_acceptdecide_batch_to ::
  "('t, 'c, 'rs) ec_env \<Rightarrow> (string \<times> operation_type \<times> entry_fragment list) list \<Rightarrow> node_id \<Rightarrow>
     ('s, 't, 'c, 'p, 'rs) sequence_paxos_ec \<Rightarrow> ('s, 't, 'c, 'p, 'rs) sequence_paxos_ec option" where
  "ec_send_acceptdecide_batch_to X all_entries pid spe = do {
     let sp = spe_base spe;
     let decided_idx = is_get_decided_idx (sp_internal_storage sp);
     let total_shards = length (sp_peers sp) + 1;
     entries \<leftarrow> those (map (\<lambda>(key, op, fragments). entry_for X key op fragments total_shards pid) all_entries);
     (if entries \<noteq> [] then do {
        (seq, ls) \<leftarrow> next_seq_num pid (sp_leader_state sp);
        Some (ec_upd (push_msg pid (AcceptDecide \<lparr>ad_n = n_leader ls, ad_seq_num = seq,
                ad_decided_idx = decided_idx, ad_entries = entries\<rparr>) (upd_leader ls sp)) spe)
      } else Some spe)
   }"

definition ec_send_acceptdecide_batch ::
  "('t, 'c, 'rs) ec_env \<Rightarrow> (string \<times> operation_type \<times> entry_fragment list) list \<Rightarrow>
     ('s, 't, 'c, 'p, 'rs) sequence_paxos_ec \<Rightarrow> ('s, 't, 'c, 'p, 'rs) sequence_paxos_ec option" where
  "ec_send_acceptdecide_batch X all_entries spe =
     for_each (ec_send_acceptdecide_batch_to X all_entries) (sp_peers (spe_base spe)) spe"

text \<open>One entry of a batch: its key, its operation and all its fragments.\<close>

definition ec_encode_entry ::
  "('t, 'c, 'rs) ec_env \<Rightarrow> ('s, 't, 'c, 'p, 'rs) sequence_paxos_ec \<Rightarrow> 't \<Rightarrow>
     (string \<times> operation_type \<times> entry_fragment list) option" where
  "ec_encode_entry X spe entry = do {
     fragments \<leftarrow> spe_encode X (frag_data (ee_value (env_entry X) entry)) spe;
     Some (ee_key (env_entry X) entry, ee_operation (env_entry X) entry, fragments)
   }"

definition ec_accept_entries_leader ::
  "('t, 'c, 'rs) ec_env \<Rightarrow> ('s, 't, 'c, 'p) storage_impl \<Rightarrow> 't list \<Rightarrow>
     ('s, 't, 'c, 'p, 'rs) sequence_paxos_ec \<Rightarrow> ('s, 't, 'c, 'p, 'rs) sequence_paxos_ec option" where
  "ec_accept_entries_leader X S entries spe = do {
     let sp = spe_base spe;
     let total_shards = length (sp_peers sp) + 1;
     all_entries \<leftarrow> those (map (ec_encode_entry X spe) entries);
     my_entries \<leftarrow> those (map (\<lambda>(key, op, fragments). entry_for X key op fragments total_shards (sp_pid sp)) all_entries);
     (accepted_metadata, st) \<leftarrow> expect (append_entries_with_batching S my_entries (sp_internal_storage sp));
     (case accepted_metadata of
        Some metadata \<Rightarrow> do {
          ls \<leftarrow> set_accepted_idx (sp_pid sp) (am_accepted_idx metadata) (sp_leader_state sp);
          ec_send_acceptdecide_batch X all_entries (ec_upd (upd_leader ls (upd_storage st sp)) spe)
        }
      | None \<Rightarrow> Some (ec_upd (upd_storage st sp) spe))
   }"

text \<open>The loop of \<^verbatim>\<open>send_accsync\<close>: the leader's log entry is encoded again, for the receiver.\<close>

definition ec_reencode ::
  "('t, 'c, 'rs) ec_env \<Rightarrow> node_id \<Rightarrow> ('s, 't, 'c, 'p, 'rs) sequence_paxos_ec \<Rightarrow> 't \<Rightarrow> 't option" where
  "ec_reencode X to spe entry = do {
     (key, op, fragments) \<leftarrow> ec_encode_entry X spe entry;
     entry_for X key op fragments (length (sp_peers (spe_base spe)) + 1) to
   }"

definition ec_send_accsync ::
  "('t, 'c, 'rs) ec_env \<Rightarrow> ('s, 't, 'c, 'p) storage_impl \<Rightarrow> ('t, 'p) snapshot_impl \<Rightarrow> node_id \<Rightarrow>
     ('s, 't, 'c, 'p, 'rs) sequence_paxos_ec \<Rightarrow> ('s, 't, 'c, 'p, 'rs) sequence_paxos_ec option" where
  "ec_send_accsync X S P to spe = do {
     let sp = spe_base spe;
     let ls = sp_leader_state sp;
     let current_n = n_leader ls;
     let prev = get_max_promise_meta ls;
     meta \<leftarrow> get_promise_meta to ls;
     fd \<leftarrow> get_follower_decided_idx (pmd_pid meta) ls;
     followers_decided_idx \<leftarrow> fd;
     let followers_valid_entries_idx =
       (if pmd_n_accepted meta = current_n then pmd_accepted_idx meta
        else if pmd_n_accepted meta = pmd_n_accepted prev
        then min (pmd_accepted_idx prev) (pmd_accepted_idx meta)
        else followers_decided_idx);
     log_sync \<leftarrow> create_log_sync S P followers_valid_entries_idx followers_decided_idx sp;
     suffix \<leftarrow> those (map (ec_reencode X to spe) (sync_suffix log_sync));
     ls1 \<leftarrow> increment_seq_num_session to ls;
     (seq, ls2) \<leftarrow> next_seq_num to ls1;
     Some (ec_upd (push_msg to (AcceptSync \<lparr>asy_n = current_n, asy_seq_num = seq,
             asy_decided_idx = sp_get_decided_idx sp, asy_log_sync = log_sync\<lparr>sync_suffix := suffix\<rparr>\<rparr>)
             (upd_leader ls2 sp)) spe)
   }"

definition ec_send_accept_stopsign ::
  "node_id \<Rightarrow> 'c stop_sign \<Rightarrow> bool \<Rightarrow> ('s, 't, 'c, 'p, 'rs) sequence_paxos_ec \<Rightarrow>
     ('s, 't, 'c, 'p, 'rs) sequence_paxos_ec option" where
  "ec_send_accept_stopsign to ss resend = ec_on (send_accept_stopsign to ss resend)"

definition ec_send_decide ::
  "node_id \<Rightarrow> usize \<Rightarrow> bool \<Rightarrow> ('s, 't, 'c, 'p, 'rs) sequence_paxos_ec \<Rightarrow>
     ('s, 't, 'c, 'p, 'rs) sequence_paxos_ec option" where
  "ec_send_decide to decided_idx resend = ec_on (send_decide to decided_idx resend)"

text \<open>When the stop sign flushes a batch, a pseudo entry with the fragments of the stop sign is sent.\<close>

definition ec_accept_stopsign_leader ::
  "('t, 'c, 'rs) ec_env \<Rightarrow> ('s, 't, 'c, 'p) storage_impl \<Rightarrow> 'c stop_sign \<Rightarrow>
     ('s, 't, 'c, 'p, 'rs) sequence_paxos_ec \<Rightarrow> ('s, 't, 'c, 'p, 'rs) sequence_paxos_ec option" where
  "ec_accept_stopsign_leader X S ss spe = do {
     (accepted_metadata, st) \<leftarrow> expect (is_append_stopsign S ss (sp_internal_storage (spe_base spe)));
     let spe1 = ec_upd (upd_storage st (spe_base spe)) spe;
     spe2 \<leftarrow> (case accepted_metadata of
         Some _ \<Rightarrow> do {
           stopsign_bytes \<leftarrow> env_serialize X ss;
           fragments \<leftarrow> spe_encode X stopsign_bytes spe1;
           ec_send_acceptdecide X ''stopsign'' OpNULL fragments spe1
         }
       | None \<Rightarrow> Some spe1);
     let sp2 = spe_base spe2;
     let accepted_idx = is_get_accepted_idx (sp_internal_storage sp2);
     ls \<leftarrow> set_accepted_idx (sp_pid sp2) accepted_idx (sp_leader_state sp2);
     followers \<leftarrow> get_promised_followers ls;
     for_each (\<lambda>pid. ec_send_accept_stopsign pid ss False) followers (ec_upd (upd_leader ls sp2) spe2)
   }"

definition ec_handle_forwarded_proposal ::
  "('t, 'c, 'rs) ec_env \<Rightarrow> ('s, 't, 'c, 'p) storage_impl \<Rightarrow> 't list \<Rightarrow>
     ('s, 't, 'c, 'p, 'rs) sequence_paxos_ec \<Rightarrow> ('s, 't, 'c, 'p, 'rs) sequence_paxos_ec option" where
  "ec_handle_forwarded_proposal X S entries spe = (
     let sp = spe_base spe in
     if \<not> accepted_reconfiguration sp then
        (case sp_state sp of
           (Leader, PhasePrepare) \<Rightarrow> Some (ec_upd (sp\<lparr>sp_buffered_proposals := sp_buffered_proposals sp @ entries\<rparr>) spe)
         | (Leader, PhaseAccept) \<Rightarrow> ec_accept_entries_leader X S entries spe
         | _ \<Rightarrow> Some (ec_upd (forward_proposals entries sp) spe))
      else Some spe)"

definition ec_handle_forwarded_stopsign ::
  "('t, 'c, 'rs) ec_env \<Rightarrow> ('s, 't, 'c, 'p) storage_impl \<Rightarrow> 'c stop_sign \<Rightarrow>
     ('s, 't, 'c, 'p, 'rs) sequence_paxos_ec \<Rightarrow> ('s, 't, 'c, 'p, 'rs) sequence_paxos_ec option" where
  "ec_handle_forwarded_stopsign X S ss spe = (
     let sp = spe_base spe in
     if accepted_reconfiguration sp then Some spe
      else (case sp_state sp of
           (Leader, PhasePrepare) \<Rightarrow> Some (ec_upd (sp\<lparr>sp_buffered_stopsign := Some ss\<rparr>) spe)
         | (Leader, PhaseAccept) \<Rightarrow> ec_accept_stopsign_leader X S ss spe
         | _ \<Rightarrow> Some (ec_upd (forward_stopsign ss sp) spe)))"

definition ec_handle_majority_promises ::
  "('t, 'c, 'rs) ec_env \<Rightarrow> ('s, 't, 'c, 'p) storage_impl \<Rightarrow> ('t, 'p) snapshot_impl \<Rightarrow>
     ('s, 't, 'c, 'p, 'rs) sequence_paxos_ec \<Rightarrow> ('s, 't, 'c, 'p, 'rs) sequence_paxos_ec option" where
  "ec_handle_majority_promises X S P spe = do {
     let sp = spe_base spe;
     let (sync, ls) = take_max_promise_sync (sp_leader_state sp);
     let decided_idx = get_max_decided_idx ls;
     (idx, st) \<leftarrow> expect (sync_log S P (n_leader ls) decided_idx sync (sp_internal_storage sp));
     (new_accepted_idx, sp1) \<leftarrow>
       append_buffered S idx (sp\<lparr>sp_leader_state := ls, sp_internal_storage := st\<rparr>);
     ls1 \<leftarrow> set_accepted_idx (sp_pid sp1) new_accepted_idx (sp_leader_state sp1);
     followers \<leftarrow> get_promised_followers ls1;
     for_each (ec_send_accsync X S P) followers
       (ec_upd (sp1\<lparr>sp_state := (Leader, PhaseAccept), sp_leader_state := ls1\<rparr>) spe)
   }"

definition ec_handle_promise_prepare ::
  "('t, 'c, 'rs) ec_env \<Rightarrow> ('s, 't, 'c, 'p) storage_impl \<Rightarrow> ('t, 'p) snapshot_impl \<Rightarrow> ('t, 'c, 'p) promise \<Rightarrow>
     node_id \<Rightarrow> ('s, 't, 'c, 'p, 'rs) sequence_paxos_ec \<Rightarrow> ('s, 't, 'c, 'p, 'rs) sequence_paxos_ec option" where
  "ec_handle_promise_prepare X S P prom from spe = (
     let sp = spe_base spe in
     if prom_n prom = n_leader (sp_leader_state sp) then do {
        (received_majority, ls) \<leftarrow> set_promise prom from True (sp_leader_state sp);
        (if received_majority then ec_handle_majority_promises X S P (ec_upd (upd_leader ls sp) spe)
         else Some (ec_upd (upd_leader ls sp) spe))
      }
      else Some spe)"

definition ec_handle_promise_accept ::
  "('t, 'c, 'rs) ec_env \<Rightarrow> ('s, 't, 'c, 'p) storage_impl \<Rightarrow> ('t, 'p) snapshot_impl \<Rightarrow> ('t, 'c, 'p) promise \<Rightarrow>
     node_id \<Rightarrow> ('s, 't, 'c, 'p, 'rs) sequence_paxos_ec \<Rightarrow> ('s, 't, 'c, 'p, 'rs) sequence_paxos_ec option" where
  "ec_handle_promise_accept X S P prom from spe = (
     let sp = spe_base spe in
     if prom_n prom = n_leader (sp_leader_state sp) then do {
        (_, ls) \<leftarrow> set_promise prom from False (sp_leader_state sp);
        ec_send_accsync X S P from (ec_upd (upd_leader ls sp) spe)
      }
      else Some spe)"

definition ec_handle_accepted ::
  "('s, 't, 'c, 'p) storage_impl \<Rightarrow> accepted \<Rightarrow> node_id \<Rightarrow> ('s, 't, 'c, 'p, 'rs) sequence_paxos_ec \<Rightarrow>
     ('s, 't, 'c, 'p, 'rs) sequence_paxos_ec option" where
  "ec_handle_accepted S accepted from = ec_on (handle_accepted S accepted from)"

definition ec_get_latest_accdec_message ::
  "node_id \<Rightarrow> ('s, 't, 'c, 'p, 'rs) sequence_paxos_ec \<Rightarrow> (usize \<times> 't accept_decide) option option" where
  "ec_get_latest_accdec_message to spe = get_latest_accdec_message to (spe_base spe)"

definition ec_handle_notaccepted ::
  "not_accepted \<Rightarrow> node_id \<Rightarrow> ('s, 't, 'c, 'p, 'rs) sequence_paxos_ec \<Rightarrow>
     ('s, 't, 'c, 'p, 'rs) sequence_paxos_ec option" where
  "ec_handle_notaccepted not_acc from = ec_on (handle_notaccepted not_acc from)"

definition ec_resend_messages_leader ::
  "('s, 't, 'c, 'p, 'rs) sequence_paxos_ec \<Rightarrow> ('s, 't, 'c, 'p, 'rs) sequence_paxos_ec option" where
  "ec_resend_messages_leader = ec_on resend_messages_leader"

definition ec_flush_batch_leader ::
  "('t, 'c, 'rs) ec_env \<Rightarrow> ('s, 't, 'c, 'p) storage_impl \<Rightarrow> ('s, 't, 'c, 'p, 'rs) sequence_paxos_ec \<Rightarrow>
     ('s, 't, 'c, 'p, 'rs) sequence_paxos_ec option" where
  "ec_flush_batch_leader X S spe = do {
     let sp = spe_base spe;
     (accepted_metadata, st) \<leftarrow> expect (flush_batch_and_get_entries S (sp_internal_storage sp));
     (case accepted_metadata of
        Some metadata \<Rightarrow> do {
          ls \<leftarrow> set_accepted_idx (sp_pid sp) (am_accepted_idx metadata) (sp_leader_state sp);
          let spe1 = ec_upd (upd_leader ls (upd_storage st sp)) spe;
          all_fragments \<leftarrow> those (map (ec_encode_entry X spe1) (am_entries metadata));
          ec_send_acceptdecide_batch X all_fragments spe1
        }
      | None \<Rightarrow> Some (ec_upd (upd_storage st sp) spe))
   }"

section \<open>The follower\<close>

text \<open>The methods of \<^verbatim>\<open>follower.rs\<close> have the text of the plain replica's.\<close>

definition ec_handle_prepare ::
  "('s, 't, 'c, 'p) storage_impl \<Rightarrow> ('t, 'p) snapshot_impl \<Rightarrow> prepare \<Rightarrow> node_id \<Rightarrow> ('s, 't, 'c, 'p, 'rs) sequence_paxos_ec \<Rightarrow>
     ('s, 't, 'c, 'p, 'rs) sequence_paxos_ec option" where
  "ec_handle_prepare S P prep from = ec_on (handle_prepare S P prep from)"

definition ec_handle_acceptsync ::
  "('s, 't, 'c, 'p) storage_impl \<Rightarrow> ('t, 'p) snapshot_impl \<Rightarrow> ('t, 'c, 'p) accept_sync \<Rightarrow> node_id \<Rightarrow> ('s, 't, 'c, 'p, 'rs) sequence_paxos_ec \<Rightarrow>
     ('s, 't, 'c, 'p, 'rs) sequence_paxos_ec option" where
  "ec_handle_acceptsync S P accsync from = ec_on (handle_acceptsync S P accsync from)"

definition ec_forward_buffered_proposals ::
  "('s, 't, 'c, 'p, 'rs) sequence_paxos_ec \<Rightarrow>
     ('s, 't, 'c, 'p, 'rs) sequence_paxos_ec" where
  "ec_forward_buffered_proposals spe = ec_upd (forward_buffered_proposals (spe_base spe)) spe"

definition ec_handle_acceptdecide ::
  "('s, 't, 'c, 'p) storage_impl \<Rightarrow> 't accept_decide \<Rightarrow> ('s, 't, 'c, 'p, 'rs) sequence_paxos_ec \<Rightarrow>
     ('s, 't, 'c, 'p, 'rs) sequence_paxos_ec option" where
  "ec_handle_acceptdecide S acc_dec = ec_on (handle_acceptdecide S acc_dec)"

definition ec_handle_accept_stopsign ::
  "('s, 't, 'c, 'p) storage_impl \<Rightarrow> 'c accept_stopsign \<Rightarrow> ('s, 't, 'c, 'p, 'rs) sequence_paxos_ec \<Rightarrow>
     ('s, 't, 'c, 'p, 'rs) sequence_paxos_ec option" where
  "ec_handle_accept_stopsign S acc_ss = ec_on (handle_accept_stopsign S acc_ss)"

definition ec_handle_decide ::
  "('s, 't, 'c, 'p) storage_impl \<Rightarrow> decide \<Rightarrow> ('s, 't, 'c, 'p, 'rs) sequence_paxos_ec \<Rightarrow>
     ('s, 't, 'c, 'p, 'rs) sequence_paxos_ec option" where
  "ec_handle_decide S dec = ec_on (handle_decide S dec)"

definition ec_update_decided_idx_and_get_accepted_idx ::
  "('s, 't, 'c, 'p) storage_impl \<Rightarrow> usize \<Rightarrow> ('s, 't, 'c, 'p, 'rs) sequence_paxos_ec \<Rightarrow>
     (usize option \<times> ('s, 't, 'c, 'p, 'rs) sequence_paxos_ec) option" where
  "ec_update_decided_idx_and_get_accepted_idx S new_decided_idx spe =
     map_option (\<lambda>(r, sp). (r, ec_upd sp spe))
       (update_decided_idx_and_get_accepted_idx S new_decided_idx (spe_base spe))"

definition ec_reply_accepted ::
  "ballot \<Rightarrow> usize \<Rightarrow> ('s, 't, 'c, 'p, 'rs) sequence_paxos_ec \<Rightarrow>
     ('s, 't, 'c, 'p, 'rs) sequence_paxos_ec option" where
  "ec_reply_accepted n accepted_idx = ec_on (reply_accepted n accepted_idx)"

definition ec_get_latest_accepted_message ::
  "ballot \<Rightarrow> ('s, 't, 'c, 'p, 'rs) sequence_paxos_ec \<Rightarrow> (usize \<times> accepted) option option" where
  "ec_get_latest_accepted_message n spe = get_latest_accepted_message n (spe_base spe)"

definition ec_check_valid_ballot ::
  "ballot \<Rightarrow> ('s, 't, 'c, 'p, 'rs) sequence_paxos_ec \<Rightarrow> bool \<times> ('s, 't, 'c, 'p, 'rs) sequence_paxos_ec" where
  "ec_check_valid_ballot message_ballot spe =
     map_prod id (\<lambda>sp. ec_upd sp spe) (check_valid_ballot message_ballot (spe_base spe))"

definition ec_handle_sequence_num ::
  "sequence_number \<Rightarrow> node_id \<Rightarrow> ('s, 't, 'c, 'p, 'rs) sequence_paxos_ec \<Rightarrow>
     (message_status \<times> ('s, 't, 'c, 'p, 'rs) sequence_paxos_ec) option" where
  "ec_handle_sequence_num seq_num from spe =
     map_option (map_prod id (\<lambda>sp. ec_upd sp spe)) (handle_sequence_num seq_num from (spe_base spe))"

definition ec_resend_messages_follower ::
  "('s, 't, 'c, 'p, 'rs) sequence_paxos_ec \<Rightarrow>
     ('s, 't, 'c, 'p, 'rs) sequence_paxos_ec" where
  "ec_resend_messages_follower spe = ec_upd (resend_messages_follower (spe_base spe)) spe"

definition ec_send_preparereq_to_all_peers ::
  "('s, 't, 'c, 'p, 'rs) sequence_paxos_ec \<Rightarrow>
     ('s, 't, 'c, 'p, 'rs) sequence_paxos_ec" where
  "ec_send_preparereq_to_all_peers spe = ec_upd (send_preparereq_to_all_peers (spe_base spe)) spe"

definition ec_flush_batch_follower ::
  "('s, 't, 'c, 'p) storage_impl \<Rightarrow> ('s, 't, 'c, 'p, 'rs) sequence_paxos_ec \<Rightarrow>
     ('s, 't, 'c, 'p, 'rs) sequence_paxos_ec option" where
  "ec_flush_batch_follower S = ec_on (flush_batch_follower S)"

section \<open>Configuration and user calls\<close>

text \<open>The configuration of the plain replica and the erasure coding service.\<close>

record 'rs sequence_paxos_config_ec =
  spce_base :: sequence_paxos_config
  spce_erasure_coding_service :: "'rs ec_service"

definition sequence_paxos_ec_with ::
  "('s, 't, 'c, 'p) storage_impl \<Rightarrow> 'rs sequence_paxos_config_ec \<Rightarrow> 's \<Rightarrow>
     ('s, 't, 'c, 'p, 'rs) sequence_paxos_ec option" where
  "sequence_paxos_ec_with S config storage = do {
     sp \<leftarrow> sequence_paxos_with S (spce_base config) storage;
     Some \<lparr>spe_base = sp, spe_ec_service = spce_erasure_coding_service config\<rparr>
   }"

datatype compaction_err_ec =
    UndecidedIndexEC usize
  | TrimmedIndexEC usize
  | NotAllDecidedEC usize
  | NotCurrentLeaderEC node_id

text \<open>
  \<^verbatim>\<open>*e.downcast().expect(..)\<close> asks for a \<^verbatim>\<open>CompactionErrEC\<close>, but the internal storage raises a
  \<^verbatim>\<open>CompactionErr\<close>: the dynamic type never matches, and every error of the storage is a panic.
\<close>

definition ec_downcast_compaction :: "unit storage_result \<Rightarrow> (compaction_err_ec + unit) option" where
  "ec_downcast_compaction r =
     (case r of
        Inr u \<Rightarrow> Some (Inr u)
      | Inl (CompactionError _) \<Rightarrow> None
      | Inl (BackendError _) \<Rightarrow> None)"

definition ec_trim ::
  "('s, 't, 'c, 'p) storage_impl \<Rightarrow> usize option \<Rightarrow> ('s, 't, 'c, 'p, 'rs) sequence_paxos_ec \<Rightarrow>
     ((compaction_err_ec + unit) \<times> ('s, 't, 'c, 'p, 'rs) sequence_paxos_ec) option" where
  "ec_trim S trim_idx spe = (
     let sp = spe_base spe in
     if fst (sp_state sp) = Leader then do {
        min_all_accepted_idx \<leftarrow> get_min_all_accepted_idx (sp_leader_state sp);
        (case (case trim_idx of
                 Some idx \<Rightarrow> (if idx \<le> min_all_accepted_idx then Some idx else None)
               | None \<Rightarrow> Some min_all_accepted_idx) of
           None \<Rightarrow> Some (Inl (NotAllDecidedEC min_all_accepted_idx), spe)
         | Some trimmed_idx \<Rightarrow> do {
             (result, st) \<leftarrow> try_trim S trimmed_idx (sp_internal_storage sp);
             let sp1 = upd_storage st sp;
             let sp2 = (if is_ok result then push_to_peers (Compaction (CompactTrim trimmed_idx)) sp1 else sp1);
             r \<leftarrow> ec_downcast_compaction result;
             Some (r, ec_upd sp2 spe)
           })
      }
      else Some (Inl (NotCurrentLeaderEC (sp_get_current_leader sp)), spe))"

definition ec_snapshot ::
  "('s, 't, 'c, 'p) storage_impl \<Rightarrow> ('t, 'p) snapshot_impl \<Rightarrow> usize option \<Rightarrow> bool \<Rightarrow>
     ('s, 't, 'c, 'p, 'rs) sequence_paxos_ec \<Rightarrow>
     ((compaction_err_ec + unit) \<times> ('s, 't, 'c, 'p, 'rs) sequence_paxos_ec) option" where
  "ec_snapshot S P idx local_only spe = do {
     (result, st) \<leftarrow> try_snapshot S P idx (sp_internal_storage (spe_base spe));
     let sp1 = upd_storage st (spe_base spe);
     let sp2 = (if \<not> local_only \<and> is_ok result
                then push_to_peers (Compaction (CompactSnapshot idx)) sp1 else sp1);
     r \<leftarrow> ec_downcast_compaction result;
     Some (r, ec_upd sp2 spe)
   }"

definition ec_handle_compaction ::
  "('s, 't, 'c, 'p) storage_impl \<Rightarrow> ('t, 'p) snapshot_impl \<Rightarrow> compaction \<Rightarrow>
     ('s, 't, 'c, 'p, 'rs) sequence_paxos_ec \<Rightarrow> ('s, 't, 'c, 'p, 'rs) sequence_paxos_ec option" where
  "ec_handle_compaction S P c spe =
     (case c of
        CompactTrim idx \<Rightarrow> do {
          (_, st) \<leftarrow> try_trim S idx (sp_internal_storage (spe_base spe));
          Some (ec_upd (upd_storage st (spe_base spe)) spe)
        }
      | CompactSnapshot idx \<Rightarrow> do { (_, spe1) \<leftarrow> ec_snapshot S P idx True spe; Some spe1 })"

definition ec_propose_entry ::
  "('t, 'c, 'rs) ec_env \<Rightarrow> ('s, 't, 'c, 'p) storage_impl \<Rightarrow> 't \<Rightarrow>
     ('s, 't, 'c, 'p, 'rs) sequence_paxos_ec \<Rightarrow> ('s, 't, 'c, 'p, 'rs) sequence_paxos_ec option" where
  "ec_propose_entry X S entry spe = (
     let sp = spe_base spe in
     case sp_state sp of
        (Leader, PhasePrepare) \<Rightarrow> Some (ec_upd (sp\<lparr>sp_buffered_proposals := sp_buffered_proposals sp @ [entry]\<rparr>) spe)
      | (Leader, PhaseAccept) \<Rightarrow> ec_accept_entry_leader X S entry spe
      | _ \<Rightarrow> Some (ec_upd (forward_proposals [entry] sp) spe))"

definition ec_append ::
  "('t, 'c, 'rs) ec_env \<Rightarrow> ('s, 't, 'c, 'p) storage_impl \<Rightarrow> 't \<Rightarrow> ('s, 't, 'c, 'p, 'rs) sequence_paxos_ec \<Rightarrow>
     ((('t, 'c) propose_err + unit) \<times> ('s, 't, 'c, 'p, 'rs) sequence_paxos_ec) option" where
  "ec_append X S entry spe =
     (if accepted_reconfiguration (spe_base spe) then Some (Inl (PendingReconfigEntry entry), spe)
      else do { spe1 \<leftarrow> ec_propose_entry X S entry spe; Some (Inr (), spe1) })"

definition ec_reconfigure ::
  "('t, 'c, 'rs) ec_env \<Rightarrow> ('s, 't, 'c, 'p) storage_impl \<Rightarrow> 'c \<Rightarrow> u8 list option \<Rightarrow>
     ('s, 't, 'c, 'p, 'rs) sequence_paxos_ec \<Rightarrow> ((('t, 'c) propose_err + unit) \<times> ('s, 't, 'c, 'p, 'rs) sequence_paxos_ec) option" where
  "ec_reconfigure X S new_config metadata spe = (
     let sp = spe_base spe in
     if accepted_reconfiguration sp then Some (Inl (PendingReconfigConfig new_config metadata), spe)
      else do {
        let ss = stop_sign_with new_config metadata;
        spe1 \<leftarrow> (case sp_state sp of
            (Leader, PhasePrepare) \<Rightarrow> Some (ec_upd (sp\<lparr>sp_buffered_stopsign := Some ss\<rparr>) spe)
          | (Leader, PhaseAccept) \<Rightarrow> ec_accept_stopsign_leader X S ss spe
          | _ \<Rightarrow> Some (ec_upd (forward_stopsign ss sp) spe));
        Some (Inr (), spe1)
      })"

definition ec_resend_message_timeout ::
  "('s, 't, 'c, 'p, 'rs) sequence_paxos_ec \<Rightarrow> ('s, 't, 'c, 'p, 'rs) sequence_paxos_ec option" where
  "ec_resend_message_timeout spe =
     (case fst (sp_state (spe_base spe)) of
        Leader \<Rightarrow> ec_resend_messages_leader spe
      | Follower \<Rightarrow> Some (ec_resend_messages_follower spe))"

definition ec_flush_batch_timeout ::
  "('t, 'c, 'rs) ec_env \<Rightarrow> ('s, 't, 'c, 'p) storage_impl \<Rightarrow> ('s, 't, 'c, 'p, 'rs) sequence_paxos_ec \<Rightarrow>
     ('s, 't, 'c, 'p, 'rs) sequence_paxos_ec option" where
  "ec_flush_batch_timeout X S spe =
     (case sp_state (spe_base spe) of
        (Leader, PhaseAccept) \<Rightarrow> ec_flush_batch_leader X S spe
      | (Follower, PhaseAccept) \<Rightarrow> ec_flush_batch_follower S spe
      | _ \<Rightarrow> Some spe)"

definition ec_take_outgoing_msgs ::
  "('t, 'c, 'p) message list \<Rightarrow> ('s, 't, 'c, 'p, 'rs) sequence_paxos_ec \<Rightarrow>
     ('t, 'c, 'p) message list \<times> ('s, 't, 'c, 'p, 'rs) sequence_paxos_ec" where
  "ec_take_outgoing_msgs buffer spe =
     map_prod id (\<lambda>sp. ec_upd sp spe) (take_outgoing_msgs buffer (spe_base spe))"

definition ec_reconnected ::
  "node_id \<Rightarrow> ('s, 't, 'c, 'p, 'rs) sequence_paxos_ec \<Rightarrow>
     ('s, 't, 'c, 'p, 'rs) sequence_paxos_ec" where
  "ec_reconnected pid spe = ec_upd (sp_reconnected pid (spe_base spe)) spe"

definition ec_forward_proposals ::
  "'t list \<Rightarrow> ('s, 't, 'c, 'p, 'rs) sequence_paxos_ec \<Rightarrow>
     ('s, 't, 'c, 'p, 'rs) sequence_paxos_ec" where
  "ec_forward_proposals entries spe = ec_upd (forward_proposals entries (spe_base spe)) spe"

definition ec_forward_stopsign ::
  "'c stop_sign \<Rightarrow> ('s, 't, 'c, 'p, 'rs) sequence_paxos_ec \<Rightarrow>
     ('s, 't, 'c, 'p, 'rs) sequence_paxos_ec" where
  "ec_forward_stopsign ss spe = ec_upd (forward_stopsign ss (spe_base spe)) spe"

definition ec_create_log_sync ::
  "('s, 't, 'c, 'p) storage_impl \<Rightarrow> ('t, 'p) snapshot_impl \<Rightarrow> usize \<Rightarrow> usize \<Rightarrow>
     ('s, 't, 'c, 'p, 'rs) sequence_paxos_ec \<Rightarrow> ('t, 'c, 'p) log_sync option" where
  "ec_create_log_sync S P common_prefix_idx other_logs_decided_idx spe =
     create_log_sync S P common_prefix_idx other_logs_decided_idx (spe_base spe)"

definition ec_is_reconfigured ::
  "('s, 't, 'c, 'p, 'rs) sequence_paxos_ec \<Rightarrow> 'c stop_sign option" where
  "ec_is_reconfigured spe = sp_is_reconfigured (spe_base spe)"

definition ec_handle ::
  "('t, 'c, 'rs) ec_env \<Rightarrow> ('s, 't, 'c, 'p) storage_impl \<Rightarrow> ('t, 'p) snapshot_impl \<Rightarrow>
     ('t, 'c, 'p) paxos_message \<Rightarrow> ('s, 't, 'c, 'p, 'rs) sequence_paxos_ec \<Rightarrow>
     ('s, 't, 'c, 'p, 'rs) sequence_paxos_ec option" where
  "ec_handle X S P m spe =
     (case pm_msg m of
        PrepareReq prepreq \<Rightarrow> ec_handle_preparereq prepreq (pm_from m) spe
      | Prepare prep \<Rightarrow> ec_handle_prepare S P prep (pm_from m) spe
      | Promise prom \<Rightarrow> (case sp_state (spe_base spe) of
            (Leader, PhasePrepare) \<Rightarrow> ec_handle_promise_prepare X S P prom (pm_from m) spe
          | (Leader, PhaseAccept) \<Rightarrow> ec_handle_promise_accept X S P prom (pm_from m) spe
          | _ \<Rightarrow> Some spe)
      | AcceptSync acc_sync \<Rightarrow> ec_handle_acceptsync S P acc_sync (pm_from m) spe
      | AcceptDecide acc \<Rightarrow> ec_handle_acceptdecide S acc spe
      | NotAccepted not_acc \<Rightarrow> ec_handle_notaccepted not_acc (pm_from m) spe
      | Accepted accepted \<Rightarrow> ec_handle_accepted S accepted (pm_from m) spe
      | Decide d \<Rightarrow> ec_handle_decide S d spe
      | ProposalForward proposals \<Rightarrow> ec_handle_forwarded_proposal X S proposals spe
      | Compaction c \<Rightarrow> ec_handle_compaction S P c spe
      | AcceptStopSign acc_ss \<Rightarrow> ec_handle_accept_stopsign S acc_ss spe
      | ForwardStopSign f_ss \<Rightarrow> ec_handle_forwarded_stopsign X S f_ss spe)"

end
