(* ===== verification/Omni_Paxos_EC.thy ===== *)
theory Omni_Paxos_EC
  imports Omni_Paxos Sequence_Paxos_EC
begin

text \<open>
  The server with erasure coding (\<^verbatim>\<open>omnipaxos/src/omni_paxos_ec.rs\<close>): its configuration, which has the
  fields of the plain one and an erasure coding service, and its public interface over the
  erasure-coded replica.
\<close>

section \<open>Configuration\<close>

record cluster_config_ec =
  cce_configuration_id :: u32
  cce_nodes :: "node_id list"
  cce_flexible_quorum :: "flexible_quorum option"

definition cluster_config_from_ec :: "cluster_config_ec \<Rightarrow> cluster_config" where
  "cluster_config_from_ec c = \<lparr>cc_configuration_id = cce_configuration_id c, cc_nodes = cce_nodes c,
     cc_flexible_quorum = cce_flexible_quorum c\<rparr>"

definition cluster_config_ec_validate :: "cluster_config_ec \<Rightarrow> config_error + unit" where
  "cluster_config_ec_validate c = cluster_config_validate (cluster_config_from_ec c)"

record 'rs server_config_ec = server_config +
  sce_erasure_coding_service :: "'rs ec_service"

definition server_config_from_ec :: "'rs server_config_ec \<Rightarrow> server_config" where
  "server_config_from_ec s = server_config.truncate s"

definition server_config_ec_validate :: "'rs server_config_ec \<Rightarrow> config_error + unit" where
  "server_config_ec_validate s = server_config_validate (server_config_from_ec s)"

definition server_config_ec_default :: "'rs rs_impl \<Rightarrow> 'rs server_config_ec option" where
  "server_config_ec_default R =
     (case ec_service_new R 1 1 of
        Inl _ \<Rightarrow> None
      | Inr ec \<Rightarrow> Some (server_config.extend server_config_default \<lparr>sce_erasure_coding_service = ec\<rparr>))"

record 'rs omni_paxos_ec_config =
  cluster_config_ec_of :: cluster_config_ec
  server_config_ec_of :: "'rs server_config_ec"

definition omni_paxos_config_from_ec :: "'rs omni_paxos_ec_config \<Rightarrow> omni_paxos_config" where
  "omni_paxos_config_from_ec c = \<lparr>cluster_config_of = cluster_config_from_ec (cluster_config_ec_of c),
     server_config_of = server_config_from_ec (server_config_ec_of c)\<rparr>"

definition omni_paxos_ec_config_validate :: "'rs omni_paxos_ec_config \<Rightarrow> config_error + unit" where
  "omni_paxos_ec_config_validate c = omni_paxos_config_validate (omni_paxos_config_from_ec c)"

definition sequence_paxos_config_from_ec :: "'rs omni_paxos_ec_config \<Rightarrow> 'rs sequence_paxos_config_ec" where
  "sequence_paxos_config_from_ec c = \<lparr>spce_base = sequence_paxos_config_from (omni_paxos_config_from_ec c),
     spce_erasure_coding_service = sce_erasure_coding_service (server_config_ec_of c)\<rparr>"

definition ble_config_from_ec :: "'rs omni_paxos_ec_config \<Rightarrow> ble_config" where
  "ble_config_from_ec c = ble_config_from (omni_paxos_config_from_ec c)"

section \<open>The server\<close>

record ('s, 't, 'p, 'rs) omni_paxos_ec =
  ope_seq_paxos :: "('s, 't, cluster_config_ec, 'p, 'rs) sequence_paxos_ec"
  ope_ble :: ballot_leader_election
  ope_election_clock :: logical_clock
  ope_resend_message_clock :: logical_clock
  ope_flush_batch_clock :: logical_clock

definition omni_paxos_ec_build ::
  "('s, 't, cluster_config_ec, 'p) storage_impl \<Rightarrow> 'rs omni_paxos_ec_config \<Rightarrow> 's \<Rightarrow>
     (config_error + ('s, 't, 'p, 'rs) omni_paxos_ec) option" where
  "omni_paxos_ec_build S config storage =
     (case omni_paxos_ec_config_validate config of
        Inl e \<Rightarrow> Some (Inl e)
      | Inr _ \<Rightarrow> do {
          recovered_leader \<leftarrow> expect_get (st_get_promise S storage);
          ble \<leftarrow> ble_with (ble_config_from_ec config) recovered_leader;
          spe \<leftarrow> sequence_paxos_ec_with S (sequence_paxos_config_from_ec config) storage;
          Some (Inr \<lparr>
            ope_seq_paxos = spe,
            ope_ble = ble,
            ope_election_clock = logical_clock_with (sc_election_tick_timeout (server_config_ec_of config)),
            ope_resend_message_clock = logical_clock_with (sc_resend_message_tick_timeout (server_config_ec_of config)),
            ope_flush_batch_clock = logical_clock_with (sc_flush_batch_tick_timeout (server_config_ec_of config))\<rparr>)
        })"

definition ec_build_for_server ::
  "('s, 't, cluster_config_ec, 'p) storage_impl \<Rightarrow> cluster_config_ec \<Rightarrow> 'rs server_config_ec \<Rightarrow> 's \<Rightarrow>
     (config_error + ('s, 't, 'p, 'rs) omni_paxos_ec) option" where
  "ec_build_for_server S cc sc with_storage =
     omni_paxos_ec_build S \<lparr>cluster_config_ec_of = cc, server_config_ec_of = sc\<rparr> with_storage"

definition ope_on ::
  "(('s, 't, cluster_config_ec, 'p, 'rs) sequence_paxos_ec \<Rightarrow>
     ('r \<times> ('s, 't, cluster_config_ec, 'p, 'rs) sequence_paxos_ec) option) \<Rightarrow>
     ('s, 't, 'p, 'rs) omni_paxos_ec \<Rightarrow> ('r \<times> ('s, 't, 'p, 'rs) omni_paxos_ec) option" where
  "ope_on f om = map_option (\<lambda>(r, spe). (r, om\<lparr>ope_seq_paxos := spe\<rparr>)) (f (ope_seq_paxos om))"

definition omni_ec_trim ::
  "('s, 't, cluster_config_ec, 'p) storage_impl \<Rightarrow> usize option \<Rightarrow> ('s, 't, 'p, 'rs) omni_paxos_ec \<Rightarrow>
     ((compaction_err_ec + unit) \<times> ('s, 't, 'p, 'rs) omni_paxos_ec) option" where
  "omni_ec_trim S trim_index = ope_on (ec_trim S trim_index)"

definition omni_ec_snapshot ::
  "('s, 't, cluster_config_ec, 'p) storage_impl \<Rightarrow> ('t, 'p) snapshot_impl \<Rightarrow> usize option \<Rightarrow> bool \<Rightarrow>
     ('s, 't, 'p, 'rs) omni_paxos_ec \<Rightarrow> ((compaction_err_ec + unit) \<times> ('s, 't, 'p, 'rs) omni_paxos_ec) option" where
  "omni_ec_snapshot S P compact_idx local_only = ope_on (ec_snapshot S P compact_idx local_only)"

definition omni_ec_get_decided_idx :: "('s, 't, 'p, 'rs) omni_paxos_ec \<Rightarrow> usize" where
  "omni_ec_get_decided_idx om = sp_get_decided_idx (spe_base (ope_seq_paxos om))"

definition omni_ec_get_compacted_idx :: "('s, 't, 'p, 'rs) omni_paxos_ec \<Rightarrow> usize" where
  "omni_ec_get_compacted_idx om = sp_get_compacted_idx (spe_base (ope_seq_paxos om))"

definition omni_ec_get_current_leader :: "('s, 't, 'p, 'rs) omni_paxos_ec \<Rightarrow> (node_id \<times> bool) option" where
  "omni_ec_get_current_leader om =
     (let sp = spe_base (ope_seq_paxos om);
          promised_pid = b_pid (sp_get_promise sp) in
      if promised_pid = 0 then None
      else Some (promised_pid, snd (sp_state sp) = PhaseAccept))"

definition omni_ec_get_promise :: "('s, 't, 'p, 'rs) omni_paxos_ec \<Rightarrow> ballot" where
  "omni_ec_get_promise om = sp_get_promise (spe_base (ope_seq_paxos om))"

definition omni_ec_service :: "('s, 't, 'p, 'rs) omni_paxos_ec \<Rightarrow> 'rs ec_service" where
  "omni_ec_service om = spe_ec_service (ope_seq_paxos om)"

definition omni_ec_take_outgoing_messages ::
  "('t, cluster_config_ec, 'p) message list \<Rightarrow> ('s, 't, 'p, 'rs) omni_paxos_ec \<Rightarrow>
     ('t, cluster_config_ec, 'p) message list \<times> ('s, 't, 'p, 'rs) omni_paxos_ec" where
  "omni_ec_take_outgoing_messages buffer om =
     (let (buffer1, spe) = ec_take_outgoing_msgs buffer (ope_seq_paxos om);
          (drained, ble) = drain_ble_outgoing (ope_ble om)
      in (buffer1 @ map BLEMsg drained, om\<lparr>ope_seq_paxos := spe, ope_ble := ble\<rparr>))"

definition omni_ec_read ::
  "('s, 't, cluster_config_ec, 'p) storage_impl \<Rightarrow> usize \<Rightarrow> ('s, 't, 'p, 'rs) omni_paxos_ec \<Rightarrow>
     ('t, cluster_config_ec, 'p) log_entry option option" where
  "omni_ec_read S idx om = do {
     v \<leftarrow> expect_get (read_range S (Included idx) (Excluded (idx + 1))
            (sp_internal_storage (spe_base (ope_seq_paxos om))));
     Some (case v of Some es \<Rightarrow> (if es = [] then None else Some (last es)) | None \<Rightarrow> None)
   }"

definition omni_ec_read_entries ::
  "('s, 't, cluster_config_ec, 'p) storage_impl \<Rightarrow> bound \<Rightarrow> bound \<Rightarrow> ('s, 't, 'p, 'rs) omni_paxos_ec \<Rightarrow>
     ('t, cluster_config_ec, 'p) log_entry list option option" where
  "omni_ec_read_entries S start_bound end_bound om =
     expect_get (read_range S start_bound end_bound (sp_internal_storage (spe_base (ope_seq_paxos om))))"

definition omni_ec_read_decided_suffix ::
  "('s, 't, cluster_config_ec, 'p) storage_impl \<Rightarrow> usize \<Rightarrow> ('s, 't, 'p, 'rs) omni_paxos_ec \<Rightarrow>
     ('t, cluster_config_ec, 'p) log_entry list option option" where
  "omni_ec_read_decided_suffix S from_idx om =
     expect_get (is_read_decided_suffix S from_idx (sp_internal_storage (spe_base (ope_seq_paxos om))))"

definition omni_ec_handle_incoming ::
  "('t, cluster_config_ec, 'rs) ec_env \<Rightarrow> ('s, 't, cluster_config_ec, 'p) storage_impl \<Rightarrow> ('t, 'p) snapshot_impl \<Rightarrow>
     ('t, cluster_config_ec, 'p) message \<Rightarrow> ('s, 't, 'p, 'rs) omni_paxos_ec \<Rightarrow> ('s, 't, 'p, 'rs) omni_paxos_ec option" where
  "omni_ec_handle_incoming X S P m om =
     (case m of
        SequencePaxosMsg p \<Rightarrow> do { spe \<leftarrow> ec_handle X S P p (ope_seq_paxos om); Some (om\<lparr>ope_seq_paxos := spe\<rparr>) }
      | BLEMsg b \<Rightarrow> Some (om\<lparr>ope_ble := ble_handle b (ope_ble om)\<rparr>))"

definition omni_ec_is_reconfigured :: "('s, 't, 'p, 'rs) omni_paxos_ec \<Rightarrow> cluster_config_ec stop_sign option" where
  "omni_ec_is_reconfigured om = ec_is_reconfigured (ope_seq_paxos om)"

definition omni_ec_append ::
  "('t, cluster_config_ec, 'rs) ec_env \<Rightarrow> ('s, 't, cluster_config_ec, 'p) storage_impl \<Rightarrow> 't \<Rightarrow>
     ('s, 't, 'p, 'rs) omni_paxos_ec \<Rightarrow>
     ((('t, cluster_config_ec) propose_err + unit) \<times> ('s, 't, 'p, 'rs) omni_paxos_ec) option" where
  "omni_ec_append X S entry = ope_on (ec_append X S entry)"

definition omni_ec_reconfigure ::
  "('t, cluster_config_ec, 'rs) ec_env \<Rightarrow> ('s, 't, cluster_config_ec, 'p) storage_impl \<Rightarrow> cluster_config_ec \<Rightarrow>
     u8 list option \<Rightarrow> ('s, 't, 'p, 'rs) omni_paxos_ec \<Rightarrow>
     ((('t, cluster_config_ec) propose_err + unit) \<times> ('s, 't, 'p, 'rs) omni_paxos_ec) option" where
  "omni_ec_reconfigure X S new_configuration metadata om =
     (case cluster_config_ec_validate new_configuration of
        Inl config_error \<Rightarrow> Some (Inl (ConfigErr config_error new_configuration metadata), om)
      | Inr _ \<Rightarrow> ope_on (ec_reconfigure X S new_configuration metadata) om)"

definition omni_ec_reconnected :: "node_id \<Rightarrow> ('s, 't, 'p, 'rs) omni_paxos_ec \<Rightarrow> ('s, 't, 'p, 'rs) omni_paxos_ec" where
  "omni_ec_reconnected pid om = om\<lparr>ope_seq_paxos := ec_reconnected pid (ope_seq_paxos om)\<rparr>"

definition omni_ec_election_timeout ::
  "('s, 't, cluster_config_ec, 'p) storage_impl \<Rightarrow> ('s, 't, 'p, 'rs) omni_paxos_ec \<Rightarrow>
     ('s, 't, 'p, 'rs) omni_paxos_ec option" where
  "omni_ec_election_timeout S om = do {
     let sp = spe_base (ope_seq_paxos om);
     (res, ble) \<leftarrow> hb_timeout (sp_state sp) (sp_get_promise sp) (ope_ble om);
     let om1 = om\<lparr>ope_ble := ble\<rparr>;
     (case res of
        Some new_leader \<Rightarrow> do {
          spe \<leftarrow> ec_handle_leader S new_leader (ope_seq_paxos om1);
          Some (om1\<lparr>ope_seq_paxos := spe\<rparr>)
        }
      | None \<Rightarrow> Some om1)
   }"

definition omni_ec_tick ::
  "('t, cluster_config_ec, 'rs) ec_env \<Rightarrow> ('s, 't, cluster_config_ec, 'p) storage_impl \<Rightarrow>
     ('s, 't, 'p, 'rs) omni_paxos_ec \<Rightarrow> ('s, 't, 'p, 'rs) omni_paxos_ec option" where
  "omni_ec_tick X S om = do {
     (elect, c1) \<leftarrow> tick_and_check_timeout (ope_election_clock om);
     om1 \<leftarrow> (if elect then omni_ec_election_timeout S (om\<lparr>ope_election_clock := c1\<rparr>)
             else Some (om\<lparr>ope_election_clock := c1\<rparr>));
     (resend, c2) \<leftarrow> tick_and_check_timeout (ope_resend_message_clock om1);
     let om2 = om1\<lparr>ope_resend_message_clock := c2\<rparr>;
     om3 \<leftarrow> (if resend then do { spe \<leftarrow> ec_resend_message_timeout (ope_seq_paxos om2); Some (om2\<lparr>ope_seq_paxos := spe\<rparr>) }
             else Some om2);
     (flush, c3) \<leftarrow> tick_and_check_timeout (ope_flush_batch_clock om3);
     let om4 = om3\<lparr>ope_flush_batch_clock := c3\<rparr>;
     (if flush then do { spe \<leftarrow> ec_flush_batch_timeout X S (ope_seq_paxos om4); Some (om4\<lparr>ope_seq_paxos := spe\<rparr>) }
      else Some om4)
   }"

definition omni_ec_try_become_leader ::
  "('s, 't, cluster_config_ec, 'p) storage_impl \<Rightarrow> ('s, 't, 'p, 'rs) omni_paxos_ec \<Rightarrow>
     ('s, 't, 'p, 'rs) omni_paxos_ec option" where
  "omni_ec_try_become_leader S om = do {
     n \<leftarrow> checked_inc (b_n (omni_ec_get_promise om));
     spe \<leftarrow> ec_handle_leader S ((get_current_ballot (ope_ble om))\<lparr>b_n := n\<rparr>) (ope_seq_paxos om);
     Some (om\<lparr>ope_seq_paxos := spe\<rparr>)
   }"

definition omni_ec_set_priority :: "u32 \<Rightarrow> ('s, 't, 'p, 'rs) omni_paxos_ec \<Rightarrow> ('s, 't, 'p, 'rs) omni_paxos_ec" where
  "omni_ec_set_priority p om = om\<lparr>ope_ble := ble_set_priority p (ope_ble om)\<rparr>"

definition omni_ec_get_ui_states :: "('s, 't, 'p, 'rs) omni_paxos_ec \<Rightarrow> omni_paxos_states" where
  "omni_ec_get_ui_states om = \<lparr>
     ops_current_ballot = get_current_ballot (ope_ble om),
     ops_current_leader = map_option fst (omni_ec_get_current_leader om),
     ops_decided_idx = omni_ec_get_decided_idx om,
     ops_heartbeats = get_ballots (ope_ble om),
     ops_cluster_state = (cluster_state_from (sp_leader_state (spe_base (ope_seq_paxos om))))
       \<lparr>cs_heartbeats := get_ballots (ope_ble om)\<rparr>\<rparr>"

end
