(* ===== verification/EC_Replica.thy ===== *)
theory EC_Replica
  imports Omni_Paxos_EC Replica_Behaviour
begin

text \<open>
  The steps of an erasure-coded replica. A step is a step of the plain replica on the common fields, or
  it is \<open>tame\<close>: it acts on the storage as the plain replica may, and keeps the round. So the
  invariants and the monotonicity of the promise carry over.
\<close>

section \<open>Sending fragments\<close>

definition ec_sends :: "('s, 't, 'c, 'p, 'rs) sequence_paxos_ec \<Rightarrow> ('s, 't, 'c, 'p, 'rs) sequence_paxos_ec \<Rightarrow> bool" where
  "ec_sends spe spe' \<longleftrightarrow> sends (spe_base spe) (spe_base spe') \<and> spe_ec_service spe' = spe_ec_service spe"

lemma ec_sends_refl [simp]: "ec_sends spe spe"
  by (simp add: ec_sends_def)

lemma ec_sends_trans [trans]: "ec_sends a b \<Longrightarrow> ec_sends b c \<Longrightarrow> ec_sends a c"
  by (auto simp: ec_sends_def intro: sends_trans)

lemma for_each_ec_sends:
  assumes "for_each f xs spe = Some spe'" "\<And>x s s'. f x s = Some s' \<Longrightarrow> ec_sends s s'"
  shows "ec_sends spe spe'"
  by (rule for_each_inv [OF assms(1), of "ec_sends spe"]) (auto intro: ec_sends_trans assms(2))

lemma number_and_push_sends:
  assumes "next_seq_num pid (sp_leader_state sp) = Some (sn, ls)"
  shows "sends sp (push_msg pid msg (upd_leader ls sp))"
  using upd_leader_sends [OF numbering_sends_leader(1) [OF assms]] push_msg_sends by (rule sends_trans)

lemma ec_send_acceptdecide_sends:
  "ec_send_acceptdecide_to X key op frs pid spe = Some spe' \<Longrightarrow> ec_sends spe spe'"
  "ec_send_acceptdecide X key op frs spe = Some spe' \<Longrightarrow> ec_sends spe spe'"
  "ec_send_acceptdecide_batch_to X es pid spe = Some spe' \<Longrightarrow> ec_sends spe spe'"
  "ec_send_acceptdecide_batch X es spe = Some spe' \<Longrightarrow> ec_sends spe spe'"
proof -
  have one: "ec_sends s s'" if "ec_send_acceptdecide_to X key op frs pid s = Some s'" for pid s s'
    using that by (auto simp: ec_send_acceptdecide_to_def bind_eq_Some_conv Let_def ec_sends_def
        intro: number_and_push_sends)
  have batch: "ec_sends s s'" if "ec_send_acceptdecide_batch_to X es pid s = Some s'" for pid s s'
    using that by (auto simp: ec_send_acceptdecide_batch_to_def bind_eq_Some_conv Let_def ec_sends_def
        split: if_split_asm intro: number_and_push_sends)
  show "ec_send_acceptdecide_to X key op frs pid spe = Some spe' \<Longrightarrow> ec_sends spe spe'" by (rule one)
  show "ec_send_acceptdecide_batch_to X es pid spe = Some spe' \<Longrightarrow> ec_sends spe spe'" by (rule batch)
  show "ec_send_acceptdecide X key op frs spe = Some spe' \<Longrightarrow> ec_sends spe spe'"
    unfolding ec_send_acceptdecide_def by (erule for_each_ec_sends) (rule one)
  show "ec_send_acceptdecide_batch X es spe = Some spe' \<Longrightarrow> ec_sends spe spe'"
    unfolding ec_send_acceptdecide_batch_def by (erule for_each_ec_sends) (rule batch)
qed

lemma ec_send_accept_stopsign_sends: "ec_send_accept_stopsign to ss resend spe = Some spe' \<Longrightarrow> ec_sends spe spe'"
  by (auto simp: ec_send_accept_stopsign_def ec_on_def ec_sends_def intro: send_accept_stopsign_sends)

lemma ec_send_accsync_sends:
  assumes "ec_send_accsync X S P to spe = Some spe'"
  shows "ec_sends spe spe'"
proof -
  let ?sp = "spe_base spe"
  obtain msg ls1 sn ls2 where ls: "increment_seq_num_session to (sp_leader_state ?sp) = Some ls1"
    "next_seq_num to ls1 = Some (sn, ls2)" and spe': "spe' = ec_upd (push_msg to msg (upd_leader ls2 ?sp)) spe"
    using assms by (auto simp: ec_send_accsync_def Let_def bind_eq_Some_conv)
  have "sends_leader (sp_leader_state ?sp) ls2"
    using ls numbering_sends_leader sends_leader_trans by blast
  then have "sends ?sp (upd_leader ls2 ?sp)" by (rule upd_leader_sends)
  then show ?thesis using push_msg_sends sends_trans by (fastforce simp: spe' ec_sends_def)
qed

section \<open>Tame steps\<close>

definition tame ::
  "('s, 't, 'c, 'p) storage_impl \<Rightarrow> ('t, 'p) snapshot_impl \<Rightarrow> bool \<Rightarrow>
     ('s, 't, 'c, 'p) sequence_paxos \<Rightarrow> ('s, 't, 'c, 'p) sequence_paxos \<Rightarrow> bool" where
  "tame S P strict sp sp' \<longleftrightarrow> acts S P strict (sp_internal_storage sp) (sp_internal_storage sp') \<and> calm sp sp'"

lemma tame_refl [simp]: "tame S P strict sp sp"
  by (simp add: tame_def)

lemma tame_trans [trans]: "tame S P strict a b \<Longrightarrow> tame S P strict b c \<Longrightarrow> tame S P strict a c"
  by (auto simp: tame_def intro: calm_trans rtranclp_trans [of "storage_act S P strict"])

lemma sends_tame: "sends sp sp' \<Longrightarrow> tame S P strict sp sp'"
  using sends_fields(1) [of sp sp'] by (simp add: tame_def sends_calm)

lemma ec_sends_tame: "ec_sends spe spe' \<Longrightarrow> tame S P strict (spe_base spe) (spe_base spe')"
  by (simp add: ec_sends_def sends_tame)

lemma upd_storage_tame:
  "storage_act S P strict (sp_internal_storage sp) st \<Longrightarrow> is_get_promise st = is_get_promise (sp_internal_storage sp) \<Longrightarrow>
     tame S P strict sp (upd_storage st sp)"
  by (simp add: tame_def upd_storage_calm acts_one)

lemma set_accepted_idx_tame:
  "set_accepted_idx pid i (sp_leader_state sp) = Some ls \<Longrightarrow> tame S P strict sp (upd_leader ls sp)"
  by (simp add: tame_def set_accepted_idx_calm)

text \<open>The common end of the leader's appends: the accepted index is recorded and messages are sent.\<close>

lemma append_and_send_tame:
  assumes "storage_act S P strict (sp_internal_storage (spe_base spe)) st"
    and "is_get_promise st = is_get_promise (sp_internal_storage (spe_base spe))"
    and "set_accepted_idx pid i (sp_leader_state (spe_base spe)) = Some ls"
    and "ec_sends (ec_upd (upd_leader ls (upd_storage st (spe_base spe))) spe) spe'"
  shows "tame S P strict (spe_base spe) (spe_base spe')"
proof -
  have "tame S P strict (spe_base spe) (upd_storage st (spe_base spe))" using assms(1,2) by (rule upd_storage_tame)
  also have "tame S P strict \<dots> (upd_leader ls (upd_storage st (spe_base spe)))"
    using assms(3) by (intro set_accepted_idx_tame) simp
  also have "tame S P strict \<dots> (spe_base spe')" using ec_sends_tame [OF assms(4)] by simp
  finally show ?thesis .
qed

lemma ec_accept_entry_leader_tame:
  assumes "ec_accept_entry_leader X S e spe = Some spe'"
  shows "tame S P strict (spe_base spe) (spe_base spe')"
proof -
  let ?sp = "spe_base spe"
  obtain frs my am st where app: "append_entry_with_batching S my (sp_internal_storage ?sp) = Some (Inr am, st)"
    and rest: "(case am of
        Some metadata \<Rightarrow> do {
          ls \<leftarrow> set_accepted_idx (sp_pid ?sp) (am_accepted_idx metadata) (sp_leader_state ?sp);
          ec_send_acceptdecide X (ee_key (env_entry X) e) (ee_operation (env_entry X) e) frs
            (ec_upd (upd_leader ls (upd_storage st ?sp)) spe)
        }
      | None \<Rightarrow> Some (ec_upd (upd_storage st ?sp) spe)) = Some spe'"
    using assms by (auto simp: ec_accept_entry_leader_def Let_def bind_eq_Some_conv)
  have act: "storage_act S P strict (sp_internal_storage ?sp) st"
    "is_get_promise st = is_get_promise (sp_internal_storage ?sp)"
    using app by (auto simp: append_entry_with_batching_eq intro: act_append_batched promise_kept(2))
  show ?thesis
  proof (cases am)
    case None
    with rest upd_storage_tame [OF act] show ?thesis by auto
  next
    case (Some m)
    with rest obtain ls where "set_accepted_idx (sp_pid ?sp) (am_accepted_idx m) (sp_leader_state ?sp) = Some ls"
      "ec_sends (ec_upd (upd_leader ls (upd_storage st ?sp)) spe) spe'"
      by (auto simp: bind_eq_Some_conv dest: ec_send_acceptdecide_sends(2))
    then show ?thesis by (rule append_and_send_tame [OF act])
  qed
qed

text \<open>Appends of several entries and the flush of a batch, which only differ in the storage call.\<close>

lemma batch_append_tame:
  assumes act: "storage_act S P strict (sp_internal_storage (spe_base spe)) st"
      "is_get_promise st = is_get_promise (sp_internal_storage (spe_base spe))"
    and rest: "(case am of
        Some metadata \<Rightarrow> do {
          ls \<leftarrow> set_accepted_idx (sp_pid (spe_base spe)) (am_accepted_idx metadata) (sp_leader_state (spe_base spe));
          es \<leftarrow> f metadata (ec_upd (upd_leader ls (upd_storage st (spe_base spe))) spe);
          ec_send_acceptdecide_batch X es (ec_upd (upd_leader ls (upd_storage st (spe_base spe))) spe)
        }
      | None \<Rightarrow> Some (ec_upd (upd_storage st (spe_base spe)) spe)) = Some spe'"
  shows "tame S P strict (spe_base spe) (spe_base spe')"
proof (cases am)
  case None
  with rest upd_storage_tame [OF act] show ?thesis by auto
next
  case (Some m)
  with rest obtain ls where
    "set_accepted_idx (sp_pid (spe_base spe)) (am_accepted_idx m) (sp_leader_state (spe_base spe)) = Some ls"
    "ec_sends (ec_upd (upd_leader ls (upd_storage st (spe_base spe))) spe) spe'"
    by (auto simp: bind_eq_Some_conv dest: ec_send_acceptdecide_sends(4))
  then show ?thesis by (rule append_and_send_tame [OF act])
qed

lemma ec_accept_entries_leader_tame:
  assumes "ec_accept_entries_leader X S es spe = Some spe'"
  shows "tame S P strict (spe_base spe) (spe_base spe')"
proof -
  obtain all my am st where app: "append_entries_with_batching S my (sp_internal_storage (spe_base spe)) = Some (Inr am, st)"
    and "(case am of
        Some metadata \<Rightarrow> do {
          ls \<leftarrow> set_accepted_idx (sp_pid (spe_base spe)) (am_accepted_idx metadata) (sp_leader_state (spe_base spe));
          ec_send_acceptdecide_batch X all (ec_upd (upd_leader ls (upd_storage st (spe_base spe))) spe)
        }
      | None \<Rightarrow> Some (ec_upd (upd_storage st (spe_base spe)) spe)) = Some spe'"
    using assms by (auto simp: ec_accept_entries_leader_def Let_def bind_eq_Some_conv)
  then show ?thesis
    by (intro batch_append_tame [where f = "\<lambda>_ _. Some all" and am = am and X = X,
        OF act_append_batched [OF app] promise_kept(2) [OF app]]) (simp cong: option.case_cong)
qed

lemma ec_flush_batch_leader_tame:
  assumes "ec_flush_batch_leader X S spe = Some spe'"
  shows "tame S P strict (spe_base spe) (spe_base spe')"
proof -
  obtain am st where app: "flush_batch_and_get_entries S (sp_internal_storage (spe_base spe)) = Some (Inr am, st)"
    and "(case am of
        Some metadata \<Rightarrow> do {
          ls \<leftarrow> set_accepted_idx (sp_pid (spe_base spe)) (am_accepted_idx metadata) (sp_leader_state (spe_base spe));
          all \<leftarrow> those (map (ec_encode_entry X (ec_upd (upd_leader ls (upd_storage st (spe_base spe))) spe)) (am_entries metadata));
          ec_send_acceptdecide_batch X all (ec_upd (upd_leader ls (upd_storage st (spe_base spe))) spe)
        }
      | None \<Rightarrow> Some (ec_upd (upd_storage st (spe_base spe)) spe)) = Some spe'"
    using assms by (auto simp: ec_flush_batch_leader_def Let_def bind_eq_Some_conv cong: option.case_cong)
  then show ?thesis
    by (intro batch_append_tame [where f = "\<lambda>m s. those (map (ec_encode_entry X s) (am_entries m))" and am = am and X = X,
        OF act_flush_get [OF app] promise_kept(5) [OF app]])
qed

lemma ec_accept_stopsign_leader_tame:
  assumes "ec_accept_stopsign_leader X S ss spe = Some spe'" "is_get_stopsign (sp_internal_storage (spe_base spe)) = None"
  shows "tame S P strict (spe_base spe) (spe_base spe')"
proof -
  let ?sp = "spe_base spe"
  obtain am st spe2 ls fs where app: "is_append_stopsign S ss (sp_internal_storage ?sp) = Some (Inr am, st)"
    and s2: "(case am of
         Some _ \<Rightarrow> do {
           bytes \<leftarrow> env_serialize X ss;
           frs \<leftarrow> spe_encode X bytes (ec_upd (upd_storage st ?sp) spe);
           ec_send_acceptdecide X ''stopsign'' OpNULL frs (ec_upd (upd_storage st ?sp) spe)
         }
       | None \<Rightarrow> Some (ec_upd (upd_storage st ?sp) spe)) = Some spe2"
    and ls: "set_accepted_idx (sp_pid (spe_base spe2)) (is_get_accepted_idx (sp_internal_storage (spe_base spe2)))
        (sp_leader_state (spe_base spe2)) = Some ls"
    and fe: "for_each (\<lambda>pid. ec_send_accept_stopsign pid ss False) fs (ec_upd (upd_leader ls (spe_base spe2)) spe2) = Some spe'"
    using assms(1) by (fastforce simp: ec_accept_stopsign_leader_def bind_eq_Some_conv Let_def)
  have "tame S P strict ?sp (upd_storage st ?sp)"
    using act_append_stopsign [OF assms(2) app] promise_kept(6) [OF app] by (rule upd_storage_tame)
  also have "tame S P strict \<dots> (spe_base spe2)"
  proof -
    have "ec_sends (ec_upd (upd_storage st ?sp) spe) spe2"
      using s2 by (auto simp: bind_eq_Some_conv split: option.split_asm dest: ec_send_acceptdecide_sends(2))
    from ec_sends_tame [OF this] show ?thesis by simp
  qed
  also have "tame S P strict \<dots> (upd_leader ls (spe_base spe2))" using ls by (rule set_accepted_idx_tame)
  also have "tame S P strict \<dots> (spe_base spe')"
    using ec_sends_tame [OF for_each_ec_sends [OF fe ec_send_accept_stopsign_sends]] by simp
  finally show ?thesis .
qed

section \<open>Promises\<close>

lemma ec_handle_majority_promises_tame:
  assumes h: "ec_handle_majority_promises X S P spe = Some spe'"
    and leader: "fst (sp_state (spe_base spe)) = Leader"
    and n: "ballot_key (n_leader (sp_leader_state (spe_base spe))) = ballot_key (sp_get_promise (spe_base spe))"
    and fits: "strict \<Longrightarrow> sync_fits (get_max_decided_idx (sp_leader_state (spe_base spe)))
        (max_promise_sync (sp_leader_state (spe_base spe))) (sp_internal_storage (spe_base spe))"
  shows "tame S P strict (spe_base spe) (spe_base spe')"
proof -
  let ?sp = "spe_base spe"
  let ?ls = "(sp_leader_state ?sp)\<lparr>max_promise_sync := None\<rparr>"
  obtain idx st new sp1 ls1 fs where
    sync: "sync_log S P (n_leader (sp_leader_state ?sp)) (get_max_decided_idx (sp_leader_state ?sp))
       (max_promise_sync (sp_leader_state ?sp)) (sp_internal_storage ?sp) = Some (Inr idx, st)"
    and app: "append_buffered S idx (?sp\<lparr>sp_leader_state := ?ls, sp_internal_storage := st\<rparr>) = Some (new, sp1)"
    and ls1: "set_accepted_idx (sp_pid sp1) new (sp_leader_state sp1) = Some ls1"
    and fe: "for_each (ec_send_accsync X S P) fs
        (ec_upd (sp1\<lparr>sp_state := (Leader, PhaseAccept), sp_leader_state := ls1\<rparr>) spe) = Some spe'"
    using h by (auto simp: ec_handle_majority_promises_def take_max_promise_sync_def bind_eq_Some_conv
        get_max_decided_idx_def Let_def)
  have "storage_act S P strict (sp_internal_storage ?sp) st"
    using act_sync [OF _ _ sync] n fits by (simp add: sp_get_promise_def)
  then have "tame S P strict ?sp (?sp\<lparr>sp_leader_state := ?ls, sp_internal_storage := st\<rparr>)"
    using promise_kept(9) [OF sync]
    by (simp add: tame_def calm_def sp_get_promise_def same_round_def wf_leader_def max_promise_bound_def acts_one)
  also have "tame S P strict \<dots> sp1"
    using append_buffered_acts [OF app] append_buffered_calm [OF app] by (simp add: tame_def)
  also have "tame S P strict \<dots> (sp1\<lparr>sp_state := (Leader, PhaseAccept), sp_leader_state := ls1\<rparr>)"
    using append_buffered_acts [OF app] leader cell_updates_same_round(2) [OF ls1]
    by (simp add: tame_def calm_def sp_get_promise_def)
  also have "tame S P strict \<dots> (spe_base spe')"
    using ec_sends_tame [OF for_each_ec_sends [OF fe ec_send_accsync_sends]] by simp
  finally show ?thesis .
qed

lemma ec_handle_promise_prepare_tame:
  assumes h: "ec_handle_promise_prepare X S P prom from spe = Some spe'"
    and leader: "fst (sp_state (spe_base spe)) = Leader" "leader_ok (spe_base spe)"
    and fits: "strict \<Longrightarrow> case set_promise prom from True (sp_leader_state (spe_base spe)) of
                Some (True, ls) \<Rightarrow> sync_fits (get_max_decided_idx ls) (max_promise_sync ls) (sp_internal_storage (spe_base spe))
              | _ \<Rightarrow> True"
  shows "tame S P strict (spe_base spe) (spe_base spe')"
proof (cases "prom_n prom = n_leader (sp_leader_state (spe_base spe))")
  case False
  with h show ?thesis by (simp add: ec_handle_promise_prepare_def)
next
  case True
  with h obtain b ls where sp: "set_promise prom from True (sp_leader_state (spe_base spe)) = Some (b, ls)"
    and r: "(if b then ec_handle_majority_promises X S P (ec_upd (upd_leader ls (spe_base spe)) spe)
             else Some (ec_upd (upd_leader ls (spe_base spe)) spe)) = Some spe'"
    by (auto simp: ec_handle_promise_prepare_def bind_eq_Some_conv Let_def)
  have "calm (spe_base spe) (upd_leader ls (spe_base spe))"
    by (rule upd_leader_calm [OF set_promise_eq(5) [OF sp]]) (rule set_promise_bound [OF sp])
  then have t: "tame S P strict (spe_base spe) (upd_leader ls (spe_base spe))" by (simp add: tame_def)
  have n: "ballot_key (n_leader ls) = ballot_key (sp_get_promise (spe_base spe))"
    using set_promise_eq(5) [OF sp] leader by (simp add: same_round_def leader_ok_def)
  show ?thesis
  proof (cases b)
    case False
    with r t show ?thesis by auto
  next
    case True
    with r have "ec_handle_majority_promises X S P (ec_upd (upd_leader ls (spe_base spe)) spe) = Some spe'" by simp
    from ec_handle_majority_promises_tame [OF this, of strict] n leader(1) fits sp True
    have "tame S P strict (upd_leader ls (spe_base spe)) (spe_base spe')" by (simp add: sp_get_promise_def)
    with t show ?thesis by (rule tame_trans)
  qed
qed

lemma ec_handle_promise_accept_tame:
  assumes h: "ec_handle_promise_accept X S P prom from spe = Some spe'" and st: "sp_state (spe_base spe) = (Leader, PhaseAccept)"
  shows "tame S P strict (spe_base spe) (spe_base spe')"
proof (cases "prom_n prom = n_leader (sp_leader_state (spe_base spe))")
  case False
  with h show ?thesis by (simp add: ec_handle_promise_accept_def)
next
  case True
  with h obtain b ls where sp: "set_promise prom from False (sp_leader_state (spe_base spe)) = Some (b, ls)"
    and s: "ec_send_accsync X S P from (ec_upd (upd_leader ls (spe_base spe)) spe) = Some spe'"
    by (auto simp: ec_handle_promise_accept_def bind_eq_Some_conv Let_def)
  have "calm (spe_base spe) (upd_leader ls (spe_base spe))"
    by (rule upd_leader_calm [OF set_promise_eq(5) [OF sp]]) (simp add: st)
  then have "tame S P strict (spe_base spe) (upd_leader ls (spe_base spe))" by (simp add: tame_def)
  also have "tame S P strict \<dots> (spe_base spe')" using ec_sends_tame [OF ec_send_accsync_sends [OF s]] by simp
  finally show ?thesis .
qed

section \<open>Compaction\<close>

text \<open>A compaction that returns without an error of the storage is the plain one.\<close>

lemma ec_downcast_eq: "ec_downcast_compaction r = Some q \<longleftrightarrow> r = Inr () \<and> q = Inr ()"
  by (auto simp: ec_downcast_compaction_def split: sum.split storage_err.split)

lemma ec_trim_plain:
  assumes "ec_trim S oi spe = Some (r, spe')"
  shows "spe' = spe \<or> sp_trim S oi (spe_base spe) = Some (Inr (), spe_base spe')"
  using assms
  by (auto simp: ec_trim_def sp_trim_def ec_downcast_eq downcast_compaction_def Let_def
      split: if_split_asm option.split_asm Option.bind_split_asm)

lemma ec_snapshot_plain:
  assumes "ec_snapshot S P oi local spe = Some (r, spe')"
  shows "sp_snapshot S P oi local (spe_base spe) = Some (Inr (), spe_base spe')"
  using assms
  by (auto simp: ec_snapshot_def sp_snapshot_def ec_downcast_eq downcast_compaction_def Let_def
      split: if_split_asm Option.bind_split_asm)

section \<open>Steps\<close>

inductive ec_step ::
  "('t, 'c, 'rs) ec_env \<Rightarrow> ('s, 't, 'c, 'p) storage_impl \<Rightarrow> ('t, 'p) snapshot_impl \<Rightarrow> bool \<Rightarrow>
     ('s, 't, 'c, 'p, 'rs) sequence_paxos_ec \<Rightarrow> ('s, 't, 'c, 'p, 'rs) sequence_paxos_ec \<Rightarrow> bool"
  for X S P strict where
  ec_step_handle: "(strict \<Longrightarrow> msg_fits m (spe_base spe)) \<Longrightarrow> ec_handle X S P m spe = Some spe' \<Longrightarrow> ec_step X S P strict spe spe'"
| ec_step_leader: "ec_handle_leader S n spe = Some spe' \<Longrightarrow> ec_step X S P strict spe spe'"
| ec_step_append: "ec_append X S e spe = Some (r, spe') \<Longrightarrow> ec_step X S P strict spe spe'"
| ec_step_reconfigure: "ec_reconfigure X S cfg md spe = Some (r, spe') \<Longrightarrow> ec_step X S P strict spe spe'"
| ec_step_trim: "ec_trim S oi spe = Some (res, spe') \<Longrightarrow> ec_step X S P strict spe spe'"
| ec_step_snapshot: "ec_snapshot S P oi local spe = Some (res, spe') \<Longrightarrow> ec_step X S P strict spe spe'"
| ec_step_reconnected: "ec_step X S P strict spe (ec_reconnected pid spe)"
| ec_step_resend: "ec_resend_message_timeout spe = Some spe' \<Longrightarrow> ec_step X S P strict spe spe'"
| ec_step_flush: "ec_flush_batch_timeout X S spe = Some spe' \<Longrightarrow> ec_step X S P strict spe spe'"
| ec_step_take: "ec_take_outgoing_msgs buffer spe = (buffer', spe') \<Longrightarrow> ec_step X S P strict spe spe'"

lemma ec_on_eq_Some: "ec_on f spe = Some spe' \<longleftrightarrow> (\<exists>sp. f (spe_base spe) = Some sp \<and> spe' = ec_upd sp spe)"
  by (auto simp: ec_on_def)

lemma ec_user_tame:
  "ec_append X S e spe = Some (r, spe') \<Longrightarrow> tame S P strict (spe_base spe) (spe_base spe')"
  "ec_reconfigure X S cfg md spe = Some (r, spe') \<Longrightarrow> tame S P strict (spe_base spe) (spe_base spe')"
  "ec_handle_forwarded_proposal X S es spe = Some spe' \<Longrightarrow> tame S P strict (spe_base spe) (spe_base spe')"
  "ec_handle_forwarded_stopsign X S ss spe = Some spe' \<Longrightarrow> tame S P strict (spe_base spe) (spe_base spe')"
  "ec_trim S oi spe = Some (res, spe') \<Longrightarrow> tame S P strict (spe_base spe) (spe_base spe')"
  "ec_snapshot S P oi local spe = Some (res, spe') \<Longrightarrow> tame S P strict (spe_base spe) (spe_base spe')"
proof -
  show "tame S P strict (spe_base spe) (spe_base spe')" if "ec_append X S e spe = Some (r, spe')"
    using that
    by (auto simp: ec_append_def ec_propose_entry_def bind_eq_Some_conv Let_def tame_def [of _ _ _ _ "forward_proposals _ _"]
        tame_def [of _ _ _ _ "_\<lparr>sp_buffered_proposals := _\<rparr>"]
        split: if_split_asm prod.split_asm role.split_asm phase.split_asm intro: ec_accept_entry_leader_tame)
  show "tame S P strict (spe_base spe) (spe_base spe')" if "ec_reconfigure X S cfg md spe = Some (r, spe')"
    using that
    by (auto simp: ec_reconfigure_def accepted_reconfiguration_def bind_eq_Some_conv Let_def
        tame_def [of _ _ _ _ "forward_stopsign _ _"] tame_def [of _ _ _ _ "_\<lparr>sp_buffered_stopsign := _\<rparr>"]
        split: if_split_asm prod.split_asm role.split_asm phase.split_asm intro: ec_accept_stopsign_leader_tame)
  show "tame S P strict (spe_base spe) (spe_base spe')" if "ec_handle_forwarded_proposal X S es spe = Some spe'"
    using that
    by (auto simp: ec_handle_forwarded_proposal_def Let_def tame_def [of _ _ _ _ "forward_proposals _ _"]
        tame_def [of _ _ _ _ "_\<lparr>sp_buffered_proposals := _\<rparr>"]
        split: if_split_asm prod.split_asm role.split_asm phase.split_asm intro: ec_accept_entries_leader_tame)
  show "tame S P strict (spe_base spe) (spe_base spe')" if "ec_handle_forwarded_stopsign X S ss spe = Some spe'"
    using that
    by (auto simp: ec_handle_forwarded_stopsign_def accepted_reconfiguration_def Let_def
        tame_def [of _ _ _ _ "forward_stopsign _ _"] tame_def [of _ _ _ _ "_\<lparr>sp_buffered_stopsign := _\<rparr>"]
        split: if_split_asm prod.split_asm role.split_asm phase.split_asm intro: ec_accept_stopsign_leader_tame)
  show "tame S P strict (spe_base spe) (spe_base spe')" if "ec_trim S oi spe = Some (res, spe')"
    using ec_trim_plain [OF that] by (auto simp: tame_def intro: user_acts user_calm)
  show "tame S P strict (spe_base spe) (spe_base spe')" if "ec_snapshot S P oi local spe = Some (res, spe')"
    using ec_snapshot_plain [OF that] by (auto simp: tame_def intro: user_acts user_calm)
qed

lemma ec_timeout_tame:
  "ec_resend_message_timeout spe = Some spe' \<Longrightarrow> tame S P strict (spe_base spe) (spe_base spe')"
  "ec_flush_batch_timeout X S spe = Some spe' \<Longrightarrow> tame S P strict (spe_base spe) (spe_base spe')"
proof -
  show "tame S P strict (spe_base spe) (spe_base spe')" if "ec_resend_message_timeout spe = Some spe'"
  proof -
    have "resend_message_timeout (spe_base spe) = Some (spe_base spe')"
      using that by (auto simp: ec_resend_message_timeout_def resend_message_timeout_def ec_resend_messages_leader_def
          ec_resend_messages_follower_def ec_on_eq_Some split: role.split_asm)
    then show ?thesis by (simp add: tame_def timeout_acts user_calm)
  qed
  show "tame S P strict (spe_base spe) (spe_base spe')" if h: "ec_flush_batch_timeout X S spe = Some spe'"
  proof (cases "sp_state (spe_base spe) = (Leader, PhaseAccept)")
    case True
    with h show ?thesis by (auto simp: ec_flush_batch_timeout_def intro: ec_flush_batch_leader_tame)
  next
    case False
    with h have "flush_batch_timeout S (spe_base spe) = Some (spe_base spe')"
      by (auto simp: ec_flush_batch_timeout_def flush_batch_timeout_def ec_flush_batch_follower_def ec_on_eq_Some
          split: prod.split_asm role.split_asm phase.split_asm)
    then show ?thesis by (simp add: tame_def timeout_acts user_calm)
  qed
qed

text \<open>A message is handled as by the plain replica, or the step is tame.\<close>

lemma ec_handle_plain_or_tame:
  assumes h: "ec_handle X S P m spe = Some spe'" and ok: "leader_ok (spe_base spe)"
    and fits: "strict \<Longrightarrow> msg_fits m (spe_base spe)"
  shows "sp_handle S P m (spe_base spe) = Some (spe_base spe') \<or> tame S P strict (spe_base spe) (spe_base spe')"
proof (cases "pm_msg m")
  case (Promise prom)
  consider "sp_state (spe_base spe) = (Leader, PhasePrepare)" | "sp_state (spe_base spe) = (Leader, PhaseAccept)" | "spe' = spe"
    using h Promise by (auto simp: ec_handle_def split: prod.split_asm role.split_asm phase.split_asm)
  then show ?thesis
  proof cases
    case 1
    have "tame S P strict (spe_base spe) (spe_base spe')"
      using h Promise ok fits 1 by (intro ec_handle_promise_prepare_tame [of X S P prom "pm_from m"])
        (auto simp: ec_handle_def msg_fits_def)
    then show ?thesis ..
  next
    case 2
    have "tame S P strict (spe_base spe) (spe_base spe')"
      using h Promise 2 by (intro ec_handle_promise_accept_tame [of X S P prom "pm_from m"]) (auto simp: ec_handle_def)
    then show ?thesis ..
  qed simp
next
  case (Compaction c)
  then show ?thesis
    using h by (auto simp: ec_handle_def sp_handle_def ec_handle_compaction_def handle_compaction_def
        bind_eq_Some_conv split: compaction.split_asm dest!: ec_snapshot_plain)
next
  case (ProposalForward es)
  then show ?thesis using h by (auto simp: ec_handle_def intro: ec_user_tame)
next
  case (ForwardStopSign ss)
  then show ?thesis using h by (auto simp: ec_handle_def intro: ec_user_tame)
qed (use h in \<open>auto simp: ec_handle_def sp_handle_def ec_on_eq_Some ec_handle_preparereq_def ec_handle_prepare_def
        ec_handle_acceptsync_def ec_handle_acceptdecide_def ec_handle_notaccepted_def ec_handle_accepted_def
        ec_handle_decide_def ec_handle_accept_stopsign_def\<close>)

lemma ec_step_plain_or_tame:
  assumes "ec_step X S P strict spe spe'" "leader_ok (spe_base spe)"
  shows "sp_step S P strict (spe_base spe) (spe_base spe') \<or> tame S P strict (spe_base spe) (spe_base spe')"
  using assms(1)
proof cases
  case (ec_step_handle m)
  with ec_handle_plain_or_tame [OF ec_step_handle(2) assms(2), of strict] show ?thesis by (auto intro: step_handle)
next
  case (ec_step_leader n)
  then show ?thesis by (auto simp: ec_handle_leader_def ec_on_eq_Some intro: step_leader)
next
  case (ec_step_reconnected pid)
  then show ?thesis by (auto simp: ec_reconnected_def intro: step_reconnected)
next
  case (ec_step_take buffer buffer')
  then have "\<exists>b. take_outgoing_msgs buffer (spe_base spe) = (b, spe_base spe')"
    by (cases "take_outgoing_msgs buffer (spe_base spe)") (auto simp: ec_take_outgoing_msgs_def)
  then show ?thesis by (auto intro: step_take)
qed (auto intro: ec_user_tame ec_timeout_tame)

section \<open>Invariants over a run\<close>

lemma ec_step_inv:
  assumes "ec_step X S P strict spe spe'" "sp_inv (spe_base spe)"
  shows "sp_inv (spe_base spe')" "acts S P strict (sp_internal_storage (spe_base spe)) (sp_internal_storage (spe_base spe'))"
  using ec_step_plain_or_tame [OF assms(1) sp_inv_leader_ok [OF assms(2)]] assms(2)
  by (auto simp: tame_def intro: sp_step_inv calm_inv sp_step_acts sp_inv_leader_ok)

lemma ec_run_inv:
  assumes "(ec_step X S P strict)\<^sup>*\<^sup>* spe spe'" "sp_inv (spe_base spe)"
  shows "sp_inv (spe_base spe') \<and> acts S P strict (sp_internal_storage (spe_base spe)) (sp_internal_storage (spe_base spe'))"
  using assms
proof (induction rule: rtranclp_induct)
  case base
  then show ?case by simp
next
  case (step y z)
  with ec_step_inv [OF step.hyps(2)] show ?case using rtranclp_trans [of "storage_act S P strict"] by blast
qed

end
