(* ===== verification/Erasure_Facts.thy ===== *)
theory Erasure_Facts
  imports Erasure
begin

text \<open>
  What erasure coding promises: the pieces of an encoded value, and that any sufficient selection of
  them decodes to the value. The code of the crate enters as the locale \<open>reed_solomon\<close>; a single parity
  shard that is the exclusive or of the data shards is an instance of it.
\<close>

unbundle bit_operations_syntax

section \<open>Cutting and joining\<close>

lemma concat_slices:
  "length xs = n * k \<Longrightarrow> concat (map (\<lambda>i. take n (drop (i * n) xs)) [0..<k]) = xs"
proof (induction k arbitrary: xs)
  case 0
  then show ?case by simp
next
  case (Suc k)
  have "concat (map (\<lambda>i. take n (drop (i * n) xs)) [0..<Suc k])
      = take n xs @ concat (map (\<lambda>i. take n (drop (i * n) (drop n xs))) [0..<k])"
    by (simp add: upt_conv_Cons map_Suc_upt [symmetric] comp_def add.commute del: upt_Suc)
  also have "concat (map (\<lambda>i. take n (drop (i * n) (drop n xs))) [0..<k]) = drop n xs"
    using Suc.prems by (intro Suc.IH) simp
  finally show ?case by simp
qed

lemma length_slice: "length xs = n * k \<Longrightarrow> i < k \<Longrightarrow> length (take n (drop (i * n) xs)) = n"
proof -
  assume len: "length xs = n * k" and i: "i < k"
  have "i * n + n \<le> k * n" using mult_le_mono1 [of "Suc i" k n] i by simp
  then show ?thesis using len by (simp add: mult.commute)
qed

lemma shard_size_bounds:
  assumes "0 < (d :: nat)"
  shows "len \<le> (len + d - 1) div d * d" and "0 < len \<Longrightarrow> 0 < (len + d - 1) div d" and "(len + d - 1) div d * d < len + d"
proof -
  have "(len + d - 1) div d * d + (len + d - 1) mod d = len + d - 1" by (rule div_mult_mod_eq)
  moreover from this show "(len + d - 1) div d * d < len + d" using assms by linarith
  moreover have "(len + d - 1) mod d < d" using assms by simp
  ultimately show le: "len \<le> (len + d - 1) div d * d" using assms by linarith
  show "0 < (len + d - 1) div d" if "0 < len"
  proof (rule ccontr)
    assume "\<not> 0 < (len + d - 1) div d"
    with le that show False by simp
  qed
qed

lemma resize_zero_ge: "length xs \<le> n \<Longrightarrow> resize_zero n xs = xs @ replicate (n - length xs) 0"
  by (simp add: resize_zero_def)

lemma strip_length_prefixed:
  assumes "length val + LENGTH_PREFIX_BYTES < 2 ^ 64"
  shows "strip_length (to_be_bytes (length val) @ val @ pad) = Some (Inr val)"
proof -
  have "from_be_bytes (to_be_bytes (length val)) = length val"
    using assms by (intro from_to_be_bytes) simp
  then show ?thesis using assms by (simp add: strip_length_def usize_add_def)
qed

section \<open>Placing fragments\<close>

lemma place_fragments_nth:
  assumes "\<forall>f \<in> set fs. frag_idx f < length full \<and> frag_data f = full ! frag_idx f"
    and "length shards = n" "n = length full" "i < n"
  shows "fold (place_fragment n) fs shards ! i = (if i \<in> frag_idx ` set fs then Some (full ! i) else shards ! i)"
  using assms
proof (induction fs arbitrary: shards)
  case Nil
  then show ?case by simp
next
  case (Cons f fs)
  have "fold (place_fragment n) fs (place_fragment n f shards) ! i
      = (if i \<in> frag_idx ` set fs then Some (full ! i) else place_fragment n f shards ! i)"
    using Cons.prems by (intro Cons.IH) (auto simp: place_fragment_def)
  moreover have "place_fragment n f shards = shards[frag_idx f := Some (full ! frag_idx f)]"
    using Cons.prems by (simp add: place_fragment_def)
  ultimately show ?case using Cons.prems by (auto simp: nth_list_update)
qed

lemma length_place_fragments [simp]: "length (fold (place_fragment n) fs shards) = length shards"
  by (induction fs arbitrary: shards) (auto simp: place_fragment_def)

lemma join_all_shards:
  "d \<le> length full \<Longrightarrow> join_data_shards d (map Some full) = Some (concat (take d full))"
proof -
  assume d: "d \<le> length full"
  have "map (\<lambda>i. Option.bind (vec_get (map Some full) i) id) [0..<d] = map Some (take d full)"
    using d by (intro nth_equalityI) auto
  moreover have "those (map Some ys) = Some ys" for ys :: "u8 list list" by (induction ys) auto
  ultimately show ?thesis by (simp add: join_data_shards_def)
qed

section \<open>The code\<close>

definition shards_ok :: "nat \<Rightarrow> nat \<Rightarrow> u8 list list \<Rightarrow> bool" where
  "shards_ok k n shards \<longleftrightarrow> length shards = k \<and> 0 < n \<and> (\<forall>s \<in> set shards. length s = n)"

locale reed_solomon =
  fixes R :: "'rs rs_impl" and ec :: "'rs ec_service"
  assumes some_data: "0 < data_shards ec"
    and encode_keeps_data:
      "shards_ok (data_shards ec + parity_shards ec) n shards \<Longrightarrow>
         \<exists>parity. rs_encode R (ec_rs ec) shards = Inr (take (data_shards ec) shards @ parity) \<and>
           shards_ok (data_shards ec + parity_shards ec) n (take (data_shards ec) shards @ parity)"
    and reconstruct_from_enough:
      "shards_ok (data_shards ec + parity_shards ec) n shards \<Longrightarrow>
         rs_encode R (ec_rs ec) shards = Inr full \<Longrightarrow>
         length avail = data_shards ec + parity_shards ec \<Longrightarrow>
         (\<And>i. i < data_shards ec + parity_shards ec \<Longrightarrow> avail ! i = None \<or> avail ! i = Some (full ! i)) \<Longrightarrow>
         data_shards ec \<le> length (filter (\<lambda>s. s \<noteq> None) avail) \<Longrightarrow>
         rs_reconstruct R (ec_rs ec) avail = Inr (map Some full)"
begin

text \<open>
  The fragments of a value: one per shard, numbered, all of the same size, and the data shards in
  order are the value with its length in front and zeros behind.
\<close>

lemma encode_shape:
  "\<exists>full n pad. ec_encode R ec val = Some (Inr (map (\<lambda>(i, s). entry_fragment_new i s) (enumerate 0 full))) \<and>
     shards_ok (data_shards ec + parity_shards ec) n full \<and>
     (\<exists>shards. shards_ok (data_shards ec + parity_shards ec) n shards \<and> rs_encode R (ec_rs ec) shards = Inr full) \<and>
     concat (take (data_shards ec) full) = to_be_bytes (length val) @ val @ replicate pad 0 \<and> pad < data_shards ec"
proof -
  let ?d = "data_shards ec" and ?p = "parity_shards ec" and ?payload = "to_be_bytes (length val) @ val"
  let ?n = "(length ?payload + ?d - 1) div ?d"
  let ?padded = "resize_zero (?n * ?d) ?payload"
  let ?data = "map (\<lambda>i. take ?n (drop (i * ?n) ?padded)) [0..<?d]"
  let ?shards = "?data @ replicate ?p (replicate ?n 0)"
  have pos: "0 < ?n" using shard_size_bounds(2) [OF some_data, of "length ?payload"] by (simp add: LENGTH_PREFIX_BYTES_def)
  have padded: "?padded = ?payload @ replicate (?n * ?d - length ?payload) 0" "length ?padded = ?n * ?d"
    using shard_size_bounds(1) [OF some_data, of "length ?payload"] by (simp_all add: resize_zero_ge)
  have ok: "shards_ok (?d + ?p) ?n ?shards"
    using pos length_slice [OF padded(2)] by (auto simp: shards_ok_def)
  obtain parity where enc: "rs_encode R (ec_rs ec) ?shards = Inr (?data @ parity)"
    and ok': "shards_ok (?d + ?p) ?n (?data @ parity)"
    using encode_keeps_data [OF ok] by auto
  have size: "ec_shard_size ec (length ?payload) = Some ?n"
    using some_data by (simp add: ec_shard_size_def checked_sub_def)
  have "ec_encode R ec val
      = Some (Inr (map (\<lambda>(i, s). entry_fragment_new i s) (enumerate 0 (?data @ parity))))"
    using size enc by (simp add: ec_encode_def Let_def)
  moreover have "concat (take ?d (?data @ parity)) = ?payload @ replicate (?n * ?d - length ?payload) 0"
    using concat_slices [OF padded(2)] padded(1) by simp
  moreover have "?n * ?d - length ?payload < ?d"
    using shard_size_bounds(3) [OF some_data, of "length ?payload"] some_data by simp
  ultimately show ?thesis using ok ok' enc by (metis append.assoc)
qed

lemma encode_sizes:
  "\<exists>frags n. ec_encode R ec val = Some (Inr frags) \<and> map frag_idx frags = [0..<data_shards ec + parity_shards ec] \<and>
     (\<forall>f \<in> set frags. length (frag_data f) = n) \<and>
     LENGTH_PREFIX_BYTES + length val \<le> n * data_shards ec \<and> n * data_shards ec < LENGTH_PREFIX_BYTES + length val + data_shards ec"
proof -
  let ?d = "data_shards ec" and ?k = "data_shards ec + parity_shards ec"
  obtain full n pad where enc: "ec_encode R ec val = Some (Inr (map (\<lambda>(i, s). entry_fragment_new i s) (enumerate 0 full)))"
    and full: "length full = ?k" "\<forall>s \<in> set full. length s = n"
    and joined: "concat (take ?d full) = to_be_bytes (length val) @ val @ replicate pad 0" and pad: "pad < ?d"
    using encode_shape [of val] by (auto simp: shards_ok_def)
  have "map length (take ?d full) = replicate ?d n"
    using full by (intro replicate_eqI) (auto dest: in_set_takeD)
  then have "length (concat (take ?d full)) = n * ?d" by (simp add: length_concat sum_list_replicate)
  then have "n * ?d = LENGTH_PREFIX_BYTES + length val + pad" by (simp add: joined)
  moreover have "map frag_idx (map (\<lambda>(i, s). entry_fragment_new i s) (enumerate 0 full)) = [0..<?k]"
    using full(1) by (simp add: o_def case_prod_beta entry_fragment_new_def enumerate_eq_zip)
  moreover have "\<forall>f \<in> set (map (\<lambda>(i, s). entry_fragment_new i s) (enumerate 0 full)). length (frag_data f) = n"
    using full(2) by (auto simp: entry_fragment_new_def in_set_enumerate_eq)
  ultimately show ?thesis using enc pad by auto
qed

text \<open>Any selection of the fragments with enough different indexes decodes to the value.\<close>

lemma decode_encode:
  assumes enc: "ec_encode R ec val = Some (Inr frags)" and len: "length val + LENGTH_PREFIX_BYTES < 2 ^ 64"
    and sel: "set fs \<subseteq> set frags" and enough: "data_shards ec \<le> card (frag_idx ` set fs)"
  shows "ec_decode R ec fs = Some (Inr val)"
proof -
  let ?d = "data_shards ec" and ?k = "data_shards ec + parity_shards ec"
  obtain full n pad shards where frags: "frags = map (\<lambda>(i, s). entry_fragment_new i s) (enumerate 0 full)"
    and full: "shards_ok ?k n full" and shards: "shards_ok ?k n shards" "rs_encode R (ec_rs ec) shards = Inr full"
    and joined: "concat (take ?d full) = to_be_bytes (length val) @ val @ replicate pad 0"
    using encode_shape [of val] enc by auto
  let ?avail = "fold (place_fragment ?k) fs (replicate ?k None)"
  have k: "length full = ?k" using full by (simp add: shards_ok_def)
  have fs: "\<forall>f \<in> set fs. frag_idx f < length full \<and> frag_data f = full ! frag_idx f"
  proof
    fix f
    assume "f \<in> set fs"
    then have "f \<in> (\<lambda>(i, s). entry_fragment_new i s) ` set (enumerate 0 full)" using sel by (auto simp: frags)
    then obtain i s where "(i, s) \<in> set (enumerate 0 full)" "f = entry_fragment_new i s" by auto
    then show "frag_idx f < length full \<and> frag_data f = full ! frag_idx f"
      by (simp add: entry_fragment_new_def in_set_enumerate_eq)
  qed
  have nth: "?avail ! i = (if i \<in> frag_idx ` set fs then Some (full ! i) else None)" if "i < ?k" for i
    using place_fragments_nth [OF fs length_replicate k [symmetric] that] that by (simp add: nth_replicate)
  have idx: "frag_idx ` set fs \<subseteq> {..<?k}" using fs k by auto
  have "length (filter (\<lambda>s. s \<noteq> None) ?avail) = card {i. i < ?k \<and> ?avail ! i \<noteq> None}"
    by (simp add: length_filter_conv_card)
  also have "{i. i < ?k \<and> ?avail ! i \<noteq> None} = frag_idx ` set fs"
    using nth idx by (auto split: if_split_asm)
  finally have count: "?d \<le> length (filter (\<lambda>s. s \<noteq> None) ?avail)" using enough by simp
  have "rs_reconstruct R (ec_rs ec) ?avail = Inr (map Some full)"
    using nth count by (intro reconstruct_from_enough [OF shards]) auto
  then show ?thesis
    using count k joined strip_length_prefixed [OF len, of "replicate pad 0"]
    by (simp add: ec_decode_def Let_def join_all_shards)
qed

text \<open>Too few different indexes are an error, whatever the fragments hold.\<close>

lemma decode_too_few:
  assumes "card {i \<in> frag_idx ` set fs. i < data_shards ec + parity_shards ec} < data_shards ec"
  shows "ec_decode R ec fs = Some (Inl TooFewShardsPresent)"
proof -
  let ?k = "data_shards ec + parity_shards ec"
  have placed: "{i. i < ?k \<and> fold (place_fragment ?k) gs shards ! i \<noteq> None}
      \<subseteq> {i \<in> frag_idx ` set gs. i < ?k} \<union> {i. i < ?k \<and> shards ! i \<noteq> None}"
    if "length shards = ?k" for gs and shards :: "u8 list option list"
    using that
  proof (induction gs arbitrary: shards)
    case (Cons g gs)
    have "length (place_fragment ?k g shards) = ?k" using Cons.prems by (simp add: place_fragment_def)
    from Cons.IH [OF this] show ?case
      using Cons.prems by (auto simp: place_fragment_def nth_list_update split: if_split_asm)
  qed auto
  have "length (filter (\<lambda>s. s \<noteq> None) (fold (place_fragment ?k) fs (replicate ?k None)))
      = card {i. i < ?k \<and> fold (place_fragment ?k) fs (replicate ?k None) ! i \<noteq> None}"
    by (simp add: length_filter_conv_card)
  also have "\<dots> \<le> card {i \<in> frag_idx ` set fs. i < ?k}"
    using placed [of "replicate ?k None" fs] by (intro card_mono) auto
  finally show ?thesis using assms by (simp add: ec_decode_def Let_def)
qed

end

section \<open>An instance: one parity shard\<close>

text \<open>
  The parity shard is the exclusive or of the data shards, byte by byte; a missing shard is the
  exclusive or of all the others. The state of the code is the number of data shards.
\<close>

definition xor_shards :: "usize \<Rightarrow> u8 list list \<Rightarrow> u8 list" where
  "xor_shards n shards = map (\<lambda>j. foldr (\<lambda>s a. s ! j XOR a) shards 0) [0..<n]"

definition shard_len :: "u8 list option list \<Rightarrow> usize" where
  "shard_len avail = (case List.map_filter id avail of [] \<Rightarrow> 0 | s # _ \<Rightarrow> length s)"

definition xor_impl :: "usize rs_impl" where
  "xor_impl = \<lparr>
     rs_new = (\<lambda>d p. if p = 1 \<and> 0 < d then Inr d else Inl (OtherRSError ''shards'')),
     rs_encode = (\<lambda>d shards. Inr (take d shards @ [xor_shards (length (hd shards)) (take d shards)])),
     rs_reconstruct = (\<lambda>d avail. Inr (map (\<lambda>s. case s of
         Some x \<Rightarrow> Some x
       | None \<Rightarrow> Some (xor_shards (shard_len avail) (List.map_filter id avail))) avail))\<rparr>"

lemma foldr_xor_split:
  "foldr (\<lambda>s a. f s XOR a) (xs @ y # ys) (0 :: 'a::len word) = f y XOR foldr (\<lambda>s a. f s XOR a) (xs @ ys) 0"
  by (induction xs) (auto simp: ac_simps)

lemma foldr_xor_snoc:
  "foldr (\<lambda>s a. f s XOR a) (xs @ [y]) (0 :: 'a::len word) = f y XOR foldr (\<lambda>s a. f s XOR a) xs 0"
  using foldr_xor_split [of f xs y "[]"] by simp

text \<open>All shards together, the parity included, cancel out; so each is the sum of the others.\<close>

lemma xor_shard_of_others:
  assumes "full = data @ [xor_shards n data]" and "full = xs @ y # ys" and "length y = n"
  shows "y = xor_shards n (xs @ ys)"
proof (rule nth_equalityI)
  show "length y = length (xor_shards n (xs @ ys))" using assms(3) by (simp add: xor_shards_def)
  fix j
  assume j: "j < length y"
  let ?sum = "\<lambda>ss. foldr (\<lambda>s a. s ! j XOR a) ss 0"
  have "?sum full = 0"
    using j assms(3) foldr_xor_snoc [of "\<lambda>s. s ! j" data "xor_shards n data"]
    by (simp add: assms(1) xor_shards_def del: foldr_append)
  moreover have "?sum full = y ! j XOR ?sum (xs @ ys)" using assms(2) foldr_xor_split [of "\<lambda>s. s ! j"] by simp
  ultimately have "y ! j XOR (y ! j XOR ?sum (xs @ ys)) = y ! j XOR 0" by simp
  then have "y ! j = ?sum (xs @ ys)" by (simp only: xor.assoc [symmetric] xor_self_eq xor.left_neutral xor.right_neutral)
  then show "y ! j = xor_shards n (xs @ ys) ! j" using j assms(3) by (simp add: xor_shards_def)
qed

definition xor_service :: "usize \<Rightarrow> usize ec_service" where
  "xor_service d = \<lparr>data_shards = d, parity_shards = 1, ec_rs = d\<rparr>"

text \<open>A list with one gap that agrees with a full list elsewhere.\<close>

lemma one_gap:
  assumes len: "length avail = k" "length full = k" and j: "j < k" "avail ! j = None"
    and agree: "\<And>i. i < k \<Longrightarrow> avail ! i = None \<or> avail ! i = Some (full ! i)"
    and enough: "k \<le> Suc (length (filter (\<lambda>s. s \<noteq> None) avail))"
  shows "avail = map Some (take j full) @ None # map Some (drop (Suc j) full)"
proof -
  let ?some = "{i. i < k \<and> avail ! i \<noteq> None}"
  have "card ?some = length (filter (\<lambda>s. s \<noteq> None) avail)" using len by (simp add: length_filter_conv_card)
  moreover have "?some \<subseteq> {..<k} - {j}" "card ({..<k} - {j}) = k - 1" using j by auto
  moreover have "card ?some \<le> card ({..<k} - {j})" by (intro card_mono) (use \<open>?some \<subseteq> {..<k} - {j}\<close> in auto)
  ultimately have "card ?some = card ({..<k} - {j})" using enough by linarith
  then have "?some = {..<k} - {j}" using \<open>?some \<subseteq> {..<k} - {j}\<close> by (intro card_subset_eq) auto
  then have others: "avail ! i = Some (full ! i)" if "i < k" "i \<noteq> j" for i using that agree by blast
  have "take j avail = map Some (take j full)" "drop (Suc j) avail = map Some (drop (Suc j) full)"
    using len j others by (intro nth_equalityI; simp)+
  with id_take_nth_drop [of j avail] len j show ?thesis by simp
qed

interpretation xor: reed_solomon xor_impl "xor_service (Suc d)" for d
proof
  let ?k = "data_shards (xor_service (Suc d)) + parity_shards (xor_service (Suc d))"
  show "0 < data_shards (xor_service (Suc d))" by (simp add: xor_service_def)
  fix n and shards :: "u8 list list"
  assume ok: "shards_ok ?k n shards"
  then have n: "length shards = Suc (Suc d)" "length (hd shards) = n" "0 < n" "\<forall>s \<in> set shards. length s = n"
    by (cases shards; simp add: shards_ok_def xor_service_def)+
  let ?full = "take (Suc d) shards @ [xor_shards n (take (Suc d) shards)]"
  have enc: "rs_encode xor_impl (ec_rs (xor_service (Suc d))) shards = Inr ?full"
    using n by (simp add: xor_impl_def xor_service_def)
  have full: "shards_ok ?k n ?full"
    using n by (auto simp: shards_ok_def xor_service_def xor_shards_def dest: in_set_takeD)
  show "\<exists>parity. rs_encode xor_impl (ec_rs (xor_service (Suc d))) shards
        = Inr (take (data_shards (xor_service (Suc d))) shards @ parity) \<and>
      shards_ok ?k n (take (data_shards (xor_service (Suc d))) shards @ parity)"
    using enc full by (auto simp: xor_service_def)
  fix full0 and avail :: "u8 list option list"
  assume full0: "rs_encode xor_impl (ec_rs (xor_service (Suc d))) shards = Inr full0" and len: "length avail = ?k"
    and agree: "\<And>i. i < ?k \<Longrightarrow> avail ! i = None \<or> avail ! i = Some (full0 ! i)"
    and enough: "data_shards (xor_service (Suc d)) \<le> length (filter (\<lambda>s. s \<noteq> None) avail)"
  have f: "full0 = ?full" using full0 enc by simp
  let ?fill = "xor_shards (shard_len avail) (List.map_filter id avail)"
  have gap: "?fill = ?full ! j" if j: "j < ?k" "avail ! j = None" for j
  proof -
    have avail: "avail = map Some (take j ?full) @ None # map Some (drop (Suc j) ?full)"
      using one_gap [OF len _ j, of ?full] agree enough n f by (simp add: xor_service_def shards_ok_def)
    have filtered: "List.map_filter id avail = take j ?full @ drop (Suc j) ?full"
      by (subst avail) (simp add: List.map_filter_def comp_def)
    have jl: "j < length ?full" using j n by (simp add: xor_service_def)
    let ?rest = "take j ?full @ drop (Suc j) ?full"
    have "length ?rest = Suc d" using jl n by simp
    then obtain s ss where rest: "?rest = s # ss" by (cases ?rest) auto
    then have "s \<in> set ?rest" by simp
    then have "s \<in> set ?full" by (metis Un_iff in_set_dropD in_set_takeD set_append)
    then have "length s = n" using full unfolding shards_ok_def by blast
    moreover have "List.map_filter id avail = s # ss" using filtered rest by (rule trans)
    ultimately have "shard_len avail = n" by (simp add: shard_len_def)
    moreover have "?full ! j = xor_shards n (take j ?full @ drop (Suc j) ?full)"
    proof (rule xor_shard_of_others [OF refl id_take_nth_drop [OF jl]])
      show "length (?full ! j) = n" using full nth_mem [OF jl] unfolding shards_ok_def by blast
    qed
    ultimately show ?thesis using filtered by simp
  qed
  have len0: "length full0 = ?k" using full f unfolding shards_ok_def by blast
  have gap0: "?fill = full0 ! j" if "j < ?k" "avail ! j = None" for j using gap [OF that] f by simp
  have "map (\<lambda>s. case s of Some x \<Rightarrow> Some x | None \<Rightarrow> Some ?fill) avail = map Some full0"
  proof (rule nth_equalityI)
    show "length (map (\<lambda>s. case s of Some x \<Rightarrow> Some x | None \<Rightarrow> Some ?fill) avail) = length (map Some full0)"
      using len len0 by simp
    fix i
    assume "i < length (map (\<lambda>s. case s of Some x \<Rightarrow> Some x | None \<Rightarrow> Some ?fill) avail)"
    then have i: "i < ?k" using len by simp
    with len len0 agree [OF i] gap0 [OF i]
    show "map (\<lambda>s. case s of Some x \<Rightarrow> Some x | None \<Rightarrow> Some ?fill) avail ! i = map Some full0 ! i"
      by (cases "avail ! i") auto
  qed
  then show "rs_reconstruct xor_impl (ec_rs (xor_service (Suc d))) avail = Inr (map Some full0)"
    by (simp add: xor_impl_def)
qed

end
