(* ===== verification/EC_Key_Value.thy ===== *)
theory EC_Key_Value
  imports Sequence_Paxos_EC KV_Store
begin

text \<open>
  The entries and snapshots of the erasure coding example (\<^verbatim>\<open>examples/erasure_coding/src/ec.rs\<close>), the
  laws the erasure-coded replica expects of its entries, and the laws of its snapshots.
\<close>

record ec_key_value =
  ek_key :: string
  ek_fragment :: entry_fragment
  ek_op :: operation_type

definition ec_kv_from_parts :: "string \<Rightarrow> entry_fragment \<Rightarrow> operation_type \<Rightarrow> ec_key_value" where
  "ec_kv_from_parts key fragment op = \<lparr>ek_key = key, ek_fragment = fragment, ek_op = op\<rparr>"

definition ec_kv_entry :: "ec_key_value ec_entry_impl" where
  "ec_kv_entry = \<lparr>ee_operation = ek_op, ee_key = ek_key, ee_value = ek_fragment, ee_from_parts = ec_kv_from_parts\<rparr>"

type_synonym ec_kv_snapshot = "string \<rightharpoonup> entry_fragment"

definition ec_kv_insert :: "ec_key_value \<Rightarrow> ec_kv_snapshot \<Rightarrow> ec_kv_snapshot" where
  "ec_kv_insert e snapshotted = snapshotted(ek_key e \<mapsto> ek_fragment e)"

definition ec_kv_create :: "ec_key_value list \<Rightarrow> ec_kv_snapshot" where
  "ec_kv_create entries = fold ec_kv_insert entries Map.empty"

definition ec_kv_merge :: "ec_kv_snapshot \<Rightarrow> ec_kv_snapshot \<Rightarrow> ec_kv_snapshot" where
  "ec_kv_merge self delta = self ++ delta"

definition ec_kv_impl :: "(ec_key_value, ec_kv_snapshot) snapshot_impl" where
  "ec_kv_impl = \<lparr>snap_create = (\<lambda>es. Some (ec_kv_create es)), snap_merge = (\<lambda>p q. Some (ec_kv_merge p q)),
                 use_snapshots = True\<rparr>"

lemma ec_kv_create_append: "ec_kv_create (es @ fs) = ec_kv_merge (ec_kv_create es) (ec_kv_create fs)"
proof -
  have "ec_kv_insert e m = m ++ ec_kv_insert e Map.empty" for e m by (simp add: ec_kv_insert_def)
  from fold_insert_add [of ec_kv_insert, OF this, of fs "ec_kv_create es"] show ?thesis
    by (simp add: ec_kv_create_def ec_kv_merge_def)
qed

interpretation ec_kv: snapshot_laws ec_kv_impl
  by unfold_locales (auto simp: ec_kv_impl_def ec_kv_create_append)

section \<open>The laws of an entry\<close>

text \<open>An entry made from parts has these parts.\<close>

locale ec_entry_laws =
  fixes E :: "'t ec_entry_impl"
  assumes key_of_parts: "ee_key E (ee_from_parts E key f op) = key"
    and value_of_parts: "ee_value E (ee_from_parts E key f op) = f"
    and operation_of_parts: "ee_operation E (ee_from_parts E key f op) = op"
begin

lemmas parts_simps = key_of_parts value_of_parts operation_of_parts

end

interpretation ec_kv_entry: ec_entry_laws ec_kv_entry
  by unfold_locales (simp_all add: ec_kv_entry_def ec_kv_from_parts_def)

end
