(* ===== verification/EC_Facts.thy ===== *)
theory EC_Facts
  imports EC_Replica Erasure_Facts EC_Key_Value Replication
begin

text \<open>
  What the erasure-coded leader sends. Every peer gets one numbered message with the fragments that are its
  own; when an entry is not delayed by batching, the fragments of enough servers give its value back. The
  places where what is sent is not what was proposed are stated here too.
\<close>

section \<open>Messages to the peers\<close>

lemma those_map_Some [simp]: "those (map (\<lambda>x. Some (f x)) xs) = Some (map f xs)"
  by (induction xs) auto

lemma entry_for_in_range:
  "pid mod n < length frs \<Longrightarrow> 0 < n \<Longrightarrow>
     entry_for X key op frs n pid = Some (ee_from_parts (env_entry X) key (frs ! (pid mod n)) op)"
  by (simp add: entry_for_def fragment_index_for_node_def)

lemma entry_for_out_of_range: "length frs \<le> pid mod n \<Longrightarrow> entry_for X key op frs n pid = None"
  by (simp add: entry_for_def fragment_index_for_node_def vec_get_def)

lemma ec_send_acceptdecide_is_batch:
  "ec_send_acceptdecide_to X key op frs pid spe = ec_send_acceptdecide_batch_to X [(key, op, frs)] pid spe"
  "ec_send_acceptdecide X key op frs spe = ec_send_acceptdecide_batch X [(key, op, frs)] spe"
proof -
  have eq: "ec_send_acceptdecide_to X key op frs = ec_send_acceptdecide_batch_to X [(key, op, frs)]"
    by (intro ext) (auto simp: ec_send_acceptdecide_to_def ec_send_acceptdecide_batch_to_def Let_def
        split: Option.bind_split)
  show "ec_send_acceptdecide_to X key op frs pid spe = ec_send_acceptdecide_batch_to X [(key, op, frs)] pid spe"
    by (simp add: eq)
  show "ec_send_acceptdecide X key op frs spe = ec_send_acceptdecide_batch X [(key, op, frs)] spe"
    by (simp add: ec_send_acceptdecide_def ec_send_acceptdecide_batch_def eq)
qed

text \<open>The entries a process gets of a batch.\<close>

definition pieces_for ::
  "('t, 'c, 'rs) ec_env \<Rightarrow> (string \<times> operation_type \<times> entry_fragment list) list \<Rightarrow> usize \<Rightarrow> node_id \<Rightarrow> 't list" where
  "pieces_for X all_entries n pid =
     map (\<lambda>(key, op, frs). ee_from_parts (env_entry X) key (frs ! (pid mod n)) op) all_entries"

lemma those_entries_for:
  assumes "\<forall>(key, op, frs) \<in> set all. pid mod n < length frs" "0 < n"
  shows "those (map (\<lambda>(key, op, frs). entry_for X key op frs n pid) all) = Some (pieces_for X all n pid)"
  using assms(1)
proof (induction all)
  case (Cons a all)
  then show ?case by (cases a) (auto simp: pieces_for_def entry_for_in_range [OF _ assms(2)])
qed (simp add: pieces_for_def)

text \<open>A process that can be numbered: its cell exists and its counter is not at the limit.\<close>

definition numberable :: "('t, 'c, 'p) leader_state \<Rightarrow> node_id \<Rightarrow> bool" where
  "numberable ls pid \<longleftrightarrow>
     1 \<le> pid \<and> pid \<le> length (follower_seq_nums ls) \<and> sn_counter (follower_seq_nums ls ! (pid - 1)) \<noteq> - 1"

definition next_number :: "('t, 'c, 'p) leader_state \<Rightarrow> node_id \<Rightarrow> sequence_number" where
  "next_number ls pid = (let sn = follower_seq_nums ls ! (pid - 1) in sn\<lparr>sn_counter := sn_counter sn + 1\<rparr>)"

lemma next_seq_num_numberable:
  "numberable ls pid \<Longrightarrow> next_seq_num pid ls
     = Some (next_number ls pid, ls\<lparr>follower_seq_nums := (follower_seq_nums ls)[pid - 1 := next_number ls pid]\<rparr>)"
  by (cases pid) (auto simp: numberable_def next_number_def next_seq_num_def checked_inc_def Let_def vec_get_def vec_set_def)

lemma send_batch_loop:
  assumes "distinct ps" and "all \<noteq> []" and "n = length (sp_peers (spe_base spe)) + 1"
    and "\<forall>p \<in> set ps. numberable (sp_leader_state (spe_base spe)) p"
    and "\<forall>p \<in> set ps. \<forall>(key, op, frs) \<in> set all. p mod n < length frs"
  shows "\<exists>ss. for_each (ec_send_acceptdecide_batch_to X all) ps spe = Some (ec_upd ((spe_base spe)
      \<lparr>sp_leader_state := (sp_leader_state (spe_base spe))\<lparr>follower_seq_nums := ss\<rparr>,
       sp_outgoing := sp_outgoing (spe_base spe) @ map (\<lambda>p. paxos_envelope (sp_pid (spe_base spe)) p
         (AcceptDecide \<lparr>ad_n = n_leader (sp_leader_state (spe_base spe)),
            ad_seq_num = next_number (sp_leader_state (spe_base spe)) p,
            ad_decided_idx = is_get_decided_idx (sp_internal_storage (spe_base spe)),
            ad_entries = pieces_for X all n p\<rparr>)) ps\<rparr>) spe)"
  using assms(1,3-)
proof (induction ps arbitrary: spe)
  case Nil
  show ?case by (rule exI [of _ "follower_seq_nums (sp_leader_state (spe_base spe))"]) simp
next
  case (Cons p ps)
  let ?sp = "spe_base spe"
  let ?ls = "sp_leader_state ?sp"
  let ?spe1 = "ec_upd (push_msg p (AcceptDecide \<lparr>ad_n = n_leader ?ls, ad_seq_num = next_number ?ls p,
      ad_decided_idx = is_get_decided_idx (sp_internal_storage ?sp), ad_entries = pieces_for X all n p\<rparr>)
      (upd_leader (?ls\<lparr>follower_seq_nums := (follower_seq_nums ?ls)[p - 1 := next_number ?ls p]\<rparr>) ?sp)) spe"
  have num: "numberable ?ls p" and fits: "\<forall>(key, op, frs) \<in> set all. p mod n < length frs"
    using Cons.prems by auto
  have "those (map (\<lambda>(key, op, frs). entry_for X key op frs n p) all) = Some (pieces_for X all n p)"
    using Cons.prems(2) by (intro those_entries_for fits) simp
  moreover have "pieces_for X all n p \<noteq> []" using assms(2) by (simp add: pieces_for_def)
  ultimately have one: "ec_send_acceptdecide_batch_to X all p spe = Some ?spe1"
    using Cons.prems(2)
    by (simp add: ec_send_acceptdecide_batch_to_def Let_def next_seq_num_numberable [OF num])
  have other: "follower_seq_nums ?ls ! (q - 1) = (follower_seq_nums ?ls)[p - 1 := x] ! (q - 1)" if "q \<in> set ps" for q x
  proof -
    have "1 \<le> q" "1 \<le> p" "q \<noteq> p" using that Cons.prems num by (auto simp: numberable_def)
    then show ?thesis by (metis diff_add nth_list_update_neq)
  qed
  have "\<forall>q \<in> set ps. numberable (sp_leader_state (spe_base ?spe1)) q"
    using Cons.prems(3) other by (auto simp: numberable_def)
  moreover have "n = length (sp_peers (spe_base ?spe1)) + 1" using Cons.prems(2) by (simp add: push_msg_def)
  moreover have "next_number (sp_leader_state (spe_base ?spe1)) q = next_number ?ls q" if "q \<in> set ps" for q
    using other [OF that] by (simp add: next_number_def)
  ultimately show ?case
    using Cons.IH [of ?spe1] Cons.prems(1,4) one by (auto simp: push_msg_def cong: map_cong)
qed

section \<open>Distribution of a value\<close>

context reed_solomon
begin

lemma encode_total:
  obtains frags where "ec_encode R ec val = Some (Inr frags)" "length frags = data_shards ec + parity_shards ec"
    "\<forall>i < data_shards ec + parity_shards ec. frag_idx (frags ! i) = i"
proof -
  obtain full n where "ec_encode R ec val = Some (Inr (map (\<lambda>(i, s). entry_fragment_new i s) (enumerate 0 full)))"
    "shards_ok (data_shards ec + parity_shards ec) n full"
    using encode_shape [of val] by blast
  then show ?thesis by (intro that) (auto simp: shards_ok_def nth_enumerate_eq entry_fragment_new_def)
qed

text \<open>The fragments of servers with enough different indexes.\<close>

lemma decode_pieces:
  assumes enc: "ec_encode R ec val = Some (Inr frags)" and len: "length val + LENGTH_PREFIX_BYTES < 2 ^ 64"
    and n: "n = data_shards ec + parity_shards ec" and enough: "data_shards ec \<le> card ((\<lambda>p. p mod n) ` set qs)"
  shows "ec_decode R ec (map (\<lambda>p. frags ! (p mod n)) qs) = Some (Inr val)"
proof (rule decode_encode [OF enc len])
  obtain frags' where "ec_encode R ec val = Some (Inr frags')" and frags': "length frags' = n"
    "\<forall>i < n. frag_idx (frags' ! i) = i"
    using encode_total [of val] by (metis n)
  with enc have frags: "length frags = n" "\<forall>i < n. frag_idx (frags ! i) = i" by auto
  have idx: "p mod n < n" for p using some_data n by simp
  show "set (map (\<lambda>p. frags ! (p mod n)) qs) \<subseteq> set frags" using idx frags by auto
  have "frag_idx ` set (map (\<lambda>p. frags ! (p mod n)) qs) = (\<lambda>p. p mod n) ` set qs"
    using idx frags by (auto simp: image_image)
  then show "data_shards ec \<le> card (frag_idx ` set (map (\<lambda>p. frags ! (p mod n)) qs))" using enough by simp
qed

end

text \<open>The message that brings a process its piece of an entry.\<close>

definition piece_of :: "('t, 'c, 'rs) ec_env \<Rightarrow> 't \<Rightarrow> entry_fragment list \<Rightarrow> usize \<Rightarrow> node_id \<Rightarrow> 't" where
  "piece_of X e frags n p =
     ee_from_parts (env_entry X) (ee_key (env_entry X) e) (frags ! (p mod n)) (ee_operation (env_entry X) e)"

definition piece_msg ::
  "('t, 'c, 'rs) ec_env \<Rightarrow> 't \<Rightarrow> entry_fragment list \<Rightarrow> ('s, 't, 'c, 'p) sequence_paxos \<Rightarrow> node_id \<Rightarrow>
     ('t, 'c, 'p) message" where
  "piece_msg X e frags sp p = paxos_envelope (sp_pid sp) p
     (AcceptDecide \<lparr>ad_n = n_leader (sp_leader_state sp), ad_seq_num = next_number (sp_leader_state sp) p,
        ad_decided_idx = is_get_decided_idx (sp_internal_storage sp),
        ad_entries = [piece_of X e frags (length (sp_peers sp) + 1) p]\<rparr>)"

text \<open>A leader and a follower between which nothing is pending, with batching off.\<close>

definition batch_idle :: "('s, 't, 'c) internal_storage \<Rightarrow> bool" where
  "batch_idle st \<longleftrightarrow> c_batch_size (is_cache st) \<le> 1 \<and> c_batched_entries (is_cache st) = []"

definition ec_leader_ready :: "('s \<Rightarrow> bool) \<Rightarrow> 'rs ec_service \<Rightarrow> ('s, 't, 'c, 'p, 'rs) sequence_paxos_ec \<Rightarrow> bool" where
  "ec_leader_ready sinv ec spe \<longleftrightarrow> (let sp = spe_base spe; ls = sp_leader_state sp in
     spe_ec_service spe = ec \<and> sp_state sp = (Leader, PhaseAccept) \<and> \<not> accepted_reconfiguration sp \<and>
     sinv (is_storage (sp_internal_storage sp)) \<and> batch_idle (sp_internal_storage sp) \<and>
     length (sp_peers sp) + 1 = data_shards ec + parity_shards ec \<and>
     distinct (sp_pid sp # sp_peers sp) \<and> (\<forall>p \<in> set (sp_peers sp). numberable ls p) \<and>
     1 \<le> sp_pid sp \<and> sp_pid sp \<le> length (accepted_indexes ls))"

definition ec_follower_ready ::
  "('s \<Rightarrow> bool) \<Rightarrow> ('s, 't, 'c, 'p) sequence_paxos \<Rightarrow> node_id \<Rightarrow> ('s, 't, 'c, 'p) sequence_paxos \<Rightarrow> bool" where
  "ec_follower_ready sinv leader p sp \<longleftrightarrow>
     sinv (is_storage (sp_internal_storage sp)) \<and> sp_state sp = (Follower, PhaseAccept) \<and> reply_meta_ok sp \<and>
     batch_idle (sp_internal_storage sp) \<and> ballot_key (sp_get_promise sp) = ballot_key (n_leader (sp_leader_state leader)) \<and>
     check_msg_status (sp_current_seq_num sp) (next_number (sp_leader_state leader) p) = Some Expected"

text \<open>The replica relies on its storage, on the code and on its entries.\<close>

locale ec_replication = storage_contract S sinv view + reed_solomon "env_rs X" ec + ec_entry_laws "env_entry X"
  for S :: "('s, 't, 'c, 'p) storage_impl" and sinv and view and X :: "('t, 'c, 'rs) ec_env" and ec
begin

text \<open>An append with a full batch: the batch goes to the log, but only the last entry is sent.\<close>

lemma ec_accept_entry_full:
  assumes spe: "spe_ec_service spe = ec" "sinv (is_storage (sp_internal_storage (spe_base spe)))"
    and batch: "c_batch_size (is_cache (sp_internal_storage (spe_base spe)))
      \<le> Suc (length (c_batched_entries (is_cache (sp_internal_storage (spe_base spe)))))"
    and n: "length (sp_peers (spe_base spe)) + 1 = data_shards ec + parity_shards ec"
    and pids: "distinct (sp_peers (spe_base spe))" "\<forall>p \<in> set (sp_peers (spe_base spe)). numberable (sp_leader_state (spe_base spe)) p"
      "1 \<le> sp_pid (spe_base spe)" "sp_pid (spe_base spe) \<le> length (accepted_indexes (sp_leader_state (spe_base spe)))"
    and enc: "ec_encode (env_rs X) ec (frag_data (ee_value (env_entry X) e)) = Some (Inr frags)"
  shows "\<exists>spe'. ec_accept_entry_leader X S e spe = Some spe' \<and>
     sinv (is_storage (sp_internal_storage (spe_base spe'))) \<and>
     v_log (view (is_storage (sp_internal_storage (spe_base spe')))) =
       v_log (view (is_storage (sp_internal_storage (spe_base spe)))) @
       c_batched_entries (is_cache (sp_internal_storage (spe_base spe))) @
       [piece_of X e frags (length (sp_peers (spe_base spe)) + 1) (sp_pid (spe_base spe))] \<and>
     c_batched_entries (is_cache (sp_internal_storage (spe_base spe'))) = [] \<and>
     sp_outgoing (spe_base spe') = sp_outgoing (spe_base spe) @ map (piece_msg X e frags (spe_base spe)) (sp_peers (spe_base spe))"
proof -
  let ?sp = "spe_base spe" and ?E = "env_entry X"
  let ?st = "sp_internal_storage ?sp" and ?n = "length (sp_peers ?sp) + 1"
  let ?my = "piece_of X e frags ?n (sp_pid ?sp)"
  let ?batch = "c_batched_entries (is_cache ?st)"
  have k: "length frags = ?n" by (rule encode_total [of "frag_data (ee_value ?E e)"]) (use enc n in auto)
  have idx: "p mod ?n < length frags" for p using k by simp
  obtain s' where app: "append_entry_with_batching S ?my ?st
      = Some (Inr (Some \<lparr>am_accepted_idx = c_accepted_idx (is_cache ?st) + length (?batch @ [?my]), am_entries = ?batch @ [?my]\<rparr>),
          \<lparr>is_storage = s', is_cache = (is_cache ?st)\<lparr>c_batched_entries := [],
             c_accepted_idx := c_accepted_idx (is_cache ?st) + length (?batch @ [?my])\<rparr>\<rparr>)"
    and s': "sinv s'" "view s' = (vw ?st)\<lparr>v_log := v_log (vw ?st) @ ?batch @ [?my]\<rparr>"
    using append_entries_with_batching_full [of ?st "[?my]"] spe(2) batch
    by (auto simp: append_entry_with_batching_eq is_does_def)
  let ?st' = "\<lparr>is_storage = s', is_cache = (is_cache ?st)\<lparr>c_batched_entries := [],
             c_accepted_idx := c_accepted_idx (is_cache ?st) + length (?batch @ [?my])\<rparr>\<rparr>"
  obtain ls where ls: "set_accepted_idx (sp_pid ?sp) (c_accepted_idx (is_cache ?st) + length (?batch @ [?my])) (sp_leader_state ?sp) = Some ls"
    and ls': "follower_seq_nums ls = follower_seq_nums (sp_leader_state ?sp)" "n_leader ls = n_leader (sp_leader_state ?sp)"
    using pids(3,4) by (cases "sp_pid ?sp") (auto simp: set_accepted_idx_def vec_set_def)
  let ?spe1 = "ec_upd (upd_leader ls (upd_storage ?st' ?sp)) spe"
  have num: "numberable ls p = numberable (sp_leader_state ?sp) p" "next_number ls p = next_number (sp_leader_state ?sp) p" for p
    using ls' by (simp_all add: numberable_def next_number_def)
  have "\<exists>ss. ec_send_acceptdecide X (ee_key ?E e) (ee_operation ?E e) frags ?spe1 = Some (ec_upd ((spe_base ?spe1)
      \<lparr>sp_leader_state := ls\<lparr>follower_seq_nums := ss\<rparr>,
       sp_outgoing := sp_outgoing ?sp @ map (piece_msg X e frags ?sp) (sp_peers ?sp)\<rparr>) ?spe1)"
    using send_batch_loop [of "sp_peers ?sp" "[(ee_key ?E e, ee_operation ?E e, frags)]" ?n ?spe1 X] pids(1,2) idx
    by (simp add: ec_send_acceptdecide_is_batch ec_send_acceptdecide_batch_def piece_msg_def [abs_def] piece_of_def pieces_for_def num ls'
        is_get_decided_idx_def)
  then obtain ss where sent: "ec_send_acceptdecide X (ee_key ?E e) (ee_operation ?E e) frags ?spe1 = Some (ec_upd ((spe_base ?spe1)
      \<lparr>sp_leader_state := ls\<lparr>follower_seq_nums := ss\<rparr>,
       sp_outgoing := sp_outgoing ?sp @ map (piece_msg X e frags ?sp) (sp_peers ?sp)\<rparr>) ?spe1)" ..
  have "ec_accept_entry_leader X S e spe = Some (ec_upd ((spe_base ?spe1)
      \<lparr>sp_leader_state := ls\<lparr>follower_seq_nums := ss\<rparr>,
       sp_outgoing := sp_outgoing ?sp @ map (piece_msg X e frags ?sp) (sp_peers ?sp)\<rparr>) ?spe1)"
    using enc spe(1) idx [of "sp_pid ?sp"] app ls sent
    by (simp add: ec_accept_entry_leader_def spe_encode_def entry_for_in_range piece_of_def Let_def)
  then show ?thesis using s' by simp
qed

text \<open>A follower that is ready stores its piece.\<close>

lemma piece_delivered:
  assumes "ec_follower_ready sinv leader p (spe_base f)" and "piece_msg X e frags leader p = SequencePaxosMsg m"
  shows "\<exists>f'. ec_handle X S P m f = Some f' \<and> v_log (view (is_storage (sp_internal_storage (spe_base f')))) =
      v_log (view (is_storage (sp_internal_storage (spe_base f)))) @ [piece_of X e frags (length (sp_peers leader) + 1) p]"
proof -
  obtain a where m: "pm_msg m = AcceptDecide a" and a: "ad_n a = n_leader (sp_leader_state leader)"
      "ad_seq_num a = next_number (sp_leader_state leader) p"
      "ad_entries a = [piece_of X e frags (length (sp_peers leader) + 1) p]"
    using assms(2) by (auto simp: piece_msg_def)
  note f = assms(1) [unfolded ec_follower_ready_def batch_idle_def]
  from handle_acceptdecide_in_order [of "spe_base f" a] f obtain sp' where
    "handle_acceptdecide S a (spe_base f) = Some sp'"
    "v_log (view (is_storage (sp_internal_storage sp'))) =
      v_log (view (is_storage (sp_internal_storage (spe_base f)))) @ [piece_of X e frags (length (sp_peers leader) + 1) p]"
    by (auto simp: a)
  then show ?thesis by (simp add: m ec_handle_def ec_handle_acceptdecide_def ec_on_def)
qed

text \<open>A value appended at the leader and delivered to the followers: enough servers can give it back.\<close>

lemma value_distributed:
  assumes leader: "ec_leader_ready sinv ec spe"
    and followers: "\<forall>p \<in> set (sp_peers (spe_base spe)). ec_follower_ready sinv (spe_base spe) p (spe_base (F p))"
    and len: "length (frag_data (ee_value (env_entry X) e)) + LENGTH_PREFIX_BYTES < 2 ^ 64"
  shows "\<exists>spe' M F'. ec_append X S e spe = Some (Inr (), spe') \<and>
     sp_outgoing (spe_base spe') = sp_outgoing (spe_base spe) @ map (\<lambda>p. SequencePaxosMsg (M p)) (sp_peers (spe_base spe)) \<and>
     (\<forall>p \<in> set (sp_peers (spe_base spe)). pm_to (M p) = p \<and> ec_handle X S P (M p) (F p) = Some (F' p)) \<and>
     (\<forall>qs. set qs \<subseteq> set (sp_pid (spe_base spe) # sp_peers (spe_base spe)) \<longrightarrow>
        data_shards ec \<le> card ((\<lambda>p. p mod (data_shards ec + parity_shards ec)) ` set qs) \<longrightarrow>
        ec_decode (env_rs X) ec (map (\<lambda>q. ee_value (env_entry X) (last (v_log (view (is_storage (sp_internal_storage
          (spe_base (if q = sp_pid (spe_base spe) then spe' else F' q)))))))) qs)
        = Some (Inr (frag_data (ee_value (env_entry X) e))))"
proof -
  let ?sp = "spe_base spe" and ?E = "env_entry X" and ?n = "data_shards ec + parity_shards ec"
  let ?val = "frag_data (ee_value ?E e)" and ?log = "\<lambda>s. v_log (view (is_storage (sp_internal_storage (spe_base s))))"
  obtain frags where enc: "ec_encode (env_rs X) ec ?val = Some (Inr frags)" using encode_total by blast
  note L = leader [unfolded ec_leader_ready_def Let_def batch_idle_def]
  have n: "length (sp_peers ?sp) + 1 = ?n" using L by simp
  obtain spe' where acc: "ec_accept_entry_leader X S e spe = Some spe'"
    and log: "?log spe' = ?log spe @ [piece_of X e frags ?n (sp_pid ?sp)]"
    and out: "sp_outgoing (spe_base spe') = sp_outgoing ?sp @ map (piece_msg X e frags ?sp) (sp_peers ?sp)"
    using ec_accept_entry_full [OF _ _ _ _ _ _ _ _ enc, of spe] L by (auto simp: n)
  have app: "ec_append X S e spe = Some (Inr (), spe')" using L acc by (simp add: ec_append_def ec_propose_entry_def)
  obtain M where M: "piece_msg X e frags ?sp = (\<lambda>p. SequencePaxosMsg (M p))" "\<And>p. pm_to (M p) = p"
    by (rule that [of "\<lambda>p. case piece_msg X e frags ?sp p of SequencePaxosMsg m \<Rightarrow> m"]) (simp_all add: piece_msg_def [abs_def])
  have "\<forall>p \<in> set (sp_peers ?sp). \<exists>f'. ec_handle X S P (M p) (F p) = Some f' \<and>
      ?log f' = ?log (F p) @ [piece_of X e frags ?n p]"
    using piece_delivered [OF bspec [OF followers]] M(1) n by metis
  then obtain F' where F': "\<forall>p \<in> set (sp_peers ?sp). ec_handle X S P (M p) (F p) = Some (F' p) \<and>
      ?log (F' p) = ?log (F p) @ [piece_of X e frags ?n p]" by (metis (no_types))
  have last: "ee_value ?E (last (?log (if q = sp_pid ?sp then spe' else F' q))) = frags ! (q mod ?n)"
    if "q \<in> set (sp_pid ?sp # sp_peers ?sp)" for q
    using that log F' by (auto simp: piece_of_def parts_simps)
  have "ec_decode (env_rs X) ec (map (\<lambda>q. ee_value ?E (last (?log (if q = sp_pid ?sp then spe' else F' q)))) qs) = Some (Inr ?val)"
    if qs: "set qs \<subseteq> set (sp_pid ?sp # sp_peers ?sp)" and enough: "data_shards ec \<le> card ((\<lambda>p. p mod ?n) ` set qs)" for qs
  proof -
    have "map (\<lambda>q. ee_value ?E (last (?log (if q = sp_pid ?sp then spe' else F' q)))) qs = map (\<lambda>p. frags ! (p mod ?n)) qs"
      using last qs by (intro map_cong refl) blast
    then show ?thesis by (simp only: decode_pieces [OF enc len refl enough])
  qed
  then show ?thesis using app out F' M by (intro exI [of _ spe'] exI [of _ M] exI [of _ F']) auto
qed

text \<open>
  A synchronisation encodes the entry that the leader stores, which is its own piece: what the servers
  can decode from the result is the leader's fragment.
\<close>

lemma reencoded_pieces:
  assumes "spe_ec_service spe = ec" and n: "length (sp_peers (spe_base spe)) + 1 = data_shards ec + parity_shards ec"
    and len: "length (frag_data (ee_value (env_entry X) e)) + LENGTH_PREFIX_BYTES < 2 ^ 64"
  shows "\<exists>piece. (\<forall>to. ec_reencode X to spe e = Some (piece to)) \<and>
     (\<forall>qs. data_shards ec \<le> card ((\<lambda>p. p mod (data_shards ec + parity_shards ec)) ` set qs) \<longrightarrow>
        ec_decode (env_rs X) ec (map (\<lambda>q. ee_value (env_entry X) (piece q)) qs)
        = Some (Inr (frag_data (ee_value (env_entry X) e))))"
proof -
  let ?n = "data_shards ec + parity_shards ec"
  obtain frags where enc: "ec_encode (env_rs X) ec (frag_data (ee_value (env_entry X) e)) = Some (Inr frags)"
    and k: "length frags = ?n" using encode_total by blast
  have "p mod ?n < length frags" for p using k some_data by simp
  then have "ec_reencode X to spe e = Some (piece_of X e frags ?n to)" for to
    using enc assms(1) n some_data
    by (simp add: ec_reencode_def ec_encode_entry_def spe_encode_def entry_for_in_range piece_of_def)
  moreover have "ec_decode (env_rs X) ec (map (\<lambda>q. ee_value (env_entry X) (piece_of X e frags ?n q)) qs)
      = Some (Inr (frag_data (ee_value (env_entry X) e)))"
    if "data_shards ec \<le> card ((\<lambda>p. p mod ?n) ` set qs)" for qs
    using decode_pieces [OF enc len refl that] by (simp add: piece_of_def parts_simps)
  ultimately show ?thesis by (intro exI [of _ "piece_of X e frags ?n"]) blast
qed

end

text \<open>The replica's own instance: the in-memory back-end, the entries of the example, any sound code.\<close>

definition ec_kv_env :: "'rs rs_impl \<Rightarrow> ('c stop_sign \<Rightarrow> u8 list option) \<Rightarrow> (ec_key_value, 'c, 'rs) ec_env" where
  "ec_kv_env R ser = \<lparr>env_entry = ec_kv_entry, env_rs = R, env_serialize = ser\<rparr>"

lemma ec_kv_env_simps [simp]: "env_entry (ec_kv_env R ser) = ec_kv_entry" "env_rs (ec_kv_env R ser) = R"
  by (simp_all add: ec_kv_env_def)

lemma ec_kv_replication:
  "reed_solomon R ec \<Longrightarrow> ec_replication memory_impl memory_inv memory_view (ec_kv_env R ser) ec"
  by (intro ec_replication.intro) (simp_all add: mem.storage_contract_axioms ec_kv_entry.ec_entry_laws_axioms)

interpretation ec_xor: ec_replication memory_impl memory_inv memory_view "ec_kv_env xor_impl ser" "xor_service (Suc d)" for ser d
  by (rule ec_kv_replication) (rule xor.reed_solomon_axioms)

section \<open>Compaction\<close>

text \<open>
  An error of the storage is a panic of the erasure-coded replica: the error it is asked to be
  converted to is of another type. The plain replica returns the error, or ignores it.
\<close>

lemma ec_snapshot_undecided:
  assumes wf: "is_wf sinv view (sp_internal_storage (spe_base spe))"
    and idx: "sp_get_decided_idx (spe_base spe) < i"
    and contract: "storage_contract S sinv view"
  shows "ec_snapshot S P (Some i) local spe = None"
    "sp_snapshot S P (Some i) local (spe_base spe) =
       Some (Inl (UndecidedIndex (sp_get_decided_idx (spe_base spe))), spe_base spe)"
proof -
  have "try_snapshot S P (Some i) (sp_internal_storage (spe_base spe)) =
      Some (Inl (CompactionError (UndecidedIndex (sp_get_decided_idx (spe_base spe)))), sp_internal_storage (spe_base spe))"
    using storage_contract.try_snapshot_undecided [OF contract wf] idx
    by (simp add: sp_get_decided_idx_def is_get_decided_idx_def)
  then show "ec_snapshot S P (Some i) local spe = None"
    "sp_snapshot S P (Some i) local (spe_base spe) =
       Some (Inl (UndecidedIndex (sp_get_decided_idx (spe_base spe))), spe_base spe)"
    by (simp_all add: ec_snapshot_def sp_snapshot_def ec_downcast_compaction_def downcast_compaction_def Let_def)
qed

section \<open>Batches and indexes of the example's instance\<close>

lemma ec_full_batch_append:
  assumes "reed_solomon R ec" and ready: "ec_leader_ready memory_inv ec (ec_upd (upd_storage st (spe_base spe)) spe)"
    and st: "sp_internal_storage (spe_base spe)
      = upd_cache (\<lambda>c. c\<lparr>c_batch_size := Suc (length batch), c_batched_entries := batch\<rparr>) st"
  shows "\<exists>spe' M. ec_append (ec_kv_env R ser) memory_impl e spe = Some (Inr (), spe') \<and>
    length (v_log (memory_view (is_storage (sp_internal_storage (spe_base spe')))))
      = length (v_log (memory_view (is_storage st))) + length batch + 1 \<and>
    sp_outgoing (spe_base spe') = sp_outgoing (spe_base spe) @ map (\<lambda>p. paxos_envelope (sp_pid (spe_base spe)) p (AcceptDecide (M p)))
      (sp_peers (spe_base spe)) \<and>
    (\<forall>p. \<exists>f. ad_entries (M p) = [ec_kv_from_parts (ek_key e) f (ek_op e)])"
proof -
  let ?X = "ec_kv_env R ser" and ?sp = "spe_base spe"
  note L = ready [unfolded ec_leader_ready_def Let_def batch_idle_def]
  obtain frags where enc: "ec_encode R ec (frag_data (ek_fragment e)) = Some (Inr frags)"
    using reed_solomon.encode_total [OF assms(1)] by blast
  from ec_replication.ec_accept_entry_full [OF ec_kv_replication [OF assms(1)], of spe ser e frags] L st enc
  obtain spe' where acc: "ec_accept_entry_leader ?X memory_impl e spe = Some spe'"
    and log: "v_log (memory_view (is_storage (sp_internal_storage (spe_base spe')))) = v_log (memory_view (is_storage st)) @ batch @
       [piece_of ?X e frags (length (sp_peers ?sp) + 1) (sp_pid ?sp)]"
    and out: "sp_outgoing (spe_base spe') = sp_outgoing ?sp @ map (piece_msg ?X e frags ?sp) (sp_peers ?sp)"
    by (auto simp: ec_kv_entry_def)
  have "ec_append ?X memory_impl e spe = Some (Inr (), spe')"
    using acc L st by (simp add: ec_append_def ec_propose_entry_def accepted_reconfiguration_def is_get_stopsign_def)
  moreover have "\<exists>M. sp_outgoing (spe_base spe') = sp_outgoing ?sp @ map (\<lambda>p. paxos_envelope (sp_pid ?sp) p (AcceptDecide (M p)))
      (sp_peers ?sp) \<and> (\<forall>p. \<exists>f. ad_entries (M p) = [ec_kv_from_parts (ek_key e) f (ek_op e)])"
    unfolding out piece_msg_def [abs_def] piece_of_def by (rule exI, rule conjI, rule refl) (auto simp: ec_kv_entry_def)
  ultimately show ?thesis using log by auto
qed

lemma ec_append_out_of_range:
  assumes "reed_solomon R (spe_ec_service spe)" and "sp_state (spe_base spe) = (Leader, PhaseAccept)"
    and "\<not> accepted_reconfiguration (spe_base spe)"
    and "data_shards (spe_ec_service spe) + parity_shards (spe_ec_service spe)
      \<le> sp_pid (spe_base spe) mod (length (sp_peers (spe_base spe)) + 1)"
  shows "ec_append (ec_kv_env R ser) S e spe = None"
proof -
  obtain frags where "ec_encode R (spe_ec_service spe) (frag_data (ee_value ec_kv_entry e)) = Some (Inr frags)"
    "length frags = data_shards (spe_ec_service spe) + parity_shards (spe_ec_service spe)"
    using reed_solomon.encode_total [OF assms(1)] by blast
  with assms show ?thesis
    by (simp add: ec_append_def ec_propose_entry_def ec_accept_entry_leader_def spe_encode_def entry_for_out_of_range Let_def)
qed

lemma ec_validate_ignores_service:
  "omni_paxos_ec_config_validate (c\<lparr>server_config_ec_of := (server_config_ec_of c)\<lparr>sce_erasure_coding_service := ec\<rparr>\<rparr>)
     = omni_paxos_ec_config_validate c"
  by (simp add: omni_paxos_ec_config_validate_def omni_paxos_config_from_ec_def server_config_from_ec_def server_config.truncate_def)

section \<open>Runs\<close>

context storage_contract
begin

lemma ec_run_safe:
  assumes "store_ok sinv view s" and "1 \<le> spc_pid (spce_base config)"
    and "sequence_paxos_ec_with S config s = Some spe" and run: "(ec_step X S P True)\<^sup>*\<^sup>* spe spe'"
  shows "ballot_le (sp_get_promise (spe_base spe)) (sp_get_promise (spe_base spe'))"
    "ballot_le (is_get_accepted_round (sp_internal_storage (spe_base spe))) (is_get_accepted_round (sp_internal_storage (spe_base spe')))"
    "is_wf sinv view (sp_internal_storage (spe_base spe'))"
proof -
  have "sequence_paxos_with S (spce_base config) s = Some (spe_base spe)"
    using assms(3) by (auto simp: sequence_paxos_ec_with_def bind_eq_Some_conv)
  note start = sequence_paxos_with_start [OF assms(1) this assms(2)]
  have acts: "acts S P True (sp_internal_storage (spe_base spe)) (sp_internal_storage (spe_base spe'))"
    using ec_run_inv [OF run start(1)] by simp
  show "ballot_le (sp_get_promise (spe_base spe)) (sp_get_promise (spe_base spe'))"
    using acts_promise [OF acts] by (simp add: sp_get_promise_def)
  show "ballot_le (is_get_accepted_round (sp_internal_storage (spe_base spe))) (is_get_accepted_round (sp_internal_storage (spe_base spe')))"
    using acts_round [OF acts start(3)] by simp
  show "is_wf sinv view (sp_internal_storage (spe_base spe'))" using acts_wf [OF acts start(2)] .
qed

end

end
