(* ===== verification/EC_Demo.thy ===== *)
theory EC_Demo
  imports Demo EC_Facts
begin

text \<open>
  A cluster of three erasure-coded servers for concrete instances: two data shards and one parity
  shard, the in-memory back-end, server 1 leading its first round and the others following it.
\<close>

type_synonym ec_demo_store = "(ec_key_value, cluster_config_ec, ec_kv_snapshot) memory_storage"
type_synonym ec_demo_sp = "(ec_demo_store, ec_key_value, cluster_config_ec, ec_kv_snapshot, usize) sequence_paxos_ec"

definition ec_demo_env :: "(ec_key_value, cluster_config_ec, usize) ec_env" where
  "ec_demo_env = ec_kv_env xor_impl (\<lambda>_. Some [])"

definition ec_demo_service :: "usize ec_service" where
  "ec_demo_service = xor_service 2"

definition ec_demo_server :: "node_id \<Rightarrow> role \<Rightarrow> ec_key_value list \<Rightarrow> usize \<Rightarrow> ec_demo_sp" where
  "ec_demo_server pid role batched batch_size = \<lparr>spe_base = \<lparr>
     sp_internal_storage = \<lparr>
       is_storage = memory_storage_default\<lparr>ms_n_prom := Some demo_ballot, ms_acc_round := Some demo_ballot\<rparr>,
       is_cache = (state_cache_new batch_size)\<lparr>c_promise := demo_ballot, c_accepted_round := demo_ballot, c_batched_entries := batched\<rparr>\<rparr>,
     sp_pid = pid, sp_peers = filter (\<lambda>p. p \<noteq> pid) [1, 2, 3], sp_state = (role, PhaseAccept), sp_buffered_proposals = [],
     sp_buffered_stopsign = None, sp_outgoing = [], sp_leader_state = leader_state_with demo_ballot 3 (Majority 2),
     sp_latest_accepted_meta = None, sp_current_seq_num = sequence_number_default, sp_cached_promise_message = None\<rparr>,
     spe_ec_service = ec_demo_service\<rparr>"

definition ec_demo_kv :: ec_key_value where
  "ec_demo_kv = ec_kv_from_parts ''x'' (entry_fragment_for_request [1, 2, 3]) OpSET"

definition ec_demo_spc :: "usize sequence_paxos_config_ec" where
  "ec_demo_spc = \<lparr>spce_base = demo_spc, spce_erasure_coding_service = ec_demo_service\<rparr>"

lemma ec_demo_sound: "reed_solomon xor_impl ec_demo_service"
  using xor.reed_solomon_axioms [of 1] by (simp add: ec_demo_service_def numeral_2_eq_2)

lemma ec_demo_fields [simp]:
  "data_shards ec_demo_service = 2" "parity_shards ec_demo_service = 1"
  "spe_ec_service (ec_demo_server pid role batched b) = ec_demo_service"
  "sp_peers (spe_base (ec_demo_server (Suc 0) role batched b)) = [2, 3]"
  "sp_pid (spe_base (ec_demo_server pid role batched b)) = pid"
  by (simp_all add: ec_demo_service_def xor_service_def ec_demo_server_def)

lemma ec_demo_leader_ready: "ec_leader_ready memory_inv ec_demo_service (ec_demo_server 1 Leader [] 1)"
  by (simp add: ec_leader_ready_def Let_def batch_idle_def accepted_reconfiguration_def numberable_def
      ec_demo_server_def memory_inv_def state_cache_new_def leader_state_with_def sequence_number_default_def
      is_get_stopsign_def ec_demo_service_def xor_service_def memory_storage_default_def)

lemma ec_demo_follower_ready:
  "p \<in> {2, 3} \<Longrightarrow>
     ec_follower_ready memory_inv (spe_base (ec_demo_server 1 Leader [] 1)) p (spe_base (ec_demo_server p Follower [] 1))"
  by (auto simp: ec_follower_ready_def batch_idle_def ec_demo_server_def memory_inv_def state_cache_new_def
      leader_state_with_def sequence_number_default_def reply_meta_ok_def next_number_def Let_def memory_storage_default_def
      check_msg_status_Expected sp_get_promise_def is_get_promise_def)

lemma ec_demo_wf: "is_wf memory_inv memory_view (sp_internal_storage (spe_base (ec_demo_server pid role [] 1)))"
  by (simp add: is_wf_def is_coherent_def cache_matches_def indexes_ordered_def ec_demo_server_def memory_inv_def
      memory_view_def memory_storage_default_def state_cache_new_def ballot_or_default_def)

text \<open>A server that starts and takes the lead of its first round.\<close>

lemma ec_demo_start:
  "\<exists>spe spe'. sequence_paxos_ec_with memory_impl ec_demo_spc (memory_storage_default :: ec_demo_store) = Some spe \<and>
     ec_step ec_demo_env memory_impl ec_kv_impl True spe spe' \<and> sp_get_promise (spe_base spe') = demo_ballot"
proof -
  let ?sp = "\<lparr>sp_internal_storage =
      \<lparr>is_storage = memory_storage_default\<lparr>ms_n_prom := Some ballot_default\<rparr>, is_cache = state_cache_new 1\<rparr>,
    sp_pid = 1, sp_peers = [2, 3], sp_state = (Follower, PhaseNone), sp_buffered_proposals = [],
    sp_buffered_stopsign = None, sp_outgoing = [], sp_leader_state = leader_state_with ballot_default 3 (Majority 2),
    sp_latest_accepted_meta = None, sp_current_seq_num = sequence_number_default, sp_cached_promise_message = None\<rparr>
    :: (ec_demo_store, ec_key_value, cluster_config_ec, ec_kv_snapshot) sequence_paxos"
  have "sequence_paxos_with memory_impl demo_spc memory_storage_default = Some ?sp" by (simp add: demo_eval)
  then have "sequence_paxos_ec_with memory_impl ec_demo_spc memory_storage_default
      = Some \<lparr>spe_base = ?sp, spe_ec_service = ec_demo_service\<rparr>"
    by (simp add: sequence_paxos_ec_with_def ec_demo_spc_def)
  moreover obtain sp' where "handle_leader memory_impl demo_ballot ?sp = Some sp'" "sp_get_promise sp' = demo_ballot"
    by (simp add: demo_eval)
  then have "ec_handle_leader memory_impl demo_ballot \<lparr>spe_base = ?sp, spe_ec_service = ec_demo_service\<rparr>
      = Some \<lparr>spe_base = sp', spe_ec_service = ec_demo_service\<rparr>" "sp_get_promise sp' = demo_ballot"
    by (simp_all add: ec_handle_leader_def ec_on_def)
  ultimately show ?thesis by (auto intro!: exI ec_step_leader)
qed

end
