(* ===== verification/Persistent_Storage.thy ===== *)
theory Persistent_Storage
  imports Storage
begin

text \<open>
  The back-end over RocksDB (\<^verbatim>\<open>omnipaxos_storage/src/persistent_storage.rs\<close>). RocksDB and the two
  serialisation crates are not part of the sources: what the code calls of them are the fields of
  \<open>rocksdb_impl\<close> and \<open>codec\<close>. The keys of the log column family are the big-endian bytes of an index, whose byte
  order is the order of the indexes (\<open>to_be_bytes_less\<close> in \<open>Persistent_Facts\<close>); the column family is
  therefore keyed by the index itself.
\<close>

section \<open>The database and the codecs\<close>

definition NPROM :: string where "NPROM = ''NPROM''"
definition ACC :: string where "ACC = ''ACC''"
definition DECIDE :: string where "DECIDE = ''DECIDE''"
definition TRIM :: string where "TRIM = ''TRIM''"
definition STOPSIGN :: string where "STOPSIGN = ''STOPSIGN''"
definition SNAPSHOT :: string where "SNAPSHOT = ''SNAPSHOT''"

text \<open>The operations of a write batch.\<close>

datatype batch_op =
    BatchPut string "u8 list"
  | BatchPutLog usize "u8 list"
  | BatchDeleteRangeLog usize usize

record 'd rocksdb_impl =
  rdb_get :: "string \<Rightarrow> 'd \<Rightarrow> string + u8 list option"
  rdb_put :: "string \<Rightarrow> u8 list \<Rightarrow> 'd \<Rightarrow> string + 'd"
  rdb_put_log :: "usize \<Rightarrow> u8 list \<Rightarrow> 'd \<Rightarrow> string + 'd"
  rdb_delete_range_log :: "usize \<Rightarrow> usize \<Rightarrow> 'd \<Rightarrow> string + 'd"
  rdb_write :: "batch_op list \<Rightarrow> 'd \<Rightarrow> string + 'd"
  rdb_log_last :: "'d \<Rightarrow> usize option"
  rdb_log_from :: "usize \<Rightarrow> 'd \<Rightarrow> u8 list list"

record ('t, 'c, 'p) codec =
  ser_entry :: "'t \<Rightarrow> string + u8 list"
  de_entry :: "u8 list \<Rightarrow> string + 't"
  ser_ballot :: "ballot \<Rightarrow> string + u8 list"
  de_ballot :: "u8 list \<Rightarrow> string + ballot"
  ser_stopsign :: "'c stop_sign option \<Rightarrow> string + u8 list"
  de_stopsign :: "u8 list \<Rightarrow> string + 'c stop_sign option"
  ser_snapshot :: "'p option \<Rightarrow> string + u8 list"
  de_snapshot :: "u8 list \<Rightarrow> string + 'p option"
  usize_as_bytes :: "usize \<Rightarrow> u8 list"
  usize_read_from :: "u8 list \<Rightarrow> usize option"

section \<open>Configuration\<close>

text \<open>The options of RocksDB and the three calls that make them.\<close>

record 'o options_impl =
  opt_default :: 'o
  opt_create_missing_column_families :: "'o \<Rightarrow> 'o"
  opt_create_if_missing :: "'o \<Rightarrow> 'o"

record 'o persistent_storage_config =
  psc_path :: string
  psc_rocksdb_options :: 'o
  psc_log_options :: 'o

definition DEFAULT_PATH :: string where
  "DEFAULT_PATH = ''/default_storage/''"

definition psc_get_path :: "'o persistent_storage_config \<Rightarrow> string" where
  "psc_get_path c = psc_path c"

definition psc_set_path :: "string \<Rightarrow> 'o persistent_storage_config \<Rightarrow> 'o persistent_storage_config" where
  "psc_set_path path c = c\<lparr>psc_path := path\<rparr>"

definition psc_get_log_options :: "'o persistent_storage_config \<Rightarrow> 'o" where
  "psc_get_log_options c = psc_log_options c"

definition psc_set_log_options :: "'o \<Rightarrow> 'o persistent_storage_config \<Rightarrow> 'o persistent_storage_config" where
  "psc_set_log_options opts c = c\<lparr>psc_log_options := opts\<rparr>"

definition psc_get_database_options :: "'o persistent_storage_config \<Rightarrow> 'o" where
  "psc_get_database_options c = psc_rocksdb_options c"

definition psc_set_database_options :: "'o \<Rightarrow> 'o persistent_storage_config \<Rightarrow> 'o persistent_storage_config" where
  "psc_set_database_options opts c = c\<lparr>psc_rocksdb_options := opts\<rparr>"

definition psc_with :: "string \<Rightarrow> 'o \<Rightarrow> 'o \<Rightarrow> 'o persistent_storage_config" where
  "psc_with path log_options rocksdb_options =
     \<lparr>psc_path = path, psc_rocksdb_options = rocksdb_options, psc_log_options = log_options\<rparr>"

definition psc_with_path :: "'o options_impl \<Rightarrow> string \<Rightarrow> 'o persistent_storage_config" where
  "psc_with_path Opt path = \<lparr>psc_path = path,
     psc_rocksdb_options = opt_create_if_missing Opt (opt_create_missing_column_families Opt (opt_default Opt)),
     psc_log_options = opt_default Opt\<rparr>"

definition psc_default :: "'o options_impl \<Rightarrow> 'o persistent_storage_config" where
  "psc_default Opt = \<lparr>psc_path = DEFAULT_PATH,
     psc_rocksdb_options = opt_create_if_missing Opt (opt_create_missing_column_families Opt (opt_default Opt)),
     psc_log_options = opt_default Opt\<rparr>"

section \<open>The storage\<close>

record 'd persistent_storage =
  ps_db :: 'd
  ps_write_batch :: "batch_op list"
  ps_next_log_key :: usize

definition ErrHelper :: storage_err where
  "ErrHelper = BackendError ''ErrHelper''"

text \<open>Opening: the database is what \<^verbatim>\<open>open_cf_descriptors\<close> returned for the path and the options.\<close>

definition ps_open :: "'d rocksdb_impl \<Rightarrow> ('t, 'c, 'p) codec \<Rightarrow> 'd \<Rightarrow> 'd persistent_storage option" where
  "ps_open D K db = do {
     next_log_key \<leftarrow>
       (case rdb_log_last D db of
          Some key \<Rightarrow> Some (key + 1)
        | None \<Rightarrow>
            (case rdb_get D TRIM db of
               Inl _ \<Rightarrow> None
             | Inr (Some bytes) \<Rightarrow> usize_read_from K bytes
             | Inr None \<Rightarrow> Some 0));
     Some \<lparr>ps_db = db, ps_write_batch = [], ps_next_log_key = next_log_key\<rparr>
   }"

text \<open>\<^verbatim>\<open>new\<close>: a panic when the path exists already.\<close>

definition ps_new :: "'d rocksdb_impl \<Rightarrow> ('t, 'c, 'p) codec \<Rightarrow> bool \<Rightarrow> 'd \<Rightarrow> 'd persistent_storage option" where
  "ps_new D K path_exists db = (if path_exists then None else ps_open D K db)"

text \<open>The operator \<^verbatim>\<open>?\<close> on a serialisation, and a call of the database.\<close>

definition with_bytes ::
  "string + 'b \<Rightarrow> 's \<Rightarrow> ('b \<Rightarrow> (unit storage_result \<times> 's) option) \<Rightarrow> (unit storage_result \<times> 's) option" where
  "with_bytes r s k = (case r of Inl e \<Rightarrow> Some (Inl (BackendError e), s) | Inr b \<Rightarrow> k b)"

definition on_db ::
  "('d \<Rightarrow> string + 'd) \<Rightarrow> 'd persistent_storage \<Rightarrow> (unit storage_result \<times> 'd persistent_storage) option" where
  "on_db f ps = with_bytes (f (ps_db ps)) ps (\<lambda>db. Some (Inr (), ps\<lparr>ps_db := db\<rparr>))"

definition batch_put :: "batch_op \<Rightarrow> 'd persistent_storage \<Rightarrow> (unit storage_result \<times> 'd persistent_storage) option" where
  "batch_put op ps = Some (Inr (), ps\<lparr>ps_write_batch := ps_write_batch ps @ [op]\<rparr>)"

subsection \<open>Batched operations\<close>

definition batch_append_entry ::
  "('t, 'c, 'p) codec \<Rightarrow> 't \<Rightarrow> 'd persistent_storage \<Rightarrow> (unit storage_result \<times> 'd persistent_storage) option" where
  "batch_append_entry K entry ps =
     with_bytes (ser_entry K entry) ps (\<lambda>b.
       Some (Inr (), ps\<lparr>ps_write_batch := ps_write_batch ps @ [BatchPutLog (ps_next_log_key ps) b],
                        ps_next_log_key := ps_next_log_key ps + 1\<rparr>))"

text \<open>The loop over the entries: a failed serialisation leaves it with what was added so far.\<close>

fun collect_puts ::
  "('t, 'c, 'p) codec \<Rightarrow> 't list \<Rightarrow> batch_op list \<Rightarrow> usize \<Rightarrow> string option \<times> batch_op list \<times> usize" where
  "collect_puts K [] batch next_log_key = (None, batch, next_log_key)"
| "collect_puts K (entry # entries) batch next_log_key =
     (case ser_entry K entry of
        Inl e \<Rightarrow> (Some e, batch, next_log_key)
      | Inr b \<Rightarrow> collect_puts K entries (batch @ [BatchPutLog next_log_key b]) (next_log_key + 1))"

definition batch_append_entries ::
  "('t, 'c, 'p) codec \<Rightarrow> 't list \<Rightarrow> 'd persistent_storage \<Rightarrow> (unit storage_result \<times> 'd persistent_storage) option" where
  "batch_append_entries K entries ps =
     (let (err, batch, n) = collect_puts K entries (ps_write_batch ps) (ps_next_log_key ps);
          ps1 = ps\<lparr>ps_write_batch := batch, ps_next_log_key := n\<rparr>
      in Some (case err of None \<Rightarrow> Inr () | Some e \<Rightarrow> Inl (BackendError e), ps1))"

definition batch_append_on_prefix ::
  "('t, 'c, 'p) codec \<Rightarrow> usize \<Rightarrow> 't list \<Rightarrow> 'd persistent_storage \<Rightarrow>
     (unit storage_result \<times> 'd persistent_storage) option" where
  "batch_append_on_prefix K from_idx entries ps =
     (let delete_idx = from_idx + length entries;
          ps1 = (if delete_idx < ps_next_log_key ps
                 then ps\<lparr>ps_write_batch := ps_write_batch ps @ [BatchDeleteRangeLog delete_idx (ps_next_log_key ps)]\<rparr>
                 else ps)
      in batch_append_entries K entries (ps1\<lparr>ps_next_log_key := from_idx\<rparr>))"

definition batch_set_promise ::
  "('t, 'c, 'p) codec \<Rightarrow> ballot \<Rightarrow> 'd persistent_storage \<Rightarrow> (unit storage_result \<times> 'd persistent_storage) option" where
  "batch_set_promise K n_prom ps = with_bytes (ser_ballot K n_prom) ps (\<lambda>b. batch_put (BatchPut NPROM b) ps)"

definition batch_set_decided_idx ::
  "('t, 'c, 'p) codec \<Rightarrow> usize \<Rightarrow> 'd persistent_storage \<Rightarrow> (unit storage_result \<times> 'd persistent_storage) option" where
  "batch_set_decided_idx K ld ps = batch_put (BatchPut DECIDE (usize_as_bytes K ld)) ps"

definition batch_set_accepted_round ::
  "('t, 'c, 'p) codec \<Rightarrow> ballot \<Rightarrow> 'd persistent_storage \<Rightarrow> (unit storage_result \<times> 'd persistent_storage) option" where
  "batch_set_accepted_round K na ps = with_bytes (ser_ballot K na) ps (\<lambda>b. batch_put (BatchPut ACC b) ps)"

definition batch_set_compacted_idx ::
  "('t, 'c, 'p) codec \<Rightarrow> usize \<Rightarrow> 'd persistent_storage \<Rightarrow> (unit storage_result \<times> 'd persistent_storage) option" where
  "batch_set_compacted_idx K trimmed_idx ps = batch_put (BatchPut TRIM (usize_as_bytes K trimmed_idx)) ps"

definition batch_trim :: "usize \<Rightarrow> 'd persistent_storage \<Rightarrow> (unit storage_result \<times> 'd persistent_storage) option" where
  "batch_trim trimmed_idx ps = batch_put (BatchDeleteRangeLog 0 trimmed_idx) ps"

definition batch_set_stopsign ::
  "('t, 'c, 'p) codec \<Rightarrow> 'c stop_sign option \<Rightarrow> 'd persistent_storage \<Rightarrow>
     (unit storage_result \<times> 'd persistent_storage) option" where
  "batch_set_stopsign K ss ps = with_bytes (ser_stopsign K ss) ps (\<lambda>b. batch_put (BatchPut STOPSIGN b) ps)"

definition batch_set_snapshot ::
  "('t, 'c, 'p) codec \<Rightarrow> 'p option \<Rightarrow> 'd persistent_storage \<Rightarrow> (unit storage_result \<times> 'd persistent_storage) option" where
  "batch_set_snapshot K snapshot ps = with_bytes (ser_snapshot K snapshot) ps (\<lambda>b. batch_put (BatchPut SNAPSHOT b) ps)"

subsection \<open>The trait \<^verbatim>\<open>Storage\<close>\<close>

fun ps_batch_op ::
  "('t, 'c, 'p) codec \<Rightarrow> ('t, 'c, 'p) storage_op \<Rightarrow> 'd persistent_storage \<Rightarrow>
     (unit storage_result \<times> 'd persistent_storage) option" where
  "ps_batch_op K (AppendEntry entry) ps = batch_append_entry K entry ps"
| "ps_batch_op K (AppendEntries entries) ps = batch_append_entries K entries ps"
| "ps_batch_op K (AppendOnPrefix from_idx entries) ps = batch_append_on_prefix K from_idx entries ps"
| "ps_batch_op K (SetPromise bal) ps = batch_set_promise K bal ps"
| "ps_batch_op K (SetDecidedIndex idx) ps = batch_set_decided_idx K idx ps"
| "ps_batch_op K (SetAcceptedRound bal) ps = batch_set_accepted_round K bal ps"
| "ps_batch_op K (SetCompactedIdx idx) ps = batch_set_compacted_idx K idx ps"
| "ps_batch_op K (Trim idx) ps = batch_trim idx ps"
| "ps_batch_op K (SetStopsign ss) ps = batch_set_stopsign K ss ps"
| "ps_batch_op K (SetSnapshot snap) ps = batch_set_snapshot K snap ps"

fun ps_batch_ops ::
  "('t, 'c, 'p) codec \<Rightarrow> ('t, 'c, 'p) storage_op list \<Rightarrow> 'd persistent_storage \<Rightarrow>
     (unit storage_result \<times> 'd persistent_storage) option" where
  "ps_batch_ops K [] ps = Some (Inr (), ps)"
| "ps_batch_ops K (op # ops) ps = try_op (ps_batch_op K op ps) (\<lambda>_ ps1. ps_batch_ops K ops ps1)"

definition ps_write_atomically ::
  "'d rocksdb_impl \<Rightarrow> ('t, 'c, 'p) codec \<Rightarrow> ('t, 'c, 'p) storage_op list \<Rightarrow> 'd persistent_storage \<Rightarrow>
     (unit storage_result \<times> 'd persistent_storage) option" where
  "ps_write_atomically D K ops ps =
     try_op (ps_batch_ops K ops ps) (\<lambda>_ ps1.
       on_db (rdb_write D (ps_write_batch ps1)) (ps1\<lparr>ps_write_batch := []\<rparr>))"

definition ps_append_entry ::
  "'d rocksdb_impl \<Rightarrow> ('t, 'c, 'p) codec \<Rightarrow> 't \<Rightarrow> 'd persistent_storage \<Rightarrow>
     (unit storage_result \<times> 'd persistent_storage) option" where
  "ps_append_entry D K entry ps =
     with_bytes (ser_entry K entry) ps (\<lambda>b.
       try_op (on_db (rdb_put_log D (ps_next_log_key ps) b) ps) (\<lambda>_ ps1.
         Some (Inr (), ps1\<lparr>ps_next_log_key := ps_next_log_key ps1 + 1\<rparr>)))"

definition ps_append_entries ::
  "'d rocksdb_impl \<Rightarrow> ('t, 'c, 'p) codec \<Rightarrow> 't list \<Rightarrow> 'd persistent_storage \<Rightarrow>
     (unit storage_result \<times> 'd persistent_storage) option" where
  "ps_append_entries D K entries ps =
     (let (err, batch, n) = collect_puts K entries [] (ps_next_log_key ps);
          ps1 = ps\<lparr>ps_next_log_key := n\<rparr>
      in case err of
           Some e \<Rightarrow> Some (Inl (BackendError e), ps1)
         | None \<Rightarrow> on_db (rdb_write D batch) ps1)"

definition ps_append_on_prefix ::
  "'d rocksdb_impl \<Rightarrow> ('t, 'c, 'p) codec \<Rightarrow> usize \<Rightarrow> 't list \<Rightarrow> 'd persistent_storage \<Rightarrow>
     (unit storage_result \<times> 'd persistent_storage) option" where
  "ps_append_on_prefix D K from_idx entries ps =
     (let delete_idx = from_idx + length entries
      in try_op (if delete_idx < ps_next_log_key ps
                 then on_db (rdb_delete_range_log D delete_idx (ps_next_log_key ps)) ps else Some (Inr (), ps))
           (\<lambda>_ ps1. ps_append_entries D K entries (ps1\<lparr>ps_next_log_key := from_idx\<rparr>)))"

text \<open>\<open>n\<close> values from the iterator, which may run out.\<close>

fun take_values :: "('t, 'c, 'p) codec \<Rightarrow> nat \<Rightarrow> u8 list list \<Rightarrow> 't list storage_result" where
  "take_values K 0 vs = Inr []"
| "take_values K (Suc n) [] = Inl ErrHelper"
| "take_values K (Suc n) (v # vs) =
     (case de_entry K v of
        Inl e \<Rightarrow> Inl (BackendError e)
      | Inr x \<Rightarrow> (case take_values K n vs of Inl e \<Rightarrow> Inl e | Inr xs \<Rightarrow> Inr (x # xs)))"

definition ps_get_entries ::
  "'d rocksdb_impl \<Rightarrow> ('t, 'c, 'p) codec \<Rightarrow> usize \<Rightarrow> usize \<Rightarrow> 'd persistent_storage \<Rightarrow> 't list storage_result option" where
  "ps_get_entries D K from to ps =
     (if to > ps_next_log_key ps \<or> from \<ge> to then Some (Inr [])
      else Some (take_values K (to - from) (rdb_log_from D from (ps_db ps))))"

text \<open>Reading a field of the state: absent, or its bytes decoded.\<close>

definition ps_read ::
  "'d rocksdb_impl \<Rightarrow> string \<Rightarrow> (u8 list \<Rightarrow> string + 'a) \<Rightarrow> 'a \<Rightarrow> 'd persistent_storage \<Rightarrow> 'a storage_result" where
  "ps_read D key de absent ps =
     (case rdb_get D key (ps_db ps) of
        Inl e \<Rightarrow> Inl (BackendError e)
      | Inr None \<Rightarrow> Inr absent
      | Inr (Some b) \<Rightarrow> (case de b of Inl e \<Rightarrow> Inl (BackendError e) | Inr x \<Rightarrow> Inr x))"

definition de_usize :: "('t, 'c, 'p) codec \<Rightarrow> u8 list \<Rightarrow> string + usize" where
  "de_usize K b = (case usize_read_from K b of None \<Rightarrow> Inl ''ErrHelper'' | Some n \<Rightarrow> Inr n)"

definition de_some_ballot :: "('t, 'c, 'p) codec \<Rightarrow> u8 list \<Rightarrow> string + ballot option" where
  "de_some_ballot K b = (case de_ballot K b of Inl e \<Rightarrow> Inl e | Inr x \<Rightarrow> Inr (Some x))"

definition ps_get_promise ::
  "'d rocksdb_impl \<Rightarrow> ('t, 'c, 'p) codec \<Rightarrow> 'd persistent_storage \<Rightarrow> ballot option storage_result option" where
  "ps_get_promise D K ps = Some (ps_read D NPROM (de_some_ballot K) None ps)"

definition ps_get_decided_idx ::
  "'d rocksdb_impl \<Rightarrow> ('t, 'c, 'p) codec \<Rightarrow> 'd persistent_storage \<Rightarrow> usize storage_result option" where
  "ps_get_decided_idx D K ps = Some (ps_read D DECIDE (de_usize K) 0 ps)"

definition ps_get_accepted_round ::
  "'d rocksdb_impl \<Rightarrow> ('t, 'c, 'p) codec \<Rightarrow> 'd persistent_storage \<Rightarrow> ballot option storage_result option" where
  "ps_get_accepted_round D K ps = Some (ps_read D ACC (de_some_ballot K) None ps)"

definition ps_get_compacted_idx ::
  "'d rocksdb_impl \<Rightarrow> ('t, 'c, 'p) codec \<Rightarrow> 'd persistent_storage \<Rightarrow> usize storage_result option" where
  "ps_get_compacted_idx D K ps = Some (ps_read D TRIM (de_usize K) 0 ps)"

definition ps_get_stopsign ::
  "'d rocksdb_impl \<Rightarrow> ('t, 'c, 'p) codec \<Rightarrow> 'd persistent_storage \<Rightarrow> 'c stop_sign option storage_result option" where
  "ps_get_stopsign D K ps = Some (ps_read D STOPSIGN (de_stopsign K) None ps)"

definition ps_get_snapshot ::
  "'d rocksdb_impl \<Rightarrow> ('t, 'c, 'p) codec \<Rightarrow> 'd persistent_storage \<Rightarrow> 'p option storage_result option" where
  "ps_get_snapshot D K ps = Some (ps_read D SNAPSHOT (de_snapshot K) None ps)"

definition ps_get_log_len ::
  "'d rocksdb_impl \<Rightarrow> ('t, 'c, 'p) codec \<Rightarrow> 'd persistent_storage \<Rightarrow> usize storage_result option" where
  "ps_get_log_len D K ps =
     try_get (ps_get_compacted_idx D K ps) (\<lambda>c. map_option Inr (checked_sub (ps_next_log_key ps) c))"

definition ps_get_suffix ::
  "'d rocksdb_impl \<Rightarrow> ('t, 'c, 'p) codec \<Rightarrow> usize \<Rightarrow> 'd persistent_storage \<Rightarrow> 't list storage_result option" where
  "ps_get_suffix D K from ps = ps_get_entries D K from (ps_next_log_key ps) ps"

definition ps_set_promise ::
  "'d rocksdb_impl \<Rightarrow> ('t, 'c, 'p) codec \<Rightarrow> ballot \<Rightarrow> 'd persistent_storage \<Rightarrow>
     (unit storage_result \<times> 'd persistent_storage) option" where
  "ps_set_promise D K n_prom ps = with_bytes (ser_ballot K n_prom) ps (\<lambda>b. on_db (rdb_put D NPROM b) ps)"

definition ps_set_decided_idx ::
  "'d rocksdb_impl \<Rightarrow> ('t, 'c, 'p) codec \<Rightarrow> usize \<Rightarrow> 'd persistent_storage \<Rightarrow>
     (unit storage_result \<times> 'd persistent_storage) option" where
  "ps_set_decided_idx D K ld ps = on_db (rdb_put D DECIDE (usize_as_bytes K ld)) ps"

definition ps_set_accepted_round ::
  "'d rocksdb_impl \<Rightarrow> ('t, 'c, 'p) codec \<Rightarrow> ballot \<Rightarrow> 'd persistent_storage \<Rightarrow>
     (unit storage_result \<times> 'd persistent_storage) option" where
  "ps_set_accepted_round D K na ps = with_bytes (ser_ballot K na) ps (\<lambda>b. on_db (rdb_put D ACC b) ps)"

definition ps_set_compacted_idx ::
  "'d rocksdb_impl \<Rightarrow> ('t, 'c, 'p) codec \<Rightarrow> usize \<Rightarrow> 'd persistent_storage \<Rightarrow>
     (unit storage_result \<times> 'd persistent_storage) option" where
  "ps_set_compacted_idx D K trimmed_idx ps = on_db (rdb_put D TRIM (usize_as_bytes K trimmed_idx)) ps"

definition ps_set_stopsign ::
  "'d rocksdb_impl \<Rightarrow> ('t, 'c, 'p) codec \<Rightarrow> 'c stop_sign option \<Rightarrow> 'd persistent_storage \<Rightarrow>
     (unit storage_result \<times> 'd persistent_storage) option" where
  "ps_set_stopsign D K s ps = with_bytes (ser_stopsign K s) ps (\<lambda>b. on_db (rdb_put D STOPSIGN b) ps)"

definition ps_set_snapshot ::
  "'d rocksdb_impl \<Rightarrow> ('t, 'c, 'p) codec \<Rightarrow> 'p option \<Rightarrow> 'd persistent_storage \<Rightarrow>
     (unit storage_result \<times> 'd persistent_storage) option" where
  "ps_set_snapshot D K snapshot ps = with_bytes (ser_snapshot K snapshot) ps (\<lambda>b. on_db (rdb_put D SNAPSHOT b) ps)"

definition ps_trim ::
  "'d rocksdb_impl \<Rightarrow> usize \<Rightarrow> 'd persistent_storage \<Rightarrow> (unit storage_result \<times> 'd persistent_storage) option" where
  "ps_trim D trimmed_idx ps = on_db (rdb_delete_range_log D 0 trimmed_idx) ps"

definition persistent_impl ::
  "'d rocksdb_impl \<Rightarrow> ('t, 'c, 'p) codec \<Rightarrow> ('d persistent_storage, 't, 'c, 'p) storage_impl" where
  "persistent_impl D K = \<lparr>
     st_write_atomically = ps_write_atomically D K,
     st_append_entry = ps_append_entry D K,
     st_append_entries = ps_append_entries D K,
     st_append_on_prefix = ps_append_on_prefix D K,
     st_set_promise = ps_set_promise D K,
     st_set_decided_idx = ps_set_decided_idx D K,
     st_get_decided_idx = ps_get_decided_idx D K,
     st_set_accepted_round = ps_set_accepted_round D K,
     st_get_accepted_round = ps_get_accepted_round D K,
     st_get_entries = ps_get_entries D K,
     st_get_log_len = ps_get_log_len D K,
     st_get_suffix = ps_get_suffix D K,
     st_get_promise = ps_get_promise D K,
     st_set_stopsign = ps_set_stopsign D K,
     st_get_stopsign = ps_get_stopsign D K,
     st_trim = ps_trim D,
     st_set_compacted_idx = ps_set_compacted_idx D K,
     st_get_compacted_idx = ps_get_compacted_idx D K,
     st_set_snapshot = ps_set_snapshot D K,
     st_get_snapshot = ps_get_snapshot D K\<rparr>"

end
