(* ===== verification/Persistent_Facts.thy ===== *)
theory Persistent_Facts
  imports Persistent_Storage Erasure Omni_Paxos_Facts Replication Log_Sync
begin

text \<open>
  The back-end over RocksDB meets the contract \<open>storage_contract\<close>, so that everything shown about replicas on a
  back-end holds on it, and opening the database again recovers the storage. What is relied on is
  stated in two locales: RocksDB is an atomic, sorted map (\<open>rocksdb\<close>), and reading back what was
  serialised gives the value (\<open>codec_laws\<close>).
\<close>

section \<open>The keys of the log\<close>

text \<open>Big-endian bytes compare like the numbers, so that iterators run through the log in its order.\<close>

lemma be_bytes_less:
  "m < n \<Longrightarrow> n < 256 ^ k \<Longrightarrow> (be_bytes k m, be_bytes k n) \<in> lexord {(a, b). a < b}"
proof (induction k arbitrary: m n)
  case 0
  then show ?case by simp
next
  case (Suc k)
  show ?case
  proof (cases "m div 256 < n div 256")
    case True
    have "n div 256 < 256 ^ k" using Suc.prems(2) by (simp add: less_mult_imp_div_less mult.commute)
    from Suc.IH [OF True this] show ?thesis by (simp add: lexord_sufI)
  next
    case False
    with Suc.prems(1) have "m div 256 = n div 256" by (simp add: div_le_mono le_antisym less_imp_le)
    moreover from this have "m mod 256 < n mod 256"
      using Suc.prems(1) div_mult_mod_eq [of m 256] div_mult_mod_eq [of n 256] by linarith
    ultimately show ?thesis by (simp add: lexord_append_leftI word_less_nat_alt unat_of_nat)
  qed
qed

lemma to_be_bytes_less: "m < n \<Longrightarrow> n < 2 ^ 64 \<Longrightarrow> (to_be_bytes m, to_be_bytes n) \<in> lexord {(a, b). a < b}"
  by (simp add: to_be_bytes_def LENGTH_PREFIX_BYTES_def be_bytes_less)

section \<open>What is relied on\<close>

record db_content =
  dbc_kv :: "string \<rightharpoonup> u8 list"
  dbc_log :: "usize \<rightharpoonup> u8 list"

fun batch_apply :: "batch_op \<Rightarrow> db_content \<Rightarrow> db_content" where
  "batch_apply (BatchPut k b) c = c\<lparr>dbc_kv := (dbc_kv c)(k \<mapsto> b)\<rparr>"
| "batch_apply (BatchPutLog i b) c = c\<lparr>dbc_log := (dbc_log c)(i \<mapsto> b)\<rparr>"
| "batch_apply (BatchDeleteRangeLog i j) c = c\<lparr>dbc_log := dbc_log c |` {k. k < i \<or> j \<le> k}\<rparr>"

abbreviation batch_content :: "batch_op list \<Rightarrow> db_content \<Rightarrow> db_content" where
  "batch_content ops \<equiv> fold batch_apply ops"

locale rocksdb =
  fixes D :: "'d rocksdb_impl" and content :: "'d \<Rightarrow> db_content"
  assumes get_ok: "rdb_get D k d = Inr (dbc_kv (content d) k)"
    and put_ok: "\<exists>d'. rdb_put D k b d = Inr d' \<and> content d' = batch_apply (BatchPut k b) (content d)"
    and put_log_ok: "\<exists>d'. rdb_put_log D i b d = Inr d' \<and> content d' = batch_apply (BatchPutLog i b) (content d)"
    and delete_range_ok:
      "\<exists>d'. rdb_delete_range_log D i j d = Inr d' \<and> content d' = batch_apply (BatchDeleteRangeLog i j) (content d)"
    and write_ok: "\<exists>d'. rdb_write D ops d = Inr d' \<and> content d' = batch_content ops (content d)"
    and log_finite: "finite (dom (dbc_log (content d)))"
    and log_last_ok:
      "rdb_log_last D d = (if dbc_log (content d) = Map.empty then None else Some (Max (dom (dbc_log (content d)))))"
    and log_from_ok:
      "rdb_log_from D i d = map (\<lambda>j. the (dbc_log (content d) j)) (sorted_list_of_set {j \<in> dom (dbc_log (content d)). i \<le> j})"

locale codec_laws =
  fixes K :: "('t, 'c, 'p) codec"
  assumes entry_codec: "\<exists>b. ser_entry K e = Inr b \<and> de_entry K b = Inr e"
    and ballot_codec: "\<exists>b. ser_ballot K n = Inr b \<and> de_ballot K b = Inr n"
    and stopsign_codec: "\<exists>b. ser_stopsign K ss = Inr b \<and> de_stopsign K b = Inr ss"
    and snapshot_codec: "\<exists>b. ser_snapshot K p = Inr b \<and> de_snapshot K b = Inr p"
    and usize_codec: "usize_read_from K (usize_as_bytes K i) = Some i"
begin

lemma usize_roundtrip [simp]: "de_usize K (usize_as_bytes K i) = Inr i"
  by (simp add: de_usize_def usize_codec)

end

section \<open>What a database stores\<close>

definition stored_as :: "(u8 list \<Rightarrow> string + 'a) \<Rightarrow> 'a \<Rightarrow> u8 list option \<Rightarrow> 'a \<Rightarrow> bool" where
  "stored_as de absent ob x \<longleftrightarrow> (case ob of None \<Rightarrow> x = absent | Some b \<Rightarrow> de b = Inr x)"

definition fields_stored :: "('t, 'c, 'p) codec \<Rightarrow> (string \<rightharpoonup> u8 list) \<Rightarrow> ('t, 'c, 'p) storage_view \<Rightarrow> bool" where
  "fields_stored K kv v \<longleftrightarrow>
     stored_as (de_some_ballot K) None (kv NPROM) (v_promise v) \<and>
     stored_as (de_some_ballot K) None (kv ACC) (v_accepted_round v) \<and>
     stored_as (de_usize K) 0 (kv DECIDE) (v_decided_idx v) \<and>
     stored_as (de_usize K) 0 (kv TRIM) (v_compacted_idx v) \<and>
     stored_as (de_stopsign K) None (kv STOPSIGN) (v_stopsign v) \<and>
     stored_as (de_snapshot K) None (kv SNAPSHOT) (v_snapshot v)"

definition log_stored :: "('t, 'c, 'p) codec \<Rightarrow> (usize \<rightharpoonup> u8 list) \<Rightarrow> usize \<Rightarrow> 't list \<Rightarrow> bool" where
  "log_stored K log i es \<longleftrightarrow>
     (\<forall>k. if i \<le> k \<and> k < i + length es then \<exists>b. log k = Some b \<and> de_entry K b = Inr (es ! (k - i)) else log k = None)"

text \<open>
  \<open>represents\<close>: the database with the pending batch applied stores a view; \<open>at_end\<close> says that the next
  key is the end of the log, otherwise the log is empty after a trim beyond its end.
\<close>

definition represents ::
  "('t, 'c, 'p) codec \<Rightarrow> bool \<Rightarrow> db_content \<Rightarrow> usize \<Rightarrow> ('t, 'c, 'p) storage_view \<Rightarrow> bool" where
  "represents K at_end c next_key v \<longleftrightarrow>
     fields_stored K (dbc_kv c) v \<and> log_stored K (dbc_log c) (v_trimmed v) (v_log v) \<and>
     (if at_end then next_key = v_trimmed v + length (v_log v) else v_log v = [] \<and> next_key \<le> v_trimmed v)"

definition decoded :: "(u8 list \<Rightarrow> string + 'a) \<Rightarrow> 'a \<Rightarrow> u8 list option \<Rightarrow> 'a" where
  "decoded de absent ob = (case ob of None \<Rightarrow> absent | Some b \<Rightarrow> projr (de b))"

lemma stored_as_decoded: "stored_as de absent ob x \<Longrightarrow> decoded de absent ob = x"
  by (auto simp: stored_as_def decoded_def split: option.splits)

definition persistent_view :: "('d \<Rightarrow> db_content) \<Rightarrow> ('t, 'c, 'p) codec \<Rightarrow> 'd persistent_storage \<Rightarrow> ('t, 'c, 'p) storage_view" where
  "persistent_view content K ps = (let c = content (ps_db ps); compacted = decoded (de_usize K) 0 (dbc_kv c TRIM) in
     \<lparr>v_trimmed = compacted,
      v_log = map (\<lambda>i. projr (de_entry K (the (dbc_log c i)))) [compacted..<ps_next_log_key ps],
      v_promise = decoded (de_some_ballot K) None (dbc_kv c NPROM),
      v_accepted_round = decoded (de_some_ballot K) None (dbc_kv c ACC),
      v_decided_idx = decoded (de_usize K) 0 (dbc_kv c DECIDE), v_compacted_idx = compacted,
      v_snapshot = decoded (de_snapshot K) None (dbc_kv c SNAPSHOT),
      v_stopsign = decoded (de_stopsign K) None (dbc_kv c STOPSIGN)\<rparr>)"

definition persistent_inv :: "('d \<Rightarrow> db_content) \<Rightarrow> ('t, 'c, 'p) codec \<Rightarrow> 'd persistent_storage \<Rightarrow> bool" where
  "persistent_inv content K ps \<longleftrightarrow>
     ps_write_batch ps = [] \<and> represents K True (content (ps_db ps)) (ps_next_log_key ps) (persistent_view content K ps)"

lemma represents_view:
  assumes r: "represents K True (content (ps_db ps)) (ps_next_log_key ps) v" and t: "v_trimmed v = v_compacted_idx v"
  shows "persistent_view content K ps = v"
proof -
  let ?c = "content (ps_db ps)"
  have f: "fields_stored K (dbc_kv ?c) v" and l: "log_stored K (dbc_log ?c) (v_trimmed v) (v_log v)"
    and n: "ps_next_log_key ps = v_trimmed v + length (v_log v)"
    using r by (auto simp: represents_def)
  have "map (\<lambda>i. projr (de_entry K (the (dbc_log ?c i)))) [v_trimmed v..<ps_next_log_key ps] = v_log v"
  proof (rule nth_equalityI)
    fix j
    assume "j < length (map (\<lambda>i. projr (de_entry K (the (dbc_log ?c i)))) [v_trimmed v..<ps_next_log_key ps])"
    then have j: "j < length (v_log v)" using n by simp
    then obtain b where "dbc_log ?c (v_trimmed v + j) = Some b" "de_entry K b = Inr (v_log v ! j)"
      using spec [OF l [unfolded log_stored_def], of "v_trimmed v + j"] by auto
    then show "map (\<lambda>i. projr (de_entry K (the (dbc_log ?c i)))) [v_trimmed v..<ps_next_log_key ps] ! j = v_log v ! j"
      using j n by simp
  qed (simp add: n)
  with f t show ?thesis
    by (cases v) (auto simp: persistent_view_def fields_stored_def Let_def dest!: stored_as_decoded)
qed

section \<open>Batches\<close>

lemma keys_distinct [simp]:
  "NPROM \<noteq> ACC" "NPROM \<noteq> DECIDE" "NPROM \<noteq> TRIM" "NPROM \<noteq> STOPSIGN" "NPROM \<noteq> SNAPSHOT"
  "ACC \<noteq> NPROM" "ACC \<noteq> DECIDE" "ACC \<noteq> TRIM" "ACC \<noteq> STOPSIGN" "ACC \<noteq> SNAPSHOT"
  "DECIDE \<noteq> NPROM" "DECIDE \<noteq> ACC" "DECIDE \<noteq> TRIM" "DECIDE \<noteq> STOPSIGN" "DECIDE \<noteq> SNAPSHOT"
  "TRIM \<noteq> NPROM" "TRIM \<noteq> ACC" "TRIM \<noteq> DECIDE" "TRIM \<noteq> STOPSIGN" "TRIM \<noteq> SNAPSHOT"
  "STOPSIGN \<noteq> NPROM" "STOPSIGN \<noteq> ACC" "STOPSIGN \<noteq> DECIDE" "STOPSIGN \<noteq> TRIM" "STOPSIGN \<noteq> SNAPSHOT"
  "SNAPSHOT \<noteq> NPROM" "SNAPSHOT \<noteq> ACC" "SNAPSHOT \<noteq> DECIDE" "SNAPSHOT \<noteq> TRIM" "SNAPSHOT \<noteq> STOPSIGN"
  by (simp_all add: NPROM_def ACC_def DECIDE_def TRIM_def STOPSIGN_def SNAPSHOT_def)

lemma stored_as_put [simp]: "stored_as de absent (Some b) x \<longleftrightarrow> de b = Inr x"
  by (simp add: stored_as_def)

text \<open>What a list of puts from position \<open>n\<close> on does to the log.\<close>

definition log_put :: "('t, 'c, 'p) codec \<Rightarrow> usize \<Rightarrow> 't list \<Rightarrow> (usize \<rightharpoonup> u8 list) \<Rightarrow> (usize \<rightharpoonup> u8 list) \<Rightarrow> bool" where
  "log_put K n es log log' \<longleftrightarrow>
     (\<forall>k. if n \<le> k \<and> k < n + length es then \<exists>b. log' k = Some b \<and> de_entry K b = Inr (es ! (k - n)) else log' k = log k)"

lemma log_put_append:
  assumes "log_stored K log i xs" and "log_put K (i + length xs) es log log'"
  shows "log_stored K log' i (xs @ es)"
  unfolding log_stored_def
proof
  fix k
  show "if i \<le> k \<and> k < i + length (xs @ es) then \<exists>b. log' k = Some b \<and> de_entry K b = Inr ((xs @ es) ! (k - i)) else log' k = None"
    using spec [OF assms(1) [unfolded log_stored_def], of k] spec [OF assms(2) [unfolded log_put_def], of k]
    by (auto simp: nth_append split: if_split_asm)
qed

lemma log_put_prefix:
  assumes "log_stored K log i xs" and "i \<le> n" "n \<le> i + length xs"
    and "log_put K n es (if n + length es < i + length xs then log |` {k. k < n + length es \<or> i + length xs \<le> k} else log) log'"
  shows "log_stored K log' i (take (n - i) xs @ es)"
  unfolding log_stored_def
proof
  fix k
  have len: "length (take (n - i) xs) = n - i" using assms(2,3) by simp
  show "if i \<le> k \<and> k < i + length (take (n - i) xs @ es)
      then \<exists>b. log' k = Some b \<and> de_entry K b = Inr ((take (n - i) xs @ es) ! (k - i)) else log' k = None"
    using spec [OF assms(1) [unfolded log_stored_def], of k] spec [OF assms(4) [unfolded log_put_def], of k] assms(2,3)
    by (auto simp: nth_append len restrict_map_def split: if_split_asm)
qed

lemma log_stored_trim:
  assumes "log_stored K log i es" and "i \<le> n"
  shows "log_stored K (log |` {k. k < 0 \<or> n \<le> k}) n (drop (n - i) es)"
  unfolding log_stored_def
proof
  fix k
  show "if n \<le> k \<and> k < n + length (drop (n - i) es)
      then \<exists>b. (log |` {k. k < 0 \<or> n \<le> k}) k = Some b \<and> de_entry K b = Inr (drop (n - i) es ! (k - n))
      else (log |` {k. k < 0 \<or> n \<le> k}) k = None"
    using spec [OF assms(1) [unfolded log_stored_def], of k] assms(2) by (auto simp: restrict_map_def split: if_split_asm)
qed

lemma log_stored_dom:
  assumes "log_stored K log i es"
  shows "dom log = {i..<i + length es}"
proof (rule set_eqI)
  show "k \<in> dom log \<longleftrightarrow> k \<in> {i..<i + length es}" for k
    using spec [OF assms [unfolded log_stored_def], of k] by (auto split: if_split_asm)
qed

lemma take_values_ok:
  "list_all2 (\<lambda>b x. de_entry K b = Inr x) bs xs \<Longrightarrow> n \<le> length xs \<Longrightarrow> take_values K n bs = Inr (take n xs)"
proof (induction n arbitrary: bs xs)
  case (Suc n)
  then obtain b bs' x xs' where "bs = b # bs'" "xs = x # xs'" by (cases xs; cases bs) auto
  with Suc.prems Suc.IH [of bs' xs'] show ?case by simp
qed simp

context codec_laws
begin

lemma collect_puts_ok:
  "\<exists>puts. collect_puts K es batch n = (None, batch @ puts, n + length es) \<and>
     (\<forall>c. dbc_kv (batch_content puts c) = dbc_kv c \<and> log_put K n es (dbc_log c) (dbc_log (batch_content puts c)))"
proof (induction es arbitrary: batch n)
  case Nil
  show ?case by (rule exI [of _ "[]"]) (auto simp: log_put_def)
next
  case (Cons e es)
  obtain b where b: "ser_entry K e = Inr b" "de_entry K b = Inr e" using entry_codec by blast
  obtain puts where c: "collect_puts K es (batch @ [BatchPutLog n b]) (n + 1) = (None, batch @ BatchPutLog n b # puts, Suc n + length es)"
    and p: "\<And>c. dbc_kv (batch_content puts c) = dbc_kv c"
      "\<And>c. log_put K (Suc n) es (dbc_log c) (dbc_log (batch_content puts c))"
    using Cons.IH [of "batch @ [BatchPutLog n b]" "Suc n"] by auto
  have "log_put K n (e # es) (dbc_log c) (dbc_log (batch_content (BatchPutLog n b # puts) c))" for c
    unfolding log_put_def
  proof
    fix k
    show "if n \<le> k \<and> k < n + length (e # es)
        then \<exists>b'. dbc_log (batch_content (BatchPutLog n b # puts) c) k = Some b' \<and> de_entry K b' = Inr ((e # es) ! (k - n))
        else dbc_log (batch_content (BatchPutLog n b # puts) c) k = dbc_log c k"
      using spec [OF p(2) [of "batch_apply (BatchPutLog n b) c", unfolded log_put_def], of k] b
      by (cases "k = n") (auto simp: nth_Cons' split: if_split_asm)
  qed
  with c b p(1) show ?case by (intro exI [of _ "BatchPutLog n b # puts"]) simp
qed

text \<open>One operation of a transaction, on the batch and on the view.\<close>

lemma batch_append_entry_is_entries: "batch_append_entry K e ps = batch_append_entries K [e] ps"
  by (auto simp: batch_append_entry_def batch_append_entries_def with_bytes_def split: sum.split)

lemma batch_append_sim:
  assumes r: "represents K b (batch_content (ps_write_batch ps) c) n v"
    and n: "v_trimmed v \<le> ps_next_log_key ps" "ps_next_log_key ps \<le> v_trimmed v + length (v_log v)"
    and cut: "ps_write_batch ps1 = ps_write_batch ps @
      (if ps_next_log_key ps + length es < v_trimmed v + length (v_log v)
       then [BatchDeleteRangeLog (ps_next_log_key ps + length es) (v_trimmed v + length (v_log v))] else [])"
    and ps1: "ps_next_log_key ps1 = ps_next_log_key ps" "ps_db ps1 = ps_db ps"
  shows "\<exists>ps'. batch_append_entries K es ps1 = Some (Inr (), ps') \<and> ps_db ps' = ps_db ps \<and>
     represents K True (batch_content (ps_write_batch ps') c) (ps_next_log_key ps')
       (v\<lparr>v_log := take (ps_next_log_key ps - v_trimmed v) (v_log v) @ es\<rparr>)"
proof -
  let ?c = "batch_content (ps_write_batch ps) c" and ?n = "ps_next_log_key ps"
  let ?stop = "v_trimmed v + length (v_log v)"
  obtain puts where col: "collect_puts K es (ps_write_batch ps1) ?n = (None, ps_write_batch ps1 @ puts, ?n + length es)"
    and puts: "\<And>c. dbc_kv (batch_content puts c) = dbc_kv c"
      "\<And>c. log_put K ?n es (dbc_log c) (dbc_log (batch_content puts c))"
    using collect_puts_ok [of es "ps_write_batch ps1" ?n] by blast
  let ?c1 = "batch_content (ps_write_batch ps1) c"
  have c1: "dbc_kv ?c1 = dbc_kv ?c"
    "dbc_log ?c1 = (if ?n + length es < ?stop then dbc_log ?c |` {k. k < ?n + length es \<or> ?stop \<le> k} else dbc_log ?c)"
    by (simp_all add: cut)
  have "log_stored K (dbc_log (batch_content puts ?c1)) (v_trimmed v) (take (?n - v_trimmed v) (v_log v) @ es)"
    by (rule log_put_prefix [OF _ n]) (use r puts(2) [of ?c1] in \<open>simp_all add: represents_def c1\<close>)
  moreover have "fields_stored K (dbc_kv (batch_content puts ?c1)) (v\<lparr>v_log := take (?n - v_trimmed v) (v_log v) @ es\<rparr>)"
    using r by (simp add: puts(1) c1(1) represents_def fields_stored_def)
  ultimately have "represents K True (batch_content (ps_write_batch ps1 @ puts) c) (?n + length es)
      (v\<lparr>v_log := take (?n - v_trimmed v) (v_log v) @ es\<rparr>)"
    using n by (simp add: represents_def)
  then show ?thesis using col ps1 by (simp add: batch_append_entries_def)
qed

lemma batch_op_sim:
  assumes r: "represents K b (batch_content (ps_write_batch ps) c) (ps_next_log_key ps) v"
    and v1: "view_op op v = Some v1" and fits: "appends_at_end op \<Longrightarrow> b"
  shows "\<exists>ps'. ps_batch_op K op ps = Some (Inr (), ps') \<and> ps_db ps' = ps_db ps \<and>
     represents K (op_end op v b) (batch_content (ps_write_batch ps') c) (ps_next_log_key ps') v1"
proof (cases op)
  case (AppendEntry e)
  with fits r have "ps_next_log_key ps = v_trimmed v + length (v_log v)" "b" by (auto simp: represents_def)
  with batch_append_sim [OF r, of ps "[e]"] AppendEntry v1 show ?thesis
    by (auto simp: batch_append_entry_is_entries)
next
  case (AppendEntries es)
  with fits r have "ps_next_log_key ps = v_trimmed v + length (v_log v)" "b" by (auto simp: represents_def)
  with batch_append_sim [OF r, of ps es] AppendEntries v1 show ?thesis by auto
next
  case (AppendOnPrefix i es)
  let ?stop = "v_trimmed v + length (v_log v)"
  have i: "v_trimmed v \<le> i" "i \<le> ?stop" and v1': "v1 = v\<lparr>v_log := take (i - v_trimmed v) (v_log v) @ es\<rparr>"
    using v1 AppendOnPrefix by (auto split: if_split_asm)
  have n: "i + length es < ps_next_log_key ps \<longleftrightarrow> i + length es < ?stop" "i + length es < ?stop \<Longrightarrow> ps_next_log_key ps = ?stop"
    using r i by (auto simp: represents_def split: if_split_asm)
  let ?ps = "ps\<lparr>ps_next_log_key := i\<rparr>"
  let ?ps1 = "(if i + length es < ps_next_log_key ps
      then ps\<lparr>ps_write_batch := ps_write_batch ps @ [BatchDeleteRangeLog (i + length es) (ps_next_log_key ps)]\<rparr>
      else ps)\<lparr>ps_next_log_key := i\<rparr>"
  have "ps_write_batch ?ps1 = ps_write_batch ?ps @
      (if ps_next_log_key ?ps + length es < ?stop then [BatchDeleteRangeLog (ps_next_log_key ?ps + length es) ?stop] else [])"
    using n by simp
  from batch_append_sim [of b ?ps c "ps_next_log_key ps" v ?ps1 es, OF _ _ _ this] r i
  show ?thesis by (auto simp: AppendOnPrefix v1' batch_append_on_prefix_def Let_def)
next
  case (Trim i)
  have i: "v_trimmed v \<le> i" and v1': "v1 = v\<lparr>v_log := drop (i - v_trimmed v) (v_log v), v_trimmed := i\<rparr>"
    using v1 Trim by (auto split: if_split_asm)
  have "log_stored K (dbc_log (batch_content (ps_write_batch ps) c)) (v_trimmed v) (v_log v)" using r by (simp add: represents_def)
  from log_stored_trim [OF this i]
  show ?thesis
    using r i by (auto simp: Trim v1' batch_trim_def batch_put_def represents_def fields_stored_def split: if_split_asm)
next
  case (SetPromise n)
  obtain x where "ser_ballot K n = Inr x" "de_ballot K x = Inr n" using ballot_codec by blast
  with SetPromise v1 r show ?thesis
    by (auto simp: batch_set_promise_def with_bytes_def batch_put_def represents_def fields_stored_def de_some_ballot_def)
next
  case (SetAcceptedRound n)
  obtain x where "ser_ballot K n = Inr x" "de_ballot K x = Inr n" using ballot_codec by blast
  with SetAcceptedRound v1 r show ?thesis
    by (auto simp: batch_set_accepted_round_def with_bytes_def batch_put_def represents_def fields_stored_def de_some_ballot_def)
next
  case (SetStopsign ss)
  obtain x where "ser_stopsign K ss = Inr x" "de_stopsign K x = Inr ss" using stopsign_codec by blast
  with SetStopsign v1 r show ?thesis
    by (auto simp: batch_set_stopsign_def with_bytes_def batch_put_def represents_def fields_stored_def)
next
  case (SetSnapshot p)
  obtain x where "ser_snapshot K p = Inr x" "de_snapshot K x = Inr p" using snapshot_codec by blast
  with SetSnapshot v1 r show ?thesis
    by (auto simp: batch_set_snapshot_def with_bytes_def batch_put_def represents_def fields_stored_def)
qed (use v1 r in \<open>auto simp: batch_set_decided_idx_def batch_set_compacted_idx_def batch_put_def represents_def fields_stored_def\<close>)

lemma batch_ops_sim:
  "represents K b (batch_content (ps_write_batch ps) c) (ps_next_log_key ps) v \<Longrightarrow> view_ops ops v = Some v' \<Longrightarrow> txn_fits b ops v \<Longrightarrow>
     \<exists>ps'. ps_batch_ops K ops ps = Some (Inr (), ps') \<and> ps_db ps' = ps_db ps \<and>
       represents K True (batch_content (ps_write_batch ps') c) (ps_next_log_key ps') v'"
proof (induction ops arbitrary: ps v b)
  case Nil
  then show ?case by simp
next
  case (Cons op ops)
  from Cons.prems(2) obtain v1 where v1: "view_op op v = Some v1" "view_ops ops v1 = Some v'" by (auto simp: bind_eq_Some_conv)
  with Cons.prems(3) have fits: "appends_at_end op \<Longrightarrow> b" "txn_fits (op_end op v b) ops v1" by auto
  from batch_op_sim [OF Cons.prems(1) v1(1) fits(1)] obtain ps1 where ps1: "ps_batch_op K op ps = Some (Inr (), ps1)"
    "ps_db ps1 = ps_db ps" "represents K (op_end op v b) (batch_content (ps_write_batch ps1) c) (ps_next_log_key ps1) v1"
    by blast
  from Cons.IH [OF ps1(3) v1(2) fits(2)] ps1 show ?case by simp
qed

end

section \<open>The contract\<close>

locale persistent = rocksdb D content + codec_laws K for D :: "'d rocksdb_impl" and content and K :: "('t, 'c, 'p) codec"
begin

abbreviation pinv :: "'d persistent_storage \<Rightarrow> bool" where
  "pinv \<equiv> persistent_inv content K"

abbreviation pview :: "'d persistent_storage \<Rightarrow> ('t, 'c, 'p) storage_view" where
  "pview \<equiv> persistent_view content K"

lemma represents_does:
  assumes "m = Some (Inr (), ps')" "ps_write_batch ps' = []"
    and "represents K True (content (ps_db ps')) (ps_next_log_key ps') v" "v_trimmed v = v_compacted_idx v"
  shows "does pinv pview m v"
  using assms represents_view [of K content ps' v] by (simp add: does_def persistent_inv_def)

lemma pview_trimmed [simp]: "v_trimmed (pview ps) = v_compacted_idx (pview ps)"
  by (simp add: persistent_view_def Let_def)

lemma pinvD:
  assumes "pinv ps"
  shows "ps_write_batch ps = []" "represents K True (content (ps_db ps)) (ps_next_log_key ps) (pview ps)"
  using assms by (simp_all add: persistent_inv_def)

lemma ps_write_atomically_does:
  assumes inv: "pinv ps" and txn: "txn_ok ops (pview ps) v"
  shows "does pinv pview (ps_write_atomically D K ops ps) v"
proof -
  obtain ps1 where ps1: "ps_batch_ops K ops ps = Some (Inr (), ps1)" "ps_db ps1 = ps_db ps"
    "represents K True (batch_content (ps_write_batch ps1) (content (ps_db ps))) (ps_next_log_key ps1) v"
    using batch_ops_sim [of True ps "content (ps_db ps)" "pview ps" ops v] pinvD [OF inv] txn by (auto simp: txn_ok_def)
  obtain d where d: "rdb_write D (ps_write_batch ps1) (ps_db ps) = Inr d"
    "content d = batch_content (ps_write_batch ps1) (content (ps_db ps))"
    using write_ok by blast
  show ?thesis
    by (rule represents_does [of _ "ps1\<lparr>ps_write_batch := [], ps_db := d\<rparr>"])
      (use ps1 d txn in \<open>simp_all add: ps_write_atomically_def on_db_def with_bytes_def txn_ok_def\<close>)
qed

lemma ps_append_entries_does:
  assumes inv: "pinv ps"
  shows "does pinv pview (ps_append_entries D K es ps) ((pview ps)\<lparr>v_log := v_log (pview ps) @ es\<rparr>)"
proof -
  let ?c = "content (ps_db ps)" and ?n = "ps_next_log_key ps"
  obtain puts where col: "collect_puts K es [] ?n = (None, puts, ?n + length es)"
    and puts: "dbc_kv (batch_content puts ?c) = dbc_kv ?c" "log_put K ?n es (dbc_log ?c) (dbc_log (batch_content puts ?c))"
    using collect_puts_ok [of es "[]" ?n] by auto
  obtain d where d: "rdb_write D puts (ps_db ps) = Inr d" "content d = batch_content puts ?c" using write_ok by blast
  have r: "represents K True ?c ?n (pview ps)" using pinvD [OF inv] by simp
  then have "log_stored K (dbc_log (content d)) (v_trimmed (pview ps)) (v_log (pview ps) @ es)"
    using puts(2) d(2) by (intro log_put_append [of K "dbc_log ?c"]) (auto simp: represents_def)
  then show ?thesis
    using r puts(1) d col pinvD(1) [OF inv]
    by (intro represents_does [of _ "ps\<lparr>ps_next_log_key := ?n + length es, ps_db := d\<rparr>"])
      (simp_all add: ps_append_entries_def on_db_def with_bytes_def represents_def fields_stored_def)
qed

text \<open>Writing one field.\<close>

lemma put_does:
  assumes inv: "pinv ps" and v: "v_trimmed v = v_compacted_idx v" "v_trimmed v = v_trimmed (pview ps)" "v_log v = v_log (pview ps)"
    and f: "fields_stored K ((dbc_kv (content (ps_db ps)))(k \<mapsto> b)) v"
  shows "does pinv pview (on_db (rdb_put D k b) ps) v"
proof -
  obtain d where "rdb_put D k b (ps_db ps) = Inr d" "content d = batch_apply (BatchPut k b) (content (ps_db ps))"
    using put_ok by blast
  then show ?thesis
    using pinvD [OF inv] v f
    by (intro represents_does [of _ "ps\<lparr>ps_db := d\<rparr>"]) (simp_all add: on_db_def with_bytes_def represents_def)
qed

lemma ps_read_stored:
  assumes "stored_as de absent (dbc_kv (content (ps_db ps)) k) x"
  shows "ps_read D k de absent ps = Inr x"
  using assms by (auto simp: ps_read_def get_ok stored_as_def split: option.splits)

lemma ps_get_entries_ok:
  assumes inv: "pinv ps" and a: "v_trimmed (pview ps) \<le> a" "a \<le> b"
  shows "ps_get_entries D K a b ps = Some (Inr (view_entries (pview ps) a b))"
proof -
  let ?v = "pview ps" and ?log = "dbc_log (content (ps_db ps))" and ?n = "ps_next_log_key ps"
  have l: "log_stored K ?log (v_trimmed ?v) (v_log ?v)" and n: "?n = v_trimmed ?v + length (v_log ?v)"
    using pinvD(2) [OF inv] by (auto simp: represents_def)
  have "{j \<in> dom ?log. a \<le> j} = {a..<?n}" using log_stored_dom [OF l] a n by auto
  then have vs: "rdb_log_from D a (ps_db ps) = map (\<lambda>j. the (?log j)) [a..<?n]"
    by (simp add: log_from_ok)
  have "list_all2 (\<lambda>b x. de_entry K b = Inr x) (map (\<lambda>j. the (?log j)) [a..<?n]) (drop (a - v_trimmed ?v) (v_log ?v))"
  proof (rule list_all2_all_nthI)
    fix j
    assume j: "j < length (map (\<lambda>j. the (?log j)) [a..<?n])"
    show "de_entry K (map (\<lambda>j. the (?log j)) [a..<?n] ! j) = Inr (drop (a - v_trimmed ?v) (v_log ?v) ! j)"
      using spec [OF l [unfolded log_stored_def], of "a + j"] a n j by (auto split: if_split_asm)
  qed (use a n in simp)
  from take_values_ok [OF this, of "b - a"] show ?thesis
    using vs a n by (auto simp: ps_get_entries_def view_entries_def)
qed

end

sublocale persistent \<subseteq> storage: storage_contract "persistent_impl D K" pinv pview
proof
  fix ps
  assume inv: "pinv ps"
  note r = pinvD(2) [OF inv, unfolded represents_def fields_stored_def]
  show "does pinv pview (st_write_atomically (persistent_impl D K) ops ps) v" if "txn_ok ops (pview ps) v" for ops v
    using ps_write_atomically_does [OF inv that] by (simp add: persistent_impl_def)
  show "does pinv pview (st_append_entries (persistent_impl D K) es ps) ((pview ps)\<lparr>v_log := v_log (pview ps) @ es\<rparr>)" for es
    using ps_append_entries_does [OF inv] by (simp add: persistent_impl_def)
  show "does pinv pview (st_set_promise (persistent_impl D K) b ps) ((pview ps)\<lparr>v_promise := Some b\<rparr>)" for b
    using r ballot_codec [of b]
    by (auto simp: persistent_impl_def ps_set_promise_def with_bytes_def fields_stored_def de_some_ballot_def intro!: put_does [OF inv])
  show "does pinv pview (st_set_decided_idx (persistent_impl D K) i ps) ((pview ps)\<lparr>v_decided_idx := i\<rparr>)" for i
    using r by (auto simp: persistent_impl_def ps_set_decided_idx_def fields_stored_def intro!: put_does [OF inv])
  show "does pinv pview (st_set_stopsign (persistent_impl D K) ss ps) ((pview ps)\<lparr>v_stopsign := ss\<rparr>)" for ss
    using r stopsign_codec [of ss]
    by (auto simp: persistent_impl_def ps_set_stopsign_def with_bytes_def fields_stored_def intro!: put_does [OF inv])
  show "st_get_promise (persistent_impl D K) ps = Some (Inr (v_promise (pview ps)))"
    "st_get_decided_idx (persistent_impl D K) ps = Some (Inr (v_decided_idx (pview ps)))"
    "st_get_accepted_round (persistent_impl D K) ps = Some (Inr (v_accepted_round (pview ps)))"
    "st_get_compacted_idx (persistent_impl D K) ps = Some (Inr (v_compacted_idx (pview ps)))"
    "st_get_stopsign (persistent_impl D K) ps = Some (Inr (v_stopsign (pview ps)))"
    "st_get_snapshot (persistent_impl D K) ps = Some (Inr (v_snapshot (pview ps)))"
    using r by (simp_all add: persistent_impl_def ps_get_promise_def ps_get_decided_idx_def ps_get_accepted_round_def
        ps_get_compacted_idx_def ps_get_stopsign_def ps_get_snapshot_def ps_read_stored)
  have "ps_get_compacted_idx D K ps = Some (Inr (v_compacted_idx (pview ps)))"
    using r by (simp add: ps_get_compacted_idx_def ps_read_stored)
  with r show "st_get_log_len (persistent_impl D K) ps = Some (Inr (length (v_log (pview ps))))"
    by (simp add: persistent_impl_def ps_get_log_len_def)
  show "st_get_entries (persistent_impl D K) a b ps = Some (Inr (view_entries (pview ps) a b))"
    if "v_trimmed (pview ps) \<le> a" "a \<le> b" for a b
    using ps_get_entries_ok [OF inv that] by (simp add: persistent_impl_def)
  show "st_get_suffix (persistent_impl D K) a ps = Some (Inr (view_suffix (pview ps) a))"
    if "v_trimmed (pview ps) \<le> a" for a
  proof (cases "a \<le> ps_next_log_key ps")
    case True
    with ps_get_entries_ok [OF inv that True] that r show ?thesis
      by (simp add: persistent_impl_def ps_get_suffix_def view_entries_def view_suffix_def)
  next
    case False
    with that r show ?thesis by (auto simp: persistent_impl_def ps_get_suffix_def ps_get_entries_def view_suffix_def)
  qed
qed

section \<open>Opening\<close>

context persistent
begin

text \<open>Opening the database of a storage gives the storage: nothing outside the database is needed.\<close>

lemma open_recovers:
  assumes inv: "pinv ps"
  shows "ps_open D K (ps_db ps) = Some ps"
proof -
  let ?v = "pview ps" and ?c = "content (ps_db ps)"
  have l: "log_stored K (dbc_log ?c) (v_trimmed ?v) (v_log ?v)" and n: "ps_next_log_key ps = v_trimmed ?v + length (v_log ?v)"
    and t: "stored_as (de_usize K) 0 (dbc_kv ?c TRIM) (v_trimmed ?v)"
    using pinvD(2) [OF inv] by (auto simp: represents_def fields_stored_def)
  have dom: "dom (dbc_log ?c) = {v_trimmed ?v..<ps_next_log_key ps}" using log_stored_dom [OF l] n by simp
  show ?thesis
  proof (cases "v_log ?v = []")
    case True
    with dom n have "rdb_log_last D (ps_db ps) = None" by (simp add: log_last_ok)
    then show ?thesis
      using t n True pinvD(1) [OF inv]
      by (auto simp: ps_open_def get_ok stored_as_def de_usize_def split: option.splits)
  next
    case False
    then have le: "v_trimmed ?v < ps_next_log_key ps" using n by simp
    then have "Max (dom (dbc_log ?c)) = ps_next_log_key ps - 1"
      unfolding dom by (intro Max_eqI) auto
    moreover have "dbc_log ?c \<noteq> Map.empty" using dom le by (metis atLeastLessThan_empty_iff dom_eq_empty_conv)
    ultimately show ?thesis
      using le pinvD(1) [OF inv] by (simp add: ps_open_def log_last_ok)
  qed
qed

lemma open_empty:
  assumes "dbc_kv (content d) = Map.empty" "dbc_log (content d) = Map.empty"
  shows "ps_open D K d = Some \<lparr>ps_db = d, ps_write_batch = [], ps_next_log_key = 0\<rparr>"
    "store_ok pinv pview \<lparr>ps_db = d, ps_write_batch = [], ps_next_log_key = 0\<rparr>"
proof -
  let ?ps = "\<lparr>ps_db = d, ps_write_batch = [], ps_next_log_key = 0\<rparr>"
  show "ps_open D K d = Some ?ps" using assms by (simp add: ps_open_def log_last_ok get_ok)
  have v: "pview ?ps = \<lparr>v_trimmed = 0, v_log = [], v_promise = None, v_accepted_round = None, v_decided_idx = 0,
      v_compacted_idx = 0, v_snapshot = None, v_stopsign = None\<rparr>"
    using assms by (simp add: persistent_view_def decoded_def Let_def)
  then have "pinv ?ps"
    using assms by (simp add: persistent_inv_def represents_def fields_stored_def stored_as_def log_stored_def)
  then show "store_ok pinv pview ?ps" by (simp add: store_ok_def v view_accepted_idx_def ballot_or_default_def)
qed

text \<open>A transaction, and reading the log back.\<close>

lemma write_and_read_back:
  assumes "pinv ps" and "txn_ok ops (pview ps) v"
  shows "\<exists>ps'. ps_write_atomically D K ops ps = Some (Inr (), ps') \<and> pinv ps' \<and> pview ps' = v \<and>
     (\<forall>i \<ge> v_compacted_idx v. ps_get_suffix D K i ps' = Some (Inr (drop (i - v_compacted_idx v) (v_log v))))"
proof -
  obtain ps' where ps': "ps_write_atomically D K ops ps = Some (Inr (), ps')" "pinv ps'" "pview ps' = v"
    using ps_write_atomically_does [OF assms] by (auto simp: does_def)
  have t: "v_trimmed v = v_compacted_idx v" using pview_trimmed [of ps'] ps'(3) by simp
  have "ps_get_suffix D K i ps' = Some (Inr (drop (i - v_compacted_idx v) (v_log v)))" if "v_compacted_idx v \<le> i" for i
    using storage.get_suffix_ok [OF ps'(2), of i] that t ps'(3) by (simp add: persistent_impl_def view_suffix_def)
  with ps' show ?thesis by blast
qed

text \<open>A replica that crashes in any state of its life and starts again from the database.\<close>

lemma crash_and_reopen:
  assumes ok: "store_ok pinv pview s" and pid: "1 \<le> spc_pid config"
    and start: "sequence_paxos_with (persistent_impl D K) config s = Some sp"
    and run: "(life_step (persistent_impl D K) P config)\<^sup>*\<^sup>* sp sp'"
  shows "ps_open D K (ps_db (is_storage (sp_internal_storage sp'))) = Some (is_storage (sp_internal_storage sp'))"
    and "ballot_le (sp_get_promise sp) (sp_get_promise sp')"
    and "sequence_paxos_with (persistent_impl D K) config (is_storage (sp_internal_storage sp')) = Some sp'' \<Longrightarrow>
      sp_get_promise sp'' = sp_get_promise sp' \<and> pview (is_storage (sp_internal_storage sp'')) =
        (pview (is_storage (sp_internal_storage sp')))\<lparr>v_promise := Some (sp_get_promise sp')\<rparr>"
proof -
  have wf: "is_wf pinv pview (sp_internal_storage sp')" "round_ok (sp_internal_storage sp')"
    and mono: "ballot_le (sp_get_promise sp) (sp_get_promise sp')"
    using storage.life_inv [OF run pid storage.sequence_paxos_with_start(1-3) [OF ok start pid]] by simp_all
  then show "ps_open D K (ps_db (is_storage (sp_internal_storage sp'))) = Some (is_storage (sp_internal_storage sp'))"
    by (intro open_recovers) (simp add: is_wf_def is_coherent_def)
  show "ballot_le (sp_get_promise sp) (sp_get_promise sp')" by (rule mono)
  show "sp_get_promise sp'' = sp_get_promise sp' \<and> pview (is_storage (sp_internal_storage sp'')) =
        (pview (is_storage (sp_internal_storage sp')))\<lparr>v_promise := Some (sp_get_promise sp')\<rparr>"
    if "sequence_paxos_with (persistent_impl D K) config (is_storage (sp_internal_storage sp')) = Some sp''"
    using storage.restart_recovers(1,2) [OF wf pid that] by simp
qed

end

text \<open>
  A transaction whose serialisation fails half-way is reported as failed, but its first operations stay
  in the batch and are written with the next transaction.
\<close>

lemma failed_transaction_lingers:
  assumes "ser_ballot K n = Inr x" and "ser_entry K e = Inl err"
  shows "ps_write_atomically D K [SetPromise n, AppendEntry e] ps =
      Some (Inl (BackendError err), ps\<lparr>ps_write_batch := ps_write_batch ps @ [BatchPut NPROM x]\<rparr>)"
    and "ps_write_atomically D K [] (ps\<lparr>ps_write_batch := ps_write_batch ps @ [BatchPut NPROM x]\<rparr>) =
      on_db (rdb_write D (ps_write_batch ps @ [BatchPut NPROM x])) (ps\<lparr>ps_write_batch := []\<rparr>)"
  using assms
  by (simp_all add: ps_write_atomically_def batch_set_promise_def batch_append_entry_def with_bytes_def batch_put_def)

end
