(* ===== verification/Rocks_Instance.thy ===== *)
theory Rocks_Instance
  imports Persistent_Facts "HOL-Library.RBT"
begin

text \<open>
  A database that behaves as RocksDB is documented to: the log in a red-black tree, whose keys come in
  order. Entries and snapshots are byte strings here, and the codecs write a value byte by byte.
\<close>

section \<open>The database\<close>

record rbt_db =
  rb_kv :: "string \<rightharpoonup> u8 list"
  rb_log :: "(usize, u8 list) RBT.rbt"

fun rbt_batch :: "batch_op \<Rightarrow> rbt_db \<Rightarrow> rbt_db" where
  "rbt_batch (BatchPut k b) d = d\<lparr>rb_kv := (rb_kv d)(k \<mapsto> b)\<rparr>"
| "rbt_batch (BatchPutLog i b) d = d\<lparr>rb_log := RBT.insert i b (rb_log d)\<rparr>"
| "rbt_batch (BatchDeleteRangeLog i j) d =
     d\<lparr>rb_log := fold RBT.delete (filter (\<lambda>k. i \<le> k \<and> k < j) (RBT.keys (rb_log d))) (rb_log d)\<rparr>"

definition rbt_impl :: "rbt_db rocksdb_impl" where
  "rbt_impl = \<lparr>
     rdb_get = (\<lambda>k d. Inr (rb_kv d k)),
     rdb_put = (\<lambda>k b d. Inr (rbt_batch (BatchPut k b) d)),
     rdb_put_log = (\<lambda>i b d. Inr (rbt_batch (BatchPutLog i b) d)),
     rdb_delete_range_log = (\<lambda>i j d. Inr (rbt_batch (BatchDeleteRangeLog i j) d)),
     rdb_write = (\<lambda>ops d. Inr (fold rbt_batch ops d)),
     rdb_log_last = (\<lambda>d. let ks = RBT.keys (rb_log d) in if ks = [] then None else Some (last ks)),
     rdb_log_from = (\<lambda>i d. map (\<lambda>j. the (RBT.lookup (rb_log d) j)) (filter (\<lambda>j. i \<le> j) (RBT.keys (rb_log d))))\<rparr>"

definition rbt_content :: "rbt_db \<Rightarrow> db_content" where
  "rbt_content d = \<lparr>dbc_kv = rb_kv d, dbc_log = RBT.lookup (rb_log d)\<rparr>"

definition rbt_empty :: rbt_db where
  "rbt_empty = \<lparr>rb_kv = Map.empty, rb_log = RBT.empty\<rparr>"

lemma lookup_fold_delete: "RBT.lookup (fold RBT.delete ks t) = RBT.lookup t |` (- set ks)"
  by (induction ks arbitrary: t) (auto simp: restrict_map_def fun_eq_iff)

lemma rbt_batch_content: "rbt_content (rbt_batch op d) = batch_apply op (rbt_content d)"
proof (cases op)
  case (BatchDeleteRangeLog i j)
  have "k \<notin> set (RBT.keys (rb_log d)) \<Longrightarrow> RBT.lookup (rb_log d) k = None" for k
    by (metis RBT.lookup_keys domIff)
  then have "RBT.lookup (rb_log d) |` (- {k \<in> set (RBT.keys (rb_log d)). i \<le> k \<and> k < j})
      = RBT.lookup (rb_log d) |` {k. k < i \<or> j \<le> k}"
    by (auto simp: restrict_map_def fun_eq_iff)
  with BatchDeleteRangeLog show ?thesis by (simp add: rbt_content_def lookup_fold_delete)
qed (simp_all add: rbt_content_def)

lemma rbt_batches_content: "rbt_content (fold rbt_batch ops d) = batch_content ops (rbt_content d)"
  by (induction ops arbitrary: d) (simp_all add: rbt_batch_content)

lemma sorted_keys_from: "filter (\<lambda>j. i \<le> j) (RBT.keys t) = sorted_list_of_set {j \<in> dom (RBT.lookup t). i \<le> j}"
  by (rule sorted_distinct_set_unique) (auto simp: RBT.lookup_keys sorted_wrt_filter)

lemma last_key: "RBT.keys t \<noteq> [] \<Longrightarrow> last (RBT.keys t) = Max (dom (RBT.lookup t))"
proof -
  assume ne: "RBT.keys t \<noteq> []"
  then have "sorted (butlast (RBT.keys t) @ [last (RBT.keys t)])" by simp
  then have "k \<le> last (RBT.keys t)" if "k \<in> set (butlast (RBT.keys t) @ [last (RBT.keys t)])" for k
    using that by (auto simp: sorted_append)
  with ne have "k \<le> last (RBT.keys t)" if "k \<in> set (RBT.keys t)" for k using that by simp
  then show ?thesis by (intro Max_eqI [symmetric]) (use ne in \<open>auto simp: RBT.lookup_keys\<close>)
qed

interpretation rbt: rocksdb rbt_impl rbt_content
proof
  show "rdb_log_from rbt_impl i d = map (\<lambda>j. the (dbc_log (rbt_content d) j))
      (sorted_list_of_set {j \<in> dom (dbc_log (rbt_content d)). i \<le> j})" for i d
    by (simp add: rbt_impl_def rbt_content_def sorted_keys_from)
  show "rdb_log_last rbt_impl d = (if dbc_log (rbt_content d) = Map.empty then None
      else Some (Max (dom (dbc_log (rbt_content d)))))" for d
  proof -
    have "RBT.lookup (rb_log d) = Map.empty \<longleftrightarrow> RBT.keys (rb_log d) = []"
      by (metis RBT.lookup_keys dom_eq_empty_conv set_empty)
    then show ?thesis by (simp add: rbt_impl_def rbt_content_def last_key Let_def)
  qed
  show "rdb_get rbt_impl k d = Inr (dbc_kv (rbt_content d) k)" "finite (dom (dbc_log (rbt_content d)))" for k d
    by (simp_all add: rbt_impl_def rbt_content_def RBT.lookup_keys)
qed (simp_all add: rbt_impl_def rbt_batches_content rbt_batch_content del: rbt_batch.simps batch_apply.simps)

section \<open>The codecs\<close>

definition option_bytes :: "u8 list option \<Rightarrow> u8 list" where
  "option_bytes x = (case x of None \<Rightarrow> [0] | Some b \<Rightarrow> 1 # b)"

definition bytes_option :: "u8 list \<Rightarrow> u8 list option" where
  "bytes_option b = (if hd b = 0 then None else Some (tl b))"

lemma bytes_option_bytes [simp]: "bytes_option (option_bytes x) = x"
  by (simp add: option_bytes_def bytes_option_def split: option.split)

definition ballot_bytes :: "ballot \<Rightarrow> u8 list" where
  "ballot_bytes n = be_bytes 4 (unat (b_config_id n)) @ be_bytes 4 (unat (b_n n)) @ be_bytes 4 (unat (b_priority n))
     @ replicate (b_pid n) 0"

definition bytes_ballot :: "u8 list \<Rightarrow> ballot" where
  "bytes_ballot b = \<lparr>b_config_id = of_nat (from_be_bytes (take 4 b)), b_n = of_nat (from_be_bytes (take 4 (drop 4 b))),
     b_priority = of_nat (from_be_bytes (take 4 (drop 8 b))), b_pid = length b - 12\<rparr>"

lemma bytes_ballot_bytes [simp]: "bytes_ballot (ballot_bytes n) = n"
proof -
  have "unat w mod 256 ^ 4 = unat w" for w :: u32
    using unsigned_less [where 'a = nat, of w] by simp
  then show ?thesis by (cases n) (simp add: bytes_ballot_def ballot_bytes_def from_be_be_bytes)
qed

definition byte_codec :: "(u8 list, unit, u8 list) codec" where
  "byte_codec = \<lparr>ser_entry = Inr, de_entry = Inr,
     ser_ballot = (\<lambda>n. Inr (ballot_bytes n)), de_ballot = (\<lambda>b. Inr (bytes_ballot b)),
     ser_stopsign = (\<lambda>ss. Inr (option_bytes (map_option (\<lambda>s. option_bytes (ss_metadata s)) ss))),
     de_stopsign = (\<lambda>b. Inr (map_option (\<lambda>m. stop_sign_with () (bytes_option m)) (bytes_option b))),
     ser_snapshot = (\<lambda>p. Inr (option_bytes p)), de_snapshot = (\<lambda>b. Inr (bytes_option b)),
     usize_as_bytes = (\<lambda>n. replicate n 0), usize_read_from = (\<lambda>b. Some (length b))\<rparr>"

interpretation byte_codec: codec_laws byte_codec
proof
  have "map_option (\<lambda>m. stop_sign_with () (bytes_option m)) (map_option (\<lambda>s. option_bytes (ss_metadata s)) ss) = ss"
    for ss :: "unit stop_sign option"
    by (cases ss) (auto simp: stop_sign_with_def)
  then show "\<exists>b. ser_stopsign byte_codec ss = Inr b \<and> de_stopsign byte_codec b = Inr ss" for ss
    by (simp add: byte_codec_def)
qed (simp_all add: byte_codec_def)

interpretation rbt_bytes: persistent rbt_impl rbt_content byte_codec ..

end
