(* ===== verification/Backends.thy ===== *)
theory Backends
  imports Rocks_Instance
begin

text \<open>
  Two back-ends side by side. The replica is written against the trait \<^verbatim>\<open>Storage\<close> and never sees which back-end it has:
  on back-ends that meet the contract, the same transactions succeed and the same reads give the same answers. The locale
  \<open>two_backends\<close> holds for the in-memory back-end beside the one over RocksDB.
\<close>

section \<open>Transactions one after the other\<close>

fun run_transactions :: "('s, 't, 'c, 'p) storage_impl \<Rightarrow> ('t, 'c, 'p) storage_op list list \<Rightarrow> 's \<Rightarrow> 's option" where
  "run_transactions S [] s = Some s"
| "run_transactions S (ops # txns) s =
     (case st_write_atomically S ops s of Some (Inr _, s1) \<Rightarrow> run_transactions S txns s1 | _ \<Rightarrow> None)"

text \<open>Every transaction is within the contract, at the point where it runs.\<close>

fun transactions_ok :: "('t, 'c, 'p) storage_op list list \<Rightarrow> ('t, 'c, 'p) storage_view \<Rightarrow> bool" where
  "transactions_ok [] v \<longleftrightarrow> True"
| "transactions_ok (ops # txns) v \<longleftrightarrow>
     (case view_ops ops v of None \<Rightarrow> False | Some v1 \<Rightarrow> txn_ok ops v v1 \<and> transactions_ok txns v1)"

section \<open>The same answers\<close>

definition same_reads ::
  "usize \<Rightarrow> ('s, 't, 'c, 'p) storage_impl \<Rightarrow> 's \<Rightarrow> ('r, 't, 'c, 'p) storage_impl \<Rightarrow> 'r \<Rightarrow> bool" where
  "same_reads k S s R r \<longleftrightarrow>
     st_get_promise S s = st_get_promise R r \<and> st_get_accepted_round S s = st_get_accepted_round R r \<and>
     st_get_decided_idx S s = st_get_decided_idx R r \<and> st_get_compacted_idx S s = st_get_compacted_idx R r \<and>
     st_get_stopsign S s = st_get_stopsign R r \<and> st_get_snapshot S s = st_get_snapshot R r \<and>
     st_get_log_len S s = st_get_log_len R r \<and>
     (\<forall>i \<ge> k. st_get_suffix S i s = st_get_suffix R i r \<and> (\<forall>j \<ge> i. st_get_entries S i j s = st_get_entries R i j r))"

context storage_contract
begin

lemma run_transactions_ok:
  assumes "sinv s" "transactions_ok txns (view s)"
  shows "\<exists>s'. run_transactions S txns s = Some s' \<and> sinv s' \<and> view_ops (concat txns) (view s) = Some (view s')"
  using assms
proof (induction txns arbitrary: s)
  case (Cons ops txns)
  then obtain v where v: "view_ops ops (view s) = Some v" "txn_ok ops (view s) v" "transactions_ok txns v"
    by (auto split: option.split_asm)
  from write_atomically_ok [OF Cons.prems(1) v(2)] obtain s1 where s1: "st_write_atomically S ops s = Some (Inr (), s1)" "sinv s1" "view s1 = v"
    unfolding does_def by blast
  then show ?case using Cons.IH [OF s1(2)] v(1,3) by (simp add: view_ops_append)
qed simp

end

locale two_backends = one: storage_contract S inv1 view1 + two: storage_contract R inv2 view2
  for S :: "('s, 't, 'c, 'p) storage_impl" and inv1 view1 and R :: "('r, 't, 'c, 'p) storage_impl" and inv2 view2
begin

lemma equal_views_same_reads:
  assumes "inv1 s" "inv2 r" "view1 s = view2 r"
  shows "same_reads (v_trimmed (view1 s)) S s R r"
  using assms one.reads_ok two.reads_ok one.get_suffix_ok two.get_suffix_ok one.get_entries_ok two.get_entries_ok
  by (simp add: same_reads_def)

lemma transactions_agree:
  assumes "inv1 s" "inv2 r" "view1 s = view2 r" "transactions_ok txns (view1 s)"
  shows "\<exists>s' r'. run_transactions S txns s = Some s' \<and> run_transactions R txns r = Some r' \<and> inv1 s' \<and> inv2 r' \<and>
    view1 s' = view2 r' \<and> same_reads (v_trimmed (view1 s')) S s' R r'"
proof -
  obtain s' where s': "run_transactions S txns s = Some s'" "inv1 s'" "view_ops (concat txns) (view1 s) = Some (view1 s')"
    using one.run_transactions_ok [OF assms(1,4)] by blast
  obtain r' where r': "run_transactions R txns r = Some r'" "inv2 r'" "view_ops (concat txns) (view2 r) = Some (view2 r')"
    using two.run_transactions_ok [OF assms(2)] assms(3,4) by auto
  have "view1 s' = view2 r'" using s'(3) r'(3) assms(3) by simp
  then show ?thesis using s' r' equal_views_same_reads by blast
qed

end

sublocale persistent \<subseteq> beside: two_backends memory_impl memory_inv memory_view "persistent_impl D K" pinv pview ..

context persistent
begin

lemma same_as_memory:
  assumes "pinv ps" "memory_view m = pview ps" "transactions_ok txns (memory_view m)"
  shows "\<exists>m' ps'. run_transactions memory_impl txns m = Some m' \<and> run_transactions (persistent_impl D K) txns ps = Some ps' \<and>
    memory_view m' = pview ps' \<and> same_reads (ms_trimmed_idx m') memory_impl m' (persistent_impl D K) ps'"
proof -
  have m: "memory_inv m'" "ms_trimmed_idx m' = v_trimmed (memory_view m')" for m'
    by (simp_all add: memory_inv_def memory_view_def)
  show ?thesis using beside.transactions_agree [OF m(1) assms] unfolding m(2) by blast
qed

end

interpretation memory_rbt: two_backends memory_impl memory_inv memory_view
  "persistent_impl rbt_impl byte_codec" "persistent_inv rbt_content byte_codec" "persistent_view rbt_content byte_codec" ..

end
