(* ===== verification/UniCache.thy ===== *)
theory UniCache
  imports Internal_Storage
begin

text \<open>
  The build with the feature \<^verbatim>\<open>unicache\<close>: the trait of a cache that encodes entries (\<^verbatim>\<open>unicache/mod.rs\<close>) and
  the operations of \<^verbatim>\<open>storage/state_cache.rs\<close> and \<^verbatim>\<open>storage/internal_storage.rs\<close> that the feature changes.
  The leader keeps, beside the batch, the encoded form of the batch, and sends that; the follower
  decodes what it gets. The facts say that the feature is transparent while the two caches are in step:
  every operation has the effect of the plain one, and what is sent decodes to what was written.
\<close>

section \<open>The trait\<close>

datatype ('f, 'e) maybe_encoded = Encoded 'e | NotEncoded 'f

text \<open>\<open>None\<close> is a panic; \<^verbatim>\<open>clone\<close> is the operation that hands a cache over to a follower.\<close>

record ('u, 't, 'r) unicache_impl =
  uc_new :: "'u option"
  uc_try_encode :: "'t \<Rightarrow> 'u \<Rightarrow> ('r \<times> 'u) option"
  uc_decode :: "'r \<Rightarrow> 'u \<Rightarrow> ('t \<times> 'u) option"
  uc_clone :: "'u \<Rightarrow> 'u option"

text \<open>An operation on a cache, applied to the elements of a vector in turn.\<close>

fun map_each :: "('a \<Rightarrow> 'u \<Rightarrow> ('b \<times> 'u) option) \<Rightarrow> 'a list \<Rightarrow> 'u \<Rightarrow> ('b list \<times> 'u) option" where
  "map_each f [] u = Some ([], u)"
| "map_each f (x # xs) u = do { (y, u1) \<leftarrow> f x u; (ys, u2) \<leftarrow> map_each f xs u1; Some (y # ys, u2) }"

lemma map_each_append:
  "map_each f (xs @ ys) u = do { (xs', u1) \<leftarrow> map_each f xs u; (ys', u2) \<leftarrow> map_each f ys u1; Some (xs' @ ys', u2) }"
  by (induction xs arbitrary: u) (auto split: Option.bind_splits)

lemma map_each_length: "map_each f xs u = Some (ys, u') \<Longrightarrow> length ys = length xs"
  by (induction xs arbitrary: u ys) (auto split: Option.bind_splits)

section \<open>Internal storage with the feature\<close>

text \<open>
  \<open>cs_inner\<close> has the fields of the build without the feature; the other fields are those that the feature
  adds to \<^verbatim>\<open>StateCache\<close>.
\<close>

record ('s, 't, 'c, 'r, 'u) coded_storage =
  cs_inner :: "('s, 't, 'c) internal_storage"
  cs_pid :: node_id
  cs_processed :: "'r list"
  cs_unicache :: 'u

definition cs_with ::
  "('s, 't, 'c, 'p) storage_impl \<Rightarrow> ('u, 't, 'r) unicache_impl \<Rightarrow> 's \<Rightarrow> usize \<Rightarrow> node_id \<Rightarrow>
     ('s, 't, 'c, 'r, 'u) coded_storage option" where
  "cs_with S U storage batch_size pid = do {
     u \<leftarrow> uc_new U;
     inner \<leftarrow> internal_storage_with S storage batch_size;
     Some \<lparr>cs_inner = inner, cs_pid = pid, cs_processed = [], cs_unicache = u\<rparr>
   }"

definition cs_take_batched_processed ::
  "('s, 't, 'c, 'r, 'u) coded_storage \<Rightarrow> 'r list \<times> ('s, 't, 'c, 'r, 'u) coded_storage" where
  "cs_take_batched_processed st = (cs_processed st, st\<lparr>cs_processed := []\<rparr>)"

definition cs_encode ::
  "('u, 't, 'r) unicache_impl \<Rightarrow> 't list \<Rightarrow> ('s, 't, 'c, 'r, 'u) coded_storage \<Rightarrow>
     ('s, 't, 'c, 'r, 'u) coded_storage option" where
  "cs_encode U entries st = for_each (\<lambda>entry st. do {
     (processed, u) \<leftarrow> uc_try_encode U entry (cs_unicache st);
     Some (st\<lparr>cs_unicache := u, cs_processed := cs_processed st @ [processed]\<rparr>) }) entries st"

definition cs_cache_append_entry ::
  "('u, 't, 'r) unicache_impl \<Rightarrow> 't \<Rightarrow> ('s, 't, 'c, 'r, 'u) coded_storage \<Rightarrow>
     ('t list option \<times> ('s, 't, 'c, 'r, 'u) coded_storage) option" where
  "cs_cache_append_entry U entry st = do {
     st1 \<leftarrow> cs_encode U [entry] st;
     let (append_res, c) = cache_append_entry entry (is_cache (cs_inner st1));
     Some (append_res, st1\<lparr>cs_inner := (cs_inner st1)\<lparr>is_cache := c\<rparr>\<rparr>)
   }"

definition cs_cache_append_entries ::
  "('u, 't, 'r) unicache_impl \<Rightarrow> 't list \<Rightarrow> ('s, 't, 'c, 'r, 'u) coded_storage \<Rightarrow>
     ('t list option \<times> ('s, 't, 'c, 'r, 'u) coded_storage) option" where
  "cs_cache_append_entries U entries st = do {
     st1 \<leftarrow> (if b_pid (c_promise (is_cache (cs_inner st))) = cs_pid st then cs_encode U entries st else Some st);
     let (append_res, c) = cache_append_entries entries (is_cache (cs_inner st1));
     Some (append_res, st1\<lparr>cs_inner := (cs_inner st1)\<lparr>is_cache := c\<rparr>\<rparr>)
   }"

text \<open>A call on the inner storage, seen from the storage with the feature.\<close>

definition on_inner ::
  "(('s, 't, 'c) internal_storage \<Rightarrow> ('r1 \<times> ('s, 't, 'c) internal_storage) option) \<Rightarrow>
     ('s, 't, 'c, 'r, 'u) coded_storage \<Rightarrow> ('r1 \<times> ('s, 't, 'c, 'r, 'u) coded_storage) option" where
  "on_inner f st = map_option (\<lambda>(r, i). (r, st\<lparr>cs_inner := i\<rparr>)) (f (cs_inner st))"

definition cs_flush_if_full_batch ::
  "('s, 't, 'c, 'p) storage_impl \<Rightarrow> 't list option \<Rightarrow> ('s, 't, 'c, 'r, 'u) coded_storage \<Rightarrow>
     ('r accepted_meta_data option storage_result \<times> ('s, 't, 'c, 'r, 'u) coded_storage) option" where
  "cs_flush_if_full_batch S append_res st =
     (case append_res of
        Some flushed_entries \<Rightarrow>
          try_op (on_inner (append_entries_without_batching S flushed_entries) st) (\<lambda>accepted_idx st1.
            let (processed, st2) = cs_take_batched_processed st1 in
            Some (Inr (Some \<lparr>am_accepted_idx = accepted_idx, am_entries = processed\<rparr>), st2))
      | None \<Rightarrow> Some (Inr None, st))"

definition cs_append_entry_with_batching where
  "cs_append_entry_with_batching S U entry st = do {
     (append_res, st1) \<leftarrow> cs_cache_append_entry U entry st;
     cs_flush_if_full_batch S append_res st1
   }"

definition cs_append_entries_with_batching where
  "cs_append_entries_with_batching S U entries st = do {
     (append_res, st1) \<leftarrow> cs_cache_append_entries U entries st;
     cs_flush_if_full_batch S append_res st1
   }"

definition cs_append_stopsign where
  "cs_append_stopsign S ss st =
     (let (append_res, c) = cache_append_stopsign ss (is_cache (cs_inner st)) in
      try_op (cs_flush_if_full_batch S append_res (st\<lparr>cs_inner := (cs_inner st)\<lparr>is_cache := c\<rparr>\<rparr>))
        (\<lambda>accepted_entries_metadata st1.
      try_op (on_inner (on_storage (st_set_stopsign S (Some ss))) st1) (\<lambda>_ st2.
        Some (Inr accepted_entries_metadata,
              st2\<lparr>cs_inner := upd_cache (\<lambda>c. c\<lparr>c_accepted_idx := c_accepted_idx c + 1\<rparr>) (cs_inner st2)\<rparr>))))"

definition cs_append_entries_and_get_accepted_idx where
  "cs_append_entries_and_get_accepted_idx S U entries st = do {
     (append_res, st1) \<leftarrow> cs_cache_append_entries U entries st;
     (case append_res of
        Some flushed_entries \<Rightarrow>
          try_op (on_inner (append_entries_without_batching S flushed_entries) st1) (\<lambda>accepted_idx st2.
            Some (Inr (Some accepted_idx), st2))
      | None \<Rightarrow> Some (Inr None, st1))
   }"

definition cs_decode_entries ::
  "('u, 't, 'r) unicache_impl \<Rightarrow> 'r list \<Rightarrow> ('s, 't, 'c, 'r, 'u) coded_storage \<Rightarrow>
     ('t list \<times> ('s, 't, 'c, 'r, 'u) coded_storage) option" where
  "cs_decode_entries U encoded_entries st =
     map_option (\<lambda>(es, u). (es, st\<lparr>cs_unicache := u\<rparr>)) (map_each (uc_decode U) encoded_entries (cs_unicache st))"

definition cs_flush_batch ::
  "('s, 't, 'c, 'p) storage_impl \<Rightarrow> ('s, 't, 'c, 'r, 'u) coded_storage \<Rightarrow>
     (usize storage_result \<times> ('s, 't, 'c, 'r, 'u) coded_storage) option" where
  "cs_flush_batch S st = on_inner (flush_batch S) (st\<lparr>cs_processed := []\<rparr>)"

definition cs_flush_batch_and_get_entries where
  "cs_flush_batch_and_get_entries S st =
     (let (flushed_entries, c) =
            (if c_batched_entries (is_cache (cs_inner st)) \<noteq> []
             then (let (es, c1) = take_batched_entries (is_cache (cs_inner st)) in (Some es, c1))
             else (None, is_cache (cs_inner st))) in
      cs_flush_if_full_batch S flushed_entries (st\<lparr>cs_inner := (cs_inner st)\<lparr>is_cache := c\<rparr>\<rparr>))"

definition get_unicache where
  "get_unicache U st = uc_clone U (cs_unicache st)"

definition set_unicache :: "'u \<Rightarrow> ('s, 't, 'c, 'r, 'u) coded_storage \<Rightarrow> ('s, 't, 'c, 'r, 'u) coded_storage" where
  "set_unicache u st = st\<lparr>cs_unicache := u\<rparr>"

section \<open>Transparency\<close>

text \<open>What a leader does with its storage while it replicates, without and with the feature.\<close>

datatype ('t, 'c) leader_op = LeaderAppend 't | LeaderAppendAll "'t list" | LeaderFlush | LeaderStop "'c stop_sign"

fun plain_op where
  "plain_op S (LeaderAppend e) = append_entry_with_batching S e"
| "plain_op S (LeaderAppendAll es) = append_entries_with_batching S es"
| "plain_op S LeaderFlush = flush_batch_and_get_entries S"
| "plain_op S (LeaderStop ss) = is_append_stopsign S ss"

fun coded_op where
  "coded_op S U (LeaderAppend e) = cs_append_entry_with_batching S U e"
| "coded_op S U (LeaderAppendAll es) = cs_append_entries_with_batching S U es"
| "coded_op S U LeaderFlush = cs_flush_batch_and_get_entries S"
| "coded_op S U (LeaderStop ss) = cs_append_stopsign S ss"

primrec opt_list :: "'a option \<Rightarrow> 'a list" where
  "opt_list None = []"
| "opt_list (Some x) = [x]"

fun run_ops ::
  "('o \<Rightarrow> 's \<Rightarrow> ('a option storage_result \<times> 's) option) \<Rightarrow> 'o list \<Rightarrow> 's \<Rightarrow> ('a list \<times> 's) option" where
  "run_ops f [] st = Some ([], st)"
| "run_ops f (op # ops) st =
     (case f op st of
        Some (Inr meta, st1) \<Rightarrow>
          map_option (\<lambda>(metas, st2). (opt_list meta @ metas, st2)) (run_ops f ops st1)
      | _ \<Rightarrow> None)"

text \<open>The messages \<open>ms'\<close>, decoded one after the other by the receiver \<open>d\<close>, are the entries of \<open>ms\<close>.\<close>

definition delivers where
  "delivers U ms ms' d d' \<longleftrightarrow> map am_accepted_idx ms' = map am_accepted_idx ms \<and>
     map_each (map_each (uc_decode U)) (map am_entries ms') d = Some (map am_entries ms, d')"

lemma delivers_Nil [simp]: "delivers U [] [] d d' \<longleftrightarrow> d' = d"
  by (auto simp: delivers_def)

lemma delivers_append:
  "delivers U ms ms' d d1 \<Longrightarrow> delivers U ns ns' d1 d2 \<Longrightarrow> delivers U (ms @ ns) (ms' @ ns') d d2"
  by (auto simp: delivers_def map_each_append)

lemma append_without_batching_cache:
  "append_entries_without_batching S es i = Some (Inr a, i') \<Longrightarrow>
     c_batched_entries (is_cache i') = c_batched_entries (is_cache i) \<and> c_promise (is_cache i') = c_promise (is_cache i)"
  by (auto simp: append_entries_without_batching_def try_op_def on_storage_def Let_def split: option.splits sum.splits prod.splits)

text \<open>
  A new sender encodes \<open>xs\<close>, hands its cache over to a receiver, and the receiver decodes what is sent
  for \<open>ys\<close> afterwards.
\<close>

definition handover :: "('u, 't, 'r) unicache_impl \<Rightarrow> 't list \<Rightarrow> 't list \<Rightarrow> 't list option" where
  "handover U xs ys = do {
     u \<leftarrow> uc_new U;
     (_, u1) \<leftarrow> map_each (uc_try_encode U) xs u;
     d \<leftarrow> uc_clone U u1;
     (ms, _) \<leftarrow> map_each (uc_try_encode U) ys u1;
     (zs, _) \<leftarrow> map_each (uc_decode U) ms d;
     Some zs
   }"

text \<open>
  The receiver of a cache becomes the next sender: it hands its own cache over and encodes \<open>ys\<close>.
\<close>

definition succession :: "('u, 't, 'r) unicache_impl \<Rightarrow> 't list \<Rightarrow> 't list \<Rightarrow> 't list option" where
  "succession U xs ys = do {
     u \<leftarrow> uc_new U;
     (_, u1) \<leftarrow> map_each (uc_try_encode U) xs u;
     s \<leftarrow> uc_clone U u1;
     d \<leftarrow> uc_clone U s;
     (ms, _) \<leftarrow> map_each (uc_try_encode U) ys s;
     (zs, _) \<leftarrow> map_each (uc_decode U) ms d;
     Some zs
   }"

locale unicache_pair =
  fixes U :: "('u, 't, 'r) unicache_impl" and in_step :: "'u \<Rightarrow> 'u \<Rightarrow> bool"
  assumes step: "in_step c d \<Longrightarrow>
    \<exists>m c' d'. uc_try_encode U x c = Some (m, c') \<and> uc_decode U m d = Some (x, d') \<and> in_step c' d'"
begin

lemma transfer:
  "in_step c d \<Longrightarrow> \<exists>ms c' d'. map_each (uc_try_encode U) xs c = Some (ms, c') \<and>
     map_each (uc_decode U) ms d = Some (xs, d') \<and> in_step c' d'"
proof (induction xs arbitrary: c d)
  case (Cons x xs)
  obtain m c1 d1 where 1: "uc_try_encode U x c = Some (m, c1)" "uc_decode U m d = Some (x, d1)" "in_step c1 d1"
    using step [OF Cons.prems] by blast
  obtain ms c2 d2 where "map_each (uc_try_encode U) xs c1 = Some (ms, c2)"
    "map_each (uc_decode U) ms d1 = Some (xs, d2)" "in_step c2 d2"
    using Cons.IH [OF 1(3)] by blast
  with 1 show ?case by force
qed simp

lemma handover_ok:
  assumes "uc_new U = Some u" "in_step u u" and clone: "\<And>c d. in_step c d \<Longrightarrow> \<exists>d'. uc_clone U c = Some d' \<and> in_step c d'"
  shows "handover U xs ys = Some ys"
proof -
  obtain ms u1 d1 where 1: "map_each (uc_try_encode U) xs u = Some (ms, u1)" "in_step u1 d1" using transfer [OF assms(2)] by blast
  obtain d2 where 2: "uc_clone U u1 = Some d2" "in_step u1 d2" using clone [OF 1(2)] by blast
  obtain ns u3 d3 where "map_each (uc_try_encode U) ys u1 = Some (ns, u3)" "map_each (uc_decode U) ns d2 = Some (ys, d3)"
    using transfer [OF 2(2)] by blast
  with 1 2 assms(1) show ?thesis by (simp add: handover_def)
qed

text \<open>
  The receiver \<open>d\<close> follows the sender \<open>st\<close> when the encoded batch decodes to the batch and leaves the
  receiver in step with the sender. The sender has promised to itself.
\<close>

definition follows :: "('s, 't, 'c, 'r, 'u) coded_storage \<Rightarrow> 'u \<Rightarrow> bool" where
  "follows st d \<longleftrightarrow> b_pid (c_promise (is_cache (cs_inner st))) = cs_pid st \<and>
     (\<exists>d'. map_each (uc_decode U) (cs_processed st) d = Some (c_batched_entries (is_cache (cs_inner st)), d') \<and>
       in_step (cs_unicache st) d')"

text \<open>Encoding entries: the batch that follows is the old one and the entries.\<close>

lemma encode_entries:
  assumes "map_each (uc_decode U) (cs_processed st) d = Some (es, d1)" "in_step (cs_unicache st) d1"
  shows "\<exists>st' d'. cs_encode U xs st = Some st' \<and> cs_inner st' = cs_inner st \<and> cs_pid st' = cs_pid st \<and>
    map_each (uc_decode U) (cs_processed st') d = Some (es @ xs, d') \<and> in_step (cs_unicache st') d'"
  using assms
proof (induction xs arbitrary: st es d1)
  case Nil
  then show ?case by (auto simp: cs_encode_def)
next
  case (Cons x xs)
  obtain m c2 d2 where s: "uc_try_encode U x (cs_unicache st) = Some (m, c2)" "uc_decode U m d1 = Some (x, d2)" "in_step c2 d2"
    using step [OF Cons.prems(2)] by blast
  let ?st = "st\<lparr>cs_unicache := c2, cs_processed := cs_processed st @ [m]\<rparr>"
  have "map_each (uc_decode U) (cs_processed ?st) d = Some (es @ [x], d2)" "in_step (cs_unicache ?st) d2"
    using Cons.prems(1) s by (auto simp: map_each_append)
  from Cons.IH [OF this] show ?case using s by (auto simp: cs_encode_def)
qed

lemma flush_follows:
  assumes "map_each (uc_decode U) (cs_processed st) d = Some (es, d')" "in_step (cs_unicache st) d'"
    and "b_pid (c_promise (is_cache (cs_inner st))) = cs_pid st"
    and r: "r = None \<and> c_batched_entries (is_cache (cs_inner st)) = es \<or> r = Some es \<and> c_batched_entries (is_cache (cs_inner st)) = []"
    and p: "flush_if_full_batch S r (cs_inner st) = Some (Inr m, i)"
  shows "\<exists>m' st' d''. cs_flush_if_full_batch S r st = Some (Inr m', st') \<and> cs_inner st' = i \<and>
    delivers U (opt_list m) (opt_list m') d d'' \<and> follows st' d''"
proof (cases r)
  case None
  with assms show ?thesis by (auto simp: flush_if_full_batch_def cs_flush_if_full_batch_def follows_def)
next
  case (Some es')
  with r have es: "es' = es" by simp
  obtain a where a: "append_entries_without_batching S es (cs_inner st) = Some (Inr a, i)"
    and m: "m = Some \<lparr>am_accepted_idx = a, am_entries = es\<rparr>"
    using p Some es by (auto simp: flush_if_full_batch_def try_op_def split: option.splits sum.splits prod.splits)
  let ?m = "\<lparr>am_accepted_idx = a, am_entries = cs_processed st\<rparr>" and ?st = "st\<lparr>cs_inner := i, cs_processed := []\<rparr>"
  have "cs_flush_if_full_batch S r st = Some (Inr (Some ?m), ?st)"
    using a Some es by (simp add: cs_flush_if_full_batch_def try_op_def on_inner_def cs_take_batched_processed_def)
  moreover have "delivers U (opt_list m) (opt_list (Some ?m)) d d'"
    using m assms(1) by (simp add: delivers_def)
  moreover have "follows ?st d'"
    using append_without_batching_cache [OF a] assms(2,3) r Some by (auto simp: follows_def)
  ultimately show ?thesis by (intro exI conjI) (assumption | simp)+
qed

lemmas batch_defs = take_entries_if_batch_is_full_def take_batched_entries_def Let_def

lemma append_entries_follows:
  assumes "follows st d" "append_entries_with_batching S xs (cs_inner st) = Some (Inr m, i)"
  shows "\<exists>m' st' d'. cs_append_entries_with_batching S U xs st = Some (Inr m', st') \<and> cs_inner st' = i \<and>
    delivers U (opt_list m) (opt_list m') d d' \<and> follows st' d'"
proof -
  obtain st1 d1 where s: "cs_encode U xs st = Some st1" "cs_inner st1 = cs_inner st" "cs_pid st1 = cs_pid st"
    "map_each (uc_decode U) (cs_processed st1) d = Some (c_batched_entries (is_cache (cs_inner st)) @ xs, d1)" "in_step (cs_unicache st1) d1"
    using assms(1) encode_entries [of st d "c_batched_entries (is_cache (cs_inner st))" _ xs] by (fastforce simp: follows_def)
  obtain r c where r: "cache_append_entries xs (is_cache (cs_inner st)) = (r, c)" by fastforce
  show ?thesis
    using flush_follows [of "st1\<lparr>cs_inner := (cs_inner st1)\<lparr>is_cache := c\<rparr>\<rparr>" d _ d1 r S m i] assms s r
    by (auto simp: cs_append_entries_with_batching_def cs_cache_append_entries_def append_entries_with_batching_def follows_def
        cache_append_entries_def batch_defs split: if_splits)
qed

lemma append_entry_follows:
  assumes "follows st d" "append_entry_with_batching S x (cs_inner st) = Some (Inr m, i)"
  shows "\<exists>m' st' d'. cs_append_entry_with_batching S U x st = Some (Inr m', st') \<and> cs_inner st' = i \<and>
    delivers U (opt_list m) (opt_list m') d d' \<and> follows st' d'"
proof -
  have "cs_append_entry_with_batching S U x st = cs_append_entries_with_batching S U [x] st"
    "append_entry_with_batching S x (cs_inner st) = append_entries_with_batching S [x] (cs_inner st)"
    using assms(1) by (simp_all add: follows_def cs_append_entry_with_batching_def cs_append_entries_with_batching_def
        cs_cache_append_entry_def cs_cache_append_entries_def append_entry_with_batching_def append_entries_with_batching_def
        cache_append_entry_def cache_append_entries_def)
  then show ?thesis using append_entries_follows [of st d S "[x]" m i] assms by simp
qed

lemma flush_batch_follows:
  assumes "follows st d" "flush_batch_and_get_entries S (cs_inner st) = Some (Inr m, i)"
  shows "\<exists>m' st' d'. cs_flush_batch_and_get_entries S st = Some (Inr m', st') \<and> cs_inner st' = i \<and>
    delivers U (opt_list m) (opt_list m') d d' \<and> follows st' d'"
  using assms flush_follows [of st d "c_batched_entries (is_cache (cs_inner st))" _ None S m i]
    flush_follows [of "st\<lparr>cs_inner := (cs_inner st)\<lparr>is_cache := snd (take_batched_entries (is_cache (cs_inner st)))\<rparr>\<rparr>" d
      "c_batched_entries (is_cache (cs_inner st))" _ "Some (c_batched_entries (is_cache (cs_inner st)))" S m i]
  by (auto simp: follows_def flush_batch_and_get_entries_def cs_flush_batch_and_get_entries_def batch_defs)

lemma append_stopsign_follows:
  assumes "follows st d" "is_append_stopsign S ss (cs_inner st) = Some (Inr m, i)"
  shows "\<exists>m' st' d'. cs_append_stopsign S ss st = Some (Inr m', st') \<and> cs_inner st' = i \<and>
    delivers U (opt_list m) (opt_list m') d d' \<and> follows st' d'"
proof -
  let ?b = "c_batched_entries (is_cache (cs_inner st))"
  obtain r c where r: "cache_append_stopsign ss (is_cache (cs_inner st)) = (r, c)" by fastforce
  have rc: "r = None \<and> c_batched_entries c = ?b \<or> r = Some ?b \<and> c_batched_entries c = []"
    "c_promise c = c_promise (is_cache (cs_inner st))"
    using r by (auto simp: cache_append_stopsign_def batch_defs split: if_splits)
  let ?st = "st\<lparr>cs_inner := (cs_inner st)\<lparr>is_cache := c\<rparr>\<rparr>"
  obtain i1 where i1: "flush_if_full_batch S r (cs_inner ?st) = Some (Inr m, i1)"
    and i: "try_op (on_storage (st_set_stopsign S (Some ss)) i1) (\<lambda>_ st2.
        Some (Inr m, upd_cache (\<lambda>c. c\<lparr>c_accepted_idx := c_accepted_idx c + 1\<rparr>) st2)) = Some (Inr m, i)"
    using assms(2) r by (auto simp: is_append_stopsign_def try_op_def split: option.splits sum.splits prod.splits)
  obtain m' st1 d1 where f: "cs_flush_if_full_batch S r ?st = Some (Inr m', st1)" "cs_inner st1 = i1"
    "delivers U (opt_list m) (opt_list m') d d1" "follows st1 d1"
    using assms(1) rc i1 flush_follows [of ?st d ?b _ r S m i1] by (auto simp: follows_def)
  have "cs_append_stopsign S ss st = Some (Inr m', st1\<lparr>cs_inner := i\<rparr>)"
    using r f i by (auto simp: cs_append_stopsign_def try_op_def on_inner_def split: option.splits sum.splits prod.splits)
  moreover have "follows (st1\<lparr>cs_inner := i\<rparr>) d1"
    using f i by (auto simp: follows_def try_op_def on_storage_def split: option.splits sum.splits prod.splits)
  ultimately show ?thesis using f(3) by (intro exI conjI) (assumption | simp)+
qed

lemma coded_op_follows:
  assumes "follows st d" "plain_op S op (cs_inner st) = Some (Inr m, i)"
  shows "\<exists>m' st' d'. coded_op S U op st = Some (Inr m', st') \<and> cs_inner st' = i \<and>
    delivers U (opt_list m) (opt_list m') d d' \<and> follows st' d'"
proof (cases op)
  case (LeaderAppend e)
  with append_entry_follows [OF assms(1)] assms(2) show ?thesis by simp
next
  case (LeaderAppendAll es)
  with append_entries_follows [OF assms(1)] assms(2) show ?thesis by simp
next
  case LeaderFlush
  with flush_batch_follows [OF assms(1)] assms(2) show ?thesis by simp
next
  case (LeaderStop ss)
  with append_stopsign_follows [OF assms(1)] assms(2) show ?thesis by simp
qed

lemma coded_run_follows:
  assumes "follows st d" "run_ops (plain_op S) ops (cs_inner st) = Some (ms, i)"
  shows "\<exists>ms' st' d'. run_ops (coded_op S U) ops st = Some (ms', st') \<and> cs_inner st' = i \<and>
    delivers U ms ms' d d' \<and> follows st' d'"
  using assms
proof (induction ops arbitrary: st d ms)
  case Nil
  then show ?case by auto
next
  case (Cons op ops)
  obtain m i1 ms1 where p: "plain_op S op (cs_inner st) = Some (Inr m, i1)" "run_ops (plain_op S) ops i1 = Some (ms1, i)"
    "ms = opt_list m @ ms1"
    using Cons.prems(2) by (auto split: option.splits sum.splits prod.splits)
  obtain m' st1 d1 where f: "coded_op S U op st = Some (Inr m', st1)" "cs_inner st1 = i1"
    "delivers U (opt_list m) (opt_list m') d d1" "follows st1 d1"
    using coded_op_follows [OF Cons.prems(1) p(1)] by blast
  obtain ms' st2 d2 where g: "run_ops (coded_op S U) ops st1 = Some (ms', st2)" "cs_inner st2 = i"
    "delivers U ms1 ms' d1 d2" "follows st2 d2"
    using Cons.IH [OF f(4)] p(2) f(2) by blast
  have "run_ops (coded_op S U) (op # ops) st = Some (opt_list m' @ ms', st2)" using f(1) g(1) by simp
  moreover have "delivers U ms (opt_list m' @ ms') d d2" using delivers_append [OF f(3) g(3)] p(3) by simp
  ultimately show ?case using g by blast
qed

end

end
