(* ===== verification/UniCache_LRU.thy ===== *)
theory UniCache_LRU
  imports UniCache Memory_Storage
begin

text \<open>
  UniCache with least-recently-used eviction (\<^verbatim>\<open>omnipaxos/src/unicache/mod.rs\<close>, \<^verbatim>\<open>lru_cache.rs\<close>). The leader replaces
  a field it has sent recently by a short code, and the follower, whose cache has seen the same fields,
  replaces the code by the field. The cache itself is the crate \<^verbatim>\<open>lru\<close>: its calls are the fields of
  \<open>lru_impl\<close>, its documented behaviour the locale \<open>lru_laws\<close>. A code is a machine word that counts up.
\<close>

section \<open>The cache of the crate\<close>

text \<open>\<open>lru_iter\<close> lists the entries from the most to the least recently used one.\<close>

record ('l, 'k, 'v) lru_impl =
  lru_new :: "usize \<Rightarrow> 'l"
  lru_get :: "'k \<Rightarrow> 'l \<Rightarrow> 'v option \<times> 'l"
  lru_push :: "'k \<Rightarrow> 'v \<Rightarrow> 'l \<Rightarrow> 'l"
  lru_pop :: "'l \<Rightarrow> ('k \<times> 'v) option \<times> 'l"
  lru_len :: "'l \<Rightarrow> usize"
  lru_iter :: "'l \<Rightarrow> ('k \<times> 'v) list"

definition without :: "'k \<Rightarrow> ('k \<times> 'v) list \<Rightarrow> ('k \<times> 'v) list" where
  "without k xs = filter (\<lambda>(k', _). k' \<noteq> k) xs"

locale lru_laws =
  fixes L :: "('l, 'k, 'v) lru_impl" and linv :: "'l \<Rightarrow> bool" and cap :: "'l \<Rightarrow> usize"
  assumes new_ok: "0 < n \<Longrightarrow> linv (lru_new L n) \<and> lru_iter L (lru_new L n) = [] \<and> cap (lru_new L n) = n"
    and items_ok: "linv l \<Longrightarrow> distinct (map fst (lru_iter L l)) \<and> length (lru_iter L l) \<le> cap l"
    and get_hit: "linv l \<Longrightarrow> map_of (lru_iter L l) k = Some v \<Longrightarrow>
      \<exists>l'. lru_get L k l = (Some v, l') \<and> linv l' \<and> cap l' = cap l \<and> lru_iter L l' = (k, v) # without k (lru_iter L l)"
    and get_miss: "linv l \<Longrightarrow> map_of (lru_iter L l) k = None \<Longrightarrow> lru_get L k l = (None, l)"
    and push_ok: "linv l \<Longrightarrow> linv (lru_push L k v l) \<and> cap (lru_push L k v l) = cap l \<and>
      lru_iter L (lru_push L k v l) = take (cap l) ((k, v) # without k (lru_iter L l))"
    and pop_ok: "linv l \<Longrightarrow> lru_iter L l \<noteq> [] \<Longrightarrow>
      \<exists>l'. lru_pop L l = (Some (last (lru_iter L l)), l') \<and> linv l' \<and> cap l' = cap l \<and> lru_iter L l' = butlast (lru_iter L l)"
    and len_ok: "linv l \<Longrightarrow> lru_len L l = length (lru_iter L l)"

section \<open>\<^verbatim>\<open>LRUniCache\<close>\<close>

record ('le, 'ld, 'e) lr_unicache =
  lru_cache_encoder :: 'le
  lru_cache_decoder :: 'ld
  lru_encoding :: 'e
  lru_size :: usize

text \<open>\<^verbatim>\<open>NonZeroUsize::new(size).unwrap()\<close> panics for 0.\<close>

definition non_zero :: "usize \<Rightarrow> usize option" where
  "non_zero n = (if n = 0 then None else Some n)"

definition lru_unicache_new ::
  "('le, 'f, 'w::len word) lru_impl \<Rightarrow> ('ld, 'w word, 'f) lru_impl \<Rightarrow> usize \<Rightarrow> ('le, 'ld, 'w word) lr_unicache option" where
  "lru_unicache_new LE LD n = do {
     s \<leftarrow> non_zero n;
     Some \<lparr>lru_cache_encoder = lru_new LE s, lru_cache_decoder = lru_new LD s, lru_encoding = 0, lru_size = n\<rparr>
   }"

definition lru_clone ::
  "('le, 'f, 'w::len word) lru_impl \<Rightarrow> ('ld, 'w word, 'f) lru_impl \<Rightarrow> ('le, 'ld, 'w word) lr_unicache \<Rightarrow>
     ('le, 'ld, 'w word) lr_unicache option" where
  "lru_clone LE LD c = do {
     s \<leftarrow> non_zero (lru_size c);
     let cloned_decoder = fold (\<lambda>(encodable, encoded). lru_push LD encoded encodable)
           (rev (lru_iter LE (lru_cache_encoder c))) (lru_new LD s);
     Some \<lparr>lru_cache_encoder = lru_new LE 1, lru_cache_decoder = cloned_decoder,
           lru_encoding = lru_encoding c, lru_size = lru_size c\<rparr>
   }"

definition lru_try_encode ::
  "('le, 'f, 'w::len word) lru_impl \<Rightarrow> 'f \<Rightarrow> ('le, 'ld, 'w word) lr_unicache \<Rightarrow>
     (('f, 'w word) maybe_encoded \<times> ('le, 'ld, 'w word) lr_unicache) option" where
  "lru_try_encode LE field c =
     (case lru_get LE field (lru_cache_encoder c) of
        (Some encoding, enc) \<Rightarrow> Some (Encoded encoding, c\<lparr>lru_cache_encoder := enc\<rparr>)
      | (None, enc) \<Rightarrow>
          if lru_len LE enc = lru_size c
          then (case lru_pop LE enc of
              (Some (_, popped_encoding), enc1) \<Rightarrow>
                Some (NotEncoded field, c\<lparr>lru_cache_encoder := lru_push LE field popped_encoding enc1\<rparr>)
            | (None, _) \<Rightarrow> None)
          else do {
            added \<leftarrow> checked_inc (lru_encoding c);
            Some (NotEncoded field, c\<lparr>lru_cache_encoder := lru_push LE field added enc, lru_encoding := added\<rparr>)
          })"

definition lru_decode ::
  "('ld, 'w::len word, 'f) lru_impl \<Rightarrow> ('f, 'w word) maybe_encoded \<Rightarrow> ('le, 'ld, 'w word) lr_unicache \<Rightarrow>
     ('f \<times> ('le, 'ld, 'w word) lr_unicache) option" where
  "lru_decode LD result c =
     (case result of
        Encoded encoding \<Rightarrow>
          (case lru_get LD encoding (lru_cache_decoder c) of
             (Some field, dec) \<Rightarrow> Some (field, c\<lparr>lru_cache_decoder := dec\<rparr>)
           | (None, _) \<Rightarrow> None)
      | NotEncoded not_encodable \<Rightarrow>
          if lru_len LD (lru_cache_decoder c) = lru_size c
          then (case lru_pop LD (lru_cache_decoder c) of
              (Some (popped_encoded, _), dec) \<Rightarrow>
                Some (not_encodable, c\<lparr>lru_cache_decoder := lru_push LD popped_encoded not_encodable dec\<rparr>)
            | (None, _) \<Rightarrow> None)
          else do {
            added \<leftarrow> checked_inc (lru_encoding c);
            Some (not_encodable, c\<lparr>lru_cache_decoder := lru_push LD added not_encodable (lru_cache_decoder c),
                                   lru_encoding := added\<rparr>)
          })"

text \<open>
  The sequence of pairs a cache is written as, and reading it back: the capacity of the new cache is
  the length the format announces, if it does, and 255 otherwise.
\<close>

definition lru_serialize :: "('l, 'k, 'v) lru_impl \<Rightarrow> 'l \<Rightarrow> ('k \<times> 'v) list" where
  "lru_serialize L l = rev (lru_iter L l)"

definition lru_visit_seq :: "('l, 'k, 'v) lru_impl \<Rightarrow> usize option \<Rightarrow> ('k \<times> 'v) list \<Rightarrow> 'l option" where
  "lru_visit_seq L size_hint seq = do {
     s \<leftarrow> non_zero (case size_hint of Some n \<Rightarrow> n | None \<Rightarrow> 255);
     Some (fold (\<lambda>(key, value). lru_push L key value) seq (lru_new L s))
   }"

text \<open>The field cache as an instance of the trait of \<open>UniCache\<close>.\<close>

definition lru_unicache ::
  "('le, 'f, 'w::len word) lru_impl \<Rightarrow> ('ld, 'w word, 'f) lru_impl \<Rightarrow> usize \<Rightarrow>
     (('le, 'ld, 'w word) lr_unicache, 'f, ('f, 'w word) maybe_encoded) unicache_impl" where
  "lru_unicache LE LD n = \<lparr>uc_new = lru_unicache_new LE LD n, uc_try_encode = lru_try_encode LE,
     uc_decode = lru_decode LD, uc_clone = lru_clone LE LD\<rparr>"

section \<open>Lists of pairs\<close>

lemma without_swap:
  assumes "distinct (map fst xs)" "distinct (map snd xs)" "(k, v) \<in> set xs"
  shows "without v (map prod.swap xs) = map prod.swap (without k xs)"
proof -
  have "snd x = v \<longleftrightarrow> fst x = k" if "x \<in> set xs" for x
    using assms that by (fastforce simp: distinct_map inj_on_def)
  then have "filter (\<lambda>x. snd x \<noteq> v) xs = filter (\<lambda>x. fst x \<noteq> k) xs" by (intro filter_cong refl) auto
  then show ?thesis by (simp add: without_def filter_map comp_def case_prod_unfold)
qed

lemma without_fresh: "k \<notin> fst ` set xs \<Longrightarrow> without k xs = xs"
  by (force simp: without_def filter_id_conv)

lemma length_without:
  "distinct (map fst xs) \<Longrightarrow> (k, v) \<in> set xs \<Longrightarrow> Suc (length (without k xs)) = length xs"
proof (induction xs)
  case (Cons x xs)
  then show ?case
    by (cases "fst x = k") (force simp: without_def without_fresh [unfolded without_def] split: prod.splits)+
qed simp

lemma set_without: "x \<in> set (without k xs) \<longleftrightarrow> x \<in> set xs \<and> fst x \<noteq> k"
  by (auto simp: without_def)

lemma map_of_swap:
  "distinct (map fst xs) \<Longrightarrow> distinct (map snd xs) \<Longrightarrow> map_of xs k = Some v \<Longrightarrow> map_of (map prod.swap xs) v = Some k"
  by (rule map_of_is_SomeI) (force simp: comp_def dest: map_of_SomeD)+

lemma checked_inc_room:
  fixes w :: "'w::len word"
  assumes "unat w < 2 ^ LENGTH('w) - 1"
  shows "checked_inc w = Some (w + 1)" "w < w + 1" "unat (w + 1) = Suc (unat w)"
proof -
  have ne: "w \<noteq> - 1" using assms by (auto simp: unsigned_minus_1_eq_mask mask_eq_exp_minus_1)
  then show inc: "checked_inc w = Some (w + 1)" by (simp add: checked_inc_eq_Some)
  then show "w < w + 1" by (rule checked_inc_greater)
  show "unat (w + 1) = Suc (unat w)" using ne by (metis unatSuc add.commute add_eq_0_iff)
qed

section \<open>Encoder and decoder in step\<close>

text \<open>
  The receiver's decoder holds the sender's encoder with keys and values exchanged, in the same order of
  use, and the codes in use are those up to the counter.
\<close>

definition lru_in_step ::
  "('le, 'f, 'w::len word) lru_impl \<Rightarrow> ('le \<Rightarrow> bool) \<Rightarrow> ('le \<Rightarrow> usize) \<Rightarrow> ('ld, 'w word, 'f) lru_impl \<Rightarrow> ('ld \<Rightarrow> bool) \<Rightarrow>
     ('ld \<Rightarrow> usize) \<Rightarrow> ('le, 'ld, 'w word) lr_unicache \<Rightarrow> ('le, 'ld, 'w word) lr_unicache \<Rightarrow> bool" where
  "lru_in_step LE linve cape LD linvd capd c d \<longleftrightarrow> linve (lru_cache_encoder c) \<and> linvd (lru_cache_decoder d) \<and>
     lru_iter LD (lru_cache_decoder d) = map prod.swap (lru_iter LE (lru_cache_encoder c)) \<and>
     lru_encoding d = lru_encoding c \<and> lru_size d = lru_size c \<and> 0 < lru_size c \<and> lru_size c < 2 ^ LENGTH('w) \<and>
     cape (lru_cache_encoder c) = lru_size c \<and> capd (lru_cache_decoder d) = lru_size c \<and>
     (\<forall>e \<in> snd ` set (lru_iter LE (lru_cache_encoder c)). e \<le> lru_encoding c) \<and>
     unat (lru_encoding c) = length (lru_iter LE (lru_cache_encoder c))"

locale lru_pair = enc: lru_laws LE linve cape + dec: lru_laws LD linvd capd
  for LE :: "('le, 'f, 'w::len word) lru_impl" and linve cape and LD :: "('ld, 'w word, 'f) lru_impl" and linvd capd
begin

abbreviation in_step where "in_step \<equiv> lru_in_step LE linve cape LD linvd capd"

lemma in_step_codes:
  assumes "in_step c d"
  shows "distinct (map fst (lru_iter LE (lru_cache_encoder c)))" "distinct (map snd (lru_iter LE (lru_cache_encoder c)))"
    "length (lru_iter LE (lru_cache_encoder c)) \<le> lru_size c"
proof -
  let ?xs = "lru_iter LE (lru_cache_encoder c)"
  show "distinct (map fst ?xs)" "length ?xs \<le> lru_size c"
    using assms enc.items_ok [of "lru_cache_encoder c"] by (auto simp: lru_in_step_def)
  have "distinct (map fst (map prod.swap ?xs))"
    using assms dec.items_ok [of "lru_cache_decoder d"] by (auto simp: lru_in_step_def)
  then show "distinct (map snd ?xs)" by (simp add: comp_def)
qed

lemma hit_step:
  assumes s: "in_step c d" and hit: "map_of (lru_iter LE (lru_cache_encoder c)) x = Some e"
  shows "\<exists>c' d'. lru_try_encode LE x c = Some (Encoded e, c') \<and> lru_decode LD (Encoded e) d = Some (x, d') \<and> in_step c' d'"
proof -
  let ?xs = "lru_iter LE (lru_cache_encoder c)"
  note dist = in_step_codes [OF s]
  have mem: "(x, e) \<in> set ?xs" using hit by (rule map_of_SomeD)
  obtain le where le: "lru_get LE x (lru_cache_encoder c) = (Some e, le)" "linve le" "cape le = cape (lru_cache_encoder c)"
    "lru_iter LE le = (x, e) # without x ?xs"
    using enc.get_hit [OF _ hit] s by (auto simp: lru_in_step_def)
  have "map_of (lru_iter LD (lru_cache_decoder d)) e = Some x"
    using s map_of_swap [OF dist(1,2) hit] by (simp add: lru_in_step_def)
  then obtain ld where ld: "lru_get LD e (lru_cache_decoder d) = (Some x, ld)" "linvd ld" "capd ld = capd (lru_cache_decoder d)"
    "lru_iter LD ld = (e, x) # without e (map prod.swap ?xs)"
    using dec.get_hit [of "lru_cache_decoder d" e x] s by (auto simp: lru_in_step_def)
  have "in_step (c\<lparr>lru_cache_encoder := le\<rparr>) (d\<lparr>lru_cache_decoder := ld\<rparr>)"
    using s le ld without_swap [OF dist(1,2) mem] length_without [OF dist(1) mem] mem
    by (auto simp: lru_in_step_def set_without)
  then show ?thesis using le(1) ld(1) by (auto simp: lru_try_encode_def lru_decode_def)
qed

lemma full_step:
  assumes s: "in_step c d" and miss: "map_of (lru_iter LE (lru_cache_encoder c)) x = None"
    and full: "length (lru_iter LE (lru_cache_encoder c)) = lru_size c"
  shows "\<exists>c' d'. lru_try_encode LE x c = Some (NotEncoded x, c') \<and> lru_decode LD (NotEncoded x) d = Some (x, d') \<and> in_step c' d'"
proof -
  let ?xs = "lru_iter LE (lru_cache_encoder c)"
  note dist = in_step_codes [OF s]
  have ne: "?xs \<noteq> []" using full s by (auto simp: lru_in_step_def)
  obtain k e where last: "last ?xs = (k, e)" by fastforce
  have split: "?xs = butlast ?xs @ [(k, e)]" using ne last by (metis append_butlast_last_id)
  obtain le where le: "lru_pop LE (lru_cache_encoder c) = (Some (k, e), le)" "linve le" "cape le = cape (lru_cache_encoder c)"
    "lru_iter LE le = butlast ?xs"
    using enc.pop_ok [of "lru_cache_encoder c"] s ne last by (auto simp: lru_in_step_def)
  obtain ld where ld: "lru_pop LD (lru_cache_decoder d) = (Some (e, k), ld)" "linvd ld" "capd ld = capd (lru_cache_decoder d)"
    "lru_iter LD ld = map prod.swap (butlast ?xs)"
    using dec.pop_ok [of "lru_cache_decoder d"] s ne last by (auto simp: lru_in_step_def last_map map_butlast)
  have "x \<notin> fst ` set (butlast ?xs)"
    using miss by (auto simp: map_of_eq_None_iff dest: in_set_butlastD)
  moreover have "e \<notin> snd ` set (butlast ?xs)"
    using dist(2) by (subst (asm) split) auto
  ultimately have push: "lru_iter LE (lru_push LE x e le) = (x, e) # butlast ?xs"
    "lru_iter LD (lru_push LD e x ld) = (e, x) # map prod.swap (butlast ?xs)"
    using enc.push_ok [OF le(2), of x e] dec.push_ok [OF ld(2), of e x] le ld s full ne
    by (auto simp: lru_in_step_def without_fresh image_image)
  have "snd ` set ((x, e) # butlast ?xs) = snd ` set ?xs" by (subst (2) split) auto
  then have "in_step (c\<lparr>lru_cache_encoder := lru_push LE x e le\<rparr>) (d\<lparr>lru_cache_decoder := lru_push LD e x ld\<rparr>)"
    using s le ld push full ne enc.push_ok [OF le(2), of x e] dec.push_ok [OF ld(2), of e x]
    by (auto simp: lru_in_step_def)
  moreover have "lru_len LE (lru_cache_encoder c) = lru_size c" "lru_len LD (lru_cache_decoder d) = lru_size d"
    using s full enc.len_ok dec.len_ok by (auto simp: lru_in_step_def)
  ultimately show ?thesis
    using s miss le(1) ld(1) enc.get_miss [of "lru_cache_encoder c" x]
    by (auto simp: lru_try_encode_def lru_decode_def lru_in_step_def)
qed

lemma fresh_step:
  assumes s: "in_step c d" and miss: "map_of (lru_iter LE (lru_cache_encoder c)) x = None"
    and room: "length (lru_iter LE (lru_cache_encoder c)) < lru_size c"
  shows "\<exists>c' d'. lru_try_encode LE x c = Some (NotEncoded x, c') \<and> lru_decode LD (NotEncoded x) d = Some (x, d') \<and> in_step c' d'"
proof -
  let ?xs = "lru_iter LE (lru_cache_encoder c)" and ?a = "lru_encoding c + 1"
  have "unat (lru_encoding c) < 2 ^ LENGTH('w) - 1" using s room by (auto simp: lru_in_step_def)
  note inc = checked_inc_room [OF this]
  have "?a \<notin> snd ` set ?xs" using s inc(2) by (force simp: lru_in_step_def)
  moreover have "x \<notin> fst ` set ?xs" using miss by (auto simp: map_of_eq_None_iff)
  ultimately have push: "lru_iter LE (lru_push LE x ?a (lru_cache_encoder c)) = (x, ?a) # ?xs"
    "lru_iter LD (lru_push LD ?a x (lru_cache_decoder d)) = (?a, x) # map prod.swap ?xs"
    using s room enc.push_ok [of "lru_cache_encoder c" x ?a] dec.push_ok [of "lru_cache_decoder d" ?a x]
    by (auto simp: lru_in_step_def without_fresh image_image)
  have len: "lru_len LE (lru_cache_encoder c) \<noteq> lru_size c" "lru_len LD (lru_cache_decoder d) \<noteq> lru_size d"
    using s room enc.len_ok dec.len_ok by (auto simp: lru_in_step_def)
  have "in_step (c\<lparr>lru_cache_encoder := lru_push LE x ?a (lru_cache_encoder c), lru_encoding := ?a\<rparr>)
     (d\<lparr>lru_cache_decoder := lru_push LD ?a x (lru_cache_decoder d), lru_encoding := ?a\<rparr>)"
    using s push inc(2,3) enc.push_ok [of "lru_cache_encoder c" x ?a] dec.push_ok [of "lru_cache_decoder d" ?a x]
    by (auto simp: lru_in_step_def intro: order.trans less_imp_le)
  moreover have "lru_encoding d = lru_encoding c" "linve (lru_cache_encoder c)" using s by (auto simp: lru_in_step_def)
  ultimately show ?thesis
    using miss len inc(1) enc.get_miss [of "lru_cache_encoder c" x] by (auto simp: lru_try_encode_def lru_decode_def)
qed

lemma lru_step:
  assumes "in_step c d"
  shows "\<exists>m c' d'. lru_try_encode LE x c = Some (m, c') \<and> lru_decode LD m d = Some (x, d') \<and> in_step c' d'"
proof (cases "map_of (lru_iter LE (lru_cache_encoder c)) x")
  case (Some e)
  then show ?thesis using hit_step [OF assms] by blast
next
  case None
  then show ?thesis
    using full_step [OF assms None] fresh_step [OF assms None] in_step_codes(3) [OF assms] unfolding le_less by blast
qed

lemma new_in_step:
  assumes "0 < n" "n < 2 ^ LENGTH('w)"
  shows "\<exists>c. lru_unicache_new LE LD n = Some c \<and> in_step c c"
  using assms enc.new_ok [of n] dec.new_ok [of n] by (auto simp: lru_unicache_new_def non_zero_def lru_in_step_def)

lemma cloned_decoder:
  assumes "0 < n" "distinct (map snd xs)" "length xs \<le> n"
  shows "let l = fold (\<lambda>(f, e). lru_push LD e f) (rev xs) (lru_new LD n) in
    linvd l \<and> capd l = n \<and> lru_iter LD l = map prod.swap xs"
  using assms(2,3)
proof (induction xs)
  case Nil
  then show ?case using dec.new_ok [OF assms(1)] by simp
next
  case (Cons x xs)
  then show ?case
    using dec.push_ok [of _ "snd x" "fst x"] by (auto simp: Let_def case_prod_beta without_fresh image_image prod.swap_def)
qed

text \<open>A clone is in step with its original, whatever the receiver had before.\<close>

lemma clone_in_step:
  assumes "in_step c d"
  shows "\<exists>d'. lru_clone LE LD c = Some d' \<and> in_step c d'"
  using assms cloned_decoder [OF _ in_step_codes(2,3) [OF assms]]
  by (auto simp: lru_clone_def non_zero_def lru_in_step_def Let_def)

end

sublocale lru_pair \<subseteq> cache: unicache_pair "lru_unicache LE LD n" "lru_in_step LE linve cape LD linvd capd" for n
  by unfold_locales (use lru_step in \<open>simp add: lru_unicache_def\<close>)

context lru_pair
begin

lemma encode_any:
  assumes "0 < n" "n < 2 ^ LENGTH('w)"
  shows "\<exists>u ms u1 d. uc_new (lru_unicache LE LD n) = Some u \<and> map_each (uc_try_encode (lru_unicache LE LD n)) xs u = Some (ms, u1) \<and>
    in_step u1 d \<and> lru_size u1 = n"
proof -
  have keep: "lru_size u' = lru_size u" if "map_each (lru_try_encode LE) ys u = Some (ms, u')" for ys ms and u u' :: "('le, 'ld, 'w word) lr_unicache"
    using that
  proof (induction ys arbitrary: u ms)
    case (Cons y ys)
    then obtain m u1 ms' where 1: "lru_try_encode LE y u = Some (m, u1)" "map_each (lru_try_encode LE) ys u1 = Some (ms', u')"
      by (auto simp: bind_eq_Some_conv)
    then have "lru_size u1 = lru_size u"
      by (auto simp: lru_try_encode_def bind_eq_Some_conv split: prod.splits option.splits if_splits)
    with Cons.IH [OF 1(2)] show ?case by simp
  qed simp
  obtain c where c: "lru_unicache_new LE LD n = Some c" "in_step c c" using new_in_step [OF assms] by blast
  obtain ms u1 d where t: "map_each (lru_try_encode LE) xs c = Some (ms, u1)" "in_step u1 d"
    using cache.transfer [OF c(2), of n xs] by (auto simp: lru_unicache_def)
  have "lru_size c = n" using c(1) by (auto simp: lru_unicache_new_def bind_eq_Some_conv)
  with keep [OF t(1)] show ?thesis using c t by (auto simp: lru_unicache_def)
qed

lemma lru_handover:
  assumes "0 < n" "n < 2 ^ LENGTH('w)"
  shows "handover (lru_unicache LE LD n) xs ys = Some ys"
proof -
  obtain c where "lru_unicache_new LE LD n = Some c" "in_step c c" using new_in_step [OF assms] by blast
  then show ?thesis by (intro cache.handover_ok) (auto simp: lru_unicache_def clone_in_step)
qed

lemma lru_transparent:
  assumes "0 < n" "n < 2 ^ LENGTH('w)" "uc_new (lru_unicache LE LD n) = Some u" "cs_unicache st = u" "cs_processed st = []"
    and "c_batched_entries (is_cache (cs_inner st)) = []" "b_pid (c_promise (is_cache (cs_inner st))) = cs_pid st"
    and "run_ops (plain_op S) ops (cs_inner st) = Some (ms, i)"
  shows "\<exists>ms' st' u'. run_ops (coded_op S (lru_unicache LE LD n)) ops st = Some (ms', st') \<and> cs_inner st' = i \<and>
    delivers (lru_unicache LE LD n) ms ms' u u'"
proof -
  have "in_step u u" using new_in_step [OF assms(1,2)] assms(3) by (auto simp: lru_unicache_def)
  then have "cache.follows n st u" using assms(4-7) by (auto simp: cache.follows_def)
  from cache.coded_run_follows [OF this assms(8)] show ?thesis by blast
qed

text \<open>
  A clone has an empty encoder. Written with its length, as a sequence of no pairs, it cannot be read
  back: a cache of capacity 0 is a panic.
\<close>

lemma clone_unreadable:
  assumes "lru_clone LE LD c = Some d"
  shows "lru_visit_seq LE (Some (length (lru_serialize LE (lru_cache_encoder d)))) (lru_serialize LE (lru_cache_encoder d)) = None"
  using assms enc.new_ok [of 1]
  by (auto simp: lru_clone_def lru_visit_seq_def lru_serialize_def non_zero_def Let_def split: if_splits)

end

lemma unat_le_2: "unat (w :: u8) \<le> 2 \<Longrightarrow> w \<in> {0, 1, 2}"
proof -
  assume "unat w \<le> 2"
  then have "unat w = unat (0 :: u8) \<or> unat w = unat (1 :: u8) \<or> unat w = unat (2 :: u8)" by auto
  then show ?thesis by (simp only: word_unat_eq_iff [symmetric]) simp
qed

section \<open>A cache of pairs\<close>

text \<open>
  The documented behaviour of the crate, carried out on a list of pairs, the most recently used first,
  with the capacity beside it.
\<close>

definition list_lru :: "(('k \<times> 'v) list \<times> usize, 'k, 'v) lru_impl" where
  "list_lru = \<lparr>
     lru_new = (\<lambda>n. ([], n)),
     lru_get = (\<lambda>k (xs, n). case map_of xs k of
        Some v \<Rightarrow> (Some v, (k, v) # without k xs, n) | None \<Rightarrow> (None, xs, n)),
     lru_push = (\<lambda>k v (xs, n). (take n ((k, v) # without k xs), n)),
     lru_pop = (\<lambda>(xs, n). if xs = [] then (None, xs, n) else (Some (last xs), butlast xs, n)),
     lru_len = (\<lambda>(xs, n). length xs),
     lru_iter = fst\<rparr>"

definition list_lru_ok :: "('k \<times> 'v) list \<times> usize \<Rightarrow> bool" where
  "list_lru_ok l \<longleftrightarrow> distinct (map fst (fst l)) \<and> length (fst l) \<le> snd l"

lemma distinct_without: "distinct (map fst xs) \<Longrightarrow> distinct (map fst ((k, v) # without k xs))"
  by (auto simp: without_def distinct_map_filter)

interpretation list_lru: lru_laws list_lru list_lru_ok snd
proof (unfold_locales, goal_cases)
  case (3 l k v)
  then have "(k, v) \<in> set (fst l)" by (auto simp: list_lru_def dest: map_of_SomeD)
  with 3 show ?case
    using length_without [of "fst l" k v] distinct_without [of "fst l" k v] by (auto simp: list_lru_def list_lru_ok_def split: prod.splits)
next
  case (5 l k v)
  have "distinct (map fst (take (snd l) ((k, v) # without k (fst l))))"
    unfolding take_map [symmetric] by (intro distinct_take distinct_without) (use 5 in \<open>simp add: list_lru_ok_def\<close>)
  then show ?case by (auto simp: list_lru_def list_lru_ok_def split: prod.splits)
next
  case (6 l)
  then show ?case
    using distinct_butlast [of "map fst (fst l)"] by (auto simp: list_lru_def list_lru_ok_def map_butlast split: prod.splits)
qed (auto simp: list_lru_def list_lru_ok_def split: prod.splits)

interpretation list_lrus: lru_pair list_lru list_lru_ok snd list_lru list_lru_ok snd ..

section \<open>A hand-over with an open batch\<close>

text \<open>The leader encodes an entry when it enters the batch, but the batch is sent later. A cache that is handed over in between, with an
  AcceptSync, has the entries of the open batch already and is to decode them again: with a batch of three, a hand-over after the
  first entry and the entries 1, 2, 2, the follower decodes 1, 2, 1.\<close>

lemma open_batch_out_of_step:
  "let U = lru_unicache list_lru (list_lru :: ((u8 \<times> nat) list \<times> usize, u8, nat) lru_impl) 4;
       st = \<lparr>cs_inner = \<lparr>is_storage = (memory_storage_default :: (nat, cluster_config, unit) memory_storage), is_cache = state_cache_new 3\<rparr>,
             cs_pid = 0, cs_processed = [], cs_unicache = the (uc_new U)\<rparr>
   in \<exists>st1 d st2 m d'. cs_append_entry_with_batching memory_impl U 1 st = Some (Inr None, st1) \<and> get_unicache U st1 = Some d \<and>
        cs_append_entries_with_batching memory_impl U [2, 2] st1 = Some (Inr (Some m), st2) \<and>
        map_each (uc_decode U) (am_entries m) d = Some ([1, 2, 1], d') \<and> ms_log (is_storage (cs_inner st2)) = [1, 2, 2]"
  by (simp add: cs_append_entry_with_batching_def cs_append_entries_with_batching_def cs_cache_append_entry_def cs_cache_append_entries_def
      cs_encode_def cache_append_entry_def cache_append_entries_def take_entries_if_batch_is_full_def take_batched_entries_def state_cache_new_def
      cs_flush_if_full_batch_def on_inner_def append_entries_without_batching_def try_op_def on_storage_def memory_impl_def ms_append_entries_def
      memory_storage_default_def ballot_default_def cs_take_batched_processed_def get_unicache_def is_get_accepted_idx_def
      lru_unicache_def lru_unicache_new_def lru_clone_def lru_try_encode_def lru_decode_def list_lru_def without_def checked_inc_def non_zero_def Let_def)

text \<open>
  A follower that received a cache keeps an encoder of capacity 1. When it becomes the leader, a follower of its own fills a decoder of
  the full size, the codes drift apart once more distinct values were sent than the cache has places, and the next hit is a
  code the follower does not know: it panics.
\<close>

lemma lru_succession_fails:
  "succession (lru_unicache list_lru (list_lru :: ((u8 \<times> nat) list \<times> usize, u8, nat) lru_impl) 2) xs [1, 2, 3] = Some [1, 2, 3] \<and>
   succession (lru_unicache list_lru (list_lru :: ((u8 \<times> nat) list \<times> usize, u8, nat) lru_impl) 2) xs [1, 2, 3, 3] = None"
proof -
  let ?U = "lru_unicache list_lru (list_lru :: ((u8 \<times> nat) list \<times> usize, u8, nat) lru_impl) 2"
  have len: "2 < (2 :: nat) ^ LENGTH(8)" by simp
  obtain u ms u1 d where u: "uc_new ?U = Some u" "map_each (uc_try_encode ?U) xs u = Some (ms, u1)" and s: "list_lrus.in_step u1 d"
    and "lru_size u1 = 2"
    using list_lrus.encode_any [OF zero_less_numeral len, of xs] by blast
  then have "unat (lru_encoding u1) \<le> 2" using list_lrus.in_step_codes(3) [OF s] by (simp add: lru_in_step_def)
  then have "lru_encoding u1 \<in> {0, 1, 2}" by (rule unat_le_2)
  moreover obtain c where c: "uc_clone ?U u1 = Some c" "lru_cache_encoder c = ([], 1)" "lru_encoding c = lru_encoding u1" "lru_size c = 2"
    using \<open>lru_size u1 = 2\<close> by (auto simp: lru_unicache_def lru_clone_def non_zero_def list_lru_def)
  moreover have "uc_clone ?U c = Some \<lparr>lru_cache_encoder = ([], 1), lru_cache_decoder = ([], 2), lru_encoding = lru_encoding u1, lru_size = 2\<rparr>"
    using c by (simp add: lru_unicache_def lru_clone_def non_zero_def list_lru_def)
  ultimately show ?thesis using u
    by (auto simp: succession_def) (auto simp: lru_unicache_def lru_try_encode_def lru_decode_def list_lru_def without_def checked_inc_def)
qed

end
