(* ===== verification/UniCache_LFU.thy ===== *)
theory UniCache_LFU
  imports UniCache_LRU "HOL-Library.AList" "HOL-Library.Multiset"
begin

text \<open>
  UniCache with least-frequently-used eviction: the cache of \<^verbatim>\<open>unicache/lfu/mod.rs\<close>, its sequences of keys in
  \<^verbatim>\<open>lfu/serialization.rs\<close> and the field cache of \<^verbatim>\<open>unicache/lfu_cache.rs\<close>. The insertion-ordered set of the crate
  \<^verbatim>\<open>linked_hash_set\<close> is a parameter, with its documented behaviour as the locale \<open>linked_set\<close>. A \<^verbatim>\<open>HashMap\<close>
  that is iterated or counted is an association list with distinct keys; the order of its iteration is
  not specified and is a parameter where it matters.
\<close>

section \<open>The set of the crate\<close>

record ('b, 'k) linked_set_impl =
  ls_default :: 'b
  ls_insert :: "'k \<Rightarrow> 'b \<Rightarrow> 'b"
  ls_remove :: "'k \<Rightarrow> 'b \<Rightarrow> 'b"
  ls_pop_front :: "'b \<Rightarrow> 'k option \<times> 'b"
  ls_is_empty :: "'b \<Rightarrow> bool"
  ls_iter :: "'b \<Rightarrow> 'k list"

locale linked_set =
  fixes B :: "('b, 'k) linked_set_impl"
  assumes default_ok [simp]: "ls_iter B (ls_default B) = []"
    and insert_ok [simp]: "k \<notin> set (ls_iter B b) \<Longrightarrow> ls_iter B (ls_insert B k b) = ls_iter B b @ [k]"
    and remove_ok [simp]: "distinct (ls_iter B b) \<Longrightarrow> ls_iter B (ls_remove B k b) = filter (\<lambda>k'. k' \<noteq> k) (ls_iter B b)"
    and pop_front_ok: "ls_iter B b = k # ks \<Longrightarrow> \<exists>b'. ls_pop_front B b = (Some k, b') \<and> ls_iter B b' = ks"
    and is_empty_ok [simp]: "ls_is_empty B b \<longleftrightarrow> ls_iter B b = []"

text \<open>Writing a set as a sequence and reading it back (\<^verbatim>\<open>LinkedHashSetWrapper\<close>).\<close>

definition ls_serialize :: "('b, 'k) linked_set_impl \<Rightarrow> 'b \<Rightarrow> 'k list" where
  "ls_serialize B b = ls_iter B b"

definition ls_visit_seq :: "('b, 'k) linked_set_impl \<Rightarrow> 'k list \<Rightarrow> 'b" where
  "ls_visit_seq B seq = fold (ls_insert B) seq (ls_default B)"

section \<open>\<^verbatim>\<open>LFUCache\<close>\<close>

record 'v value_counter =
  vc_value :: 'v
  vc_count :: usize

record ('b, 'k, 'v) lfu_cache =
  lfu_values :: "('k \<times> 'v value_counter) list"
  frequency_bin :: "usize \<rightharpoonup> 'b"
  lfu_capacity :: usize
  min_frequency :: usize

definition vc_inc :: "'v value_counter \<Rightarrow> 'v value_counter" where
  "vc_inc vc = vc\<lparr>vc_count := vc_count vc + 1\<rparr>"

definition with_capacity :: "usize \<Rightarrow> ('b, 'k, 'v) lfu_cache option" where
  "with_capacity n =
     (if n = 0 then None
      else Some \<lparr>lfu_values = [], frequency_bin = Map.empty, lfu_capacity = n, min_frequency = 0\<rparr>)"

definition lfu_contains :: "'k \<Rightarrow> ('b, 'k, 'v) lfu_cache \<Rightarrow> bool" where
  "lfu_contains key c \<longleftrightarrow> map_of (lfu_values c) key \<noteq> None"

definition lfu_len :: "('b, 'k, 'v) lfu_cache \<Rightarrow> usize" where
  "lfu_len c = length (lfu_values c)"

definition lfu_is_empty :: "('b, 'k, 'v) lfu_cache \<Rightarrow> bool" where
  "lfu_is_empty c \<longleftrightarrow> lfu_values c = []"

text \<open>\<^verbatim>\<open>frequency_bin.entry(n).or_default()\<close>\<close>

definition bin_or_default :: "('b, 'k) linked_set_impl \<Rightarrow> usize \<Rightarrow> ('b, 'k, 'v) lfu_cache \<Rightarrow> 'b" where
  "bin_or_default B n c = (case frequency_bin c n of None \<Rightarrow> ls_default B | Some b \<Rightarrow> b)"

definition lfu_remove ::
  "('b, 'k) linked_set_impl \<Rightarrow> 'k \<Rightarrow> ('b, 'k, 'v) lfu_cache \<Rightarrow> 'v option \<times> ('b, 'k, 'v) lfu_cache" where
  "lfu_remove B key c =
     (case map_of (lfu_values c) key of
        Some vc \<Rightarrow> (Some (vc_value vc),
          c\<lparr>frequency_bin := (frequency_bin c)(vc_count vc \<mapsto> ls_remove B key (bin_or_default B (vc_count vc) c)),
            lfu_values := AList.delete key (lfu_values c)\<rparr>)
      | None \<Rightarrow> (None, c))"

definition update_frequency_bin ::
  "('b, 'k) linked_set_impl \<Rightarrow> 'k \<Rightarrow> ('b, 'k, 'v) lfu_cache \<Rightarrow> ('b, 'k, 'v) lfu_cache option" where
  "update_frequency_bin B key c =
     (case map_of (lfu_values c) key of
        Some value_counter \<Rightarrow> do {
          b \<leftarrow> frequency_bin c (vc_count value_counter);
          let bin = ls_remove B key b;
          let count = vc_count value_counter;
          let c1 = c\<lparr>frequency_bin := (frequency_bin c)(count \<mapsto> bin), lfu_values := AList.update key (vc_inc value_counter) (lfu_values c)\<rparr>;
          let c2 = (if count = min_frequency c1 \<and> ls_is_empty B bin
                    then c1\<lparr>min_frequency := min_frequency c1 + 1\<rparr> else c1);
          Some (c2\<lparr>frequency_bin := (frequency_bin c2)(count + 1 \<mapsto> ls_insert B key (bin_or_default B (count + 1) c2))\<rparr>)
        }
      | None \<Rightarrow> Some c)"

definition lfu_get ::
  "('b, 'k) linked_set_impl \<Rightarrow> 'k \<Rightarrow> ('b, 'k, 'v) lfu_cache \<Rightarrow> ('v option \<times> ('b, 'k, 'v) lfu_cache) option" where
  "lfu_get B key c = do {
     c1 \<leftarrow> update_frequency_bin B key c;
     Some (map_option vc_value (map_of (lfu_values c1) key), c1)
   }"

text \<open>\<open>f\<close> is what the caller does with the mutable reference.\<close>

definition lfu_get_mut ::
  "('b, 'k) linked_set_impl \<Rightarrow> 'k \<Rightarrow> ('v \<Rightarrow> 'v) \<Rightarrow> ('b, 'k, 'v) lfu_cache \<Rightarrow> ('b, 'k, 'v) lfu_cache option" where
  "lfu_get_mut B key f c = do {
     c1 \<leftarrow> update_frequency_bin B key c;
     Some (case map_of (lfu_values c1) key of
        Some vc \<Rightarrow> c1\<lparr>lfu_values := AList.update key (vc\<lparr>vc_value := f (vc_value vc)\<rparr>) (lfu_values c1)\<rparr>
      | None \<Rightarrow> c1)
   }"

definition lfu_evict ::
  "('b, 'k) linked_set_impl \<Rightarrow> ('b, 'k, 'v) lfu_cache \<Rightarrow> ('b, 'k, 'v) lfu_cache option" where
  "lfu_evict B c = do {
     least_frequently_used_keys \<leftarrow> frequency_bin c (min_frequency c);
     (case ls_pop_front B least_frequently_used_keys of
        (Some least_recently_used, b) \<Rightarrow>
          Some (c\<lparr>frequency_bin := (frequency_bin c)(min_frequency c \<mapsto> b), lfu_values := AList.delete least_recently_used (lfu_values c)\<rparr>)
      | (None, _) \<Rightarrow> None)
   }"

definition evict_and_return_key ::
  "('b, 'k) linked_set_impl \<Rightarrow> ('b, 'k, 'v) lfu_cache \<Rightarrow> ('k option \<times> ('b, 'k, 'v) lfu_cache) option" where
  "evict_and_return_key B c =
     (case frequency_bin c (min_frequency c) of
        Some least_frequently_used_keys \<Rightarrow>
          (case ls_pop_front B least_frequently_used_keys of
             (Some least_recently_used, b) \<Rightarrow>
               Some (Some least_recently_used,
                 c\<lparr>frequency_bin := (frequency_bin c)(min_frequency c \<mapsto> b), lfu_values := AList.delete least_recently_used (lfu_values c)\<rparr>)
           | (None, _) \<Rightarrow> None)
      | None \<Rightarrow> Some (None, c))"

definition evict_and_return_value ::
  "('b, 'k) linked_set_impl \<Rightarrow> ('b, 'k, 'v) lfu_cache \<Rightarrow> ('v option \<times> ('b, 'k, 'v) lfu_cache) option" where
  "evict_and_return_value B c =
     (case frequency_bin c (min_frequency c) of
        Some least_frequently_used_keys \<Rightarrow>
          (case ls_pop_front B least_frequently_used_keys of
             (Some least_recently_used, b) \<Rightarrow>
               Some (map_option vc_value (map_of (lfu_values c) least_recently_used),
                 c\<lparr>frequency_bin := (frequency_bin c)(min_frequency c \<mapsto> b), lfu_values := AList.delete least_recently_used (lfu_values c)\<rparr>)
           | (None, _) \<Rightarrow> None)
      | None \<Rightarrow> Some (None, c))"

text \<open>\<open>order\<close> is the order in which the hash map yields its pairs.\<close>

definition lfu_iter ::
  "(('k \<times> 'v value_counter) list \<Rightarrow> ('k \<times> 'v value_counter) list) \<Rightarrow> ('b, 'k, 'v) lfu_cache \<Rightarrow> ('k \<times> 'v) list" where
  "lfu_iter order c = map (\<lambda>(key, vc). (key, vc_value vc)) (order (lfu_values c))"

definition lfu_set ::
  "('b, 'k) linked_set_impl \<Rightarrow> 'k \<Rightarrow> 'v \<Rightarrow> ('b, 'k, 'v) lfu_cache \<Rightarrow> ('b, 'k, 'v) lfu_cache option" where
  "lfu_set B key value c =
     (case map_of (lfu_values c) key of
        Some value_counter \<Rightarrow>
          update_frequency_bin B key (c\<lparr>lfu_values := AList.update key (value_counter\<lparr>vc_value := value\<rparr>) (lfu_values c)\<rparr>)
      | None \<Rightarrow> do {
          c1 \<leftarrow> (if lfu_len c \<ge> lfu_capacity c then lfu_evict B c else Some c);
          let c2 = c1\<lparr>lfu_values := AList.update key \<lparr>vc_value = value, vc_count = 1\<rparr> (lfu_values c1), min_frequency := 1\<rparr>;
          Some (c2\<lparr>frequency_bin := (frequency_bin c2)(1 \<mapsto> ls_insert B key (bin_or_default B 1 c2))\<rparr>)
        })"

text \<open>\<^verbatim>\<open>lfu[index]\<close>\<close>

definition lfu_index :: "'k \<Rightarrow> ('b, 'k, 'v) lfu_cache \<Rightarrow> 'v option" where
  "lfu_index index c = map_option vc_value (map_of (lfu_values c) index)"

section \<open>\<^verbatim>\<open>LFUniCache\<close>\<close>

record ('le, 'ld, 'e) lf_unicache =
  lfu_cache_encoder :: 'le
  lfu_cache_decoder :: 'ld
  lfu_encoding :: 'e
  lfu_size :: usize

type_synonym ('be, 'bd, 'f, 'e) lfu_field_cache =
  "(('be, 'f, 'e) lfu_cache, ('bd, 'e, 'f) lfu_cache, 'e) lf_unicache"

definition lfu_unicache_new :: "usize \<Rightarrow> ('be, 'bd, 'f, 'w::len word) lfu_field_cache option" where
  "lfu_unicache_new n = do {
     enc \<leftarrow> with_capacity n;
     dec \<leftarrow> with_capacity n;
     Some \<lparr>lfu_cache_encoder = enc, lfu_cache_decoder = dec, lfu_encoding = 0, lfu_size = n\<rparr>
   }"

definition lfu_clone ::
  "('bd, 'w::len word) linked_set_impl \<Rightarrow>
     (('f \<times> 'w word value_counter) list \<Rightarrow> ('f \<times> 'w word value_counter) list) \<Rightarrow>
     ('be, 'bd, 'f, 'w word) lfu_field_cache \<Rightarrow> ('be, 'bd, 'f, 'w word) lfu_field_cache option" where
  "lfu_clone BD order c = do {
     dec \<leftarrow> with_capacity (lfu_size c);
     dec1 \<leftarrow> for_each (\<lambda>(encodable, encoded). lfu_set BD encoded encodable) (lfu_iter order (lfu_cache_encoder c)) dec;
     enc \<leftarrow> with_capacity 1;
     Some \<lparr>lfu_cache_encoder = enc, lfu_cache_decoder = dec1, lfu_encoding = lfu_encoding c, lfu_size = lfu_size c\<rparr>
   }"

definition lfu_try_encode ::
  "('be, 'f) linked_set_impl \<Rightarrow> 'f \<Rightarrow> ('be, 'bd, 'f, 'w::len word) lfu_field_cache \<Rightarrow>
     (('f, 'w word) maybe_encoded \<times> ('be, 'bd, 'f, 'w word) lfu_field_cache) option" where
  "lfu_try_encode BE field c = do {
     (found, enc) \<leftarrow> lfu_get BE field (lfu_cache_encoder c);
     (case found of
        Some encoding \<Rightarrow> Some (Encoded encoding, c\<lparr>lfu_cache_encoder := enc\<rparr>)
      | None \<Rightarrow>
          if lfu_len enc = lfu_size c
          then do {
            (popped, enc1) \<leftarrow> evict_and_return_value BE enc;
            popped_encoding \<leftarrow> popped;
            enc2 \<leftarrow> lfu_set BE field popped_encoding enc1;
            Some (NotEncoded field, c\<lparr>lfu_cache_encoder := enc2\<rparr>)
          }
          else do {
            added \<leftarrow> checked_inc (lfu_encoding c);
            enc2 \<leftarrow> lfu_set BE field added enc;
            Some (NotEncoded field, c\<lparr>lfu_cache_encoder := enc2, lfu_encoding := added\<rparr>)
          })
   }"

definition lfu_decode ::
  "('bd, 'w::len word) linked_set_impl \<Rightarrow> ('f, 'w word) maybe_encoded \<Rightarrow> ('be, 'bd, 'f, 'w word) lfu_field_cache \<Rightarrow>
     ('f \<times> ('be, 'bd, 'f, 'w word) lfu_field_cache) option" where
  "lfu_decode BD result c =
     (case result of
        Encoded encoding \<Rightarrow> do {
          (found, dec) \<leftarrow> lfu_get BD encoding (lfu_cache_decoder c);
          field \<leftarrow> found;
          Some (field, c\<lparr>lfu_cache_decoder := dec\<rparr>)
        }
      | NotEncoded not_encodable \<Rightarrow>
          if lfu_len (lfu_cache_decoder c) = lfu_size c
          then do {
            (popped, dec1) \<leftarrow> evict_and_return_key BD (lfu_cache_decoder c);
            popped_encoded \<leftarrow> popped;
            dec2 \<leftarrow> lfu_set BD popped_encoded not_encodable dec1;
            Some (not_encodable, c\<lparr>lfu_cache_decoder := dec2\<rparr>)
          }
          else do {
            added \<leftarrow> checked_inc (lfu_encoding c);
            dec2 \<leftarrow> lfu_set BD added not_encodable (lfu_cache_decoder c);
            Some (not_encodable, c\<lparr>lfu_cache_decoder := dec2, lfu_encoding := added\<rparr>)
          })"

definition lfu_unicache ::
  "('be, 'f) linked_set_impl \<Rightarrow> ('bd, 'w::len word) linked_set_impl \<Rightarrow>
     (('f \<times> 'w word value_counter) list \<Rightarrow> ('f \<times> 'w word value_counter) list) \<Rightarrow> usize \<Rightarrow>
     (('be, 'bd, 'f, 'w word) lfu_field_cache, 'f, ('f, 'w word) maybe_encoded) unicache_impl" where
  "lfu_unicache BE BD order n = \<lparr>uc_new = lfu_unicache_new n, uc_try_encode = lfu_try_encode BE,
     uc_decode = lfu_decode BD, uc_clone = lfu_clone BD order\<rparr>"

section \<open>The invariant of the cache\<close>

text \<open>
  Every key stands in the bin of its count, once, and in no other; the bin of the least frequency is not
  empty unless the cache is.
\<close>

context linked_set
begin

definition bin :: "('b, 'k, 'v) lfu_cache \<Rightarrow> usize \<Rightarrow> 'k list" where
  "bin c n = (case frequency_bin c n of None \<Rightarrow> [] | Some b \<Rightarrow> ls_iter B b)"

definition lfu_wf :: "('b, 'k, 'v) lfu_cache \<Rightarrow> bool" where
  "lfu_wf c \<longleftrightarrow> distinct (map fst (lfu_values c)) \<and> length (lfu_values c) \<le> lfu_capacity c \<and> (\<forall>n. distinct (bin c n)) \<and>
     (\<forall>n k. k \<in> set (bin c n) \<longleftrightarrow> map_option vc_count (map_of (lfu_values c) k) = Some n)"

definition least_ok :: "('b, 'k, 'v) lfu_cache \<Rightarrow> bool" where
  "least_ok c \<longleftrightarrow> (lfu_values c \<noteq> [] \<longrightarrow> bin c (min_frequency c) \<noteq> [])"

text \<open>The pairs of a bin, in its order.\<close>

definition items :: "('b, 'k, 'v) lfu_cache \<Rightarrow> usize \<Rightarrow> ('k \<times> 'v) list" where
  "items c n = map (\<lambda>k. (k, vc_value (the (map_of (lfu_values c) k)))) (bin c n)"

lemma iter_bin_or_default [simp]: "ls_iter B (bin_or_default B n c) = bin c n"
  by (simp add: bin_or_default_def bin_def split: option.split)

lemma map_fst_items [simp]: "map fst (items c n) = bin c n"
  by (simp add: items_def comp_def)

lemma items_Nil [simp]: "items c n = [] \<longleftrightarrow> bin c n = []"
  by (simp add: items_def)

lemma items_lookup:
  "lfu_wf c \<Longrightarrow> (k, v) \<in> set (items c n) \<longleftrightarrow> map_of (lfu_values c) k = Some \<lparr>vc_value = v, vc_count = n\<rparr>"
  by (cases "map_of (lfu_values c) k") (auto simp: lfu_wf_def items_def image_iff)

lemma length_delete:
  assumes "distinct (map fst xs)" "map_of xs k = Some v"
  shows "Suc (length (AList.delete k xs)) = length xs"
proof -
  have "AList.delete k xs = without k xs" by (auto simp: AList.delete_eq without_def intro: filter_cong)
  then show ?thesis using length_without [OF assms(1) map_of_SomeD [OF assms(2)]] by simp
qed

lemma length_update: "length (AList.update k v xs) = (if k \<in> fst ` set xs then length xs else Suc (length xs))"
  by (induction xs) auto

text \<open>A hit moves the pair to the end of the next bin.\<close>

lemma update_hit:
  assumes wf: "lfu_wf c" "least_ok c" and k: "map_of (lfu_values c) k = Some \<lparr>vc_value = v, vc_count = n\<rparr>"
  shows "\<exists>c'. update_frequency_bin B k c = Some c' \<and> lfu_wf c' \<and> least_ok c' \<and> lfu_capacity c' = lfu_capacity c \<and>
    length (lfu_values c') = length (lfu_values c) \<and> map_of (lfu_values c') = (map_of (lfu_values c))(k \<mapsto> \<lparr>vc_value = v, vc_count = n + 1\<rparr>) \<and>
    items c' = (items c)(n := without k (items c n), n + 1 := items c (n + 1) @ [(k, v)]) \<and>
    min_frequency c' = (if n = min_frequency c \<and> without k (items c n) = [] then n + 1 else min_frequency c)"
proof -
  have kn: "k \<in> set (bin c m) \<longleftrightarrow> m = n" for m using wf k by (auto simp: lfu_wf_def)
  from kn [of n] obtain b where b: "frequency_bin c n = Some b" "ls_iter B b = bin c n"
    by (cases "frequency_bin c n") (auto simp: bin_def)
  have dist: "distinct (bin c m)" for m using wf by (simp add: lfu_wf_def)
  let ?b = "ls_remove B k b"
  define c' where "c' = \<lparr>lfu_values = AList.update k \<lparr>vc_value = v, vc_count = n + 1\<rparr> (lfu_values c),
     frequency_bin = (frequency_bin c)(n \<mapsto> ?b, n + 1 \<mapsto> ls_insert B k (bin_or_default B (n + 1) c)),
     lfu_capacity = lfu_capacity c,
     min_frequency = (if n = min_frequency c \<and> ls_iter B ?b = [] then n + 1 else min_frequency c)\<rparr>"
  have upd: "update_frequency_bin B k c = Some c'"
    using k b unfolding c'_def by (auto simp: update_frequency_bin_def vc_inc_def bin_or_default_def)
  have bins: "bin c' m = (if m = n + 1 then bin c m @ [k] else if m = n then filter (\<lambda>k'. k' \<noteq> k) (bin c n) else bin c m)" for m
  proof -
    have "bin c' m = (if m = n + 1 then ls_iter B (ls_insert B k (bin_or_default B (n + 1) c)) else if m = n then ls_iter B ?b else bin c m)"
      by (simp add: bin_def c'_def)
    then show ?thesis using b(2) dist [of n] kn [of "n + 1"] by simp
  qed
  have vals: "map_of (lfu_values c') = (map_of (lfu_values c))(k \<mapsto> \<lparr>vc_value = v, vc_count = n + 1\<rparr>)"
    by (simp add: AList.update_conv' c'_def)
  have mem: "k' \<in> set (bin c' m) \<longleftrightarrow> (if k' = k then m = n + 1 else k' \<in> set (bin c m))" for k' m
    using kn by (auto simp: bins)
  have k_in: "k \<in> fst ` set (lfu_values c)" using k by (force dest: map_of_SomeD)
  then have len: "length (lfu_values c') = length (lfu_values c)" "lfu_capacity c' = lfu_capacity c"
    by (simp_all add: c'_def length_update)
  have dist': "distinct (bin c' m)" for m using dist kn by (simp add: bins)
  have vals': "distinct (map fst (lfu_values c'))" using wf(1) by (simp add: lfu_wf_def c'_def AList.distinct_update)
  have "lfu_wf c'"
    using dist' vals' len wf(1) mem by (auto simp: lfu_wf_def vals)
  moreover have its: "items c' = (items c)(n := without k (items c n), n + 1 := items c (n + 1) @ [(k, v)])"
    using kn vals by (auto simp: fun_eq_iff items_def bins without_def filter_map comp_def intro!: map_cong filter_cong)
  moreover have "ls_iter B ?b = [] \<longleftrightarrow> without k (items c n) = []"
    using b dist [of n] by (simp add: without_def items_def filter_map comp_def)
  moreover have mf: "min_frequency c' = (if n = min_frequency c \<and> ls_iter B ?b = [] then n + 1 else min_frequency c)"
    by (simp add: c'_def)
  moreover have "least_ok c'"
  proof -
    have "bin c (min_frequency c) \<noteq> []" using wf(2) k_in by (auto simp: least_ok_def)
    moreover have "ls_iter B ?b = filter (\<lambda>k'. k' \<noteq> k) (bin c n)" using b(2) dist [of n] by simp
    ultimately have "bin c' (min_frequency c') \<noteq> []"
      by (cases "n = min_frequency c"; cases "ls_iter B ?b = []") (simp_all add: mf bins)
    then show ?thesis by (simp add: least_ok_def)
  qed
  ultimately show ?thesis using upd vals len by auto
qed

text \<open>Eviction takes the first pair of the least frequent bin; both variants leave the same cache.\<close>

lemma evict_ok:
  assumes wf: "lfu_wf c" "least_ok c" and ne: "lfu_values c \<noteq> []"
  shows "\<exists>k v xs c'. items c (min_frequency c) = (k, v) # xs \<and> evict_and_return_key B c = Some (Some k, c') \<and>
    evict_and_return_value B c = Some (Some v, c') \<and> lfu_wf c' \<and> lfu_capacity c' = lfu_capacity c \<and>
    Suc (length (lfu_values c')) = length (lfu_values c) \<and> map_of (lfu_values c') = (map_of (lfu_values c))(k := None) \<and>
    items c' = (items c)(min_frequency c := xs) \<and> min_frequency c' = min_frequency c"
proof -
  let ?m = "min_frequency c"
  obtain k ks where ks: "bin c ?m = k # ks" using wf(2) ne by (cases "bin c ?m") (auto simp: least_ok_def)
  then obtain b where b: "frequency_bin c ?m = Some b" "ls_iter B b = k # ks"
    by (cases "frequency_bin c ?m") (auto simp: bin_def)
  obtain b' where b': "ls_pop_front B b = (Some k, b')" "ls_iter B b' = ks" using pop_front_ok [OF b(2)] by blast
  have dist: "distinct (bin c m)" for m using wf by (simp add: lfu_wf_def)
  have kn: "k \<in> set (bin c m) \<longleftrightarrow> m = ?m" for m
  proof -
    have "k \<in> set (bin c ?m)" by (simp add: ks)
    then show ?thesis using wf(1) unfolding lfu_wf_def by (metis option.inject)
  qed
  obtain vc where vc: "map_of (lfu_values c) k = Some vc" using wf(1) kn [of ?m] by (auto simp: lfu_wf_def)
  define c' where "c' = c\<lparr>frequency_bin := (frequency_bin c)(?m \<mapsto> b'), lfu_values := AList.delete k (lfu_values c)\<rparr>"
  have ev: "evict_and_return_key B c = Some (Some k, c')" "evict_and_return_value B c = Some (Some (vc_value vc), c')"
    using b b' vc by (simp_all add: evict_and_return_key_def evict_and_return_value_def c'_def)
  have bins: "bin c' m = (if m = ?m then ks else bin c m)" for m using b' by (simp add: bin_def c'_def)
  have vals: "map_of (lfu_values c') = (map_of (lfu_values c))(k := None)" by (simp add: AList.delete_conv' c'_def)
  have mem: "k' \<in> set (bin c' m) \<longleftrightarrow> k' \<noteq> k \<and> k' \<in> set (bin c m)" for k' m
    using kn dist [of ?m] ks by (auto simp: bins)
  have len: "Suc (length (lfu_values c')) = length (lfu_values c)"
    using length_delete [OF _ vc] wf(1) by (simp add: lfu_wf_def c'_def)
  have cap: "lfu_capacity c' = lfu_capacity c" "min_frequency c' = ?m" by (simp_all add: c'_def)
  have dist': "distinct (bin c' m)" for m using dist [of m] dist [of ?m] ks by (auto simp: bins)
  have vals': "distinct (map fst (lfu_values c'))" using wf(1) by (simp add: lfu_wf_def c'_def AList.distinct_delete)
  have "lfu_wf c'"
    using dist' vals' len cap wf(1) mem by (auto simp: lfu_wf_def vals)
  moreover have "items c ?m = (k, vc_value vc) # map (\<lambda>k. (k, vc_value (the (map_of (lfu_values c) k)))) ks"
    using vc by (simp add: items_def ks)
  moreover have "items c' = (items c)(?m := map (\<lambda>k. (k, vc_value (the (map_of (lfu_values c) k)))) ks)"
    using kn dist [of ?m] ks vals by (auto simp: fun_eq_iff items_def bins)
  ultimately show ?thesis using ev vals len cap by (intro exI conjI) (assumption | simp)+
qed

text \<open>A new pair goes to the end of the first bin.\<close>

lemma set_fresh:
  assumes wf: "lfu_wf c" and k: "map_of (lfu_values c) k = None" and room: "length (lfu_values c) < lfu_capacity c"
  shows "\<exists>c'. lfu_set B k v c = Some c' \<and> lfu_wf c' \<and> least_ok c' \<and> lfu_capacity c' = lfu_capacity c \<and>
    length (lfu_values c') = Suc (length (lfu_values c)) \<and> map_of (lfu_values c') = (map_of (lfu_values c))(k \<mapsto> \<lparr>vc_value = v, vc_count = 1\<rparr>) \<and>
    items c' = (items c)(1 := items c 1 @ [(k, v)]) \<and> min_frequency c' = 1"
proof -
  have kn: "k \<notin> set (bin c m)" for m using wf k by (auto simp: lfu_wf_def)
  have dist: "distinct (bin c m)" for m using wf by (simp add: lfu_wf_def)
  define c' where "c' = c\<lparr>lfu_values := AList.update k \<lparr>vc_value = v, vc_count = 1\<rparr> (lfu_values c), min_frequency := 1,
     frequency_bin := (frequency_bin c)(1 \<mapsto> ls_insert B k (bin_or_default B 1 c))\<rparr>"
  have st: "lfu_set B k v c = Some c'" using k room by (simp add: lfu_set_def lfu_len_def bin_or_default_def c'_def)
  have bins: "bin c' m = (if m = 1 then bin c m @ [k] else bin c m)" for m
  proof -
    have "bin c' m = (if m = 1 then ls_iter B (ls_insert B k (bin_or_default B 1 c)) else bin c m)"
      by (simp add: bin_def c'_def)
    then show ?thesis using kn [of 1] by simp
  qed
  have vals: "map_of (lfu_values c') = (map_of (lfu_values c))(k \<mapsto> \<lparr>vc_value = v, vc_count = 1\<rparr>)"
    by (simp add: AList.update_conv' c'_def)
  have mem: "k' \<in> set (bin c' m) \<longleftrightarrow> (if k' = k then m = 1 else k' \<in> set (bin c m))" for k' m
    using kn by (auto simp: bins)
  have len: "length (lfu_values c') = Suc (length (lfu_values c))"
    using k by (simp add: length_update map_of_eq_None_iff c'_def)
  have cap: "lfu_capacity c' = lfu_capacity c" "min_frequency c' = 1" by (simp_all add: c'_def)
  have dist': "distinct (bin c' m)" for m using dist kn by (simp add: bins)
  have vals': "distinct (map fst (lfu_values c'))" using wf by (simp add: lfu_wf_def c'_def AList.distinct_update)
  have "lfu_wf c'"
    using dist' vals' len cap room wf mem by (auto simp: lfu_wf_def vals)
  moreover have "items c' = (items c)(1 := items c 1 @ [(k, v)])"
    using kn vals by (auto simp: fun_eq_iff items_def bins)
  moreover have "least_ok c'" by (simp add: least_ok_def bins cap)
  ultimately show ?thesis using st vals len cap by auto
qed

lemma with_capacity_ok:
  "0 < n \<Longrightarrow> \<exists>c. with_capacity n = Some c \<and> lfu_wf c \<and> least_ok c \<and> lfu_capacity c = n \<and> lfu_values c = [] \<and>
     items c = (\<lambda>_. []) \<and> min_frequency c = 0"
  by (auto simp: with_capacity_def lfu_wf_def least_ok_def bin_def items_def)

end

context linked_set
begin

text \<open>A set that is written and read back keeps its order.\<close>

lemma visit_seq_ok:
  assumes "distinct (ls_iter B b)"
  shows "ls_iter B (ls_visit_seq B (ls_serialize B b)) = ls_iter B b"
proof -
  have "ls_iter B (fold (ls_insert B) ks b0) = ls_iter B b0 @ ks" if "distinct (ls_iter B b0 @ ks)" for ks b0
    using that by (induction ks arbitrary: b0) auto
  from this [of "ls_default B"] show ?thesis using assms by (simp add: ls_visit_seq_def ls_serialize_def)
qed

end

section \<open>Encoder and decoder in step\<close>

locale lfu_pair = enc: linked_set BE + dec: linked_set BD
  for BE :: "('be, 'f) linked_set_impl" and BD :: "('bd, 'w::len word) linked_set_impl"
begin

text \<open>The two caches hold the same pairs, exchanged, in the same bins and the same order.\<close>

definition mirrors :: "('be, 'f, 'w word) lfu_cache \<Rightarrow> ('bd, 'w word, 'f) lfu_cache \<Rightarrow> bool" where
  "mirrors e d \<longleftrightarrow> enc.lfu_wf e \<and> dec.lfu_wf d \<and> (\<forall>n. dec.items d n = map prod.swap (enc.items e n)) \<and>
     min_frequency d = min_frequency e \<and> length (lfu_values d) = length (lfu_values e) \<and> lfu_capacity d = lfu_capacity e"

definition in_step :: "('be, 'bd, 'f, 'w word) lfu_field_cache \<Rightarrow> ('be, 'bd, 'f, 'w word) lfu_field_cache \<Rightarrow> bool" where
  "in_step c d \<longleftrightarrow> mirrors (lfu_cache_encoder c) (lfu_cache_decoder d) \<and>
     enc.least_ok (lfu_cache_encoder c) \<and> dec.least_ok (lfu_cache_decoder d) \<and>
     lfu_capacity (lfu_cache_encoder c) = lfu_size c \<and> lfu_size d = lfu_size c \<and> 0 < lfu_size c \<and> lfu_size c < 2 ^ LENGTH('w) \<and>
     lfu_encoding d = lfu_encoding c \<and> unat (lfu_encoding c) = length (lfu_values (lfu_cache_encoder c)) \<and>
     (\<forall>f vc. map_of (lfu_values (lfu_cache_encoder c)) f = Some vc \<longrightarrow> vc_value vc \<le> lfu_encoding c)"

lemma mirrors_lookup:
  assumes "mirrors e d"
  shows "map_of (lfu_values d) x = Some \<lparr>vc_value = f, vc_count = n\<rparr> \<longleftrightarrow>
    map_of (lfu_values e) f = Some \<lparr>vc_value = x, vc_count = n\<rparr>"
proof -
  have wf: "enc.lfu_wf e" "dec.lfu_wf d" using assms by (simp_all add: mirrors_def)
  have "map_of (lfu_values d) x = Some \<lparr>vc_value = f, vc_count = n\<rparr> \<longleftrightarrow> (x, f) \<in> set (dec.items d n)"
    by (simp add: dec.items_lookup [OF wf(2)])
  also have "\<dots> \<longleftrightarrow> (f, x) \<in> set (enc.items e n)" using assms by (force simp: mirrors_def image_iff)
  also have "\<dots> \<longleftrightarrow> map_of (lfu_values e) f = Some \<lparr>vc_value = x, vc_count = n\<rparr>"
    by (simp add: enc.items_lookup [OF wf(1)])
  finally show ?thesis .
qed

lemma mirrors_distinct:
  assumes "mirrors e d"
  shows "distinct (map fst (enc.items e n))" "distinct (map snd (enc.items e n))"
proof -
  show "distinct (map fst (enc.items e n))" using assms by (simp add: mirrors_def enc.lfu_wf_def)
  have "distinct (dec.bin d n)" using assms by (simp add: mirrors_def dec.lfu_wf_def)
  then have "distinct (map fst (dec.items d n))" by simp
  then show "distinct (map snd (enc.items e n))" using assms by (simp add: mirrors_def comp_def del: dec.map_fst_items)
qed

lemma hit_step:
  assumes s: "in_step c d" and hit: "map_of (lfu_values (lfu_cache_encoder c)) x = Some \<lparr>vc_value = e, vc_count = n\<rparr>"
  shows "\<exists>c' d'. lfu_try_encode BE x c = Some (Encoded e, c') \<and> lfu_decode BD (Encoded e) d = Some (x, d') \<and> in_step c' d'"
proof -
  let ?e = "lfu_cache_encoder c" and ?d = "lfu_cache_decoder d"
  have m: "mirrors ?e ?d" using s by (simp add: in_step_def)
  have hit': "map_of (lfu_values ?d) e = Some \<lparr>vc_value = x, vc_count = n\<rparr>" using mirrors_lookup [OF m] hit by simp
  have "(x, e) \<in> set (enc.items ?e n)" using enc.items_lookup [of ?e x e n] hit m by (simp add: mirrors_def)
  note sw = without_swap [OF mirrors_distinct [OF m] this]
  obtain e' where e': "update_frequency_bin BE x ?e = Some e'" "enc.lfu_wf e'" "enc.least_ok e'" "lfu_capacity e' = lfu_capacity ?e"
    "length (lfu_values e') = length (lfu_values ?e)" "map_of (lfu_values e') = (map_of (lfu_values ?e))(x \<mapsto> \<lparr>vc_value = e, vc_count = n + 1\<rparr>)"
    "enc.items e' = (enc.items ?e)(n := without x (enc.items ?e n), n + 1 := enc.items ?e (n + 1) @ [(x, e)])"
    "min_frequency e' = (if n = min_frequency ?e \<and> without x (enc.items ?e n) = [] then n + 1 else min_frequency ?e)"
    using enc.update_hit [OF _ _ hit] s by (auto simp: in_step_def mirrors_def)
  obtain d' where d': "update_frequency_bin BD e ?d = Some d'" "dec.lfu_wf d'" "dec.least_ok d'" "lfu_capacity d' = lfu_capacity ?d"
    "length (lfu_values d') = length (lfu_values ?d)" "map_of (lfu_values d') = (map_of (lfu_values ?d))(e \<mapsto> \<lparr>vc_value = x, vc_count = n + 1\<rparr>)"
    "dec.items d' = (dec.items ?d)(n := without e (dec.items ?d n), n + 1 := dec.items ?d (n + 1) @ [(e, x)])"
    "min_frequency d' = (if n = min_frequency ?d \<and> without e (dec.items ?d n) = [] then n + 1 else min_frequency ?d)"
    using dec.update_hit [OF _ _ hit'] s by (auto simp: in_step_def mirrors_def)
  have "mirrors e' d'" using m e' d' sw by (auto simp: mirrors_def)
  moreover have "vc_value \<lparr>vc_value = e, vc_count = n\<rparr> \<le> lfu_encoding c" using s hit unfolding in_step_def by blast
  ultimately have "in_step (c\<lparr>lfu_cache_encoder := e'\<rparr>) (d\<lparr>lfu_cache_decoder := d'\<rparr>)"
    using s e' d' by (auto simp: in_step_def)
  then show ?thesis using e'(1,6) d'(1,6) by (auto simp: lfu_try_encode_def lfu_decode_def lfu_get_def)
qed

text \<open>Both sides add a pair that is new to them.\<close>

lemma set_mirrors:
  assumes m: "mirrors e d" and new: "map_of (lfu_values e) x = None" "map_of (lfu_values d) k = None"
    and room: "length (lfu_values e) < lfu_capacity e"
  shows "\<exists>e' d'. lfu_set BE x k e = Some e' \<and> lfu_set BD k x d = Some d' \<and> mirrors e' d' \<and> enc.least_ok e' \<and> dec.least_ok d' \<and>
    lfu_capacity e' = lfu_capacity e \<and> length (lfu_values e') = Suc (length (lfu_values e)) \<and>
    map_of (lfu_values e') = (map_of (lfu_values e))(x \<mapsto> \<lparr>vc_value = k, vc_count = 1\<rparr>)"
proof -
  have wf: "enc.lfu_wf e" "dec.lfu_wf d" "length (lfu_values d) < lfu_capacity d" using m room by (auto simp: mirrors_def)
  obtain e' where e': "lfu_set BE x k e = Some e'" "enc.lfu_wf e'" "enc.least_ok e'" "lfu_capacity e' = lfu_capacity e"
    "length (lfu_values e') = Suc (length (lfu_values e))" "map_of (lfu_values e') = (map_of (lfu_values e))(x \<mapsto> \<lparr>vc_value = k, vc_count = 1\<rparr>)"
    "enc.items e' = (enc.items e)(1 := enc.items e 1 @ [(x, k)])" "min_frequency e' = 1"
    using enc.set_fresh [OF wf(1) new(1) room, of k] by blast
  obtain d' where d': "lfu_set BD k x d = Some d'" "dec.lfu_wf d'" "dec.least_ok d'" "lfu_capacity d' = lfu_capacity d"
    "length (lfu_values d') = Suc (length (lfu_values d))" "map_of (lfu_values d') = (map_of (lfu_values d))(k \<mapsto> \<lparr>vc_value = x, vc_count = 1\<rparr>)"
    "dec.items d' = (dec.items d)(1 := dec.items d 1 @ [(k, x)])" "min_frequency d' = 1"
    using dec.set_fresh [OF wf(2) new(2) wf(3), of x] by blast
  have "mirrors e' d'" using m e' d' by (auto simp: mirrors_def)
  then show ?thesis using e' d' by blast
qed

lemma evict_mirrors:
  assumes m: "mirrors e d" "enc.least_ok e" "dec.least_ok d" and ne: "lfu_values e \<noteq> []"
  shows "\<exists>f k e' d'. map_of (lfu_values e) f = Some \<lparr>vc_value = k, vc_count = min_frequency e\<rparr> \<and>
    evict_and_return_value BE e = Some (Some k, e') \<and> evict_and_return_key BD d = Some (Some k, d') \<and> mirrors e' d' \<and>
    lfu_capacity e' = lfu_capacity e \<and> Suc (length (lfu_values e')) = length (lfu_values e) \<and>
    map_of (lfu_values e') = (map_of (lfu_values e))(f := None) \<and> map_of (lfu_values d') k = None"
proof -
  have wf: "enc.lfu_wf e" "dec.lfu_wf d" "lfu_values d \<noteq> []" using m ne by (auto simp: mirrors_def)
  obtain f k xs e' where e': "enc.items e (min_frequency e) = (f, k) # xs" "evict_and_return_value BE e = Some (Some k, e')"
    "enc.lfu_wf e'" "lfu_capacity e' = lfu_capacity e" "Suc (length (lfu_values e')) = length (lfu_values e)"
    "map_of (lfu_values e') = (map_of (lfu_values e))(f := None)" "enc.items e' = (enc.items e)(min_frequency e := xs)"
    "min_frequency e' = min_frequency e"
    using enc.evict_ok [OF wf(1) m(2) ne] by blast
  obtain k2 f2 ys d' where d': "dec.items d (min_frequency d) = (k2, f2) # ys" "evict_and_return_key BD d = Some (Some k2, d')"
    "dec.lfu_wf d'" "lfu_capacity d' = lfu_capacity d" "Suc (length (lfu_values d')) = length (lfu_values d)"
    "map_of (lfu_values d') = (map_of (lfu_values d))(k2 := None)" "dec.items d' = (dec.items d)(min_frequency d := ys)"
    "min_frequency d' = min_frequency d"
    using dec.evict_ok [OF wf(2) m(3) wf(3)] by blast
  have eq: "k2 = k" "ys = map prod.swap xs" using m(1) e'(1) d'(1) by (auto simp: mirrors_def)
  have "mirrors e' d'" using m(1) e' d' eq by (auto simp: mirrors_def)
  moreover have "map_of (lfu_values e) f = Some \<lparr>vc_value = k, vc_count = min_frequency e\<rparr>"
    using enc.items_lookup [OF wf(1), of f k "min_frequency e"] e'(1) by simp
  ultimately show ?thesis using e' d' eq by (intro exI conjI) (assumption | simp)+
qed

lemma full_step:
  assumes s: "in_step c d" and miss: "map_of (lfu_values (lfu_cache_encoder c)) x = None"
    and full: "length (lfu_values (lfu_cache_encoder c)) = lfu_size c"
  shows "\<exists>c' d'. lfu_try_encode BE x c = Some (NotEncoded x, c') \<and> lfu_decode BD (NotEncoded x) d = Some (x, d') \<and> in_step c' d'"
proof -
  let ?e = "lfu_cache_encoder c" and ?d = "lfu_cache_decoder d"
  have m: "mirrors ?e ?d" "enc.least_ok ?e" "dec.least_ok ?d" and ne: "lfu_values ?e \<noteq> []"
    using s full by (auto simp: in_step_def)
  obtain f k e1 d1 where ev: "map_of (lfu_values ?e) f = Some \<lparr>vc_value = k, vc_count = min_frequency ?e\<rparr>"
    "evict_and_return_value BE ?e = Some (Some k, e1)" "evict_and_return_key BD ?d = Some (Some k, d1)" "mirrors e1 d1"
    "lfu_capacity e1 = lfu_capacity ?e" "Suc (length (lfu_values e1)) = length (lfu_values ?e)"
    "map_of (lfu_values e1) = (map_of (lfu_values ?e))(f := None)" "map_of (lfu_values d1) k = None"
    using evict_mirrors [OF m ne] by blast
  have "length (lfu_values e1) < lfu_capacity e1" using ev(5,6) full s by (auto simp: in_step_def)
  moreover have "map_of (lfu_values e1) x = None" using ev(7) miss by simp
  ultimately obtain e2 d2 where st: "lfu_set BE x k e1 = Some e2" "lfu_set BD k x d1 = Some d2" "mirrors e2 d2" "enc.least_ok e2"
    "dec.least_ok d2" "lfu_capacity e2 = lfu_capacity e1" "length (lfu_values e2) = Suc (length (lfu_values e1))"
    "map_of (lfu_values e2) = (map_of (lfu_values e1))(x \<mapsto> \<lparr>vc_value = k, vc_count = 1\<rparr>)"
    using set_mirrors [OF ev(4) _ ev(8)] by blast
  have "vc_value \<lparr>vc_value = k, vc_count = min_frequency ?e\<rparr> \<le> lfu_encoding c" using s ev(1) unfolding in_step_def by blast
  then have "in_step (c\<lparr>lfu_cache_encoder := e2\<rparr>) (d\<lparr>lfu_cache_decoder := d2\<rparr>)"
    using s st ev full by (auto simp: in_step_def split: if_splits)
  moreover have "lfu_len ?e = lfu_size c" "lfu_len ?d = lfu_size d"
    using s m full by (auto simp: in_step_def mirrors_def lfu_len_def)
  ultimately show ?thesis using miss ev st
    by (auto simp: lfu_try_encode_def lfu_decode_def lfu_get_def update_frequency_bin_def)
qed

lemma fresh_step:
  assumes s: "in_step c d" and miss: "map_of (lfu_values (lfu_cache_encoder c)) x = None"
    and room: "length (lfu_values (lfu_cache_encoder c)) < lfu_size c"
  shows "\<exists>c' d'. lfu_try_encode BE x c = Some (NotEncoded x, c') \<and> lfu_decode BD (NotEncoded x) d = Some (x, d') \<and> in_step c' d'"
proof -
  let ?e = "lfu_cache_encoder c" and ?d = "lfu_cache_decoder d" and ?a = "lfu_encoding c + 1"
  have m: "mirrors ?e ?d" using s by (simp add: in_step_def)
  have "unat (lfu_encoding c) < 2 ^ LENGTH('w) - 1" using s room by (auto simp: in_step_def)
  note inc = checked_inc_room [OF this]
  have bound: "vc_value vc \<le> lfu_encoding c" if "map_of (lfu_values ?e) f = Some vc" for f vc
    using s that unfolding in_step_def by blast
  have new: "map_of (lfu_values ?d) ?a = None"
  proof (rule ccontr)
    assume "map_of (lfu_values ?d) ?a \<noteq> None"
    then obtain f n where "map_of (lfu_values ?d) ?a = Some \<lparr>vc_value = f, vc_count = n\<rparr>"
      by (metis not_None_eq value_counter.surjective unit.exhaust)
    with bound [of f] mirrors_lookup [OF m] have "?a \<le> lfu_encoding c" by fastforce
    with inc(2) show False by simp
  qed
  obtain e2 d2 where st: "lfu_set BE x ?a ?e = Some e2" "lfu_set BD ?a x ?d = Some d2" "mirrors e2 d2" "enc.least_ok e2"
    "dec.least_ok d2" "lfu_capacity e2 = lfu_capacity ?e" "length (lfu_values e2) = Suc (length (lfu_values ?e))"
    "map_of (lfu_values e2) = (map_of (lfu_values ?e))(x \<mapsto> \<lparr>vc_value = ?a, vc_count = 1\<rparr>)"
    using set_mirrors [OF m miss new] room s by (auto simp: in_step_def)
  have "vc_value vc \<le> ?a" if "map_of (lfu_values e2) f = Some vc" for f vc
    using that st(8) bound [of f vc] inc(2) by (auto split: if_splits)
  then have "in_step (c\<lparr>lfu_cache_encoder := e2, lfu_encoding := ?a\<rparr>) (d\<lparr>lfu_cache_decoder := d2, lfu_encoding := ?a\<rparr>)"
    using s st inc(3) by (auto simp: in_step_def)
  moreover have "lfu_len ?e \<noteq> lfu_size c" "lfu_len ?d \<noteq> lfu_size d" "lfu_encoding d = lfu_encoding c"
    using s m room by (auto simp: in_step_def mirrors_def lfu_len_def)
  ultimately show ?thesis using miss inc(1) st
    by (auto simp: lfu_try_encode_def lfu_decode_def lfu_get_def update_frequency_bin_def)
qed

lemma lfu_step:
  assumes "in_step c d"
  shows "\<exists>m c' d'. lfu_try_encode BE x c = Some (m, c') \<and> lfu_decode BD m d = Some (x, d') \<and> in_step c' d'"
proof (cases "map_of (lfu_values (lfu_cache_encoder c)) x")
  case (Some vc)
  then show ?thesis using hit_step [OF assms, of x "vc_value vc" "vc_count vc"] by (cases vc) auto
next
  case None
  have "length (lfu_values (lfu_cache_encoder c)) \<le> lfu_size c"
    using assms by (auto simp: in_step_def mirrors_def enc.lfu_wf_def)
  then show ?thesis using full_step [OF assms None] fresh_step [OF assms None] unfolding le_less by blast
qed

lemma new_in_step:
  assumes "0 < n" "n < 2 ^ LENGTH('w)"
  shows "\<exists>c. lfu_unicache_new n = Some c \<and> in_step c c"
proof -
  obtain e :: "('be, 'f, 'w word) lfu_cache" where e: "with_capacity n = Some e" "enc.lfu_wf e" "enc.least_ok e" "lfu_capacity e = n"
    "lfu_values e = []" "enc.items e = (\<lambda>_. [])" "min_frequency e = 0"
    using enc.with_capacity_ok [OF assms(1)] by blast
  obtain d :: "('bd, 'w word, 'f) lfu_cache" where d: "with_capacity n = Some d" "dec.lfu_wf d" "dec.least_ok d" "lfu_capacity d = n"
    "lfu_values d = []" "dec.items d = (\<lambda>_. [])" "min_frequency d = 0"
    using dec.with_capacity_ok [OF assms(1)] by blast
  show ?thesis using e d assms by (simp add: lfu_unicache_new_def in_step_def mirrors_def)
qed

end

sublocale lfu_pair \<subseteq> cache: unicache_pair "lfu_unicache BE BD order n" in_step for order n
  by unfold_locales (use lfu_step in \<open>simp add: lfu_unicache_def\<close>)

context lfu_pair
begin

lemma lfu_roundtrip:
  assumes "0 < n" "n < 2 ^ LENGTH('w)"
  shows "\<exists>u ms u' d'. uc_new (lfu_unicache BE BD order n) = Some u \<and>
    map_each (uc_try_encode (lfu_unicache BE BD order n)) xs u = Some (ms, u') \<and>
    map_each (uc_decode (lfu_unicache BE BD order n)) ms u = Some (xs, d')"
proof -
  obtain u where u: "lfu_unicache_new n = Some u" "in_step u u" using new_in_step [OF assms] by blast
  from cache.transfer [OF u(2), of order n xs] u(1) show ?thesis by (auto simp: lfu_unicache_def)
qed

end

section \<open>The order of the hash map\<close>

lemma mset_pair: "mset xs = {#a, b#} \<Longrightarrow> xs = [a, b] \<or> xs = [b, a]"
  by (cases xs; cases "tl xs") (auto simp: add_eq_conv_ex)

text \<open>A hand-over depends on the order only at the pairs of the cache that is handed over.\<close>

lemma handover_order:
  fixes BE :: "('be, 'f) linked_set_impl" and BD :: "('bd, 'w::len word) linked_set_impl"
  assumes "map_option (\<lambda>u. lfu_values (lfu_cache_encoder (snd u))) ((lfu_unicache_new n :: ('be, 'bd, 'f, 'w word) lfu_field_cache option) \<bind> map_each (lfu_try_encode BE) xs) = Some vs"
    and "order vs = order' vs"
  shows "handover (lfu_unicache BE BD order n) xs ys = handover (lfu_unicache BE BD order' n) xs ys"
  using assms by (auto simp: handover_def lfu_unicache_def lfu_clone_def lfu_iter_def bind_eq_Some_conv)

section \<open>A set as a list\<close>

definition list_linked_set :: "('k list, 'k) linked_set_impl" where
  "list_linked_set = \<lparr>
     ls_default = [],
     ls_insert = (\<lambda>k ks. filter (\<lambda>k'. k' \<noteq> k) ks @ [k]),
     ls_remove = (\<lambda>k ks. filter (\<lambda>k'. k' \<noteq> k) ks),
     ls_pop_front = (\<lambda>ks. case ks of [] \<Rightarrow> (None, []) | k # ks' \<Rightarrow> (Some k, ks')),
     ls_is_empty = (\<lambda>ks. ks = []),
     ls_iter = (\<lambda>ks. ks)\<rparr>"

interpretation list_set: linked_set list_linked_set
  by unfold_locales (auto simp: list_linked_set_def filter_id_conv)

interpretation list_sets: lfu_pair list_linked_set list_linked_set ..

text \<open>
  A cache does not survive the hand-over: the clone has every pair with count 1, in the order in which the hash map happens to yield them.
  After the fields 1, 2, 1 a follower that gets the cache and then the fields 3, 4, 1 decodes the last one, sent as a code, to a
  wrong value, whatever the order.
\<close>

lemma lfu_handover_drifts:
  assumes "\<And>xs. mset (order xs) = mset xs"
  shows "\<exists>z. handover (lfu_unicache list_linked_set (list_linked_set :: (u8 list, u8) linked_set_impl) order 2) [1, 2, 1] [3, 4, (1::nat)] = Some [3, 4, z] \<and> z \<noteq> 1"
proof -
  let ?a = "(1 :: nat, \<lparr>vc_value = 1 :: u8, vc_count = 2\<rparr>)" and ?b = "(2 :: nat, \<lparr>vc_value = 2 :: u8, vc_count = 1\<rparr>)"
  let ?U = "lfu_unicache list_linked_set (list_linked_set :: (u8 list, u8) linked_set_impl)"
  have after: "map_option (\<lambda>u. lfu_values (lfu_cache_encoder (snd u))) ((lfu_unicache_new 2 :: (nat list, u8 list, nat, u8) lfu_field_cache option) \<bind>
      map_each (lfu_try_encode list_linked_set) [1, 2, 1]) = Some [?a, ?b]"
    by code_simp
  have "mset (order [?a, ?b]) = {#?a, ?b#}" by (simp add: assms)
  then have "order [?a, ?b] = id [?a, ?b] \<or> order [?a, ?b] = rev [?a, ?b]" using mset_pair by fastforce
  then have "handover (?U order 2) [1, 2, 1] [3, 4, 1] = handover (?U id 2) [1, 2, 1] [3, 4, 1] \<or>
      handover (?U order 2) [1, 2, 1] [3, 4, 1] = handover (?U rev 2) [1, 2, 1] [3, 4, 1]"
    using handover_order [OF after] by metis
  moreover have "handover (?U id 2) [1::nat, 2, 1] [3, 4, 1] = Some [3, 4, 3]" by code_simp
  moreover have "handover (?U rev 2) [1::nat, 2, 1] [3, 4, 1] = Some [3, 4, 4]" by code_simp
  ultimately show ?thesis by fastforce
qed

end
