(* ===== verification/UniCache_Derive.thy ===== *)
theory UniCache_Derive
  imports UniCache
begin

text \<open>
  The derive macro for entries with cached fields (\<^verbatim>\<open>omnipaxos_macros/src/lib.rs\<close>): which cache each field
  of the struct gets, and the implementation of the trait that the macro generates, on structs as
  lists of values in the order of declaration. Tokens and types are names; a \<^verbatim>\<open>panic!\<close> of the macro is \<open>None\<close>.
\<close>

section \<open>Attributes\<close>

datatype unicache_attr = AttrSize usize | AttrCache string | AttrEncoding string | AttrUnknown string

datatype cache_type = LRUniCache | LFUniCache

record field_decl =
  fd_name :: string
  fd_attr :: "unicache_attr list option"

record cache_decl =
  cd_name :: string
  cd_encoding_type :: string
  cd_cache_size :: usize
  cd_cache_type :: cache_type

text \<open>One \<^verbatim>\<open>size(..)\<close>, \<^verbatim>\<open>cache(..)\<close> or \<^verbatim>\<open>encoding(..)\<close>; the state is the encoding type, the size and the cache type.\<close>

fun parse_meta ::
  "unicache_attr \<Rightarrow> string option \<times> usize option \<times> cache_type option \<Rightarrow> (string option \<times> usize option \<times> cache_type option) option" where
  "parse_meta (AttrSize n) (encoding_type, cache_size, cache_type) = Some (encoding_type, Some n, cache_type)"
| "parse_meta (AttrCache ty) (encoding_type, cache_size, cache_type) =
     (if ty = ''lru'' then Some (encoding_type, cache_size, Some LRUniCache)
      else if ty = ''lfu'' then Some (encoding_type, cache_size, Some LFUniCache)
      else None)"
| "parse_meta (AttrEncoding ty) (encoding_type, cache_size, cache_type) = Some (Some ty, cache_size, cache_type)"
| "parse_meta (AttrUnknown path) s = None"

text \<open>
  The loop over the fields. The variable \<^verbatim>\<open>cache_type\<close> is declared before the loop and is passed from field to
  field; the other two start afresh with each field.
\<close>

fun derive_fields :: "field_decl list \<Rightarrow> cache_type option \<Rightarrow> cache_decl option list option" where
  "derive_fields [] cache_type = Some []"
| "derive_fields (field # data) cache_type =
     (case fd_attr field of
        Some metas \<Rightarrow> do {
          (encoding_type, cache_size, cache_type1) \<leftarrow> for_each parse_meta metas (None, None, cache_type);
          let encoding_type' = (case encoding_type of Some ty \<Rightarrow> ty | None \<Rightarrow> ''u8'');
          let cache_size' = (case cache_size of Some n \<Rightarrow> n | None \<Rightarrow> 255);
          let cache_type' = (case cache_type1 of Some ty \<Rightarrow> ty | None \<Rightarrow> LRUniCache);
          decls \<leftarrow> derive_fields data (Some cache_type');
          Some (Some \<lparr>cd_name = fd_name field, cd_encoding_type = encoding_type', cd_cache_size = cache_size', cd_cache_type = cache_type'\<rparr> # decls)
        }
      | None \<Rightarrow> do {
          decls \<leftarrow> derive_fields data cache_type;
          Some (None # decls)
        })"

text \<open>The attribute \<^verbatim>\<open>snapshot(T)\<close> of the struct, if there is one, names the snapshot type.\<close>

definition get_snapshot_type :: "string option \<Rightarrow> string" where
  "get_snapshot_type attr = (case attr of Some t \<Rightarrow> t | None \<Rightarrow> ''::omnipaxos::storage::NoSnapshot'')"

text \<open>The plain derive macro: the name of the struct and its snapshot type.\<close>

definition entry_derive :: "string \<Rightarrow> string option \<Rightarrow> string \<times> string" where
  "entry_derive name attr = (name, get_snapshot_type attr)"

datatype syn_data = DataStruct "field_decl list" | DataEnum | DataUnion

definition unicache_entry_derive :: "string option \<Rightarrow> syn_data \<Rightarrow> (string \<times> cache_decl option list) option" where
  "unicache_entry_derive attr data =
     (let snapshot_type = get_snapshot_type attr in
      case data of
        DataStruct fs \<Rightarrow> map_option (\<lambda>decls. (snapshot_type, decls)) (derive_fields fs None)
      | DataEnum \<Rightarrow> None
      | DataUnion \<Rightarrow> None)"

text \<open>
  A field without a \<^verbatim>\<open>cache(..)\<close> of its own gets the cache type of the field before it, not the default.
\<close>

lemma parse_keeps_cache_type:
  "\<forall>a \<in> set metas. \<forall>ty. a \<noteq> AttrCache ty \<Longrightarrow> for_each parse_meta metas (e, n, t) = Some (e', n', t') \<Longrightarrow> t' = t"
proof (induction metas arbitrary: e n)
  case (Cons a metas)
  then show ?case by (cases a) (auto simp: bind_eq_Some_conv)
qed simp

lemma cache_type_leaks:
  assumes "fd_attr field = Some metas" "\<forall>a \<in> set metas. \<forall>ty. a \<noteq> AttrCache ty"
    and "derive_fields (field # data) (Some t) = Some decls"
  shows "\<exists>d. hd decls = Some d \<and> cd_cache_type d = t"
  using assms parse_keeps_cache_type by (fastforce simp: bind_eq_Some_conv)

section \<open>The generated cache\<close>

text \<open>
  \<open>Us\<close> has the cache of each field that has one. The generated struct is the list of
  their states. Lists of other lengths than the struct has fields do not type-check in the source.
\<close>

datatype ('v, 'r) encode_slot = Coded 'r | Plain 'v

fun derived_new :: "('u, 'v, 'r) unicache_impl option list \<Rightarrow> 'u list option" where
  "derived_new [] = Some []"
| "derived_new (None # Us) = derived_new Us"
| "derived_new (Some U # Us) = do { u \<leftarrow> uc_new U; us \<leftarrow> derived_new Us; Some (u # us) }"

fun derived_try_encode ::
  "('u, 'v, 'r) unicache_impl option list \<Rightarrow> 'v list \<Rightarrow> 'u list \<Rightarrow> (('v, 'r) encode_slot list \<times> 'u list) option" where
  "derived_try_encode (None # Us) (v # vs) us = do { (rs, us') \<leftarrow> derived_try_encode Us vs us; Some (Plain v # rs, us') }"
| "derived_try_encode (Some U # Us) (v # vs) (u # us) = do {
     (r, u') \<leftarrow> uc_try_encode U v u;
     (rs, us') \<leftarrow> derived_try_encode Us vs us;
     Some (Coded r # rs, u' # us') }"
| "derived_try_encode [] [] [] = Some ([], [])"
| "derived_try_encode _ _ _ = None"

fun derived_decode ::
  "('u, 'v, 'r) unicache_impl option list \<Rightarrow> ('v, 'r) encode_slot list \<Rightarrow> 'u list \<Rightarrow> ('v list \<times> 'u list) option" where
  "derived_decode (None # Us) (Plain v # rs) us = do { (vs, us') \<leftarrow> derived_decode Us rs us; Some (v # vs, us') }"
| "derived_decode (Some U # Us) (Coded r # rs) (u # us) = do {
     (v, u') \<leftarrow> uc_decode U r u;
     (vs, us') \<leftarrow> derived_decode Us rs us;
     Some (v # vs, u' # us') }"
| "derived_decode [] [] [] = Some ([], [])"
| "derived_decode _ _ _ = None"

fun derived_clone :: "('u, 'v, 'r) unicache_impl option list \<Rightarrow> 'u list \<Rightarrow> 'u list option" where
  "derived_clone (None # Us) us = derived_clone Us us"
| "derived_clone (Some U # Us) (u # us) = do { u' \<leftarrow> uc_clone U u; us' \<leftarrow> derived_clone Us us; Some (u' # us') }"
| "derived_clone [] [] = Some []"
| "derived_clone _ _ = None"

definition derived_unicache ::
  "('u, 'v, 'r) unicache_impl option list \<Rightarrow> ('u list, 'v list, ('v, 'r) encode_slot list) unicache_impl" where
  "derived_unicache Us = \<lparr>uc_new = derived_new Us, uc_try_encode = derived_try_encode Us,
     uc_decode = derived_decode Us, uc_clone = derived_clone Us\<rparr>"

section \<open>The fields of an entry in step\<close>

text \<open>\<open>Rs\<close> pairs each cache with a relation that keeps its two sides in step.\<close>

fun all_in_step :: "('p \<times> ('u \<Rightarrow> 'u \<Rightarrow> bool)) option list \<Rightarrow> 'u list \<Rightarrow> 'u list \<Rightarrow> bool" where
  "all_in_step (None # Rs) us ds = all_in_step Rs us ds"
| "all_in_step (Some (U, R) # Rs) (u # us) (d # ds) \<longleftrightarrow> R u d \<and> all_in_step Rs us ds"
| "all_in_step [] [] [] = True"
| "all_in_step _ _ _ = False"

lemma derived_step:
  assumes "\<forall>(U, R) \<in> set (List.map_filter id Rs). unicache_pair U R" "all_in_step Rs us ds" "length vs = length Rs"
  shows "\<exists>rs us' ds'. derived_try_encode (map (map_option fst) Rs) vs us = Some (rs, us') \<and>
    derived_decode (map (map_option fst) Rs) rs ds = Some (vs, ds') \<and> all_in_step Rs us' ds'"
  using assms
proof (induction Rs us ds arbitrary: vs rule: all_in_step.induct)
  case (1 Rs us ds)
  then obtain v vs' where vs: "vs = v # vs'" "length vs' = length Rs" by (cases vs) auto
  then show ?case using 1 by (fastforce simp: List.map_filter_def)
next
  case (2 U R Rs u us d ds)
  then obtain v vs' where vs: "vs = v # vs'" "length vs' = length Rs" by (cases vs) auto
  have "unicache_pair U R" "R u d" using 2 by (auto simp: List.map_filter_def)
  then obtain m u' d' where "uc_try_encode U v u = Some (m, u')" "uc_decode U m d = Some (v, d')" "R u' d'"
    using unicache_pair.step by fast
  moreover obtain rs us' ds' where "derived_try_encode (map (map_option fst) Rs) vs' us = Some (rs, us')"
    "derived_decode (map (map_option fst) Rs) rs ds = Some (vs', ds')" "all_in_step Rs us' ds'"
    using 2 vs(2) by (fastforce simp: List.map_filter_def)
  ultimately show ?case using vs by fastforce
qed (auto simp: derived_unicache_def)

lemma derived_transfer:
  assumes "\<forall>(U, R) \<in> set (List.map_filter id Rs). unicache_pair U R" "all_in_step Rs us ds" "\<forall>e \<in> set es. length e = length Rs"
  shows "\<exists>ms us' ds'. map_each (uc_try_encode (derived_unicache (map (map_option fst) Rs))) es us = Some (ms, us') \<and>
    map_each (uc_decode (derived_unicache (map (map_option fst) Rs))) ms ds = Some (es, ds') \<and> all_in_step Rs us' ds'"
  using assms(2,3)
proof (induction es arbitrary: us ds)
  case (Cons e es)
  obtain m u1 d1 where 1: "derived_try_encode (map (map_option fst) Rs) e us = Some (m, u1)"
    "derived_decode (map (map_option fst) Rs) m ds = Some (e, d1)" "all_in_step Rs u1 d1"
    using derived_step [OF assms(1) Cons.prems(1)] Cons.prems(2) by force
  then obtain ms u2 d2 where "map_each (uc_try_encode (derived_unicache (map (map_option fst) Rs))) es u1 = Some (ms, u2)"
    "map_each (uc_decode (derived_unicache (map (map_option fst) Rs))) ms d1 = Some (es, d2)" "all_in_step Rs u2 d2"
    using Cons.IH [OF 1(3)] Cons.prems(2) by auto
  with 1 show ?case by (fastforce simp: derived_unicache_def)
qed simp

end
