(* ===== verification/Dashboard.thy ===== *)
theory Dashboard
  imports Omni_Paxos "HOL-Library.Char_ord"
begin

text \<open>
  The terminal dashboard (\<^verbatim>\<open>omnipaxos_ui/src/\<close>): the state it keeps between the ticks, how a tick updates
  it from the states of the server, and what a frame shows. A frame is the list of its widgets with their contents and the
  colours that depend on the state; the layout, the borders and the fixed styles are those of the crate \<^verbatim>\<open>ratatui\<close>. Floating-point
  arithmetic is a parameter, and so are the time since the last tick, the pending key and the width of the terminal.
\<close>

section \<open>Data\<close>

datatype ui_color = DefaultColor | Green | Blue | Red | Cyan | Magenta | Yellow | Indexed u8 | LightYellow | LightRed | White

definition ORANGE :: ui_color where "ORANGE = Indexed 208"
definition PINK :: ui_color where "PINK = Indexed 211"

definition COLORS :: "ui_color list" where
  "COLORS = [Green, Blue, Red, ORANGE, Cyan, Magenta, Yellow, PINK]"

definition UI_BARCHART_WIDTH :: nat where "UI_BARCHART_WIDTH = 3"
definition UI_BARCHART_GAP :: nat where "UI_BARCHART_GAP = 1"

text \<open>What the dashboard uses of \<^verbatim>\<open>f64\<close>: conversions, literals (\<open>f_lit X 75 2\<close> is \<^verbatim>\<open>0.75\<close>), division, comparison.\<close>

record 'f f64_impl =
  f_of_usize :: "usize \<Rightarrow> 'f"
  f_to_u64 :: "'f \<Rightarrow> nat"
  f_lit :: "nat \<Rightarrow> nat \<Rightarrow> 'f"
  f_div :: "'f \<Rightarrow> 'f \<Rightarrow> 'f"
  f_less :: "'f \<Rightarrow> 'f \<Rightarrow> bool"
  f_le :: "'f \<Rightarrow> 'f \<Rightarrow> bool"

record ui_node =
  un_pid :: node_id
  un_ballot_number :: u32
  un_leader :: node_id
  un_color :: ui_color
  un_connected :: bool

definition ui_node_default :: ui_node where
  "ui_node_default = \<lparr>un_pid = 0, un_ballot_number = 0, un_leader = 0, un_color = DefaultColor, un_connected = False\<rparr>"

definition ui_node_from :: "ballot \<Rightarrow> ui_node" where
  "ui_node_from b = ui_node_default\<lparr>un_pid := b_pid b, un_ballot_number := b_n b\<rparr>"

datatype ui_role = UIFollower | UILeader

record ui_app_config =
  uc_pid :: node_id
  uc_peers :: "node_id list"

definition ui_app_config_from :: "omni_paxos_config \<Rightarrow> ui_app_config" where
  "ui_app_config_from config = (
     let pid = sc_pid (server_config_of config) in
     \<lparr>uc_pid = pid, uc_peers = filter (\<lambda>x. x \<noteq> pid) (cc_nodes (cluster_config_of config))\<rparr>)"

section \<open>The state\<close>

record 'f ui_app =
  ua_current_node :: ui_node
  ua_current_leader :: "node_id option"
  ua_leader_color :: ui_color
  ua_current_role :: ui_role
  ua_decided_idx :: usize
  ua_nodes :: "ui_node list"
  ua_active_peers :: "ui_node list"
  ua_throughput_data :: "(string \<times> usize) list"
  ua_dps :: 'f
  ua_followers_progress :: "'f list"
  ua_followers_accepted_idx :: "usize list"

definition app_nodes :: "ui_app_config \<Rightarrow> ui_node list" where
  "app_nodes config = map (\<lambda>(idx, pid). ui_node_default\<lparr>un_pid := pid, un_color := COLORS ! (idx mod length COLORS)\<rparr>)
     (enumerate 0 (sort (uc_peers config @ [uc_pid config])))"

definition app_with :: "'f f64_impl \<Rightarrow> ui_app_config \<Rightarrow> 'f ui_app option" where
  "app_with X config = do {
     max_peer_pid \<leftarrow> (if uc_peers config = [] then None else Some (Max (set (uc_peers config))));
     let max_pid = max max_peer_pid (uc_pid config);
     let nodes = app_nodes config;
     let own = filter (\<lambda>n. un_pid n = uc_pid config) nodes;
     Some \<lparr>ua_current_node = ui_node_default\<lparr>un_pid := uc_pid config,
             un_color := (if own = [] then DefaultColor else un_color (last own))\<rparr>,
           ua_current_leader = None, ua_leader_color = DefaultColor, ua_current_role = UIFollower, ua_decided_idx = 0,
           ua_nodes = nodes, ua_active_peers = filter (\<lambda>n. un_pid n \<noteq> uc_pid config) nodes,
           ua_throughput_data = [], ua_dps = f_lit X 0 1,
           ua_followers_progress = replicate (max_pid + 1) (f_lit X 0 1),
           ua_followers_accepted_idx = replicate (max_pid + 1) 0\<rparr>
   }"

text \<open>Decimal notation (\<^verbatim>\<open>to_string\<close> and \<^verbatim>\<open>{:?}\<close> of unsigned integers).\<close>

fun show_nat :: "nat \<Rightarrow> string" where
  "show_nat n = (if n < 10 then [char_of (48 + n)] else show_nat (n div 10) @ [char_of (48 + n mod 10)])"

declare show_nat.simps [simp del]

definition app_set_decided_idx :: "'f f64_impl \<Rightarrow> 'f \<Rightarrow> usize \<Rightarrow> 'f ui_app \<Rightarrow> 'f ui_app option" where
  "app_set_decided_idx X period decided_idx app = do {
     throughput \<leftarrow> checked_sub decided_idx (ua_decided_idx app);
     Some (app\<lparr>ua_throughput_data := (show_nat throughput, throughput) # ua_throughput_data app,
               ua_dps := f_div X (f_of_usize X throughput) period, ua_decided_idx := decided_idx\<rparr>)
   }"

section \<open>Frames\<close>

datatype 'f widget =
    TitleLine string
  | ThroughputChart string "(string \<times> nat) list" ui_color
  | ClusterInfo "(string \<times> ui_color) option" "(string \<times> ui_color) list"
  | NodeInfo string
  | LogView
  | PeerTable "string list" "((string \<times> ui_color) \<times> string list) list"
  | ProgressBlock
  | ProgressBar ui_color 'f

definition nl :: string where "nl = [CHR 0x0A]"

definition show_role :: "ui_role \<Rightarrow> string" where
  "show_role r = (case r of UIFollower \<Rightarrow> ''Follower'' | UILeader \<Rightarrow> ''Leader'')"

definition draw_title :: "'f ui_app \<Rightarrow> 'f widget" where
  "draw_title app = TitleLine (''OmniPaxos node '' @ show_nat (un_pid (ua_current_node app)) @
     '' (press 'q' or 'esc' to exit the dashboard)'')"

definition draw_chart :: "'f f64_impl \<Rightarrow> nat \<Rightarrow> 'f ui_app \<Rightarrow> 'f widget" where
  "draw_chart X window_width app = ThroughputChart
     (''Throughput: '' @ show_nat (f_to_u64 X (ua_dps app)) @ '' req/s'' @ '' (# reqs/tick)'')
     (map (\<lambda>(s, num). if num > 0 then (s, num) else ('''', 0))
        (take (window_width div (UI_BARCHART_WIDTH + UI_BARCHART_GAP)) (ua_throughput_data app)))
     (ua_leader_color app)"

definition padded :: "nat \<Rightarrow> string" where
  "padded n = '' '' @ show_nat n @ '' ''"

definition draw_cluster_info :: "'f ui_app \<Rightarrow> 'f widget" where
  "draw_cluster_info app = ClusterInfo
     (map_option (\<lambda>leader_id. (padded leader_id, ua_leader_color app)) (ua_current_leader app))
     (map (\<lambda>n. (padded (un_pid n), un_color n)) (ua_nodes app))"

definition node_info :: "'f ui_app \<Rightarrow> string" where
  "node_info app = nl @ ''Node Id: '' @ show_nat (un_pid (ua_current_node app)) @ nl @ ''Role: '' @ show_role (ua_current_role app) @
     nl @ ''Ballot: '' @ show_nat (unat (un_ballot_number (ua_current_node app))) @ nl @ ''Decided idx: '' @ show_nat (ua_decided_idx app)"

definition draw_follower_info :: "'f ui_app \<Rightarrow> 'f widget list" where
  "draw_follower_info app = [draw_cluster_info app, NodeInfo (node_info app)]"

definition draw_leader_info :: "'f ui_app \<Rightarrow> 'f widget list option" where
  "draw_leader_info app = do {
     acc \<leftarrow> vec_get (ua_followers_accepted_idx app) (un_pid (ua_current_node app));
     Some [draw_cluster_info app, NodeInfo (node_info app @ nl @ ''Accepted idx: '' @ show_nat acc)]
   }"

text \<open>The symbols of the table are three-byte characters in UTF-8.\<close>

definition get_connected_symbol :: "bool \<Rightarrow> string" where
  "get_connected_symbol connected =
     (if connected then [CHR 0xE2, CHR 0x9C, CHR 0x85] else [CHR 0xE2, CHR 0x9D, CHR 0x8C])"

definition get_ballot_and_leader_string :: "bool \<Rightarrow> u32 \<Rightarrow> node_id \<Rightarrow> string \<times> string" where
  "get_ballot_and_leader_string connected ballot leader =
     (if connected then (show_nat (unat ballot), show_nat leader)
      else ([CHR 0xE2, CHR 0x9D, CHR 0x93], [CHR 0xE2, CHR 0x9D, CHR 0x93]))"

definition peer_row :: "ui_node \<Rightarrow> (string \<times> ui_color) \<times> string list" where
  "peer_row peer = (
     let (ballot, leader) = get_ballot_and_leader_string (un_connected peer) (un_ballot_number peer) (un_leader peer) in
     ((padded (un_pid peer), un_color peer), [get_connected_symbol (un_connected peer), ballot, leader]))"

definition draw_follower_table :: "'f ui_app \<Rightarrow> 'f widget" where
  "draw_follower_table app = PeerTable [''PID'', ''Connected'', ''Ballot'', ''Leader''] (map peer_row (ua_active_peers app))"

definition draw_leader_table :: "'f ui_app \<Rightarrow> 'f widget option" where
  "draw_leader_table app = do {
     rows \<leftarrow> those (map (\<lambda>peer. do {
         acc \<leftarrow> vec_get (ua_followers_accepted_idx app) (un_pid peer);
         let (pid, cells) = peer_row peer;
         Some (pid, cells @ [show_nat acc])
       }) (ua_active_peers app));
     Some (PeerTable [''PID'', ''Connected'', ''Ballot'', ''Leader'', ''Accepted idx''] rows)
   }"

text \<open>A gauge rejects a ratio outside of 0 and 1 (documented panic of \<^verbatim>\<open>Gauge::ratio\<close>).\<close>

definition draw_progress_bar :: "'f f64_impl \<Rightarrow> 'f \<Rightarrow> 'f widget option" where
  "draw_progress_bar X ratio = (
     let gauge_color =
       (if f_less X (f_lit X 9 1) ratio \<and> f_le X ratio (f_lit X 10 1) then Green
        else if f_less X (f_lit X 75 2) ratio \<and> f_le X ratio (f_lit X 9 1) then LightYellow
        else if f_less X (f_lit X 5 1) ratio \<and> f_le X ratio (f_lit X 75 2) then Indexed 208
        else if f_le X (f_lit X 0 1) ratio \<and> f_le X ratio (f_lit X 5 1) then LightRed
        else White)
     in if f_le X (f_lit X 0 1) ratio \<and> f_le X ratio (f_lit X 10 1) then Some (ProgressBar gauge_color ratio) else None)"

definition draw_progress :: "'f f64_impl \<Rightarrow> 'f ui_app \<Rightarrow> 'f widget list option" where
  "draw_progress X app = do {
     bars \<leftarrow> those (map (\<lambda>node. do {
         ratio \<leftarrow> vec_get (ua_followers_progress app) (un_pid node);
         draw_progress_bar X ratio
       }) (ua_active_peers app));
     Some (ProgressBlock # bars)
   }"

definition render_follower :: "'f f64_impl \<Rightarrow> nat \<Rightarrow> 'f ui_app \<Rightarrow> 'f widget list" where
  "render_follower X window_width app =
     [draw_title app, draw_chart X window_width app] @ draw_follower_info app @ [LogView, draw_follower_table app]"

definition render_leader :: "'f f64_impl \<Rightarrow> nat \<Rightarrow> 'f ui_app \<Rightarrow> 'f widget list option" where
  "render_leader X window_width app = do {
     info \<leftarrow> draw_leader_info app;
     table \<leftarrow> draw_leader_table app;
     bars \<leftarrow> draw_progress X app;
     Some ([draw_title app, draw_chart X window_width app, LogView] @ info @ [table] @ bars)
   }"

definition render :: "'f f64_impl \<Rightarrow> nat \<Rightarrow> 'f ui_app \<Rightarrow> 'f widget list option" where
  "render X window_width app =
     (case ua_current_role app of
        UIFollower \<Rightarrow> Some (render_follower X window_width app)
      | UILeader \<Rightarrow> render_leader X window_width app)"

section \<open>The dashboard\<close>

record 'f omni_paxos_ui =
  ui_app_of :: "'f ui_app"
  ui_started :: bool

datatype ui_event = KeyEsc | KeyChar char | OtherEvent

definition ui_with :: "'f f64_impl \<Rightarrow> ui_app_config \<Rightarrow> 'f omni_paxos_ui option" where
  "ui_with X config = do { app \<leftarrow> app_with X config; Some \<lparr>ui_app_of = app, ui_started = False\<rparr> }"

definition ui_stop :: "'f omni_paxos_ui \<Rightarrow> 'f omni_paxos_ui" where
  "ui_stop ui = (if ui_started ui then ui\<lparr>ui_started := False\<rparr> else ui)"

text \<open>The frame that is drawn, if any, and the dashboard afterwards.\<close>

definition update_ui ::
  "'f f64_impl \<Rightarrow> nat \<Rightarrow> ui_event option \<Rightarrow> 'f omni_paxos_ui \<Rightarrow> ('f widget list option \<times> 'f omni_paxos_ui) option" where
  "update_ui X window_width event ui = do {
     let ui1 = (if event = Some KeyEsc \<or> event = Some (KeyChar CHR ''q'') then ui_stop ui else ui);
     (if ui_started ui1 then do { frame \<leftarrow> render X window_width (ui_app_of ui1); Some (Some frame, ui1) }
      else Some (None, ui1))
   }"

definition ui_start ::
  "'f f64_impl \<Rightarrow> nat \<Rightarrow> ui_event option \<Rightarrow> 'f omni_paxos_ui \<Rightarrow> ('f widget list option \<times> 'f omni_paxos_ui) option" where
  "ui_start X window_width event ui =
     (if \<not> ui_started ui then do {
        (frame, ui1) \<leftarrow> update_ui X window_width event ui;
        Some (frame, ui1\<lparr>ui_started := True\<rparr>)
      }
      else Some (None, ui))"

definition update_progress :: "'f f64_impl \<Rightarrow> omni_paxos_states \<Rightarrow> 'f ui_app \<Rightarrow> 'f ui_app option" where
  "update_progress X op_states app =
     (case ua_current_leader app of
        None \<Rightarrow> Some app
      | Some leader_id \<Rightarrow>
          if leader_id = un_pid (ua_current_node app) then do {
            let accepted = cs_accepted_indexes (ops_cluster_state op_states);
            leader_acc_idx \<leftarrow> vec_get accepted leader_id;
            for_each (\<lambda>(idx, accepted_idx) a. do {
                progress \<leftarrow> vec_set (ua_followers_progress a) idx
                  (if leader_acc_idx = 0 then f_lit X 0 1 else f_div X (f_of_usize X accepted_idx) (f_of_usize X leader_acc_idx));
                accs \<leftarrow> vec_set (ua_followers_accepted_idx a) idx accepted_idx;
                Some (a\<lparr>ua_followers_progress := progress, ua_followers_accepted_idx := accs\<rparr>)
              }) (enumerate 0 accepted) (app\<lparr>ua_current_role := UILeader\<rparr>)
          }
          else Some (app\<lparr>ua_current_role := UIFollower\<rparr>))"

definition refresh_peer :: "heartbeat_reply list \<Rightarrow> ui_node \<Rightarrow> ui_node" where
  "refresh_peer heartbeats node =
     (case find (\<lambda>x. b_pid (hbr_ballot x) = un_pid node) heartbeats of
        Some heartbeat \<Rightarrow> node\<lparr>un_ballot_number := b_n (hbr_ballot heartbeat), un_leader := b_pid (hbr_leader heartbeat), un_connected := True\<rparr>
      | None \<Rightarrow> node\<lparr>un_connected := False\<rparr>)"

definition update_active_peers :: "omni_paxos_states \<Rightarrow> 'f ui_app \<Rightarrow> 'f ui_app" where
  "update_active_peers op_states app =
     app\<lparr>ua_active_peers := map (refresh_peer (cs_heartbeats (ops_cluster_state op_states))) (ua_active_peers app)\<rparr>"

definition ui_update_leader :: "omni_paxos_states \<Rightarrow> 'f ui_app \<Rightarrow> 'f ui_app option" where
  "ui_update_leader op_states app = do {
     color \<leftarrow> (case ops_current_leader op_states of
         None \<Rightarrow> Some DefaultColor
       | Some leader_id \<Rightarrow>
           if leader_id = un_pid (ua_current_node app) then Some (un_color (ua_current_node app))
           else map_option un_color (find (\<lambda>x. un_pid x = leader_id) (ua_nodes app)));
     Some (app\<lparr>ua_current_leader := ops_current_leader op_states, ua_leader_color := color\<rparr>)
   }"

definition update_app :: "'f f64_impl \<Rightarrow> 'f \<Rightarrow> omni_paxos_states \<Rightarrow> 'f ui_app \<Rightarrow> 'f ui_app option" where
  "update_app X period op_states app = do {
     let app1 = app\<lparr>ua_current_node := (ua_current_node app)\<lparr>un_ballot_number := b_n (ops_current_ballot op_states)\<rparr>\<rparr>;
     app2 \<leftarrow> app_set_decided_idx X period (ops_decided_idx op_states) app1;
     app3 \<leftarrow> update_progress X op_states app2;
     ui_update_leader op_states (update_active_peers op_states app3)
   }"

definition ui_tick ::
  "'f f64_impl \<Rightarrow> nat \<Rightarrow> 'f \<Rightarrow> ui_event option \<Rightarrow> omni_paxos_states \<Rightarrow> 'f omni_paxos_ui \<Rightarrow>
     ('f widget list option \<times> 'f omni_paxos_ui) option" where
  "ui_tick X window_width period event op_states ui =
     (if ui_started ui then do {
        app \<leftarrow> update_app X period op_states (ui_app_of ui);
        update_ui X window_width event (ui\<lparr>ui_app_of := app\<rparr>)
      }
      else Some (None, ui))"

end
