(* ===== verification/Dashboard_Facts.thy ===== *)
theory Dashboard_Facts
  imports Complex_Main Dashboard Omni_Paxos_Facts
begin

text \<open>
  The dashboard next to its server: which ticks it survives, and what it has then. The ratios of the progress bars stay between 0
  and 1 when floating-point division keeps the order of the indexes, which is the locale \<open>f64_laws\<close>.
\<close>

section \<open>Ratios\<close>

definition ratio_ok :: "'f f64_impl \<Rightarrow> 'f \<Rightarrow> bool" where
  "ratio_ok X r \<longleftrightarrow> f_le X (f_lit X 0 1) r \<and> f_le X r (f_lit X 10 1)"

locale f64_laws =
  fixes X :: "'f f64_impl"
  assumes zero_ratio: "ratio_ok X (f_lit X 0 1)"
    and div_ratio: "a \<le> b \<Longrightarrow> b \<noteq> 0 \<Longrightarrow> ratio_ok X (f_div X (f_of_usize X a) (f_of_usize X b))"
begin

definition progress_of :: "usize \<Rightarrow> usize \<Rightarrow> 'f" where
  "progress_of l a = (if l = 0 then f_lit X 0 1 else f_div X (f_of_usize X a) (f_of_usize X l))"

lemma progress_ratio: "a \<le> l \<Longrightarrow> ratio_ok X (progress_of l a)"
  using zero_ratio div_ratio by (simp add: progress_of_def)

end

text \<open>Rational numbers, for concrete instances.\<close>

definition rat_f64 :: "rat f64_impl" where
  "rat_f64 = \<lparr>f_of_usize = of_nat, f_to_u64 = (\<lambda>r. nat \<lfloor>r\<rfloor>), f_lit = (\<lambda>d k. of_nat d / 10 ^ k), f_div = (/), f_less = (<), f_le = (\<le>)\<rparr>"

interpretation rat: f64_laws rat_f64
  by unfold_locales (auto simp: ratio_ok_def rat_f64_def)

section \<open>The state between ticks\<close>

definition ui_max_pid :: "ui_app_config \<Rightarrow> node_id" where
  "ui_max_pid config = Max (insert (uc_pid config) (set (uc_peers config)))"

definition app_wf :: "'f f64_impl \<Rightarrow> ui_app_config \<Rightarrow> 'f ui_app \<Rightarrow> bool" where
  "app_wf X config app \<longleftrightarrow> un_pid (ua_current_node app) = uc_pid config \<and>
     set (map un_pid (ua_nodes app)) = insert (uc_pid config) (set (uc_peers config)) \<and>
     set (map un_pid (ua_active_peers app)) = set (uc_peers config) - {uc_pid config} \<and>
     length (ua_followers_progress app) = ui_max_pid config + 1 \<and> length (ua_followers_accepted_idx app) = ui_max_pid config + 1 \<and>
     (\<forall>r \<in> set (ua_followers_progress app). ratio_ok X r)"

lemma ui_max_pid_ge: "p = uc_pid config \<or> p \<in> set (uc_peers config) \<Longrightarrow> p < Suc (ui_max_pid config)"
  by (auto simp: ui_max_pid_def less_Suc_eq_le)

lemma app_nodes_pids: "map un_pid (app_nodes config) = sort (uc_peers config @ [uc_pid config])"
  by (simp add: app_nodes_def comp_def case_prod_unfold)

lemma refresh_peer_pid [simp]: "un_pid (refresh_peer hs n) = un_pid n"
  by (simp add: refresh_peer_def split: option.splits)

lemma those_total: "(\<And>x. x \<in> set xs \<Longrightarrow> \<exists>y. f x = Some y) \<Longrightarrow> \<exists>ys. those (map f xs) = Some ys"
  by (induction xs) (auto split: option.splits)

text \<open>The loop of \<^verbatim>\<open>update_progress\<close> replaces both vectors.\<close>

lemma progress_loop:
  assumes "length (ua_followers_progress a) = k + length xs" "length (ua_followers_accepted_idx a) = k + length xs"
  shows "for_each (\<lambda>(idx, accepted_idx) a. do {
      progress \<leftarrow> vec_set (ua_followers_progress a) idx (g accepted_idx);
      accs \<leftarrow> vec_set (ua_followers_accepted_idx a) idx accepted_idx;
      Some (a\<lparr>ua_followers_progress := progress, ua_followers_accepted_idx := accs\<rparr>)
    }) (enumerate k xs) a = Some (a\<lparr>ua_followers_progress := take k (ua_followers_progress a) @ map g xs,
      ua_followers_accepted_idx := take k (ua_followers_accepted_idx a) @ xs\<rparr>)"
  using assms
proof (induction xs arbitrary: k a)
  case (Cons x xs)
  then show ?case by (simp add: take_Suc_conv_app_nth)
qed simp

lemma find_node: "l \<in> set (map un_pid ns) \<Longrightarrow> \<exists>n. find (\<lambda>x. un_pid x = l) ns = Some n"
  by (induction ns) auto

text \<open>What a server may hand over: indexes for every process, its leader in the cluster.\<close>

definition states_fit :: "ui_app_config \<Rightarrow> omni_paxos_states \<Rightarrow> bool" where
  "states_fit config st \<longleftrightarrow>
     (\<forall>l. ops_current_leader st = Some l \<longrightarrow> l \<in> insert (uc_pid config) (set (uc_peers config))) \<and>
     length (cs_accepted_indexes (ops_cluster_state st)) = ui_max_pid config + 1 \<and>
     (\<forall>a \<in> set (cs_accepted_indexes (ops_cluster_state st)). a \<le> cs_accepted_indexes (ops_cluster_state st) ! uc_pid config)"

context f64_laws
begin

lemma app_with_wf:
  assumes "uc_peers config \<noteq> []"
  shows "\<exists>app. app_with X config = Some app \<and> app_wf X config app \<and> ua_decided_idx app = 0 \<and> ua_current_leader app = None"
proof -
  have "set (map un_pid (app_nodes config)) = insert (uc_pid config) (set (uc_peers config))" by (simp only: app_nodes_pids) auto
  moreover from this have "un_pid ` {n \<in> set (app_nodes config). un_pid n \<noteq> uc_pid config} = set (uc_peers config) - {uc_pid config}" by auto
  moreover have "ui_max_pid config = max (Max (set (uc_peers config))) (uc_pid config)"
    using assms by (simp add: ui_max_pid_def max.commute)
  ultimately show ?thesis using assms zero_ratio by (simp add: app_with_def app_wf_def ui_node_default_def Let_def)
qed

text \<open>A leader's progress bars, exactly; a follower keeps the last ones.\<close>

lemma update_progress_eq:
  assumes "app_wf X config app" "states_fit config st"
  shows "update_progress X st app = Some (case ua_current_leader app of
      None \<Rightarrow> app
    | Some l \<Rightarrow> if l = uc_pid config
        then app\<lparr>ua_current_role := UILeader, ua_followers_progress := map (progress_of (cs_accepted_indexes (ops_cluster_state st) ! l))
               (cs_accepted_indexes (ops_cluster_state st)), ua_followers_accepted_idx := cs_accepted_indexes (ops_cluster_state st)\<rparr>
        else app\<lparr>ua_current_role := UIFollower\<rparr>)"
proof (cases "ua_current_leader app = Some (uc_pid config)")
  case True
  let ?acc = "cs_accepted_indexes (ops_cluster_state st)"
  have "vec_get ?acc (uc_pid config) = Some (?acc ! uc_pid config)"
    using assms(2) ui_max_pid_ge [of "uc_pid config" config] by (simp add: states_fit_def)
  then show ?thesis using True assms progress_loop [of "app\<lparr>ua_current_role := UILeader\<rparr>" 0 ?acc "progress_of (?acc ! uc_pid config)"]
    by (simp add: update_progress_def app_wf_def states_fit_def progress_of_def Let_def)
qed (use assms in \<open>auto simp: update_progress_def app_wf_def split: option.splits\<close>)

lemma update_progress_wf:
  assumes "app_wf X config app" "states_fit config st" "update_progress X st app = Some app'"
  shows "app_wf X config app'"
proof (cases "ua_current_leader app = Some (uc_pid config)")
  case True
  let ?acc = "cs_accepted_indexes (ops_cluster_state st)"
  have "\<forall>r \<in> set (map (progress_of (?acc ! uc_pid config)) ?acc). ratio_ok X r"
    using assms(2) progress_ratio by (simp add: states_fit_def)
  moreover have "app' = app\<lparr>ua_current_role := UILeader, ua_followers_progress := map (progress_of (?acc ! uc_pid config)) ?acc,
      ua_followers_accepted_idx := ?acc\<rparr>"
    using assms(3) update_progress_eq [OF assms(1,2)] True by simp
  ultimately show ?thesis using assms(1,2) by (simp add: app_wf_def states_fit_def)
next
  case False
  then obtain r where "app' = app\<lparr>ua_current_role := r\<rparr>"
    using assms(3) update_progress_eq [OF assms(1,2)] by (cases "ua_current_leader app") (auto intro: that [of "ua_current_role app"] that)
  then show ?thesis using assms(1) by (simp add: app_wf_def)
qed

lemma ui_update_leader_total:
  assumes "app_wf X config app" "states_fit config st"
  shows "\<exists>c. ui_update_leader st app = Some (app\<lparr>ua_current_leader := ops_current_leader st, ua_leader_color := c\<rparr>)"
proof (cases "ops_current_leader st")
  case (Some l)
  then have "l \<in> set (map un_pid (ua_nodes app))" using assms by (simp add: states_fit_def app_wf_def)
  then obtain n where "find (\<lambda>x. un_pid x = l) (ua_nodes app) = Some n" using find_node by blast
  with Some show ?thesis by (auto simp: ui_update_leader_def)
qed (auto simp: ui_update_leader_def)

lemma update_app_ok:
  assumes wf: "app_wf X config app" and fit: "states_fit config st" and up: "ua_decided_idx app \<le> ops_decided_idx st"
  shows "\<exists>app'. update_app X period st app = Some app' \<and> app_wf X config app' \<and>
    ua_decided_idx app' = ops_decided_idx st \<and> ua_current_leader app' = ops_current_leader st \<and>
    un_ballot_number (ua_current_node app') = b_n (ops_current_ballot st) \<and>
    ua_throughput_data app' = (show_nat (ops_decided_idx st - ua_decided_idx app), ops_decided_idx st - ua_decided_idx app) # ua_throughput_data app \<and>
    ua_active_peers app' = map (refresh_peer (cs_heartbeats (ops_cluster_state st))) (ua_active_peers app) \<and>
    ua_current_role app' = (case ua_current_leader app of None \<Rightarrow> ua_current_role app | Some l \<Rightarrow> if l = uc_pid config then UILeader else UIFollower)"
proof -
  define app2 where "app2 = app\<lparr>ua_current_node := (ua_current_node app)\<lparr>un_ballot_number := b_n (ops_current_ballot st)\<rparr>,
    ua_throughput_data := (show_nat (ops_decided_idx st - ua_decided_idx app), ops_decided_idx st - ua_decided_idx app) # ua_throughput_data app,
    ua_dps := f_div X (f_of_usize X (ops_decided_idx st - ua_decided_idx app)) period, ua_decided_idx := ops_decided_idx st\<rparr>"
  have two: "app_set_decided_idx X period (ops_decided_idx st)
      (app\<lparr>ua_current_node := (ua_current_node app)\<lparr>un_ballot_number := b_n (ops_current_ballot st)\<rparr>\<rparr>) = Some app2"
    using up by (simp add: app_set_decided_idx_def app2_def)
  have wf2: "app_wf X config app2" using wf by (simp add: app2_def app_wf_def)
  obtain app3 where three: "update_progress X st app2 = Some app3" using update_progress_eq [OF wf2 fit] by simp
  have wf3: "app_wf X config (update_active_peers st app3)"
    using update_progress_wf [OF wf2 fit three] by (simp add: app_wf_def update_active_peers_def image_image)
  obtain c where four: "ui_update_leader st (update_active_peers st app3) =
      Some ((update_active_peers st app3)\<lparr>ua_current_leader := ops_current_leader st, ua_leader_color := c\<rparr>)"
    using ui_update_leader_total [OF wf3 fit] by blast
  have same: "ua_decided_idx app3 = ops_decided_idx st" "ua_current_node app3 = (ua_current_node app)\<lparr>un_ballot_number := b_n (ops_current_ballot st)\<rparr>"
    "ua_throughput_data app3 = ua_throughput_data app2" "ua_active_peers app3 = ua_active_peers app"
    "ua_current_role app3 = (case ua_current_leader app of None \<Rightarrow> ua_current_role app | Some l \<Rightarrow> if l = uc_pid config then UILeader else UIFollower)"
    using three update_progress_eq [OF wf2 fit] by (auto simp: app2_def split: option.splits)
  show ?thesis using two three four wf3 same
    by (simp add: update_app_def app2_def app_wf_def update_active_peers_def image_image)
qed

lemma render_total:
  assumes "app_wf X config app"
  shows "\<exists>frame. render X w app = Some frame"
proof -
  have idx: "un_pid p < length (ua_followers_accepted_idx app)" "un_pid p < length (ua_followers_progress app)"
    if "p \<in> insert (ua_current_node app) (set (ua_active_peers app))" for p
    using that assms ui_max_pid_ge [of "un_pid p" config] by (auto simp: app_wf_def)
  define row where "row peer = do { acc \<leftarrow> vec_get (ua_followers_accepted_idx app) (un_pid peer);
      let (pid, cells) = peer_row peer; Some (pid, cells @ [show_nat acc]) }" for peer
  define bar where "bar node = do { ratio \<leftarrow> vec_get (ua_followers_progress app) (un_pid node); draw_progress_bar X ratio }" for node :: ui_node
  have "\<exists>r. row p = Some r" "\<exists>b. bar p = Some b" if "p \<in> set (ua_active_peers app)" for p
    using idx [of p] that assms
    by (auto simp: row_def bar_def draw_progress_bar_def app_wf_def ratio_ok_def Let_def split: prod.splits)
  then have "\<exists>rs. those (map row (ua_active_peers app)) = Some rs" "\<exists>bs. those (map bar (ua_active_peers app)) = Some bs"
    by (simp_all add: those_total)
  then have "\<exists>t. draw_leader_table app = Some t" "\<exists>b. draw_progress X app = Some b"
    by (auto simp: draw_leader_table_def draw_progress_def row_def [abs_def] bar_def [abs_def])
  then show ?thesis using idx(1) [of "ua_current_node app"]
    by (auto simp: render_def render_leader_def draw_leader_info_def split: ui_role.splits)
qed

lemma ui_tick_total:
  assumes wf: "app_wf X config (ui_app_of ui)" and fit: "states_fit config st" and up: "ua_decided_idx (ui_app_of ui) \<le> ops_decided_idx st"
  shows "\<exists>frame ui'. ui_tick X w period ev st ui = Some (frame, ui') \<and> app_wf X config (ui_app_of ui') \<and>
    (ui_started ui \<longrightarrow> ua_decided_idx (ui_app_of ui') = ops_decided_idx st \<and> ua_current_leader (ui_app_of ui') = ops_current_leader st \<and>
       (\<forall>p \<in> set (ua_active_peers (ui_app_of ui')). un_connected p \<longleftrightarrow>
          (\<exists>h \<in> set (cs_heartbeats (ops_cluster_state st)). b_pid (hbr_ballot h) = un_pid p)) \<and>
       (frame = None \<longleftrightarrow> ev = Some KeyEsc \<or> ev = Some (KeyChar CHR ''q'')))"
proof (cases "ui_started ui")
  case True
  obtain app where app: "update_app X period st (ui_app_of ui) = Some app" "app_wf X config app"
    "ua_decided_idx app = ops_decided_idx st" "ua_current_leader app = ops_current_leader st"
    "ua_active_peers app = map (refresh_peer (cs_heartbeats (ops_cluster_state st))) (ua_active_peers (ui_app_of ui))"
    using update_app_ok [OF wf fit up] by blast
  have con: "un_connected (refresh_peer hs n) \<longleftrightarrow> (\<exists>h \<in> set hs. b_pid (hbr_ballot h) = un_pid n)" for hs n
    by (auto simp: refresh_peer_def find_None_iff find_Some_iff split: option.splits)
  obtain frame where "render X w app = Some frame" using render_total [OF app(2)] by blast
  then show ?thesis using True app by (auto simp: ui_tick_def update_ui_def ui_stop_def con)
qed (use wf in \<open>simp add: ui_tick_def\<close>)

end

section \<open>What a tick does not survive, and what it shows late\<close>

lemma ui_tick_underflow:
  assumes "ui_started ui" "ops_decided_idx st < ua_decided_idx (ui_app_of ui)"
  shows "ui_tick X w period ev st ui = None"
  using assms by (simp add: ui_tick_def update_app_def app_set_decided_idx_def checked_sub_def)

lemma ui_start_draws_nothing: "ui_start X w ev ui = Some (frame, ui') \<Longrightarrow> frame = None"
  by (auto simp: ui_start_def update_ui_def bind_eq_Some_conv ui_stop_def split: if_splits)

section \<open>The states of a server\<close>

lemma server_states_fit:
  assumes ok: "server_ok om" and pid: "sp_pid (op_seq_paxos om) = uc_pid config" and mp: "max_pid (sp_leader_state (op_seq_paxos om)) = ui_max_pid config"
    and leader: "\<forall>l followed. get_current_leader om = Some (l, followed) \<longrightarrow> l \<in> insert (uc_pid config) (set (uc_peers config))"
    and acc: "\<forall>a \<in> set (accepted_indexes (sp_leader_state (op_seq_paxos om))).
      a \<le> accepted_indexes (sp_leader_state (op_seq_paxos om)) ! (uc_pid config - 1)"
  shows "states_fit config (get_ui_states om)"
proof -
  have k: "wf_leader (sp_leader_state (op_seq_paxos om))" "known_pid (sp_leader_state (op_seq_paxos om)) (uc_pid config)"
    using ok pid by (auto simp: server_ok_def sp_inv_def)
  then show ?thesis using leader acc mp
    by (auto simp: states_fit_def get_ui_states_def cluster_state_from_def wf_leader_def known_pid_def nth_Cons' split: if_splits)
qed

end
