(* ===== verification/Example_Servers.thy ===== *)
theory Example_Servers
  imports Dashboard Omni_Paxos_EC KV_Store EC_Key_Value Memory_Storage
begin

text \<open>
  The example programs (\<^verbatim>\<open>examples/\<close>): a task per server that runs the loop of \<^verbatim>\<open>server.rs\<close>, the channels between the tasks, and
  the set-up of \<^verbatim>\<open>main.rs\<close>. The three copies of \<^verbatim>\<open>server.rs\<close> differ in the server they drive, which is a record of its operations
  here; the dashboard's copy has one more branch. Time is left open: any branch of the loop whose timer may be due can be taken.
\<close>

section \<open>The server task\<close>

record ('o, 'm) server_ops =
  so_tick :: "'o \<Rightarrow> 'o option"
  so_take :: "'m list \<Rightarrow> 'o \<Rightarrow> 'm list \<times> 'o"
  so_handle :: "'m \<Rightarrow> 'o \<Rightarrow> 'o option"
  so_receiver :: "'m \<Rightarrow> node_id"

definition omni_ops ::
  "('s, 't, cluster_config, 'p) storage_impl \<Rightarrow> ('t, 'p) snapshot_impl \<Rightarrow> (('s, 't, 'p) omni_paxos, ('t, cluster_config, 'p) message) server_ops" where
  "omni_ops S P = \<lparr>so_tick = tick S, so_take = take_outgoing_messages, so_handle = handle_incoming S P, so_receiver = get_receiver\<rparr>"

definition omni_ec_ops ::
  "('t, cluster_config_ec, 'rs) ec_env \<Rightarrow> ('s, 't, cluster_config_ec, 'p) storage_impl \<Rightarrow> ('t, 'p) snapshot_impl \<Rightarrow>
     (('s, 't, 'p, 'rs) omni_paxos_ec, ('t, cluster_config_ec, 'p) message) server_ops" where
  "omni_ec_ops X S P = \<lparr>so_tick = omni_ec_tick X S, so_take = omni_ec_take_outgoing_messages, so_handle = omni_ec_handle_incoming X S P,
     so_receiver = get_receiver\<rparr>"

text \<open>
  A task with its server. The receiver of its channel is part of the system below; \<open>os_message_buffer\<close> holds what
  \<^verbatim>\<open>drain\<close> has not yet sent. A task that was aborted or has panicked does not run any more.
\<close>

record ('o, 'm) omni_paxos_server =
  os_omni_paxos :: 'o
  os_message_buffer :: "'m list"
  os_running :: bool

datatype 'm select = TickDue | OutgoingDue | Incoming 'm

text \<open>The branches of \<^verbatim>\<open>select!\<close>; sending begins with taking the messages from the server.\<close>

definition begin_send :: "('o, 'm) server_ops \<Rightarrow> ('o, 'm) omni_paxos_server \<Rightarrow> ('o, 'm) omni_paxos_server" where
  "begin_send I srv = (let (buffer, om) = so_take I (os_message_buffer srv) (os_omni_paxos srv) in
     srv\<lparr>os_omni_paxos := om, os_message_buffer := buffer\<rparr>)"

definition run_branch :: "('o, 'm) server_ops \<Rightarrow> 'm select \<Rightarrow> ('o, 'm) omni_paxos_server \<Rightarrow> ('o, 'm) omni_paxos_server option" where
  "run_branch I sel srv =
     (case sel of
        TickDue \<Rightarrow> map_option (\<lambda>om. srv\<lparr>os_omni_paxos := om\<rparr>) (so_tick I (os_omni_paxos srv))
      | OutgoingDue \<Rightarrow> Some (begin_send I srv)
      | Incoming in_msg \<Rightarrow> map_option (\<lambda>om. srv\<lparr>os_omni_paxos := om\<rparr>) (so_handle I in_msg (os_omni_paxos srv)))"

section \<open>Tasks and channels\<close>

record ('o, 'm) example =
  ex_server :: "node_id \<rightharpoonup> ('o, 'm) omni_paxos_server"
  ex_channel :: "node_id \<rightharpoonup> 'm list"

definition EXAMPLE_BUFFER_SIZE :: nat where "EXAMPLE_BUFFER_SIZE = 10000"
definition ELECTION_TICK_TIMEOUT :: u64 where "ELECTION_TICK_TIMEOUT = 5"

text \<open>Both halves of a channel are its queue.\<close>

definition initialise_channels :: "node_id list \<Rightarrow> node_id \<rightharpoonup> 'm list" where
  "initialise_channels servers = fold (\<lambda>pid chans. chans(pid \<mapsto> [])) servers Map.empty"

text \<open>
  One turn of the loop of \<^verbatim>\<open>send_outgoing_msgs\<close>: \<open>Some None\<close> while the channel is full. A closed channel (its task has ended) drops
  the message, a missing one is the panic \<^verbatim>\<open>No channel for receiver\<close>.
\<close>

definition send_next ::
  "('o, 'm) server_ops \<Rightarrow> node_id \<Rightarrow> ('o, 'm) omni_paxos_server \<Rightarrow> ('o, 'm) example \<Rightarrow> ('o, 'm) example option option" where
  "send_next I p srv ex =
     (case os_message_buffer srv of
        [] \<Rightarrow> Some None
      | m # rest \<Rightarrow>
          (case ex_channel ex (so_receiver I m) of
             None \<Rightarrow> None
           | Some queue \<Rightarrow>
               let ex1 = ex\<lparr>ex_server := (ex_server ex)(p \<mapsto> srv\<lparr>os_message_buffer := rest\<rparr>)\<rparr>;
                   closed = (case ex_server ex (so_receiver I m) of None \<Rightarrow> False | Some r \<Rightarrow> \<not> os_running r)
               in if closed then Some (Some ex1)
                  else if length queue < EXAMPLE_BUFFER_SIZE
                  then Some (Some (ex1\<lparr>ex_channel := (ex_channel ex)(so_receiver I m \<mapsto> queue @ [m])\<rparr>))
                  else Some None))"

definition set_server :: "node_id \<Rightarrow> ('o, 'm) omni_paxos_server \<Rightarrow> ('o, 'm) example \<Rightarrow> ('o, 'm) example" where
  "set_server p srv ex = ex\<lparr>ex_server := (ex_server ex)(p \<mapsto> srv)\<rparr>"

text \<open>
  The steps of the program. Calls of the main thread go through the mutex, between the steps of the task. A panic ends the task
  and poisons the mutex.
\<close>

inductive ex_step :: "('o, 'm) server_ops \<Rightarrow> ('o \<Rightarrow> 'o \<Rightarrow> bool) \<Rightarrow> ('o, 'm) example \<Rightarrow> ('o, 'm) example \<Rightarrow> bool"
  for I client where
  ex_run: "ex_server ex p = Some srv \<Longrightarrow> os_running srv \<Longrightarrow> os_message_buffer srv = [] \<Longrightarrow> sel = TickDue \<or> sel = OutgoingDue \<Longrightarrow>
     run_branch I sel srv = Some srv' \<Longrightarrow> ex_step I client ex (set_server p srv' ex)"
| ex_receive: "ex_server ex p = Some srv \<Longrightarrow> os_running srv \<Longrightarrow> os_message_buffer srv = [] \<Longrightarrow> ex_channel ex p = Some (m # queue) \<Longrightarrow>
     run_branch I (Incoming m) srv = Some srv' \<Longrightarrow>
     ex_step I client ex ((set_server p srv' ex)\<lparr>ex_channel := (ex_channel ex)(p \<mapsto> queue)\<rparr>)"
| ex_send: "ex_server ex p = Some srv \<Longrightarrow> os_running srv \<Longrightarrow> send_next I p srv ex = Some (Some ex') \<Longrightarrow> ex_step I client ex ex'"
| ex_client: "ex_server ex p = Some srv \<Longrightarrow> client (os_omni_paxos srv) om \<Longrightarrow> ex_step I client ex (set_server p (srv\<lparr>os_omni_paxos := om\<rparr>) ex)"
| ex_end: "ex_server ex p = Some srv \<Longrightarrow> ex_step I client ex (set_server p (srv\<lparr>os_running := False\<rparr>) ex)"

inductive_cases ex_stepE: "ex_step I client ex ex'"

section \<open>The key-value program\<close>

definition SERVERS :: "node_id list" where "SERVERS = [1, 2, 3]"

definition example_config :: "node_id list \<Rightarrow> node_id \<Rightarrow> omni_paxos_config" where
  "example_config servers pid = \<lparr>
     cluster_config_of = \<lparr>cc_configuration_id = 1, cc_nodes = servers, cc_flexible_quorum = None\<rparr>,
     server_config_of = server_config_default\<lparr>sc_pid := pid, sc_election_tick_timeout := ELECTION_TICK_TIMEOUT\<rparr>\<rparr>"

definition start_server :: "(config_error + 'o) option \<Rightarrow> ('o, 'm) omni_paxos_server option" where
  "start_server built =
     (case built of
        Some (Inr om) \<Rightarrow> Some \<lparr>os_omni_paxos = om, os_message_buffer = [], os_running = True\<rparr>
      | _ \<Rightarrow> None)"

definition start_servers :: "(node_id \<Rightarrow> (config_error + 'o) option) \<Rightarrow> node_id list \<Rightarrow> ('o, 'm) example option" where
  "start_servers build servers = for_each (\<lambda>pid ex. do {
       srv \<leftarrow> start_server (build pid);
       Some (set_server pid srv ex)
     }) servers \<lparr>ex_server = Map.empty, ex_channel = initialise_channels servers\<rparr>"

definition kv_main_start ::
  "(((key_value, cluster_config, kv_snapshot) memory_storage, key_value, kv_snapshot) omni_paxos, (key_value, cluster_config, kv_snapshot) message) example option" where
  "kv_main_start = start_servers (\<lambda>pid. omni_paxos_build memory_impl (example_config SERVERS pid) memory_storage_default) SERVERS"

text \<open>What the main thread makes of the entries it reads.\<close>

definition store_committed :: "(key_value, 'c, 'p) log_entry list \<Rightarrow> (string \<rightharpoonup> u64) \<Rightarrow> (string \<rightharpoonup> u64)" where
  "store_committed committed_ents store =
     fold (\<lambda>ent store. case ent of Decided kv \<Rightarrow> store(kv_key kv \<mapsto> kv_value kv) | _ \<Rightarrow> store) committed_ents store"

section \<open>The erasure coding program\<close>

definition ec_example_config :: "'rs rs_impl \<Rightarrow> node_id \<Rightarrow> 'rs omni_paxos_ec_config option" where
  "ec_example_config R pid = do {
     default \<leftarrow> server_config_ec_default R;
     (case ec_service_new R 2 1 of
        Inl _ \<Rightarrow> None
      | Inr ec \<Rightarrow> Some \<lparr>
          cluster_config_ec_of = \<lparr>cce_configuration_id = 1, cce_nodes = SERVERS, cce_flexible_quorum = None\<rparr>,
          server_config_ec_of = default\<lparr>sc_pid := pid, sc_election_tick_timeout := ELECTION_TICK_TIMEOUT, sce_erasure_coding_service := ec\<rparr>\<rparr>)
   }"

definition ec_main_start ::
  "'rs rs_impl \<Rightarrow> (((ec_key_value, cluster_config_ec, 'p) memory_storage, ec_key_value, 'p, 'rs) omni_paxos_ec,
     (ec_key_value, cluster_config_ec, 'p) message) example option" where
  "ec_main_start R = start_servers (\<lambda>pid. do {
       config \<leftarrow> ec_example_config R pid;
       omni_paxos_ec_build memory_impl config memory_storage_default
     }) SERVERS"

section \<open>The dashboard program\<close>

record ('o, 'm, 'f) dashboard_server =
  ds_server :: "('o, 'm) omni_paxos_server"
  ds_ui :: "'f omni_paxos_ui"

text \<open>The branch that the dashboard's loop has in addition.\<close>

definition run_ui_branch ::
  "'f f64_impl \<Rightarrow> nat \<Rightarrow> 'f \<Rightarrow> ui_event option \<Rightarrow> (('s, 't, 'p) omni_paxos, 'm, 'f) dashboard_server \<Rightarrow>
     ('f widget list option \<times> (('s, 't, 'p) omni_paxos, 'm, 'f) dashboard_server) option" where
  "run_ui_branch X window_width period event srv = do {
     (frame, ui) \<leftarrow> ui_tick X window_width period event (get_ui_states (os_omni_paxos (ds_server srv))) (ds_ui srv);
     Some (frame, srv\<lparr>ds_ui := ui\<rparr>)
   }"

definition start_dashboard ::
  "'f f64_impl \<Rightarrow> nat \<Rightarrow> ui_event option \<Rightarrow> node_id \<Rightarrow> omni_paxos_config \<Rightarrow> (config_error + 'o) option \<Rightarrow> ('o, 'm, 'f) dashboard_server option" where
  "start_dashboard X window_width event attach_pid op_config built = do {
     ui \<leftarrow> ui_with X (ui_app_config_from op_config);
     (_, ui1) \<leftarrow> (if sc_pid (server_config_of op_config) = attach_pid then ui_start X window_width event ui else Some (None, ui));
     srv \<leftarrow> start_server built;
     Some \<lparr>ds_server = srv, ds_ui = ui1\<rparr>
   }"

definition dashboard_servers :: "nat \<Rightarrow> node_id list" where
  "dashboard_servers num_nodes = [1..<num_nodes + 1]"

subsection \<open>Its arguments\<close>

record dashboard_args =
  da_number_of_nodes :: nat
  da_attach_node :: nat
  da_duration_in_seconds :: nat
  da_crash :: nat

text \<open>\<^verbatim>\<open>str::parse::<u64>\<close>: an optional sign, then digits only, within 64 bits.\<close>

definition is_digit :: "char \<Rightarrow> bool" where
  "is_digit c \<longleftrightarrow> 48 \<le> (of_char c :: nat) \<and> (of_char c :: nat) \<le> 57"

definition digits_value :: "string \<Rightarrow> nat" where
  "digits_value s = foldl (\<lambda>n c. 10 * n + (of_char c - 48)) 0 s"

definition parse_u64 :: "string \<Rightarrow> nat option" where
  "parse_u64 s = (
     let t = (case s of [] \<Rightarrow> [] | c # r \<Rightarrow> if c = CHR ''+'' then r else s) in
     if t = [] \<or> \<not> list_all is_digit t \<or> 2 ^ 64 \<le> digits_value t then None else Some (digits_value t))"

fun parse_loop :: "string list \<Rightarrow> dashboard_args \<Rightarrow> (string + dashboard_args) option" where
  "parse_loop [] a = Some (Inr a)"
| "parse_loop (x # args) a =
     (if x \<in> {''nodes'', ''attach'', ''duration'', ''crash''} then
        (case args of
           [] \<Rightarrow> None
         | v # rest \<Rightarrow>
             (case parse_u64 v of
                None \<Rightarrow> None
              | Some n \<Rightarrow> parse_loop rest
                  (if x = ''nodes'' then a\<lparr>da_number_of_nodes := n\<rparr>
                   else if x = ''attach'' then a\<lparr>da_attach_node := n\<rparr>
                   else if x = ''duration'' then a\<lparr>da_duration_in_seconds := n\<rparr>
                   else a\<lparr>da_crash := n\<rparr>)))
      else Some (Inl (''Invalid argument: '' @ x)))"

text \<open>The arguments after the name of the program.\<close>

definition parse_arguments :: "string list \<Rightarrow> (string + dashboard_args) option" where
  "parse_arguments args =
     parse_loop args \<lparr>da_number_of_nodes = 3, da_attach_node = 3, da_duration_in_seconds = 10, da_crash = 0\<rparr>"

end
