(* ===== verification/Example_Facts.thy ===== *)
theory Example_Facts
  imports Example_Servers Network Omni_Paxos_Facts
begin

text \<open>
  The example programs as instances of the network: every step of the tasks, channels and client calls is a run of the
  network on the replicas inside, so that what holds for the network holds for the programs. Then the round trip of
  decimal numbers through the dashboard's arguments, and the key-value store that the main thread builds.
\<close>

section \<open>Calls of a server as steps of the network\<close>

lemma put_same [simp]: "nw_replica N p = sp \<Longrightarrow> put p sp N = N"
  by (auto simp: put_def)

lemma put_put [simp]: "put p sp (put p sp' N) = put p sp N"
  by (simp add: put_def)

lemma replica_put [simp]: "nw_replica (put p sp N) p = sp" "nw_sent (put p sp N) = nw_sent N"
  by (simp_all add: put_def)

text \<open>A message on its way was sent, if it is one of the replication protocol.\<close>

definition posted :: "('s, 't, 'c, 'p) network \<Rightarrow> ('t, 'c, 'p) message \<Rightarrow> bool" where
  "posted N m = (case m of SequencePaxosMsg _ \<Rightarrow> m \<in> nw_sent N | BLEMsg _ \<Rightarrow> True)"

lemma posted_mono: "posted N m \<Longrightarrow> nw_sent N \<subseteq> nw_sent N' \<Longrightarrow> posted N' m"
  by (auto simp: posted_def split: message.splits)

lemma posted_put [simp]: "posted (put p sp N) m = posted N m"
  by (simp add: posted_def split: message.split)

lemma replica_put_other [simp]: "q \<noteq> p \<Longrightarrow> nw_replica (put p sp N) q = nw_replica N q"
  by (simp add: put_def)

lemma election_net:
  assumes "election_timeout S om = Some om'" "p \<in> nodes" "nw_replica N p = op_seq_paxos om"
  shows "(net_step S P configs strict A nodes)\<^sup>*\<^sup>* N (put p (op_seq_paxos om') N)"
proof -
  obtain r where "case r of None \<Rightarrow> op_seq_paxos om' = op_seq_paxos om | Some b \<Rightarrow> handle_leader S b (op_seq_paxos om) = Some (op_seq_paxos om')"
    using assms(1) by (rule election_timeoutE) blast
  then show ?thesis using assms(2,3) net_elect [of p nodes S _ N "op_seq_paxos om'" P configs strict A] by (cases r) auto
qed

lemma tick_net:
  assumes t: "tick S om = Some om'" and p: "p \<in> nodes" "nw_replica N p = op_seq_paxos om"
  shows "(net_step S P configs strict A nodes)\<^sup>*\<^sup>* N (put p (op_seq_paxos om') N)"
proof -
  let ?steps = "(net_step S P configs strict A nodes)\<^sup>*\<^sup>*"
  obtain c1 om1 c2 om3 c3 elect resend flush where
    e: "(if elect then election_timeout S (om\<lparr>op_election_clock := c1\<rparr>) else Some (om\<lparr>op_election_clock := c1\<rparr>)) = Some om1"
    and r: "(if resend then do { sp \<leftarrow> resend_message_timeout (op_seq_paxos (om1\<lparr>op_resend_message_clock := c2\<rparr>));
         Some (om1\<lparr>op_resend_message_clock := c2, op_seq_paxos := sp\<rparr>) } else Some (om1\<lparr>op_resend_message_clock := c2\<rparr>)) = Some om3"
    and f: "(if flush then do { sp \<leftarrow> flush_batch_timeout S (op_seq_paxos (om3\<lparr>op_flush_batch_clock := c3\<rparr>));
         Some (om3\<lparr>op_flush_batch_clock := c3, op_seq_paxos := sp\<rparr>) } else Some (om3\<lparr>op_flush_batch_clock := c3\<rparr>)) = Some om'"
    using t by (auto simp: tick_def bind_eq_Some_conv Let_def)
  have "?steps N (put p (op_seq_paxos om1) N)"
    using e p election_net [of S "om\<lparr>op_election_clock := c1\<rparr>" om1 p nodes N] by (auto split: if_split_asm)
  also have "?steps (put p (op_seq_paxos om1) N) (put p (op_seq_paxos om3) N)"
    using r p(1) net_resend [of p nodes "put p (op_seq_paxos om1) N" _ S P configs strict A]
    by (auto simp: bind_eq_Some_conv split: if_split_asm)
  also have "?steps (put p (op_seq_paxos om3) N) (put p (op_seq_paxos om') N)"
    using f p(1) net_flush [of p nodes S "put p (op_seq_paxos om3) N" _ P configs strict A]
    by (auto simp: bind_eq_Some_conv split: if_split_asm)
  finally show ?thesis .
qed

lemma handle_incoming_net:
  assumes "handle_incoming S P m om = Some om'" "p \<in> nodes" "nw_replica N p = op_seq_paxos om"
    "get_receiver m = p" "posted N m"
  shows "(net_step S P configs False A nodes)\<^sup>*\<^sup>* N (put p (op_seq_paxos om') N)"
  using assms net_deliver [of p nodes _ N False S P "op_seq_paxos om'" configs A]
  by (cases m) (auto simp: handle_incoming_def posted_def bind_eq_Some_conv)

lemma take_net:
  assumes "take_outgoing_messages [] om = (out, om')" "p \<in> nodes" "nw_replica N p = op_seq_paxos om"
  shows "\<exists>sent. net_step S P configs strict A nodes N ((put p (op_seq_paxos om') N)\<lparr>nw_sent := nw_sent N \<union> sent\<rparr>) \<and>
    (\<forall>m \<in> set out. posted ((put p (op_seq_paxos om') N)\<lparr>nw_sent := nw_sent N \<union> sent\<rparr>) m)"
proof -
  obtain buffer sp where t: "take_outgoing_msgs [] (op_seq_paxos om) = (buffer, sp)" by (cases "take_outgoing_msgs [] (op_seq_paxos om)")
  then obtain b where o: "op_seq_paxos om' = sp" "out = buffer @ map BLEMsg b"
    using assms(1) by (auto simp: take_outgoing_messages_def Let_def split: prod.split_asm)
  have "net_step S P configs strict A nodes N ((put p (op_seq_paxos om') N)\<lparr>nw_sent := nw_sent N \<union> set buffer\<rparr>)"
    using net_send [of p nodes N buffer sp S P configs strict A] t assms(2,3) o(1) by simp
  then show ?thesis by (auto simp: o(2) posted_def split: message.splits intro!: exI [of _ "set buffer"])
qed

section \<open>The simulation\<close>

definition append_call :: "'t set \<Rightarrow> ('s, 't, cluster_config, 'p) storage_impl \<Rightarrow> ('s, 't, 'p) omni_paxos \<Rightarrow> ('s, 't, 'p) omni_paxos \<Rightarrow> bool" where
  "append_call A S om om' \<longleftrightarrow> (\<exists>e \<in> A. \<exists>r. omni_append S e om = Some (r, om'))"

text \<open>The replicas of the network are those of the tasks, and every message on its way was sent and is in its receiver's channel.\<close>

definition simulates ::
  "node_id set \<Rightarrow> (('s, 't, 'p) omni_paxos, ('t, cluster_config, 'p) message) example \<Rightarrow> ('s, 't, cluster_config, 'p) network \<Rightarrow> bool" where
  "simulates nodes ex N \<longleftrightarrow> dom (ex_server ex) = nodes \<and>
     (\<forall>p srv. ex_server ex p = Some srv \<longrightarrow> nw_replica N p = op_seq_paxos (os_omni_paxos srv) \<and>
        (\<forall>m \<in> set (os_message_buffer srv). posted N m)) \<and>
     (\<forall>p queue. ex_channel ex p = Some queue \<longrightarrow> (\<forall>m \<in> set queue. get_receiver m = p \<and> posted N m))"

lemma simulates_server:
  assumes "simulates nodes ex N" "p \<in> nodes" "nw_replica N' p = op_seq_paxos (os_omni_paxos srv)" "\<forall>q. q \<noteq> p \<longrightarrow> nw_replica N' q = nw_replica N q"
    "nw_sent N \<subseteq> nw_sent N'" "\<forall>m \<in> set (os_message_buffer srv). posted N' m"
  shows "simulates nodes (set_server p srv ex) N'"
  using assms posted_mono [OF _ assms(5)] unfolding simulates_def set_server_def by (simp add: insert_absorb)

lemma simulates_channel:
  assumes "simulates nodes ex N" "\<forall>m \<in> set queue. get_receiver m = p \<and> posted N m"
  shows "simulates nodes (ex\<lparr>ex_channel := (ex_channel ex)(p \<mapsto> queue)\<rparr>) N"
  using assms unfolding simulates_def by auto

lemma example_simulation:
  assumes step: "ex_step (omni_ops S P) (append_call A S) ex ex'" and sim: "simulates nodes ex N"
  shows "\<exists>N'. (net_step S P configs False A nodes)\<^sup>*\<^sup>* N N' \<and> simulates nodes ex' N'"
  using step
proof cases
  case (ex_run p srv sel srv')
  have p: "p \<in> nodes" "nw_replica N p = op_seq_paxos (os_omni_paxos srv)" using sim ex_run(2) by (auto simp: simulates_def)
  show ?thesis
  proof (cases sel)
    case TickDue
    then obtain om where om: "tick S (os_omni_paxos srv) = Some om" "srv' = srv\<lparr>os_omni_paxos := om\<rparr>"
      using ex_run(6) by (auto simp: run_branch_def omni_ops_def)
    have "simulates nodes (set_server p srv' ex) (put p (op_seq_paxos om) N)"
      using sim p(1) by (rule simulates_server) (use om ex_run(4) in \<open>auto simp: put_def\<close>)
    then show ?thesis using tick_net [OF om(1) p] ex_run(1) by blast
  next
    case OutgoingDue
    obtain out om where t: "take_outgoing_messages [] (os_omni_paxos srv) = (out, om)" by (cases "take_outgoing_messages [] (os_omni_paxos srv)")
    then have srv': "srv' = srv\<lparr>os_omni_paxos := om, os_message_buffer := out\<rparr>"
      using ex_run(4,6) OutgoingDue by (auto simp: run_branch_def begin_send_def omni_ops_def)
    define N' where "N' sent = (put p (op_seq_paxos om) N)\<lparr>nw_sent := nw_sent N \<union> sent\<rparr>" for sent
    obtain sent where n: "net_step S P configs False A nodes N (N' sent)" and sent: "\<forall>m \<in> set out. posted (N' sent) m"
      using take_net [OF t p, of S P configs False] unfolding N'_def by blast
    have "simulates nodes (set_server p srv' ex) (N' sent)"
      using sim p(1) by (rule simulates_server) (use srv' sent in \<open>auto simp: put_def N'_def\<close>)
    then show ?thesis using n ex_run(1) by blast
  qed (use ex_run(5) in simp)
next
  case (ex_receive p srv m queue srv')
  have p: "p \<in> nodes" "nw_replica N p = op_seq_paxos (os_omni_paxos srv)" using sim ex_receive(2) by (auto simp: simulates_def)
  have m: "get_receiver m = p" "posted N m" and queue: "\<forall>m \<in> set queue. get_receiver m = p \<and> posted N m"
    using sim ex_receive(5) by (auto simp: simulates_def)
  obtain om where om: "handle_incoming S P m (os_omni_paxos srv) = Some om" "srv' = srv\<lparr>os_omni_paxos := om\<rparr>"
    using ex_receive(6) by (auto simp: run_branch_def omni_ops_def)
  have "simulates nodes (set_server p srv' ex) (put p (op_seq_paxos om) N)"
    using sim p(1) by (rule simulates_server) (use om ex_receive(4) in \<open>auto simp: put_def\<close>)
  then have "simulates nodes ex' (put p (op_seq_paxos om) N)"
    unfolding ex_receive(1) using simulates_channel [of nodes "set_server p srv' ex" "put p (op_seq_paxos om) N" queue p] queue
    by (simp add: set_server_def)
  then show ?thesis using handle_incoming_net [OF om(1) p m] by blast
next
  case (ex_send p srv)
  have p: "p \<in> nodes" "nw_replica N p = op_seq_paxos (os_omni_paxos srv)"
    and buf: "\<forall>m \<in> set (os_message_buffer srv). posted N m"
    using sim ex_send(1) by (auto simp: simulates_def)
  obtain m rest queue where b: "os_message_buffer srv = m # rest" "ex_channel ex (get_receiver m) = Some queue"
    and ex': "ex' = set_server p (srv\<lparr>os_message_buffer := rest\<rparr>) ex \<or>
      ex' = (set_server p (srv\<lparr>os_message_buffer := rest\<rparr>) ex)\<lparr>ex_channel := (ex_channel ex)(get_receiver m \<mapsto> queue @ [m])\<rparr>"
    using ex_send(3)
    by (auto simp: send_next_def omni_ops_def set_server_def Let_def split: list.split_asm option.split_asm if_split_asm)
  have s: "simulates nodes (set_server p (srv\<lparr>os_message_buffer := rest\<rparr>) ex) N"
    using sim p(1) by (rule simulates_server) (use p buf b in auto)
  have "\<forall>m' \<in> set (queue @ [m]). get_receiver m' = get_receiver m \<and> posted N m'"
    using sim b buf by (auto simp: simulates_def)
  from simulates_channel [OF s this] s ex' have "simulates nodes ex' N" by (auto simp: set_server_def)
  then show ?thesis by blast
next
  case (ex_client p srv om)
  have p: "p \<in> nodes" "nw_replica N p = op_seq_paxos (os_omni_paxos srv)" using sim ex_client(2) by (auto simp: simulates_def)
  obtain e r sp where a: "sp_append S e (op_seq_paxos (os_omni_paxos srv)) = Some (r, sp)" "om = (os_omni_paxos srv)\<lparr>op_seq_paxos := sp\<rparr>"
    "e \<in> A"
    using ex_client(3) by (auto simp: append_call_def omni_append_def on_seq_paxos_def)
  have "simulates nodes (set_server p (srv\<lparr>os_omni_paxos := om\<rparr>) ex) (put p sp N)"
    using sim p(1) by (rule simulates_server) (use a sim ex_client(2) in \<open>auto simp: simulates_def\<close>)
  then show ?thesis using net_append [of p nodes S e N r sp A P configs False] a p ex_client(1) by auto
next
  case (ex_end p srv)
  have p: "p \<in> nodes" using sim ex_end(2) by (auto simp: simulates_def)
  have "simulates nodes (set_server p (srv\<lparr>os_running := False\<rparr>) ex) N"
    using sim p by (rule simulates_server) (use sim ex_end(2) in \<open>auto simp: simulates_def\<close>)
  then show ?thesis using ex_end(1) by blast
qed

lemma example_run_simulation:
  assumes "(ex_step (omni_ops S P) (append_call A S))\<^sup>*\<^sup>* ex ex'" "simulates nodes ex N"
  shows "\<exists>N'. (net_step S P configs False A nodes)\<^sup>*\<^sup>* N N' \<and> simulates nodes ex' N'"
  using assms(1)
proof (induction rule: rtranclp_induct)
  case base
  show ?case using assms(2) by blast
next
  case (step y z)
  then show ?case using example_simulation [OF step.hyps(2)] by (meson rtranclp_trans)
qed

section \<open>The key-value program\<close>

type_synonym kv_omni_paxos = "((key_value, cluster_config, kv_snapshot) memory_storage, key_value, kv_snapshot) omni_paxos"

definition kv_configs :: "node_id \<Rightarrow> sequence_paxos_config" where
  "kv_configs pid = sequence_paxos_config_from (example_config SERVERS pid)"

lemma kv_config_valid: "pid \<in> set SERVERS \<Longrightarrow> omni_paxos_config_validate (example_config SERVERS pid) = Inr ()"
  by (simp add: omni_paxos_config_validate_ok cluster_config_validate_ok)
    (auto simp: example_config_def SERVERS_def server_config_validate_def valid_config_def server_config_default_def
      BUFFER_SIZE_def ELECTION_TICK_TIMEOUT_def RESEND_MESSAGE_TIMEOUT_def)

lemma kv_start_total:
  assumes "pid \<in> set SERVERS"
  shows "\<exists>om :: kv_omni_paxos. omni_paxos_build memory_impl (example_config SERVERS pid) memory_storage_default = Some (Inr om) \<and>
    sequence_paxos_with memory_impl (kv_configs pid) memory_storage_default = Some (op_seq_paxos om)"
proof -
  note v = kv_config_valid [OF assms]
  have "distinct (cc_nodes (cluster_config_of (example_config SERVERS pid)))" by (simp add: example_config_def SERVERS_def)
  from mem_build_total [OF v this memory_default_ok]
  obtain om :: kv_omni_paxos where om: "omni_paxos_build memory_impl (example_config SERVERS pid) memory_storage_default = Some (Inr om)" by blast
  then have "sequence_paxos_with memory_impl (kv_configs pid) memory_storage_default = Some (op_seq_paxos om)"
    using v by (auto simp: omni_paxos_build_def kv_configs_def bind_eq_Some_conv)
  with om show ?thesis by blast
qed

text \<open>The program starts without a panic, in a state that the network starts in.\<close>

lemma kv_main_starts:
  "\<exists>ex N. kv_main_start = Some ex \<and> net_start memory_impl memory_inv memory_view kv_configs (set SERVERS) N \<and> simulates (set SERVERS) ex N \<and>
    (\<forall>p \<in> set SERVERS. \<exists>srv. ex_server ex p = Some srv \<and> os_running srv \<and> os_message_buffer srv = []) \<and>
    (\<forall>p \<in> set SERVERS. sequence_paxos_with memory_impl (kv_configs p) memory_storage_default = Some (nw_replica N p))"
proof -
  define om where "om pid = (SOME om :: kv_omni_paxos. omni_paxos_build memory_impl (example_config SERVERS pid) memory_storage_default = Some (Inr om) \<and>
    sequence_paxos_with memory_impl (kv_configs pid) memory_storage_default = Some (op_seq_paxos om))" for pid
  have om: "omni_paxos_build memory_impl (example_config SERVERS pid) memory_storage_default = Some (Inr (om pid))"
    "sequence_paxos_with memory_impl (kv_configs pid) memory_storage_default = Some (op_seq_paxos (om pid))" if "pid \<in> set SERVERS" for pid
    using someI_ex [OF kv_start_total [OF that]] unfolding om_def by blast+
  let ?ex = "\<lparr>ex_server = [1 \<mapsto> \<lparr>os_omni_paxos = om 1, os_message_buffer = [], os_running = True\<rparr>,
      2 \<mapsto> \<lparr>os_omni_paxos = om 2, os_message_buffer = [], os_running = True\<rparr>,
      3 \<mapsto> \<lparr>os_omni_paxos = om 3, os_message_buffer = [], os_running = True\<rparr>], ex_channel = initialise_channels SERVERS\<rparr>"
  let ?N = "\<lparr>nw_replica = (\<lambda>p. op_seq_paxos (om p)), nw_sent = {}\<rparr>"
  have "kv_main_start = Some ?ex"
    using om(1) [of 1] om(1) [of 2] om(1) [of 3]
    by (simp add: kv_main_start_def start_servers_def SERVERS_def start_server_def set_server_def)
  moreover have "spc_pid (kv_configs p) = p" for p by (simp add: kv_configs_def example_config_def sequence_paxos_config_from_def Let_def)
  then have "net_start memory_impl memory_inv memory_view kv_configs (set SERVERS) ?N"
    using om(2) memory_default_ok by (auto simp: net_start_def SERVERS_def)
  moreover have "simulates (set SERVERS) ?ex ?N"
    by (auto simp: simulates_def SERVERS_def initialise_channels_def split: if_split_asm)
  moreover have "\<forall>p \<in> set SERVERS. \<exists>srv. ex_server ?ex p = Some srv \<and> os_running srv \<and> os_message_buffer srv = []"
    by (simp add: SERVERS_def)
  moreover have "\<forall>p \<in> set SERVERS. sequence_paxos_with memory_impl (kv_configs p) memory_storage_default = Some (nw_replica ?N p)"
    using om(2) by simp
  ultimately show ?thesis by blast
qed

lemma option_unique: "m = Some a \<Longrightarrow> m = Some b \<Longrightarrow> a = b"
  by simp

lemma kv_program_refines:
  assumes "kv_main_start = Some ex" "(ex_step (omni_ops memory_impl kv_impl) (append_call A memory_impl))\<^sup>*\<^sup>* ex ex'"
  shows "\<exists>N0 N. net_start memory_impl memory_inv memory_view kv_configs (set SERVERS) N0 \<and>
    (net_step memory_impl kv_impl kv_configs False A (set SERVERS))\<^sup>*\<^sup>* N0 N \<and> simulates (set SERVERS) ex' N \<and>
    (\<forall>p \<in> set SERVERS. sequence_paxos_with memory_impl (kv_configs p) memory_storage_default = Some (nw_replica N0 p))"
proof -
  obtain ex0 N0 where ex0: "kv_main_start = Some ex0"
    and N0: "net_start memory_impl memory_inv memory_view kv_configs (set SERVERS) N0" "simulates (set SERVERS) ex0 N0"
      "\<forall>p \<in> set SERVERS. sequence_paxos_with memory_impl (kv_configs p) memory_storage_default = Some (nw_replica N0 p)"
    using kv_main_starts by blast
  have "ex0 = ex" using ex0 assms(1) by (rule option_unique)
  show ?thesis using N0(1,3) example_run_simulation [OF assms(2) N0(2) [unfolded \<open>ex0 = ex\<close>], of kv_configs] by blast
qed

text \<open>So a leader of the program has the promises of a majority of its servers.\<close>

lemma kv_program_leader:
  assumes "kv_main_start = Some ex" "(ex_step (omni_ops memory_impl kv_impl) (append_call UNIV memory_impl))\<^sup>*\<^sup>* ex ex'"
    "ex_server ex' p = Some srv" "sp_state (op_seq_paxos (os_omni_paxos srv)) = (Leader, PhaseAccept)"
  shows "\<exists>Q \<subseteq> set SERVERS. is_prepare_quorum (ls_quorum (sp_leader_state (op_seq_paxos (os_omni_paxos srv)))) (card Q) \<and>
    (\<forall>q \<in> Q. \<exists>r. ex_server ex' q = Some r \<and>
       ballot_le (n_leader (sp_leader_state (op_seq_paxos (os_omni_paxos srv)))) (sp_get_promise (op_seq_paxos (os_omni_paxos r))))"
proof -
  obtain N0 N where N: "net_start memory_impl memory_inv memory_view kv_configs (set SERVERS) N0"
    "(net_step memory_impl kv_impl kv_configs False UNIV (set SERVERS))\<^sup>*\<^sup>* N0 N" and sim: "simulates (set SERVERS) ex' N"
    using kv_program_refines [OF assms(1,2)] by blast
  have p: "p \<in> set SERVERS" "nw_replica N p = op_seq_paxos (os_omni_paxos srv)" using sim assms(3) by (auto simp: simulates_def)
  obtain Q where Q: "Q \<subseteq> set SERVERS" "is_prepare_quorum (ls_quorum (sp_leader_state (nw_replica N p))) (card Q)"
    "promised_by N (n_leader (sp_leader_state (nw_replica N p))) Q"
    using mem.accepting_leader(1) [OF N p(1)] assms(4) p(2) by auto
  have "\<exists>r. ex_server ex' q = Some r \<and>
      ballot_le (n_leader (sp_leader_state (nw_replica N p))) (sp_get_promise (op_seq_paxos (os_omni_paxos r)))" if q: "q \<in> Q" for q
  proof -
    obtain r where r: "ex_server ex' q = Some r" using sim Q(1) q unfolding simulates_def by blast
    then have "nw_replica N q = op_seq_paxos (os_omni_paxos r)" using sim unfolding simulates_def by blast
    moreover have "ballot_le (n_leader (sp_leader_state (nw_replica N p))) (sp_get_promise (nw_replica N q))"
      using Q(3) q unfolding promised_by_def by blast
    ultimately show ?thesis using r by simp
  qed
  then show ?thesis using Q(1,2) unfolding p(2) by blast
qed

section \<open>Numbers and stores\<close>

lemma digits_value_snoc: "digits_value (s @ [c]) = 10 * digits_value s + (of_char c - 48)"
  by (simp add: digits_value_def)

lemma of_char_digit: "d < 10 \<Longrightarrow> of_char (char_of (48 + d) :: char) = (48 + d :: nat)"
  by simp

lemma show_nat_digits: "list_all is_digit (show_nat n) \<and> digits_value (show_nat n) = n \<and> show_nat n \<noteq> []"
proof (induction n rule: show_nat.induct)
  case (1 n)
  show ?case
  proof (cases "n < 10")
    case True
    then show ?thesis by (simp add: show_nat.simps [of n] is_digit_def digits_value_def)
  next
    case False
    with 1 show ?thesis
      by (simp add: show_nat.simps [of n] is_digit_def digits_value_snoc)
  qed
qed

lemma parse_show_nat:
  assumes "n < 2 ^ 64"
  shows "parse_u64 (show_nat n) = Some n"
proof -
  obtain c r where s: "show_nat n = c # r" using show_nat_digits [of n] by (cases "show_nat n") auto
  then have "is_digit c" using show_nat_digits [of n] by simp
  then have "c \<noteq> CHR ''+''" by (auto simp: is_digit_def)
  then show ?thesis using s show_nat_digits [of n] assms by (simp add: parse_u64_def)
qed

lemma store_committed_create: "store_committed (map Decided es) Map.empty = kv_create es"
  by (simp add: store_committed_def kv_create_def fold_map comp_def) (simp add: kv_insert_def [abs_def])

end
