(* ===== verification/Integrity.thy ===== *)
theory Integrity
  imports Network Memory_Storage
begin

text \<open>
  Where the entries of a log come from. A replica only moves entries: from its clients to its buffers, from its store to messages, and from
  messages to its store. So every entry that any server of a cluster holds, has buffered or has sent was proposed by a client or
  was in a store at the start. The locale \<open>storing\<close> says what this needs of a back-end: writes add the entries they are given and no others,
  and reads return entries that are stored.
\<close>

section \<open>Stores\<close>

lemma sum_case_eq: "(case x of Inl a \<Rightarrow> f a | Inr b \<Rightarrow> g b) = y \<longleftrightarrow> (\<exists>a. x = Inl a \<and> f a = y) \<or> (\<exists>b. x = Inr b \<and> g b = y)"
  by (cases x) auto

fun op_entries :: "('t, 'c, 'p) storage_op \<Rightarrow> 't set" where
  "op_entries (AppendEntry e) = {e}"
| "op_entries (AppendEntries es) = set es"
| "op_entries (AppendOnPrefix i es) = set es"
| "op_entries x = {}"

definition txn_entries :: "('t, 'c, 'p) storage_op list \<Rightarrow> 't set" where
  "txn_entries ops = (\<Union>x \<in> set ops. op_entries x)"

lemma txn_entries_simps [simp]: "txn_entries [] = {}" "txn_entries (x # xs) = op_entries x \<union> txn_entries xs"
  "txn_entries (xs @ ys) = txn_entries xs \<union> txn_entries ys"
  by (auto simp: txn_entries_def)

locale storing =
  fixes S :: "('s, 't, 'c, 'p) storage_impl" and held :: "'s \<Rightarrow> 't set"
  assumes write_atomically: "st_write_atomically S ops s = Some (r, s') \<Longrightarrow> held s' \<subseteq> held s \<union> txn_entries ops"
    and append_entries: "st_append_entries S es s = Some (r, s') \<Longrightarrow> held s' \<subseteq> held s \<union> set es"
    and set_promise: "st_set_promise S n s = Some (r, s') \<Longrightarrow> held s' \<subseteq> held s"
    and set_decided_idx: "st_set_decided_idx S i s = Some (r, s') \<Longrightarrow> held s' \<subseteq> held s"
    and set_stopsign: "st_set_stopsign S ss s = Some (r, s') \<Longrightarrow> held s' \<subseteq> held s"
    and get_entries: "st_get_entries S i j s = Some (Inr es) \<Longrightarrow> set es \<subseteq> held s"
    and get_suffix: "st_get_suffix S i s = Some (Inr es) \<Longrightarrow> set es \<subseteq> held s"

section \<open>States and messages with entries of a set\<close>

definition store_only :: "('s \<Rightarrow> 't set) \<Rightarrow> 't set \<Rightarrow> ('s, 't, 'c) internal_storage \<Rightarrow> bool" where
  "store_only held A st \<longleftrightarrow> held (is_storage st) \<subseteq> A \<and> set (c_batched_entries (is_cache st)) \<subseteq> A"

definition sync_only :: "'t set \<Rightarrow> ('t, 'c, 'p) log_sync option \<Rightarrow> bool" where
  "sync_only A sync \<longleftrightarrow> (\<forall>l. sync = Some l \<longrightarrow> set (sync_suffix l) \<subseteq> A)"

definition meta_only :: "'t set \<Rightarrow> 't accepted_meta_data option \<Rightarrow> bool" where
  "meta_only A am \<longleftrightarrow> (\<forall>m. am = Some m \<longrightarrow> set (am_entries m) \<subseteq> A)"

definition msg_only :: "'t set \<Rightarrow> ('t, 'c, 'p) paxos_msg \<Rightarrow> bool" where
  "msg_only A m = (case m of
     Promise prom \<Rightarrow> sync_only A (prom_log_sync prom)
   | AcceptSync acc \<Rightarrow> sync_only A (Some (asy_log_sync acc))
   | AcceptDecide acc \<Rightarrow> set (ad_entries acc) \<subseteq> A
   | ProposalForward es \<Rightarrow> set es \<subseteq> A
   | _ \<Rightarrow> True)"

definition sent_only :: "'t set \<Rightarrow> ('t, 'c, 'p) message \<Rightarrow> bool" where
  "sent_only A m \<longleftrightarrow> (\<forall>pm. m = SequencePaxosMsg pm \<longrightarrow> msg_only A (pm_msg pm))"

definition rep_only :: "('s \<Rightarrow> 't set) \<Rightarrow> 't set \<Rightarrow> ('s, 't, 'c, 'p) sequence_paxos \<Rightarrow> bool" where
  "rep_only held A sp \<longleftrightarrow> store_only held A (sp_internal_storage sp) \<and> set (sp_buffered_proposals sp) \<subseteq> A \<and>
     (\<forall>m \<in> set (sp_outgoing sp). sent_only A m) \<and> sync_only A (max_promise_sync (sp_leader_state sp)) \<and>
     (\<forall>prom. sp_cached_promise_message sp = Some prom \<longrightarrow> sync_only A (prom_log_sync prom))"

definition net_only :: "('s \<Rightarrow> 't set) \<Rightarrow> 't set \<Rightarrow> node_id set \<Rightarrow> ('s, 't, 'c, 'p) network \<Rightarrow> bool" where
  "net_only held A nodes N \<longleftrightarrow> (\<forall>p \<in> nodes. rep_only held A (nw_replica N p)) \<and> (\<forall>m \<in> nw_sent N. sent_only A m)"

lemma sync_only_None [simp]: "sync_only A None"
  by (simp add: sync_only_def)

lemma meta_only_simps [simp]: "meta_only A None" "meta_only A (Some m) \<longleftrightarrow> set (am_entries m) \<subseteq> A"
  by (simp_all add: meta_only_def)

lemma msg_only_simps [simp]:
  "msg_only A (PrepareReq a)" "msg_only A (Prepare b)" "msg_only A (Promise c) \<longleftrightarrow> sync_only A (prom_log_sync c)"
  "msg_only A (AcceptSync d) \<longleftrightarrow> sync_only A (Some (asy_log_sync d))" "msg_only A (AcceptDecide e) \<longleftrightarrow> set (ad_entries e) \<subseteq> A"
  "msg_only A (NotAccepted f)" "msg_only A (Accepted g)" "msg_only A (Decide h)" "msg_only A (ProposalForward i) \<longleftrightarrow> set i \<subseteq> A"
  "msg_only A (Compaction j)" "msg_only A (AcceptStopSign k)" "msg_only A (ForwardStopSign l)"
  by (simp_all add: msg_only_def)

lemma sent_only_simps [simp]: "sent_only A (SequencePaxosMsg pm) \<longleftrightarrow> msg_only A (pm_msg pm)" "sent_only A (BLEMsg b)"
  by (simp_all add: sent_only_def)

section \<open>The internal storage\<close>

context storing
begin

lemma on_storage_only:
  assumes "on_storage f st = Some (r, st')" "store_only held A st" "\<And>r s'. f (is_storage st) = Some (r, s') \<Longrightarrow> held s' \<subseteq> held (is_storage st) \<union> B" "B \<subseteq> A"
  shows "store_only held A st'"
  using assms by (fastforce simp: on_storage_def store_only_def)

lemma cache_only: "c_batched_entries c = c_batched_entries (is_cache st) \<Longrightarrow> store_only held A (st\<lparr>is_cache := c\<rparr>) \<longleftrightarrow> store_only held A st"
  by (simp add: store_only_def)

lemma call_only:
  "on_storage (st_append_entries S es) st = Some (r, st') \<Longrightarrow> store_only held A st \<Longrightarrow> set es \<subseteq> A \<Longrightarrow> store_only held A st'"
  "on_storage (st_write_atomically S ops) st = Some (r, st') \<Longrightarrow> store_only held A st \<Longrightarrow> txn_entries ops \<subseteq> A \<Longrightarrow> store_only held A st'"
  "on_storage (st_set_promise S n) st = Some (r, st') \<Longrightarrow> store_only held A st \<Longrightarrow> store_only held A st'"
  "on_storage (st_set_decided_idx S i) st = Some (r, st') \<Longrightarrow> store_only held A st \<Longrightarrow> store_only held A st'"
  "on_storage (st_set_stopsign S ss) st = Some (r, st') \<Longrightarrow> store_only held A st \<Longrightarrow> store_only held A st'"
proof -
  note only = on_storage_only [of _ st r st' A]
  show "on_storage (st_append_entries S es) st = Some (r, st') \<Longrightarrow> store_only held A st \<Longrightarrow> set es \<subseteq> A \<Longrightarrow> store_only held A st'"
    by (rule only [of _ "set es"]) (auto dest: append_entries)
  show "on_storage (st_write_atomically S ops) st = Some (r, st') \<Longrightarrow> store_only held A st \<Longrightarrow> txn_entries ops \<subseteq> A \<Longrightarrow> store_only held A st'"
    by (rule only [of _ "txn_entries ops"]) (auto dest: write_atomically)
  show "on_storage (st_set_promise S n) st = Some (r, st') \<Longrightarrow> store_only held A st \<Longrightarrow> store_only held A st'"
    "on_storage (st_set_decided_idx S i) st = Some (r, st') \<Longrightarrow> store_only held A st \<Longrightarrow> store_only held A st'"
    "on_storage (st_set_stopsign S ss) st = Some (r, st') \<Longrightarrow> store_only held A st \<Longrightarrow> store_only held A st'"
    using only [of _ "{}"] set_promise set_decided_idx set_stopsign by simp_all
qed

lemma append_without_batching_only:
  "append_entries_without_batching S es st = Some (Inr i, st') \<Longrightarrow> store_only held A st \<Longrightarrow> set es \<subseteq> A \<Longrightarrow> store_only held A st'"
  by (auto simp: append_entries_without_batching_def try_op_eq_Inr Let_def cache_only dest: call_only)

lemma flush_if_full_only:
  "flush_if_full_batch S res st = Some (Inr am, st') \<Longrightarrow> store_only held A st \<Longrightarrow> (\<And>es. res = Some es \<Longrightarrow> set es \<subseteq> A) \<Longrightarrow>
     store_only held A st' \<and> meta_only A am"
  by (auto simp: flush_if_full_batch_def try_op_eq_Inr split: option.splits dest: append_without_batching_only)

lemma take_if_full_only:
  assumes "take_entries_if_batch_is_full c = (res, c')" "set (c_batched_entries c) \<subseteq> A"
  shows "set (c_batched_entries c') \<subseteq> A" "\<And>es. res = Some es \<Longrightarrow> set es \<subseteq> A"
  using assms by (auto simp: take_entries_if_batch_is_full_def take_batched_entries_def split: if_split_asm)

lemma append_entries_with_batching_only:
  assumes "append_entries_with_batching S es st = Some (Inr am, st')" "store_only held A st" "set es \<subseteq> A"
  shows "store_only held A st' \<and> meta_only A am"
proof -
  obtain res c where c: "cache_append_entries es (is_cache st) = (res, c)" by fastforce
  with assms have "set (c_batched_entries c) \<subseteq> A" "\<And>es. res = Some es \<Longrightarrow> set es \<subseteq> A"
    using take_if_full_only [of _ res c A] by (simp_all add: cache_append_entries_def store_only_def)
  with assms c show ?thesis
    using flush_if_full_only [of res "st\<lparr>is_cache := c\<rparr>" am st' A] by (simp add: append_entries_with_batching_def store_only_def)
qed

lemma append_entry_with_batching_only:
  "append_entry_with_batching S e st = Some (Inr am, st') \<Longrightarrow> store_only held A st \<Longrightarrow> e \<in> A \<Longrightarrow> store_only held A st' \<and> meta_only A am"
  using append_entries_with_batching_only [of "[e]" st am st' A]
  by (simp add: append_entry_with_batching_def append_entries_with_batching_def cache_append_entry_def cache_append_entries_def)

lemma append_entries_and_get_only:
  assumes "append_entries_and_get_accepted_idx S es st = Some (Inr i, st')" "store_only held A st" "set es \<subseteq> A"
  shows "store_only held A st'"
proof -
  obtain res c where c: "cache_append_entries es (is_cache st) = (res, c)" by fastforce
  with assms have "set (c_batched_entries c) \<subseteq> A" "\<And>es. res = Some es \<Longrightarrow> set es \<subseteq> A"
    using take_if_full_only [of _ res c A] by (simp_all add: cache_append_entries_def store_only_def)
  moreover from this assms(2) have "store_only held A (st\<lparr>is_cache := c\<rparr>)" by (simp add: store_only_def)
  ultimately show ?thesis
    using assms(1) c by (auto simp: append_entries_and_get_accepted_idx_def Let_def try_op_eq_Inr split: option.split_asm dest: append_without_batching_only)
qed

lemma flush_batch_only: "flush_batch S st = Some (Inr i, st') \<Longrightarrow> store_only held A st \<Longrightarrow> store_only held A st'"
  using append_without_batching_only [of "c_batched_entries (is_cache st)" "upd_cache (\<lambda>c. c\<lparr>c_batched_entries := []\<rparr>) st" i st' A]
  by (simp add: flush_batch_def take_batched_entries_def store_only_def)

lemma flush_batch_and_get_only:
  "flush_batch_and_get_entries S st = Some (Inr am, st') \<Longrightarrow> store_only held A st \<Longrightarrow> store_only held A st' \<and> meta_only A am"
  using flush_if_full_only [of "Some (c_batched_entries (is_cache st))" "upd_cache (\<lambda>c. c\<lparr>c_batched_entries := []\<rparr>) st" am st' A]
    flush_if_full_only [of None st am st' A]
  by (auto simp: flush_batch_and_get_entries_def take_batched_entries_def split: if_split_asm) (auto simp: store_only_def)

lemma append_stopsign_only:
  assumes "is_append_stopsign S ss st = Some (Inr am, st')" "store_only held A st"
  shows "store_only held A st' \<and> meta_only A am"
proof -
  obtain res c where c: "cache_append_stopsign ss (is_cache st) = (res, c)" by fastforce
  then have res: "store_only held A (st\<lparr>is_cache := c\<rparr>)" "\<And>es. res = Some es \<Longrightarrow> set es \<subseteq> A"
    using assms(2) by (auto simp: cache_append_stopsign_def take_batched_entries_def Let_def store_only_def split: if_split_asm)
  obtain st1 r st2 where "flush_if_full_batch S res (st\<lparr>is_cache := c\<rparr>) = Some (Inr am, st1)" "on_storage (st_set_stopsign S (Some ss)) st1 = Some (Inr r, st2)"
    and st': "st' = upd_cache (\<lambda>c. c\<lparr>c_accepted_idx := c_accepted_idx c + 1\<rparr>) st2"
    using assms(1) c by (auto simp: is_append_stopsign_def try_op_eq_Inr)
  moreover from this have "store_only held A st1 \<and> meta_only A am" using flush_if_full_only [OF _ res(1)] res(2) by blast
  ultimately show ?thesis by (auto simp: st' cache_only dest: call_only(5))
qed

lemma setters_only:
  "is_set_promise S n st = Some (r, st') \<Longrightarrow> store_only held A st \<Longrightarrow> store_only held A st'"
  "is_set_decided_idx S i st = Some (r, st') \<Longrightarrow> store_only held A st \<Longrightarrow> store_only held A st'"
  "is_set_stopsign S ss st = Some (Inr j, st') \<Longrightarrow> store_only held A st \<Longrightarrow> store_only held A st'"
  by (auto simp: is_set_promise_def is_set_decided_idx_def is_set_stopsign_def try_op_eq_Inr bind_eq_Some_conv Let_def cache_only
      dest: call_only(3-5) [where A = A])

lemma compacting_only:
  assumes "try_op (on_storage (st_write_atomically S ops) st) (\<lambda>_ st1. Some (Inr (), upd_cache (\<lambda>c. c\<lparr>c_compacted_idx := i\<rparr>) st1)) = Some (r, st')"
    "txn_entries ops = {}" "store_only held A st"
  shows "store_only held A st'"
proof -
  obtain r1 st1 where "on_storage (st_write_atomically S ops) st = Some (r1, st1)" "st' = st1 \<or> st' = upd_cache (\<lambda>c. c\<lparr>c_compacted_idx := i\<rparr>) st1"
    using assms(1) by (auto simp: try_op_def split: option.split_asm sum.split_asm)
  then show ?thesis using call_only(2) [of ops st r1 st1 A] assms(2,3) by (auto simp: cache_only)
qed

lemma trim_only: "try_trim S i st = Some (r, st') \<Longrightarrow> store_only held A st \<Longrightarrow> store_only held A st'"
  by (auto simp: try_trim_def bind_eq_Some_conv Let_def split: ordering.split_asm if_split_asm elim: compacting_only)

lemma snapshot_only: "try_snapshot S P oi st = Some (r, st') \<Longrightarrow> store_only held A st \<Longrightarrow> store_only held A st'"
  by (auto simp: try_snapshot_def bind_eq_Some_conv Let_def sum_case_eq split: ordering.split_asm if_split_asm option.split_asm elim: compacting_only)

lemma sync_snapshot_only:
  "sync_snapshot S P sync st = Some (Inr ops, st') \<Longrightarrow> store_only held A st \<Longrightarrow> store_only held A st' \<and> txn_entries ops = {}"
  by (auto simp: sync_snapshot_def bind_eq_Some_conv Let_def cache_only sum_case_eq split: option.split_asm snapshot_type.split_asm)

lemma sync_stopsign_only:
  "sync_stopsign_ops ss st = (ops, st') \<Longrightarrow> store_only held A st \<Longrightarrow> store_only held A st' \<and> txn_entries ops = {}"
  by (auto simp: sync_stopsign_ops_def cache_only split: option.split_asm if_split_asm)

lemma sync_log_only:
  assumes "sync_log S P n d sync st = Some (Inr i, st')" "store_only held A st" "sync_only A sync"
  shows "store_only held A st'"
proof -
  define st1 where "st1 = upd_cache (\<lambda>c. c\<lparr>c_accepted_round := n, c_decided_idx := d\<rparr>) st"
  have st1: "store_only held A st1" using assms(2) by (simp add: st1_def cache_only)
  have "\<exists>ops st5 r. on_storage (st_write_atomically S ops) st5 = Some (Inr r, st') \<and> store_only held A st5 \<and> txn_entries ops \<subseteq> A"
  proof (cases sync)
    case None
    then show ?thesis using assms(1) st1 by (force simp: sync_log_def try_op_eq_Inr st1_def)
  next
    case (Some l)
    obtain snap st2 ss st4 r where s: "sync_snapshot S P l st1 = Some (Inr snap, st2)"
      "sync_stopsign_ops (sync_stopsign l) (upd_cache (\<lambda>c. c\<lparr>c_accepted_idx := sync_idx l + length (sync_suffix l)\<rparr>) st2) = (ss, st4)"
      "on_storage (st_write_atomically S ([SetAcceptedRound n, SetDecidedIndex d] @ snap @ [AppendOnPrefix (sync_idx l) (sync_suffix l)] @ ss)) st4
        = Some (Inr r, st')"
      using assms(1) Some by (auto simp: sync_log_def st1_def try_op_eq_Inr Let_def case_prod_beta prod_eq_iff)
    have "store_only held A st2 \<and> txn_entries snap = {}" using sync_snapshot_only [OF s(1) st1] .
    moreover from this have "store_only held A st4 \<and> txn_entries ss = {}" using sync_stopsign_only [OF s(2), of A] by (simp add: cache_only)
    ultimately show ?thesis using assms(3) Some s(3) by (fastforce simp: sync_only_def)
  qed
  then show ?thesis using call_only(2) by blast
qed

lemma start_only: "internal_storage_with S s k = Some st \<Longrightarrow> held s \<subseteq> A \<Longrightarrow> store_only held A st"
  by (auto simp: internal_storage_with_def load_cache_def bind_eq_Some_conv store_only_def state_cache_new_def)

lemma read_log_entries_only:
  assumes "create_read_log_entries S i j st = Some (Inr es)" "store_only held A st" "Decided e \<in> set es \<or> Undecided e \<in> set es"
  shows "e \<in> A"
proof -
  obtain xs where xs: "st_get_entries S i j (is_storage st) = Some (Inr xs)"
    "es = map (\<lambda>(idx, e). if idx + i < is_get_decided_idx st then Decided e else Undecided e) (zip [0..<length xs] xs)"
    using assms(1) by (auto simp: create_read_log_entries_def is_get_entries_def try_get_eq_Inr Let_def)
  then have "e \<in> set xs" using assms(3) by (auto dest: set_zip_rightD split: if_split_asm)
  then show ?thesis using get_entries [OF xs(1)] assms(2) by (auto simp: store_only_def)
qed

lemma compacted_entry_other: "create_compacted_entry S i st = Some (Inr x) \<Longrightarrow> x \<noteq> Decided e \<and> x \<noteq> Undecided e"
  by (auto simp: create_compacted_entry_def try_get_eq_Inr split: option.split_asm)

lemma read_range_only:
  assumes "read_range S a b st = Some (Inr (Some es))" "store_only held A st" "Decided e \<in> set es \<or> Undecided e \<in> set es"
  shows "e \<in> A"
proof -
  obtain i j xs where "create_read_log_entries S i j st = Some (Inr xs)" "Decided e \<in> set xs \<or> Undecided e \<in> set xs"
    using assms(1,3)
    by (auto simp: read_range_def Let_def try_get_eq_Inr bind_eq_Some_conv dest: compacted_entry_other
        split: if_split_asm option.split_asm index_entry.split_asm)
  then show ?thesis using read_log_entries_only assms(2) by blast
qed

lemma create_log_sync_only:
  assumes "create_log_sync S P i d sp = Some l" "store_only held A (sp_internal_storage sp)"
  shows "sync_only A (Some l)"
proof -
  obtain k where "st_get_suffix S k (is_storage (sp_internal_storage sp)) = Some (Inr (sync_suffix l))"
    using assms(1) by (auto simp: create_log_sync_def Let_def bind_eq_Some_conv is_get_suffix_def split: if_split_asm)
  then show ?thesis using get_suffix assms(2) by (fastforce simp: sync_only_def store_only_def)
qed

section \<open>Replicas\<close>

lemma push_only: "msg_only A msg \<Longrightarrow> rep_only held A sp \<Longrightarrow> rep_only held A (push_msg to msg sp)"
  by (auto simp: rep_only_def push_msg_def)

lemma push_to_peers_only: "msg_only A msg \<Longrightarrow> rep_only held A sp \<Longrightarrow> rep_only held A (push_to_peers msg sp)"
  by (auto simp: rep_only_def push_to_peers_eq)

lemma set_outgoing_only:
  assumes "msg_only A msg" "rep_only held A sp"
  shows "rep_only held A (set_outgoing_msg i msg sp)"
proof -
  have "sent_only A (case sp_outgoing sp ! i of SequencePaxosMsg pm \<Rightarrow> SequencePaxosMsg (pm\<lparr>pm_msg := msg\<rparr>) | BLEMsg b \<Rightarrow> BLEMsg b)"
    using assms(1) by (simp split: message.split)
  then show ?thesis using assms(2) by (auto simp: rep_only_def set_outgoing_msg_def dest!: set_update_subset_insert [THEN subsetD])
qed

lemma upd_only:
  "rep_only held A sp \<Longrightarrow> store_only held A st \<Longrightarrow> rep_only held A (upd_storage st sp)"
  "rep_only held A sp \<Longrightarrow> sync_only A (max_promise_sync ls) \<Longrightarrow> rep_only held A (upd_leader ls sp)"
  "rep_only held A (sp\<lparr>sp_state := x\<rparr>) \<longleftrightarrow> rep_only held A sp"
  "rep_only held A (sp\<lparr>sp_current_seq_num := sn\<rparr>) \<longleftrightarrow> rep_only held A sp"
  "rep_only held A (sp\<lparr>sp_latest_accepted_meta := lm\<rparr>) \<longleftrightarrow> rep_only held A sp"
  "rep_only held A (sp\<lparr>sp_buffered_stopsign := ss\<rparr>) \<longleftrightarrow> rep_only held A sp"
  "rep_only held A sp \<Longrightarrow> set es \<subseteq> A \<Longrightarrow> rep_only held A (sp\<lparr>sp_buffered_proposals := es\<rparr>)"
  by (auto simp: rep_only_def)

lemma rep_store: "rep_only held A sp \<Longrightarrow> store_only held A (sp_internal_storage sp)"
  by (simp add: rep_only_def)

lemma rep_sync: "rep_only held A sp \<Longrightarrow> sync_only A (max_promise_sync (sp_leader_state sp))"
  by (simp add: rep_only_def)

lemma book_only:
  assumes "rep_only held A sp"
  shows "set_latest_accept_meta pid j (sp_leader_state sp) = Some ls \<Longrightarrow> rep_only held A (upd_leader ls sp)"
    "next_seq_num pid (sp_leader_state sp) = Some (sn, ls) \<Longrightarrow> rep_only held A (upd_leader ls sp)"
    "set_accepted_idx pid i (sp_leader_state sp) = Some ls \<Longrightarrow> rep_only held A (upd_leader ls sp)"
    "set_promise_state st pid (sp_leader_state sp) = Some ls \<Longrightarrow> rep_only held A (upd_leader ls sp)"
    "increment_seq_num_session pid (sp_leader_state sp) = Some ls \<Longrightarrow> rep_only held A (upd_leader ls sp)"
  using rep_sync [OF assms]
  by (auto intro!: upd_only(2) [OF assms] simp: set_latest_accept_meta_eq next_seq_num_eq set_accepted_idx_eq set_promise_state_eq
      increment_seq_num_session_def bind_eq_Some_conv)

subsection \<open>The leader\<close>

lemma accdec_only:
  assumes "get_latest_accdec_message pid sp = Some (Some (i, acc))" "rep_only held A sp"
  shows "set (ad_entries acc) \<subseteq> A"
proof -
  obtain pm where "SequencePaxosMsg pm \<in> set (sp_outgoing sp)" "pm_msg pm = AcceptDecide acc"
    using assms(1) by (auto simp: get_latest_accdec_message_eq) (metis nth_mem)
  then show ?thesis using assms(2) by (fastforce simp: rep_only_def)
qed

lemma send_acceptdecide_to_only:
  assumes "send_acceptdecide_to am pid sp = Some sp'" "rep_only held A sp" "set (am_entries am) \<subseteq> A"
  shows "rep_only held A sp'"
proof (cases "get_latest_accdec_message pid sp")
  case (Some acc)
  show ?thesis
  proof (cases acc)
    case None
    with Some assms(1) obtain ls1 sn ls2 where l: "set_latest_accept_meta pid (Some (length (sp_outgoing sp))) (sp_leader_state sp) = Some ls1" "next_seq_num pid ls1 = Some (sn, ls2)"
      and sp': "sp' = push_msg pid (AcceptDecide \<lparr>ad_n = n_leader ls2, ad_seq_num = sn, ad_decided_idx = is_get_decided_idx (sp_internal_storage sp), ad_entries = am_entries am\<rparr>)
        (upd_leader ls2 sp)"
      by (auto simp: send_acceptdecide_to_def bind_eq_Some_conv)
    have "rep_only held A (upd_leader ls1 sp)" using book_only(1) assms(2) l(1) .
    then have "rep_only held A (upd_leader ls2 (upd_leader ls1 sp))" by (rule book_only(2)) (use l(2) in simp)
    then show ?thesis using assms(3) by (simp add: sp' push_only)
  next
    case (Some y)
    with \<open>get_latest_accdec_message pid sp = Some acc\<close> assms show ?thesis
      by (cases y) (auto simp: send_acceptdecide_to_def Let_def intro!: set_outgoing_only dest!: accdec_only [where A = A])
  qed
qed (use assms in \<open>simp add: send_acceptdecide_to_def\<close>)

lemma send_acceptdecide_only:
  "send_acceptdecide am sp = Some sp' \<Longrightarrow> rep_only held A sp \<Longrightarrow> set (am_entries am) \<subseteq> A \<Longrightarrow> rep_only held A sp'"
  by (auto simp: send_acceptdecide_def bind_eq_Some_conv elim!: for_each_inv intro: send_acceptdecide_to_only)

lemma after_leader_append_only:
  "after_leader_append am sp = Some sp' \<Longrightarrow> rep_only held A sp \<Longrightarrow> meta_only A am \<Longrightarrow> rep_only held A sp'"
  by (auto simp: after_leader_append_def bind_eq_Some_conv split: option.split_asm intro: send_acceptdecide_only book_only)

lemma leader_append_only:
  "accept_entries_leader S es sp = Some sp' \<Longrightarrow> rep_only held A sp \<Longrightarrow> set es \<subseteq> A \<Longrightarrow> rep_only held A sp'"
  "accept_entry_leader S e sp = Some sp' \<Longrightarrow> rep_only held A sp \<Longrightarrow> e \<in> A \<Longrightarrow> rep_only held A sp'"
  "flush_batch_leader S sp = Some sp' \<Longrightarrow> rep_only held A sp \<Longrightarrow> rep_only held A sp'"
  by (auto simp: accept_entries_leader_def accept_entry_leader_def flush_batch_leader_def bind_eq_Some_conv
      dest!: append_entries_with_batching_only append_entry_with_batching_only flush_batch_and_get_only intro: rep_store
      elim!: after_leader_append_only intro!: upd_only)

lemma leader_seq_num_only: "leader_seq_num resend to sp = Some (sn, sp') \<Longrightarrow> rep_only held A sp \<Longrightarrow> rep_only held A sp'"
  by (auto simp: leader_seq_num_def bind_eq_Some_conv split: if_split_asm intro: book_only)

lemma numbered_only:
  "send_accept_stopsign to ss resend sp = Some sp' \<Longrightarrow> rep_only held A sp \<Longrightarrow> rep_only held A sp'"
  "send_decide to d resend sp = Some sp' \<Longrightarrow> rep_only held A sp \<Longrightarrow> rep_only held A sp'"
  by (auto simp: send_accept_stopsign_def send_decide_def bind_eq_Some_conv intro!: push_only dest: leader_seq_num_only)

lemma announce_decided_only: "announce_decided d pid sp = Some sp' \<Longrightarrow> rep_only held A sp \<Longrightarrow> rep_only held A sp'"
  by (auto simp: announce_decided_def bind_eq_Some_conv split: option.split_asm intro!: set_outgoing_only dest!: accdec_only [where A = A] intro: numbered_only)

lemma send_prepare_only: "rep_only held A sp \<Longrightarrow> rep_only held A (send_prepare to sp)"
  by (simp add: send_prepare_def Let_def push_only)

lemma resend_prepares_only: "resend_prepares sp = Some sp' \<Longrightarrow> rep_only held A sp \<Longrightarrow> rep_only held A sp'"
proof -
  have "rep_only held A sp \<Longrightarrow> rep_only held A (fold send_prepare ps sp)" for ps
    by (induction ps arbitrary: sp) (auto intro: send_prepare_only)
  then show "resend_prepares sp = Some sp' \<Longrightarrow> rep_only held A sp \<Longrightarrow> rep_only held A sp'" by (auto simp: resend_prepares_def bind_eq_Some_conv)
qed

lemma resend_stopsign_only: "resend_stopsign_to ss d pid sp = Some sp' \<Longrightarrow> rep_only held A sp \<Longrightarrow> rep_only held A sp'"
  by (auto simp: resend_stopsign_to_def bind_eq_Some_conv split: if_split_asm intro: numbered_only)

lemma resend_messages_leader_only: "resend_messages_leader sp = Some sp' \<Longrightarrow> rep_only held A sp \<Longrightarrow> rep_only held A sp'"
  by (auto simp: resend_messages_leader_def bind_eq_Some_conv Let_def split: phase.split_asm option.split_asm
      elim!: resend_prepares_only for_each_inv intro: resend_stopsign_only)

lemma accept_stopsign_leader_only:
  assumes "accept_stopsign_leader S ss sp = Some sp'" "rep_only held A sp"
  shows "rep_only held A sp'"
proof -
  obtain am st sp1 ls fs where st: "is_append_stopsign S ss (sp_internal_storage sp) = Some (Inr am, st)"
    and s1: "(case am of Some metadata \<Rightarrow> send_acceptdecide metadata (upd_storage st sp)
                       | None \<Rightarrow> Some (upd_storage st sp)) = Some sp1"
    and ls: "set_accepted_idx (sp_pid sp1) (is_get_accepted_idx (sp_internal_storage sp1)) (sp_leader_state sp1) = Some ls"
    and fe: "for_each (\<lambda>pid. send_accept_stopsign pid ss False) fs (upd_leader ls sp1) = Some sp'"
    using assms(1) by (fastforce simp: accept_stopsign_leader_def bind_eq_Some_conv Let_def)
  have "store_only held A st \<and> meta_only A am" using append_stopsign_only [OF st rep_store [OF assms(2)]] .
  then have "rep_only held A sp1"
    using s1 upd_only(1) [OF assms(2)] by (auto split: option.split_asm intro: send_acceptdecide_only)
  then have "rep_only held A (upd_leader ls sp1)" using ls by (rule book_only)
  with fe show ?thesis by (rule for_each_inv) (rule numbered_only)
qed

lemma send_accsync_only:
  assumes "send_accsync S P to sp = Some sp'" "rep_only held A sp"
  shows "rep_only held A sp'"
proof -
  obtain i d l ls1 sn ls2 n k where l: "create_log_sync S P i d sp = Some l" and ls: "increment_seq_num_session to (sp_leader_state sp) = Some ls1" "next_seq_num to ls1 = Some (sn, ls2)"
    and sp': "sp' = push_msg to (AcceptSync \<lparr>asy_n = n, asy_seq_num = sn, asy_decided_idx = k, asy_log_sync = l\<rparr>) (upd_leader ls2 sp)"
    using assms(1) unfolding send_accsync_def Let_def by (auto simp: bind_eq_Some_conv)
  have "rep_only held A (upd_leader ls1 sp)" using book_only(5) assms(2) ls(1) .
  then have "rep_only held A (upd_leader ls2 (upd_leader ls1 sp))" by (rule book_only(2)) (use ls(2) in simp)
  then show ?thesis using create_log_sync_only [OF l rep_store [OF assms(2)]] by (simp add: sp' push_only)
qed

lemma append_buffered_only:
  assumes "append_buffered S i sp = Some (j, sp')" "rep_only held A sp"
  shows "rep_only held A sp'"
proof -
  have p: "rep_only held A sp1" if "append_buffered_proposals S i sp = Some (k, sp1)" for k sp1
    using that assms(2)
    by (auto simp: append_buffered_proposals_def bind_eq_Some_conv split: if_split_asm) (auto simp: rep_only_def dest: append_without_batching_only)
  have "rep_only held A sp2" if "append_buffered_stopsign S k sp1 = Some (k', sp2)" "rep_only held A sp1" for k k' sp1 sp2
    using that
    by (auto simp: append_buffered_stopsign_def bind_eq_Some_conv split: option.split_asm) (auto simp: rep_only_def dest: append_stopsign_only)
  with p assms show ?thesis by (auto simp: append_buffered_def bind_eq_Some_conv split: if_split_asm)
qed

lemma handle_majority_promises_only:
  assumes "handle_majority_promises S P sp = Some sp'" "rep_only held A sp"
  shows "rep_only held A sp'"
proof -
  define ls where "ls = (sp_leader_state sp)\<lparr>max_promise_sync := None\<rparr>"
  obtain i st j sp1 ls1 fs where st: "sync_log S P (n_leader ls) (get_max_decided_idx ls) (max_promise_sync (sp_leader_state sp)) (sp_internal_storage sp) = Some (Inr i, st)"
    and a: "append_buffered S i (sp\<lparr>sp_leader_state := ls, sp_internal_storage := st\<rparr>) = Some (j, sp1)"
    and ls1: "set_accepted_idx (sp_pid sp1) j (sp_leader_state sp1) = Some ls1"
    and fe: "for_each (send_accsync S P) fs (sp1\<lparr>sp_state := (Leader, PhaseAccept), sp_leader_state := ls1\<rparr>) = Some sp'"
    using assms(1) unfolding handle_majority_promises_def take_max_promise_sync_def ls_def by (auto simp: bind_eq_Some_conv Let_def)
  have "store_only held A st" using sync_log_only [OF st rep_store rep_sync] assms(2) by blast
  then have "rep_only held A (upd_storage st (upd_leader ls sp))" using assms(2) by (intro upd_only) (simp_all add: ls_def)
  then have "rep_only held A sp1" using append_buffered_only [OF a] by simp
  then have "rep_only held A (upd_leader ls1 sp1)" using ls1 by (rule book_only)
  then have "rep_only held A (sp1\<lparr>sp_state := (Leader, PhaseAccept), sp_leader_state := ls1\<rparr>)" by (simp add: rep_only_def)
  with fe show ?thesis by (rule for_each_inv) (rule send_accsync_only)
qed

lemma set_promise_only:
  assumes "set_promise prom from chk (sp_leader_state sp) = Some (b, ls)" "rep_only held A sp" "sync_only A (prom_log_sync prom)"
  shows "rep_only held A (upd_leader ls sp)"
proof (rule upd_only(2) [OF assms(2)])
  show "sync_only A (max_promise_sync ls)"
    using assms(1,3) rep_sync [OF assms(2)] by (auto simp: set_promise_def Let_def bind_eq_Some_conv split: if_split_asm)
qed

lemma handle_promise_only:
  "handle_promise_prepare S P prom from sp = Some sp' \<Longrightarrow> rep_only held A sp \<Longrightarrow> sync_only A (prom_log_sync prom) \<Longrightarrow> rep_only held A sp'"
  "handle_promise_accept S P prom from sp = Some sp' \<Longrightarrow> rep_only held A sp \<Longrightarrow> sync_only A (prom_log_sync prom) \<Longrightarrow> rep_only held A sp'"
  by (auto simp: handle_promise_prepare_def handle_promise_accept_def bind_eq_Some_conv split: if_split_asm
      dest!: set_promise_only elim: handle_majority_promises_only send_accsync_only)

lemma handle_accepted_only:
  assumes "handle_accepted S a from sp = Some sp'" "rep_only held A sp"
  shows "rep_only held A sp'"
proof -
  have "rep_only held A sp'" if "set_accepted_idx from i (sp_leader_state sp) = Some ls" "is_set_decided_idx S i (sp_internal_storage sp) = Some (r, st)"
    "for_each (announce_decided i) fs (sp\<lparr>sp_leader_state := ls, sp_internal_storage := st\<rparr>) = Some sp'" for i ls st fs r
  proof -
    have "store_only held A st" using setters_only(2) [OF that(2) rep_store [OF assms(2)]] .
    then have "rep_only held A (upd_storage st (upd_leader ls sp))" using book_only(3) [OF assms(2) that(1)] by (intro upd_only(1))
    with that(3) show ?thesis by (rule for_each_inv [where I = "rep_only held A"]) (simp_all add: announce_decided_only)
  qed
  then show ?thesis
    using assms by (auto simp: handle_accepted_def bind_eq_Some_conv Let_def split: if_split_asm intro: book_only)
qed

lemma handle_preparereq_only:
  assumes "handle_preparereq pr from sp = Some sp'" "rep_only held A sp"
  shows "rep_only held A sp'"
proof -
  have "rep_only held A (send_prepare from (upd_leader ls2 sp))"
    if "reset_promise from (sp_leader_state sp) = Some ls1" "set_latest_accept_meta from None ls1 = Some ls2" for ls1 ls2
  proof -
    have "rep_only held A (upd_leader ls1 sp)" using that(1) book_only(4) [OF assms(2)] by (simp add: reset_promise_def)
    then have "rep_only held A (upd_leader ls2 (upd_leader ls1 sp))" by (rule book_only(1)) (use that(2) in simp)
    then show ?thesis by (simp add: send_prepare_only)
  qed
  then show ?thesis using assms by (auto simp: handle_preparereq_def bind_eq_Some_conv split: if_split_asm)
qed

lemma forward_proposals_only: "rep_only held A sp \<Longrightarrow> set es \<subseteq> A \<Longrightarrow> rep_only held A (forward_proposals es sp)"
  by (auto simp: forward_proposals_def Let_def intro: push_only) (auto simp: rep_only_def)

lemma forward_only:
  "rep_only held A sp \<Longrightarrow> rep_only held A (forward_stopsign ss sp)"
  "rep_only held A sp \<Longrightarrow> rep_only held A (forward_buffered_proposals sp)"
  by (auto simp: forward_stopsign_def forward_buffered_proposals_def Let_def upd_only(6) intro!: push_only forward_proposals_only)
    (auto simp: rep_only_def)

lemma buffered_only: "rep_only held A sp \<Longrightarrow> set es \<subseteq> A \<Longrightarrow> rep_only held A (sp\<lparr>sp_buffered_proposals := sp_buffered_proposals sp @ es\<rparr>)"
  by (rule upd_only(7)) (auto simp: rep_only_def)

lemma leader_misc_only:
  "handle_notaccepted na from sp = Some sp' \<Longrightarrow> rep_only held A sp \<Longrightarrow> rep_only held A sp'"
  "handle_forwarded_proposal S es sp = Some sp' \<Longrightarrow> rep_only held A sp \<Longrightarrow> set es \<subseteq> A \<Longrightarrow> rep_only held A sp'"
  "handle_forwarded_stopsign S ss sp = Some sp' \<Longrightarrow> rep_only held A sp \<Longrightarrow> rep_only held A sp'"
  by (auto simp: handle_notaccepted_def handle_forwarded_proposal_def handle_forwarded_stopsign_def bind_eq_Some_conv lost_promise_def upd_only(6)
      split: if_split_asm prod.split_asm role.split_asm phase.split_asm
      intro: leader_append_only accept_stopsign_leader_only book_only forward_proposals_only forward_only buffered_only)

lemma handle_leader_only:
  assumes "handle_leader S n sp = Some sp'" "rep_only held A sp"
  shows "rep_only held A sp'"
proof (cases "ballot_le n (n_leader (sp_leader_state sp)) \<or> ballot_le n (sp_get_promise sp) \<or> sp_pid sp \<noteq> b_pid n")
  case True
  then show ?thesis using assms by (auto simp: handle_leader_def become_follower_def upd_only split: if_split_asm)
next
  case False
  let ?new = "leader_state_with n (max_pid (sp_leader_state sp)) (ls_quorum (sp_leader_state sp)) :: ('t, 'c, 'p) leader_state"
  obtain i st1 r st2 prom b ls prep where st: "flush_batch S (sp_internal_storage sp) = Some (Inr i, st1)" "is_set_promise S n st1 = Some (Inr r, st2)"
    and ls: "set_promise prom (sp_pid sp) True ?new = Some (b, ls)" "prom_log_sync prom = None"
    and sp': "sp' = push_to_peers (Prepare prep) (sp\<lparr>sp_internal_storage := st2, sp_leader_state := ls, sp_state := (Leader, PhasePrepare)\<rparr>)"
    using assms False by (fastforce simp: handle_leader_def bind_eq_Some_conv Let_def)
  have "rep_only held A (upd_leader ?new sp)" using assms(2) by (rule upd_only) (simp add: leader_state_with_def)
  then have "rep_only held A (upd_leader ls (upd_leader ?new sp))" by (rule set_promise_only [rotated]) (use ls in auto)
  moreover have "store_only held A st2" using flush_batch_only [OF st(1) rep_store [OF assms(2)]] setters_only(1) [OF st(2)] by blast
  ultimately have "rep_only held A (sp\<lparr>sp_internal_storage := st2, sp_leader_state := ls, sp_state := (Leader, PhasePrepare)\<rparr>)"
    by (simp add: rep_only_def)
  then show ?thesis by (simp add: sp' push_to_peers_only)
qed

subsection \<open>The follower\<close>

lemma reconnected_only: "rep_only held A sp \<Longrightarrow> rep_only held A (sp_reconnected pid sp)"
  by (auto simp: sp_reconnected_def Let_def upd_only(3) intro: push_only)

lemma check_valid_ballot_only: "check_valid_ballot b sp = (v, sp') \<Longrightarrow> rep_only held A sp \<Longrightarrow> rep_only held A sp'"
  by (auto simp: check_valid_ballot_def Let_def split: ordering.split_asm intro: push_only reconnected_only)

lemma handle_sequence_num_only: "handle_sequence_num sn from sp = Some (st, sp') \<Longrightarrow> rep_only held A sp \<Longrightarrow> rep_only held A sp'"
  by (auto simp: handle_sequence_num_def bind_eq_Some_conv upd_only(4) split: message_status.split_asm intro: reconnected_only)

lemma reply_accepted_only: "reply_accepted n i sp = Some sp' \<Longrightarrow> rep_only held A sp \<Longrightarrow> rep_only held A sp'"
  by (auto simp: reply_accepted_def bind_eq_Some_conv split: option.splits intro!: push_only set_outgoing_only simp: upd_only(5))

lemma optional_reply_only: "(case x of Some i \<Rightarrow> reply_accepted n i sp | None \<Rightarrow> Some sp) = Some sp' \<Longrightarrow> rep_only held A sp \<Longrightarrow> rep_only held A sp'"
  by (auto split: option.split_asm dest: reply_accepted_only)

lemma update_decided_only:
  assumes "update_decided_idx_and_get_accepted_idx S d sp = Some (r, sp')" "rep_only held A sp"
  shows "rep_only held A sp'"
  using assms flush_batch_only [OF _ rep_store [OF assms(2)]] setters_only(2) [OF _ rep_store [OF assms(2)]]
  by (auto simp: update_decided_idx_and_get_accepted_idx_def Let_def bind_eq_Some_conv split: if_split_asm
      intro!: upd_only(1) dest: setters_only(2))

lemma handle_decide_only:
  assumes "handle_decide S dec sp = Some sp'" "rep_only held A sp"
  shows "rep_only held A sp'"
proof -
  obtain v sp1 where v: "check_valid_ballot (dec_n dec) sp = (v, sp1)" by (cases "check_valid_ballot (dec_n dec) sp")
  show ?thesis
    using assms(1) v check_valid_ballot_only [OF v assms(2)]
    by (auto simp: handle_decide_def bind_eq_Some_conv split: if_split_asm
        dest!: handle_sequence_num_only elim!: optional_reply_only intro: update_decided_only)
qed

lemma handle_acceptdecide_only:
  assumes "handle_acceptdecide S ad sp = Some sp'" "rep_only held A sp" "set (ad_entries ad) \<subseteq> A"
  shows "rep_only held A sp'"
proof -
  obtain v sp1 where v: "check_valid_ballot (ad_n ad) sp = (v, sp1)" by (cases "check_valid_ballot (ad_n ad) sp")
  have app: "rep_only held A (upd_storage st1 sp2)" if "rep_only held A sp2" "append_entries_and_get_accepted_idx S (ad_entries ad) (sp_internal_storage sp2) = Some (Inr i, st1)" for sp2 i st1
    using that append_entries_and_get_only rep_store assms(3) by (intro upd_only(1)) blast+
  show ?thesis
    using assms(1) v check_valid_ballot_only [OF v assms(2)]
    by (auto simp: handle_acceptdecide_def bind_eq_Some_conv Let_def split: if_split_asm
        dest!: handle_sequence_num_only elim!: optional_reply_only update_decided_only intro: app)
qed

lemma handle_accept_stopsign_only:
  assumes "handle_accept_stopsign S ass sp = Some sp'" "rep_only held A sp"
  shows "rep_only held A sp'"
proof -
  obtain v sp1 where v: "check_valid_ballot (ass_n ass) sp = (v, sp1)" by (cases "check_valid_ballot (ass_n ass) sp")
  have set: "rep_only held A (upd_storage st2 sp2)" if "rep_only held A sp2" "flush_batch S (sp_internal_storage sp2) = Some (Inr i, st1)"
      "is_set_stopsign S (Some (ass_ss ass)) st1 = Some (Inr j, st2)" for sp2 i st1 j st2
    using that flush_batch_only setters_only(3) rep_store by (intro upd_only(1)) blast+
  show ?thesis
    using assms(1) v check_valid_ballot_only [OF v assms(2)]
    by (auto simp: handle_accept_stopsign_def bind_eq_Some_conv Let_def split: if_split_asm
        dest!: handle_sequence_num_only elim!: reply_accepted_only intro: set)
qed

lemma handle_acceptsync_only:
  assumes "handle_acceptsync S P a from sp = Some sp'" "rep_only held A sp" "sync_only A (Some (asy_log_sync a))"
  shows "rep_only held A sp'"
proof -
  obtain v sp1 where v: "check_valid_ballot (asy_n a) sp = (v, sp1)" by (cases "check_valid_ballot (asy_n a) sp")
  have sp1: "rep_only held A sp1" using check_valid_ballot_only [OF v assms(2)] .
  show ?thesis
  proof (cases "v \<and> sp_state sp1 = (Follower, PhasePrepare)")
    case False
    with assms(1) v sp1 show ?thesis by (auto simp: handle_acceptsync_def)
  next
    case True
    with assms(1) v obtain i st where st: "sync_log S P (asy_n a) (asy_decided_idx a) (Some (asy_log_sync a)) (sp_internal_storage sp1) = Some (Inr i, st)"
      and sp': "sp' = (let sp1 = sp1\<lparr>sp_cached_promise_message := None, sp_internal_storage := st\<rparr>;
            sp2 = (if is_get_stopsign st = None then forward_buffered_proposals sp1 else sp1)
          in push_msg from (Accepted \<lparr>acc_n = asy_n a, acc_accepted_idx = i\<rparr>)
         (sp2\<lparr>sp_state := (Follower, PhaseAccept), sp_current_seq_num := asy_seq_num a,
              sp_latest_accepted_meta := Some (asy_n a, length (sp_outgoing sp2))\<rparr>))"
      by (auto simp: handle_acceptsync_def bind_eq_Some_conv Let_def)
    have "store_only held A st" using sync_log_only [OF st rep_store [OF sp1] assms(3)] .
    then have "rep_only held A (sp1\<lparr>sp_cached_promise_message := None, sp_internal_storage := st\<rparr>)" using sp1 by (simp add: rep_only_def)
    then show ?thesis using forward_only(2) by (auto simp: sp' Let_def upd_only(3-5) intro!: push_only)
  qed
qed

lemma handle_prepare_only:
  assumes "handle_prepare S P prep from sp = Some sp'" "rep_only held A sp"
  shows "rep_only held A sp'"
proof (cases "ballot_lt (sp_get_promise sp) (prep_n prep) \<or> (sp_get_promise sp = prep_n prep \<and> snd (sp_state sp) = PhaseRecover)")
  case False
  with assms show ?thesis by (simp add: handle_prepare_def Let_def)
next
  case True
  define spp where "spp st = sp\<lparr>sp_internal_storage := st, sp_state := (Follower, PhasePrepare), sp_current_seq_num := sequence_number_default\<rparr>" for st
  define promise where "promise st l = \<lparr>prom_n = prep_n prep, prom_n_accepted = is_get_accepted_round st, prom_decided_idx = is_get_decided_idx st,
    prom_accepted_idx = is_get_accepted_idx st, prom_log_sync = l\<rparr>" for st :: "('s, 't, 'c) internal_storage" and l :: "('t, 'c, 'p) log_sync option"
  obtain i st1 r st2 ol where st: "flush_batch S (sp_internal_storage sp) = Some (Inr i, st1)" "is_set_promise S (prep_n prep) st1 = Some (Inr r, st2)"
    and l: "(if ballot_lt (prep_n_accepted prep) (is_get_accepted_round st2)
          then do { l \<leftarrow> create_log_sync S P (prep_decided_idx prep) (prep_decided_idx prep) (spp st2); Some (Some l) }
          else if is_get_accepted_round st2 = prep_n_accepted prep \<and> is_get_accepted_idx st2 > prep_accepted_idx prep
          then do { l \<leftarrow> create_log_sync S P (prep_accepted_idx prep) (prep_decided_idx prep) (spp st2); Some (Some l) }
          else Some None) = Some ol"
    and sp': "sp' = push_msg from (Promise (promise st2 ol)) ((spp st2)\<lparr>sp_cached_promise_message := Some (promise st2 ol)\<rparr>)"
    using assms True unfolding spp_def promise_def by (auto simp: handle_prepare_def bind_eq_Some_conv Let_def split del: if_split)
  have "store_only held A st2" using flush_batch_only [OF st(1) rep_store [OF assms(2)]] setters_only(1) [OF st(2)] by blast
  then have spp: "rep_only held A (spp st2)" using assms(2) by (simp add: rep_only_def spp_def)
  have "sync_only A (prom_log_sync (promise st2 ol))"
    using l create_log_sync_only [OF _ rep_store [OF spp]] by (auto simp: promise_def bind_eq_Some_conv split: if_split_asm)
  then show ?thesis using spp by (auto simp: sp' intro!: push_only) (auto simp: rep_only_def)
qed

lemma resend_follower_only: "rep_only held A sp \<Longrightarrow> rep_only held A (resend_messages_follower sp)"
  by (auto simp: resend_messages_follower_def send_preparereq_to_all_peers_def upd_only(3) split: phase.split option.split
      intro!: push_only push_to_peers_only) (simp add: rep_only_def)

section \<open>Every step\<close>

lemma sp_handle_only:
  assumes "sp_handle S P m sp = Some sp'" "rep_only held A sp" "msg_only A (pm_msg m)"
  shows "rep_only held A sp'"
proof -
  have "rep_only held A sp'" if "handle_compaction S P c sp = Some sp'" for c
    using that assms(2) by (auto simp: handle_compaction_def sp_snapshot_def bind_eq_Some_conv Let_def split: compaction.split_asm
        intro!: upd_only(1) push_to_peers_only dest: trim_only snapshot_only rep_store)
  then show ?thesis
    using assms
    by (auto simp: sp_handle_def split: paxos_msg.split_asm prod.split_asm role.split_asm phase.split_asm
        intro: handle_preparereq_only handle_prepare_only handle_promise_only handle_acceptsync_only handle_acceptdecide_only
          leader_misc_only handle_accepted_only handle_decide_only handle_accept_stopsign_only)
qed

lemma user_only:
  "sp_append S e sp = Some (r, sp') \<Longrightarrow> rep_only held A sp \<Longrightarrow> e \<in> A \<Longrightarrow> rep_only held A sp'"
  "sp_reconfigure S cfg md sp = Some (r', sp') \<Longrightarrow> rep_only held A sp \<Longrightarrow> rep_only held A sp'"
  "sp_trim S oi sp = Some (res, sp') \<Longrightarrow> rep_only held A sp \<Longrightarrow> rep_only held A sp'"
  "sp_snapshot S P oi local sp = Some (res', sp') \<Longrightarrow> rep_only held A sp \<Longrightarrow> rep_only held A sp'"
  "resend_message_timeout sp = Some sp' \<Longrightarrow> rep_only held A sp \<Longrightarrow> rep_only held A sp'"
  "flush_batch_timeout S sp = Some sp' \<Longrightarrow> rep_only held A sp \<Longrightarrow> rep_only held A sp'"
proof -
  show "sp_append S e sp = Some (r, sp') \<Longrightarrow> rep_only held A sp \<Longrightarrow> e \<in> A \<Longrightarrow> rep_only held A sp'"
    by (auto simp: sp_append_def propose_entry_def bind_eq_Some_conv split: if_split_asm prod.split_asm role.split_asm phase.split_asm
        intro: leader_append_only buffered_only forward_proposals_only)
  show "sp_reconfigure S cfg md sp = Some (r', sp') \<Longrightarrow> rep_only held A sp \<Longrightarrow> rep_only held A sp'"
    by (auto simp: sp_reconfigure_def bind_eq_Some_conv Let_def upd_only(6) split: if_split_asm prod.split_asm role.split_asm phase.split_asm
        intro: accept_stopsign_leader_only forward_only)
  show "sp_trim S oi sp = Some (res, sp') \<Longrightarrow> rep_only held A sp \<Longrightarrow> rep_only held A sp'"
    by (auto simp: sp_trim_def bind_eq_Some_conv Let_def split: if_split_asm option.split_asm
        intro!: upd_only(1) push_to_peers_only dest: trim_only rep_store)
  show "sp_snapshot S P oi local sp = Some (res', sp') \<Longrightarrow> rep_only held A sp \<Longrightarrow> rep_only held A sp'"
    by (auto simp: sp_snapshot_def bind_eq_Some_conv Let_def split: if_split_asm
        intro!: upd_only(1) push_to_peers_only dest: snapshot_only rep_store)
  show "resend_message_timeout sp = Some sp' \<Longrightarrow> rep_only held A sp \<Longrightarrow> rep_only held A sp'"
    by (auto simp: resend_message_timeout_def split: role.split_asm intro: resend_messages_leader_only resend_follower_only)
  show "flush_batch_timeout S sp = Some sp' \<Longrightarrow> rep_only held A sp \<Longrightarrow> rep_only held A sp'"
    by (auto simp: flush_batch_timeout_def flush_batch_follower_def bind_eq_Some_conv Let_def
        split: prod.split_asm role.split_asm phase.split_asm if_split_asm
        elim!: reply_accepted_only intro!: upd_only(1) intro: leader_append_only flush_batch_only rep_store)
qed

lemma take_outgoing_only: "take_outgoing_msgs [] sp = (out, sp') \<Longrightarrow> rep_only held A sp \<Longrightarrow> rep_only held A sp' \<and> (\<forall>m \<in> set out. sent_only A m)"
  by (auto simp: take_outgoing_msgs_def rep_only_def reset_latest_accept_meta_def)

lemma set_promise_batch: "is_set_promise S b st = Some (r, st') \<Longrightarrow> c_batched_entries (is_cache st') = c_batched_entries (is_cache st)"
  by (auto simp: is_set_promise_def on_storage_def)

lemma start_rep_only:
  assumes "sequence_paxos_with S config s = Some sp" "held s \<subseteq> A \<or> held (is_storage (sp_internal_storage sp)) \<subseteq> A"
  shows "rep_only held A sp"
proof -
  obtain st r b where st: "internal_storage_with S s (spc_batch_size config) = Some st" "is_set_promise S b st = Some (r, sp_internal_storage sp)"
    and sp: "sp_buffered_proposals sp = []" "sp_cached_promise_message sp = None" "max_promise_sync (sp_leader_state sp) = None"
      "\<forall>m \<in> set (sp_outgoing sp). sent_only A m"
    using assms(1) by (fastforce simp: sequence_paxos_with_def bind_eq_Some_conv Let_def leader_state_with_def split: option.split_asm)
  have "c_batched_entries (is_cache st) = []" using st(1) by (auto simp: internal_storage_with_def load_cache_def bind_eq_Some_conv state_cache_new_def)
  then have "c_batched_entries (is_cache (sp_internal_storage sp)) = []" using set_promise_batch [OF st(2)] by simp
  then have "store_only held A (sp_internal_storage sp)"
    using assms(2) setters_only(1) [OF st(2) start_only [OF st(1)], of A] by (auto simp: store_only_def)
  then show ?thesis using sp by (simp add: rep_only_def)
qed

lemma net_put_only: "net_only held A nodes N \<Longrightarrow> rep_only held A sp \<Longrightarrow> net_only held A nodes (put p sp N)"
  by (simp add: net_only_def put_def)

lemma net_step_only:
  assumes "net_step S P configs strict proposals nodes N N'" "net_only held A nodes N" "proposals \<subseteq> A"
  shows "net_only held A nodes N'"
proof -
  have rep: "rep_only held A (nw_replica N p)" if "p \<in> nodes" for p using assms(2) that by (simp add: net_only_def)
  from assms(1) show ?thesis
  proof cases
    case (net_deliver p m sp)
    then have "msg_only A (pm_msg m)" using assms(2) by (fastforce simp: net_only_def)
    then show ?thesis using net_deliver sp_handle_only rep net_put_only [OF assms(2)] by blast
  next
    case (net_elect p n sp)
    then show ?thesis using handle_leader_only rep net_put_only [OF assms(2)] by blast
  next
    case (net_reconnected p q)
    then show ?thesis using reconnected_only rep net_put_only [OF assms(2)] by blast
  next
    case (net_send p out sp)
    then show ?thesis using take_outgoing_only [OF _ rep] assms(2) by (auto simp: net_only_def put_def)
  next
    case (net_restart p sp)
    then have "held (is_storage (sp_internal_storage (nw_replica N p))) \<subseteq> A" using rep_store [OF rep] by (simp add: store_only_def)
    then show ?thesis using net_restart start_rep_only net_put_only [OF assms(2)] by blast
  next
    case (net_append p e r sp)
    then show ?thesis using user_only(1) rep net_put_only [OF assms(2)] assms(3) by blast
  qed (auto intro!: net_put_only [OF assms(2)] intro: user_only rep)
qed

lemma net_run_only:
  assumes "(net_step S P configs strict proposals nodes)\<^sup>*\<^sup>* N N'" "net_only held A nodes N" "proposals \<subseteq> A"
  shows "net_only held A nodes N'"
  using assms(1) by (induction rule: rtranclp_induct) (use assms(2,3) net_step_only in blast)+

end

section \<open>The in-memory store\<close>

lemma ms_op_entries: "ms_op x m = Some (r, m') \<Longrightarrow> set (ms_log m') \<subseteq> set (ms_log m) \<union> op_entries x"
  by (cases x) (auto simp: ms_write_defs bind_eq_Some_conv dest: in_set_takeD in_set_dropD)

lemma ms_write_entries: "ms_write_atomically ops m = Some (r, m') \<Longrightarrow> set (ms_log m') \<subseteq> set (ms_log m) \<union> txn_entries ops"
proof (induction ops arbitrary: m)
  case (Cons x ops)
  then obtain r1 m1 where "ms_op x m = Some (r1, m1)" "m' = m1 \<or> ms_write_atomically ops m1 = Some (r, m')"
    by (auto simp: try_op_def split: option.split_asm sum.split_asm)
  with Cons.IH [of m1] ms_op_entries [of x m r1 m1] show ?case by auto
qed simp

interpretation stored: storing memory_impl "\<lambda>m. set (ms_log m)"
  by unfold_locales
    (auto simp: memory_impl_def ms_write_defs ms_get_entries_def ms_get_suffix_def vec_range_def bind_eq_Some_conv
      split: if_split_asm dest: ms_write_entries [THEN subsetD] in_set_takeD in_set_dropD)

text \<open>Every entry that a server reads was proposed, or was in a store at the start.\<close>

lemma read_entries_proposed:
  assumes start: "net_start memory_impl memory_inv memory_view configs nodes N0"
      "\<forall>p \<in> nodes. set (ms_log (is_storage (sp_internal_storage (nw_replica N0 p)))) \<subseteq> A"
    and run: "(net_step memory_impl P configs strict A nodes)\<^sup>*\<^sup>* N0 N"
    and read: "p \<in> nodes" "read_range memory_impl a b (sp_internal_storage (nw_replica N p)) = Some (Inr (Some es))"
      "Decided e \<in> set es \<or> Undecided e \<in> set es"
  shows "e \<in> A"
proof -
  have "net_only (\<lambda>m. set (ms_log m)) A nodes N0"
    using start stored.start_rep_only by (fastforce simp: net_only_def net_start_def)
  from stored.net_run_only [OF run this] have "rep_only (\<lambda>m. set (ms_log m)) A (nw_replica N p)"
    using read(1) by (simp add: net_only_def)
  from stored.read_range_only [OF read(2) stored.rep_store [OF this] read(3)] show ?thesis .
qed

end
