(* ===== verification/Example_Main.thy ===== *)
theory Example_Main
  imports Example_Facts Integrity Erasure_Facts
begin

text \<open>
  The main threads of the example programs. A main thread calls its servers through their locks and sleeps in between, so the tasks may
  run between any two of its calls. What it has found out so far is its state; a failed \<^verbatim>\<open>expect\<close> or \<^verbatim>\<open>unwrap\<close> is \<open>None\<close>.
  The printing is left out.
\<close>

section \<open>Calls\<close>

definition call_append ::
  "('t \<Rightarrow> 'o \<Rightarrow> (('e + unit) \<times> 'o) option) \<Rightarrow> node_id \<Rightarrow> 't \<Rightarrow> ('o, 'm) example \<Rightarrow> ('o, 'm) example option" where
  "call_append appending pid entry ex = do {
     srv \<leftarrow> ex_server ex pid;
     (r, om) \<leftarrow> appending entry (os_omni_paxos srv);
     (case r of Inl _ \<Rightarrow> None | Inr _ \<Rightarrow> Some (set_server pid (srv\<lparr>os_omni_paxos := om\<rparr>) ex))
   }"

definition call_leader :: "('o \<Rightarrow> (node_id \<times> bool) option) \<Rightarrow> node_id \<Rightarrow> ('o, 'm) example \<Rightarrow> node_id option" where
  "call_leader leader pid ex = do {
     srv \<leftarrow> ex_server ex pid;
     (l, _) \<leftarrow> leader (os_omni_paxos srv);
     Some l
   }"

definition call_read :: "(usize \<Rightarrow> 'o \<Rightarrow> 'l list option option) \<Rightarrow> node_id \<Rightarrow> usize \<Rightarrow> ('o, 'm) example \<Rightarrow> 'l list option" where
  "call_read reading pid from_idx ex = do {
     srv \<leftarrow> ex_server ex pid;
     r \<leftarrow> reading from_idx (os_omni_paxos srv);
     r
   }"

definition call_abort :: "node_id \<Rightarrow> ('o, 'm) example \<Rightarrow> ('o, 'm) example option" where
  "call_abort pid ex = do {
     srv \<leftarrow> ex_server ex pid;
     Some (set_server pid (srv\<lparr>os_running := False\<rparr>) ex)
   }"

definition other_server :: "node_id list \<Rightarrow> node_id \<Rightarrow> node_id option" where
  "other_server servers pid = List.find (\<lambda>p. p \<noteq> pid) servers"

section \<open>The key-value program\<close>

type_synonym kv_example =
  "(((key_value, cluster_config, kv_snapshot) memory_storage, key_value, kv_snapshot) omni_paxos, (key_value, cluster_config, kv_snapshot) message) example"

definition kv1 :: key_value where "kv1 = \<lparr>kv_key = ''a'', kv_value = 1\<rparr>"
definition kv2 :: key_value where "kv2 = \<lparr>kv_key = ''b'', kv_value = 2\<rparr>"
definition kv3 :: key_value where "kv3 = \<lparr>kv_key = ''b'', kv_value = 3\<rparr>"

text \<open>Where the main thread is, with the values of its variables that it still needs.\<close>

datatype kv_main =
    AskLeader
  | AppendFirst node_id node_id
  | AppendSecond node_id node_id
  | ReadFirst node_id node_id
  | KillLeader node_id node_id "string \<rightharpoonup> u64"
  | AskNewLeader node_id "string \<rightharpoonup> u64"
  | AppendThird node_id node_id "string \<rightharpoonup> u64"
  | ReadSecond node_id "string \<rightharpoonup> u64"
  | MainDone "string \<rightharpoonup> u64"

fun kv_main_next :: "kv_main \<Rightarrow> kv_example \<Rightarrow> (kv_main \<times> kv_example) option" where
  "kv_main_next AskLeader ex = do {
     leader \<leftarrow> call_leader get_current_leader 1 ex;
     follower \<leftarrow> other_server SERVERS leader;
     Some (AppendFirst leader follower, ex)
   }"
| "kv_main_next (AppendFirst leader follower) ex =
     map_option (Pair (AppendSecond leader follower)) (call_append (omni_append memory_impl) follower kv1 ex)"
| "kv_main_next (AppendSecond leader follower) ex =
     map_option (Pair (ReadFirst leader follower)) (call_append (omni_append memory_impl) leader kv2 ex)"
| "kv_main_next (ReadFirst leader follower) ex = do {
     committed_ents \<leftarrow> call_read (read_decided_suffix memory_impl) leader 0 ex;
     Some (KillLeader leader follower (store_committed committed_ents Map.empty), ex)
   }"
| "kv_main_next (KillLeader leader follower store) ex =
     map_option (Pair (AskNewLeader follower store)) (call_abort leader ex)"
| "kv_main_next (AskNewLeader follower store) ex = do {
     leader \<leftarrow> call_leader get_current_leader follower ex;
     Some (AppendThird leader follower store, ex)
   }"
| "kv_main_next (AppendThird leader follower store) ex =
     map_option (Pair (ReadSecond follower store)) (call_append (omni_append memory_impl) leader kv3 ex)"
| "kv_main_next (ReadSecond follower store) ex = do {
     committed_ents \<leftarrow> call_read (read_decided_suffix memory_impl) follower 2 ex;
     Some (MainDone (store_committed committed_ents store), ex)
   }"
| "kv_main_next (MainDone store) ex = Some (MainDone store, ex)"

text \<open>The whole program: the tasks step, or the main thread does its next call.\<close>

inductive kv_program_step :: "kv_main \<times> kv_example \<Rightarrow> kv_main \<times> kv_example \<Rightarrow> bool" where
  kv_task: "ex_step (omni_ops memory_impl kv_impl) (\<lambda>_ _. False) ex ex' \<Longrightarrow> kv_program_step (pc, ex) (pc, ex')"
| kv_call: "kv_main_next pc ex = Some (pc', ex') \<Longrightarrow> kv_program_step (pc, ex) (pc', ex')"

inductive_cases kv_program_stepE: "kv_program_step (pc, ex) (pc', ex')"

subsection \<open>What it computes\<close>

lemma ex_step_client_mono:
  assumes "ex_step I client ex ex'" "\<And>om om'. client om om' \<Longrightarrow> client' om om'"
  shows "ex_step I client' ex ex'"
  using assms(1) by cases (auto intro: ex_step.intros assms(2))

lemma call_append_step:
  assumes "call_append (omni_append S) pid e ex = Some ex'" "e \<in> A"
  shows "ex_step I (append_call A S) ex ex'"
proof -
  obtain srv r om where s: "ex_server ex pid = Some srv" "omni_append S e (os_omni_paxos srv) = Some (r, om)"
    "ex' = set_server pid (srv\<lparr>os_omni_paxos := om\<rparr>) ex"
    using assms(1) by (auto simp: call_append_def bind_eq_Some_conv sum_case_eq)
  then have "append_call A S (os_omni_paxos srv) om" using assms(2) by (auto simp: append_call_def)
  then show ?thesis using s by (auto intro: ex_client)
qed

lemma call_abort_step: "call_abort pid ex = Some ex' \<Longrightarrow> ex_step I client ex ex'"
  by (auto simp: call_abort_def bind_eq_Some_conv intro: ex_end)

abbreviation kv_entries :: "key_value set" where "kv_entries \<equiv> {kv1, kv2, kv3}"

lemma kv_call_steps:
  assumes "kv_main_next pc ex = Some (pc', ex')"
  shows "(ex_step I (append_call kv_entries memory_impl))\<^sup>*\<^sup>* ex ex'"
  using assms
  by (cases pc) (auto simp: bind_eq_Some_conv intro: call_append_step [where A = kv_entries] call_abort_step)

lemma kv_program_steps:
  assumes "kv_program_step\<^sup>*\<^sup>* (pc, ex) (pc', ex')"
  shows "(ex_step (omni_ops memory_impl kv_impl) (append_call kv_entries memory_impl))\<^sup>*\<^sup>* ex ex'"
  using assms
proof (induction rule: rtranclp_induct2)
  case refl
  show ?case by simp
next
  case (step pc1 ex1 pc2 ex2)
  from step.hyps(2) have "(ex_step (omni_ops memory_impl kv_impl) (append_call kv_entries memory_impl))\<^sup>*\<^sup>* ex1 ex2"
    by cases (auto intro: kv_call_steps ex_step_client_mono)
  with step.IH show ?case by (rule rtranclp_trans)
qed

text \<open>Everything read is one of the entries the main thread appended.\<close>

lemma call_read_entries:
  assumes "kv_main_start = Some ex0" "kv_program_step\<^sup>*\<^sup>* (AskLeader, ex0) (pc, ex)"
    and read: "call_read (read_decided_suffix memory_impl) pid i ex = Some es" and "Decided e \<in> set es"
  shows "e \<in> kv_entries"
proof -
  obtain N0 N where start: "net_start memory_impl memory_inv memory_view kv_configs (set SERVERS) N0"
      "\<forall>p \<in> set SERVERS. sequence_paxos_with memory_impl (kv_configs p) memory_storage_default = Some (nw_replica N0 p)"
    and run: "(net_step memory_impl kv_impl kv_configs False kv_entries (set SERVERS))\<^sup>*\<^sup>* N0 N" and sim: "simulates (set SERVERS) ex N"
    using kv_program_refines [OF assms(1) kv_program_steps [OF assms(2)]] by blast
  obtain srv where srv: "ex_server ex pid = Some srv"
    "is_read_decided_suffix memory_impl i (sp_internal_storage (op_seq_paxos (os_omni_paxos srv))) = Some (Inr (Some es))"
    using read by (auto simp: call_read_def bind_eq_Some_conv read_decided_suffix_def)
  have p: "pid \<in> set SERVERS" "nw_replica N pid = op_seq_paxos (os_omni_paxos srv)" using sim srv(1) by (auto simp: simulates_def)
  have "set (ms_log (is_storage (sp_internal_storage (nw_replica N0 p)))) \<subseteq> kv_entries" if "p \<in> set SERVERS" for p
    using stored.start_rep_only [of "kv_configs p" memory_storage_default "nw_replica N0 p" kv_entries] start(2) that
    by (auto simp: memory_storage_default_def rep_only_def store_only_def)
  then show ?thesis
    using read_entries_proposed [OF start(1) _ run p(1)] srv(2) p(2) assms(4)
    by (fastforce simp: is_read_decided_suffix_def Let_def split: if_split_asm)
qed

definition kv_store_ok :: "(string \<rightharpoonup> u64) \<Rightarrow> bool" where
  "kv_store_ok store \<longleftrightarrow> (\<forall>k v. store k = Some v \<longrightarrow> (\<exists>kv \<in> kv_entries. kv_key kv = k \<and> kv_value kv = v))"

fun kv_stores :: "kv_main \<Rightarrow> (string \<rightharpoonup> u64) list" where
  "kv_stores (KillLeader leader follower store) = [store]"
| "kv_stores (AskNewLeader follower store) = [store]"
| "kv_stores (AppendThird leader follower store) = [store]"
| "kv_stores (ReadSecond follower store) = [store]"
| "kv_stores (MainDone store) = [store]"
| "kv_stores _ = []"

lemma store_committed_ok:
  assumes "\<And>e. Decided e \<in> set es \<Longrightarrow> e \<in> kv_entries" "kv_store_ok store"
  shows "kv_store_ok (store_committed es store)"
  using assms
proof (induction es arbitrary: store)
  case (Cons x es)
  have "kv_store_ok (case x of Decided kv \<Rightarrow> store(kv_key kv \<mapsto> kv_value kv) | _ \<Rightarrow> store)"
    using Cons.prems by (auto simp: kv_store_ok_def split: log_entry.split if_split_asm)
  with Cons.IH [of "case x of Decided kv \<Rightarrow> store(kv_key kv \<mapsto> kv_value kv) | _ \<Rightarrow> store"] Cons.prems(1)
  show ?case by (simp add: store_committed_def)
qed (simp add: store_committed_def)

lemma kv_program_stores:
  assumes "kv_main_start = Some ex0" "kv_program_step\<^sup>*\<^sup>* (AskLeader, ex0) (pc, ex)"
  shows "\<forall>store \<in> set (kv_stores pc). kv_store_ok store"
  using assms(2)
proof (induction rule: rtranclp_induct2)
  case (step pc1 ex1 pc2 ex2)
  have read: "kv_store_ok (store_committed es store)"
    if "call_read (read_decided_suffix memory_impl) pid i ex1 = Some es" "kv_store_ok store" for pid i es store
    using store_committed_ok [OF call_read_entries [OF assms(1) step.hyps(1) that(1)] that(2)] by blast
  have empty: "kv_store_ok Map.empty" by (simp add: kv_store_ok_def)
  from step.hyps(2) show ?case
  proof cases
    case kv_call
    then show ?thesis using step.IH read empty by (cases pc1) (auto simp: bind_eq_Some_conv)
  qed (use step.IH in simp)
qed simp

text \<open>When the main thread is done, its store has 1 under the key \<^verbatim>\<open>a\<close> and 2 or 3 under \<^verbatim>\<open>b\<close>, as far as they were decided in time.\<close>

lemma kv_program_result:
  assumes "kv_main_start = Some ex0" "kv_program_step\<^sup>*\<^sup>* (AskLeader, ex0) (MainDone store, ex)"
  shows "dom store \<subseteq> {''a'', ''b''}" "store ''a'' \<in> {None, Some 1}" "store ''b'' \<in> {None, Some 2, Some 3}"
proof -
  have "kv_store_ok store" using kv_program_stores [OF assms] by simp
  then show "dom store \<subseteq> {''a'', ''b''}" "store ''a'' \<in> {None, Some 1}" "store ''b'' \<in> {None, Some 2, Some 3}"
    by (cases "store ''a''"; cases "store ''b''"; fastforce simp: kv_store_ok_def kv1_def kv2_def kv3_def)+
qed

section \<open>The erasure coding program\<close>

definition ec_kv1 :: ec_key_value where
  "ec_kv1 = ec_kv_from_parts ''a'' (entry_fragment_new 0 [97]) OpSET"

datatype ec_main =
    EcAskLeader
  | EcAppend node_id
  | EcEncode
  | EcDone "entry_fragment list"

text \<open>The last call encodes the appended value with a service of its own, for printing.\<close>

fun ec_main_next ::
  "'rs rs_impl \<Rightarrow> (ec_key_value, cluster_config_ec, 'rs) ec_env \<Rightarrow> ec_main \<Rightarrow>
     (((ec_key_value, cluster_config_ec, 'p) memory_storage, ec_key_value, 'p, 'rs) omni_paxos_ec, 'm) example \<Rightarrow>
     (ec_main \<times> (((ec_key_value, cluster_config_ec, 'p) memory_storage, ec_key_value, 'p, 'rs) omni_paxos_ec, 'm) example) option" where
  "ec_main_next R X EcAskLeader ex = do {
     leader \<leftarrow> call_leader omni_ec_get_current_leader 1 ex;
     follower \<leftarrow> other_server SERVERS leader;
     Some (EcAppend follower, ex)
   }"
| "ec_main_next R X (EcAppend follower) ex =
     map_option (Pair EcEncode) (call_append (omni_ec_append X memory_impl) follower ec_kv1 ex)"
| "ec_main_next R X EcEncode ex =
     (case ec_service_new R 2 1 of
        Inl _ \<Rightarrow> None
      | Inr ec_service \<Rightarrow> do {
          r \<leftarrow> ec_encode R ec_service (frag_data (ek_fragment ec_kv1));
          (case r of Inl _ \<Rightarrow> None | Inr encoded \<Rightarrow> Some (EcDone encoded, ex))
        })"
| "ec_main_next R X (EcDone encoded) ex = Some (EcDone encoded, ex)"

lemma ec_main_encodes:
  assumes "ec_service_new R 2 1 = Inr ec" "reed_solomon R ec"
  shows "\<exists>f0 f1 f2. ec_main_next R X EcEncode ex = Some (EcDone [f0, f1, f2], ex) \<and>
    ec_decode R ec [f0, f1] = Some (Inr [97]) \<and> ec_decode R ec [f0, f2] = Some (Inr [97]) \<and> ec_decode R ec [f2, f1] = Some (Inr [97])"
proof -
  have ec: "data_shards ec = 2" "parity_shards ec = 1" using assms(1) by (auto simp: ec_service_new_def split: sum.split_asm)
  obtain frags n where f: "ec_encode R ec [97] = Some (Inr frags)" "map frag_idx frags = [0..<3]"
    using reed_solomon.encode_sizes [OF assms(2), of "[97]"] by (auto simp: ec)
  have "length (map frag_idx frags) = 3" by (simp add: f(2))
  then have "length frags = 3" by simp
  then obtain f0 f1 f2 where fs: "frags = [f0, f1, f2]" by (auto simp: numeral_3_eq_3 length_Suc_conv)
  then have idx: "frag_idx f0 = 0" "frag_idx f1 = 1" "frag_idx f2 = 2" using f(2) by (auto simp: upt_rec)
  have "ec_decode R ec gs = Some (Inr [97])" if "set gs \<subseteq> set frags" "card (frag_idx ` set gs) = 2" for gs
    using reed_solomon.decode_encode [OF assms(2) f(1) _ that(1)] that(2) by (simp add: ec LENGTH_PREFIX_BYTES_def)
  then have "ec_decode R ec [f0, f1] = Some (Inr [97])" "ec_decode R ec [f0, f2] = Some (Inr [97])" "ec_decode R ec [f2, f1] = Some (Inr [97])"
    by (simp_all add: fs idx)
  then show ?thesis using f(1) assms(1) by (auto simp: fs ec_kv1_def ec_kv_from_parts_def entry_fragment_new_def)
qed

section \<open>The dashboard program\<close>

definition BATCH_SIZE :: nat where "BATCH_SIZE = 100"

text \<open>\<^verbatim>\<open>LogEntry(i)\<close> is its number. The calls of the main thread after the set-up, one per turn of its loops.\<close>

datatype main_call = AppendCall node_id u64 | AbortCall node_id

definition append_batch :: "node_id \<Rightarrow> main_call list" where
  "append_batch server = map (\<lambda>i. AppendCall server (of_nat i)) [0..<BATCH_SIZE]"

definition dashboard_calls :: "node_id list \<Rightarrow> node_id \<Rightarrow> main_call list option" where
  "dashboard_calls servers crash = do {
     server \<leftarrow> other_server servers crash;
     Some (append_batch server @ (if crash > 0 then AbortCall crash # append_batch server else []))
   }"

fun perform_call ::
  "('s, u64, cluster_config, 'p) storage_impl \<Rightarrow> main_call \<Rightarrow> (('s, u64, 'p) omni_paxos, 'm) example \<Rightarrow>
     (('s, u64, 'p) omni_paxos, 'm) example option" where
  "perform_call S (AppendCall pid e) ex = call_append (omni_append S) pid e ex"
| "perform_call S (AbortCall pid) ex = call_abort pid ex"

lemma perform_call_step: "perform_call S c ex = Some ex' \<Longrightarrow> ex_step I (append_call UNIV S) ex ex'"
  by (cases c) (auto intro: call_abort_step call_append_step)

lemma other_server_Some: "other_server servers pid = Some p \<Longrightarrow> p \<in> set servers \<and> p \<noteq> pid"
  by (auto simp: other_server_def find_Some_iff)

text \<open>The program appends the numbers below 100 at one server that it does not stop, once or twice.\<close>

lemma dashboard_calls_shape:
  assumes "dashboard_calls servers crash = Some calls"
  shows "\<exists>p \<in> set servers. p \<noteq> crash \<and>
    (\<forall>c \<in> set calls. c = AbortCall crash \<or> (\<exists>i < BATCH_SIZE. c = AppendCall p (of_nat i))) \<and>
    length calls = (if crash > 0 then 2 * BATCH_SIZE + 1 else BATCH_SIZE)"
proof -
  obtain p where p: "p \<in> set servers" "p \<noteq> crash"
    and calls: "calls = append_batch p @ (if crash > 0 then AbortCall crash # append_batch p else [])"
    using assms by (auto simp: dashboard_calls_def bind_eq_Some_conv dest!: other_server_Some)
  have "\<forall>c \<in> set (append_batch p). \<exists>i < BATCH_SIZE. c = AppendCall p (of_nat i)" "length (append_batch p) = BATCH_SIZE"
    by (auto simp: append_batch_def)
  then show ?thesis using p calls by auto
qed

text \<open>A server to stop that does not exist makes the main thread panic; the arguments are not checked for it.\<close>

lemma dashboard_crash_unknown: "ex_server ex crash = None \<Longrightarrow> perform_call S (AbortCall crash) ex = None"
  by (simp add: call_abort_def)

end
