(* ===== verification/Spec2Isabelle.thy ===== *)
theory Spec2Isabelle
  imports Demo Disagreement Election EC_Demo Backends UniCache_LFU UniCache_Derive Dashboard_Facts Example_Main
begin

text \<open>
  \<^bold>\<open>OmniPaxos\<close>: a verification library for the replicated log in \<^verbatim>\<open>src/\<close>.

  \<^bold>\<open>The program.\<close> A server (\<^verbatim>\<open>omnipaxos/src/omni_paxos.rs\<close>) owns a replica of a log
  (\<^verbatim>\<open>sequence_paxos/\<close>), a leader election (\<^verbatim>\<open>ballot_leader_election.rs\<close>) and three logical clocks. The
  caller drives it: \<^verbatim>\<open>tick\<close> advances the clocks, \<^verbatim>\<open>handle_incoming\<close> delivers one message,
  \<^verbatim>\<open>append\<close>, \<^verbatim>\<open>reconfigure\<close>, \<^verbatim>\<open>trim\<close> and \<^verbatim>\<open>snapshot\<close> are the client's calls, and
  \<^verbatim>\<open>take_outgoing_messages\<close> empties the outgoing buffers. The election hands a ballot to the replica when
  its own server should lead; the replica then prepares the round, collects promises, synchronises the
  followers, replicates entries and decides them once an accept quorum has them. All of it goes through
  the internal storage (\<^verbatim>\<open>storage/internal_storage.rs\<close>), a write-through cache with batching over a
  back-end that implements the trait \<^verbatim>\<open>Storage\<close>.

  \<^bold>\<open>How code becomes definitions.\<close> A method \<^verbatim>\<open>fn f(&mut self, x) -> R\<close> is a function
  \<open>x \<Rightarrow> 's \<Rightarrow> ('r \<times> 's) option\<close>, where \<open>None\<close> is a panic (an index out of range, an underflow, an overflow of
  a machine integer in a checked build, a failed \<^verbatim>\<open>expect\<close>, \<^verbatim>\<open>unimplemented!\<close>); a \<^verbatim>\<open>Result\<close> is a sum with the error
  on the left. Structs are records, enums are datatypes, \<^verbatim>\<open>u32\<close> and \<^verbatim>\<open>u64\<close> counters are words, indexes and
  process identifiers are natural numbers. A trait is a record of operations: \<open>storage_impl\<close> for
  \<^verbatim>\<open>Storage\<close>, \<open>snapshot_impl\<close> for \<^verbatim>\<open>Snapshot\<close>. The definitions describe the default build (no
  logging); those of the feature \<^verbatim>\<open>unicache\<close> stand apart.

  \<^bold>\<open>Theories.\<close>
  \<^item> \<open>Prelude\<close>: results, checked arithmetic, vectors, loops.
  \<^item> \<open>Ballot\<close>, \<open>Config\<close>: ballots, sequence numbers, clocks, quorums, configurations and their validation
    (\<^verbatim>\<open>util.rs\<close>, \<^verbatim>\<open>ballot_leader_election.rs\<close>, \<^verbatim>\<open>omni_paxos.rs\<close>, \<^verbatim>\<open>errors.rs\<close>).
  \<^item> \<open>Storage\<close>: the two traits, the abstract log \<open>storage_view\<close>, and the contracts as locales
    (\<open>storage_contract\<close>, \<open>snapshot_laws\<close>); \<open>Memory_Storage\<close>: the in-memory back-end
    (\<^verbatim>\<open>omnipaxos_storage/src/memory_storage.rs\<close>), an interpretation of the first; \<open>Persistent_Storage\<close>,
    \<open>Persistent_Facts\<close>: the back-end over RocksDB (\<^verbatim>\<open>persistent_storage.rs\<close>), which meets the
    contract (a sublocale) on every database that is an atomic sorted map and with codecs that read back what they write
    (locales \<open>rocksdb\<close>, \<open>codec_laws\<close>; \<open>Rocks_Instance\<close> interprets them); \<open>Backends\<close>: the two side by side (locale \<open>two_backends\<close>); \<open>KV_Store\<close>: the
    key-value snapshots (\<^verbatim>\<open>examples/kv_store/src/kv.rs\<close>), an interpretation of the second.
  \<^item> \<open>Internal_Storage\<close> (\<^verbatim>\<open>internal_storage.rs\<close>, \<^verbatim>\<open>state_cache.rs\<close>), \<open>Internal_Storage_Facts\<close>: every
    operation, and inside the contract its effect on the abstract log and on the cache;
    \<open>Storage_Actions\<close>: the operations a replica performs as a relation that keeps the storage
    invariant \<open>is_wf\<close>.
  \<^item> \<open>Messages\<close>, \<open>Leader_State\<close>, \<open>Leader_State_Facts\<close>: messages, the leader's book-keeping.
  \<^item> \<open>BLE\<close>: the election with its step relation \<open>ble_step\<close>; \<open>Election\<close>: the elections of several servers, round by round, and how they get
    a new leader after a crash.
  \<^item> \<open>Sequence_Paxos\<close>: the replica, one definition per method of \<^verbatim>\<open>mod.rs\<close>, \<^verbatim>\<open>leader.rs\<close> and
    \<^verbatim>\<open>follower.rs\<close>; \<open>Sequence_Paxos_Facts\<close>: its step relation \<open>sp_step\<close> and what each handler does to storage,
    leader state and outgoing messages; \<open>Replica_Invariants\<close>: the invariant \<open>sp_inv\<close>;
    \<open>Replica_Behaviour\<close>: rejected messages, decisions, restarts (\<open>life_step\<close>: steps and crashes).
  \<^item> \<open>Log_Sync\<close>: what a synchronisation message brings from one replica to another.
  \<^item> \<open>Snapshot_History\<close>: what a snapshot summarises; the locale \<open>snapshotting\<close> joins both contracts.
  \<^item> \<open>Omni_Paxos\<close>, \<open>Omni_Paxos_Facts\<close>: the server and the states for the user interface.
  \<^item> \<open>Replication\<close>: an \<^verbatim>\<open>AcceptDecide\<close> that arrives in order; \<open>Commit\<close>: the steps of an entry through a cluster, from the
    append at the leader over the answers of the followers to the decision everywhere; \<open>Cluster\<close>: their composition
    over leader, followers and the messages between them (\<open>commit_round\<close>).
  \<^item> \<open>Replica_Messages\<close>: every message a replica sends is true of it (a promise it sends is a promise it keeps), and what the
    leader's book of promises rests on; \<open>Network\<close>: any number of servers over a network that delivers what was sent in any order,
    repeatedly or never, with crashes (\<open>net_step\<close>), and the invariant that a leader's book of promises is true of all servers; \<open>Integrity\<close>: where the
    entries of a log come from, with the locale \<open>storing\<close> for what this needs of a back-end, interpreted on the in-memory one; \<open>Disagreement\<close>: the run
    of two servers that decide different entries at one position.
  \<^item> \<open>Erasure\<close>, \<open>Erasure_Facts\<close>: the erasure coding service (\<^verbatim>\<open>erasure/ec_service.rs\<close>). The code of the crate
    \<^verbatim>\<open>reed_solomon_erasure\<close> is a parameter \<open>rs_impl\<close>; what its documentation promises (encoding keeps the data
    shards, enough shards reconstruct all) is the locale \<open>reed_solomon\<close>, with one exclusive-or parity
    shard as an instance. \<open>Sequence_Paxos_EC\<close>, \<open>Omni_Paxos_EC\<close>: the erasure-coded replica and server
    (\<^verbatim>\<open>sequence_paxos_ec/\<close>, \<^verbatim>\<open>omni_paxos_ec.rs\<close>); a method whose text is that of the plain one is the
    plain definition on the common fields. \<open>EC_Replica\<close>: its step relation \<open>ec_step\<close> and why the plain invariants
    carry over; \<open>EC_Key_Value\<close>: entries and snapshots of \<^verbatim>\<open>examples/erasure_coding/src/ec.rs\<close>, an
    interpretation of the entry and snapshot laws; \<open>EC_Facts\<close>: what is sent to whom, in the
    locale \<open>ec_replication\<close> that joins the three contracts.
  \<^item> \<open>UniCache\<close>: the trait \<^verbatim>\<open>UniCache\<close> and the internal storage of the build with that feature; the locale \<open>unicache_pair\<close>
    says that a sender and a receiver stay in step, and inside it every operation of the leader has the effect of the plain one.
    \<open>UniCache_LRU\<close>, \<open>UniCache_LFU\<close>: the two caches (\<^verbatim>\<open>unicache/lru_cache.rs\<close>, \<^verbatim>\<open>lfu_cache.rs\<close>, \<^verbatim>\<open>lfu/\<close>), each a
    sublocale of it, over the crates \<^verbatim>\<open>lru\<close> and \<^verbatim>\<open>linked_hash_set\<close> as parameters (locales \<open>lru_laws\<close>,
    \<open>linked_set\<close>). \<open>UniCache_Derive\<close>: the derive macros (\<^verbatim>\<open>omnipaxos_macros/src/lib.rs\<close>).
  \<^item> \<open>Dashboard\<close>, \<open>Dashboard_Facts\<close>: the terminal dashboard (\<^verbatim>\<open>omnipaxos_ui/src/\<close>): its state, its update from the states of the server,
    the contents of its frames. Floating-point numbers are a parameter, with the locale \<open>f64_laws\<close> for the division of indexes.
  \<^item> \<open>Example_Servers\<close>, \<open>Example_Facts\<close>: the example programs (\<^verbatim>\<open>examples/\<close>): a task per server, the channels between the tasks, client
    calls of the main thread (\<open>ex_step\<close>), and the simulation of their steps by those of \<open>Network\<close>;
    \<open>Example_Main\<close>: the main threads call by call, and what the store of the key-value program can hold in the end.
  \<^item> \<open>Demo\<close>, \<open>Cluster_Demo\<close>, \<open>EC_Demo\<close>: clusters of three servers for concrete instances.

  \<^bold>\<open>What is shown.\<close> Over every run of a replica with any number of crashes, its promise and accepted round never
  decrease, its storage and cache agree, and a restart finds everything again. A leader decides only
  with an accept quorum, which meets every prepare quorum of a validated cluster; while preparing it
  holds the maximal promise, and over a network that loses, repeats and reorders messages a leader in the accept phase has the promises of a
  prepare quorum and leads its round alone; the key-value program is such a network, and whatever is in a log was proposed. Synchronisation leaves the follower with the leader's log, and from then on every entry
  appended at the leader is decided on the leader and on its followers when the messages arrive. Messages of
  another round or with a gap in the numbering change nothing. The election hands over only own, higher
  ballots, and replaces a crashed leader within three rounds. Building from a valid configuration gives a server that satisfies all invariants. The
  in-memory and the RocksDB back-end refine the abstract log, and a replica on the latter recovers from its database alone;
  the two cannot be told apart through the trait. Reads, batching, trimming and snapshots are characterised
  on every branch. Fragments of an encoded value decode to it, and an entry appended at an erasure-coded leader can be
  recovered from the logs of any servers that hold enough fragments, as long as batching is off. With UniCache, what
  the leader sends decodes to what it wrote. The dashboard follows its server on every tick until the decided index goes back. Agreement of the decided logs is not among the theorems, since the code does not keep it: a run of two servers
  that decide different entries is given. The section on deviations states where else the code does something else than it documents or means to.

  \<^bold>\<open>Bounds.\<close> No definition uses fuel: every loop of the source runs over a list, and all recursion is structural except for the
  decimal notation of a number, which divides by ten. The memory limit behind \<^verbatim>\<open>buffer_size\<close> only sets initial capacities and has no effect.

  \<^bold>\<open>Not modelled.\<close> The layout and the fixed styles of the terminal interface, the modes of the terminal, the asynchronous runtime of
  the example programs with its timers (any branch of a task's loop may be due at any time), what the examples print, logging and
  the parsing of TOML files.
\<close>

section \<open>The replica over its whole life\<close>







section \<open>Choosing and deciding\<close>

text \<open>
  C2. An \<^verbatim>\<open>Accepted\<close> message moves the decided index of a replica only forward, and only to an index that,
  in the table of the leader, an accept quorum of processes has accepted.
\<close>

theorem decided_needs_accept_quorum:
  assumes "pm_msg m = Accepted a" and "sp_handle S P m sp = Some sp'"
    and "sp_get_decided_idx sp' \<noteq> sp_get_decided_idx sp"
  shows "sp_get_decided_idx sp < sp_get_decided_idx sp' \<and>
    is_accept_quorum (ls_quorum (sp_leader_state sp'))
      (card (accepted_pids (sp_get_decided_idx sp') (sp_leader_state sp')))"
proof -
  have h: "handle_accepted S a (pm_from m) sp = Some sp'" using assms(1,2) by (simp add: sp_handle_def)
  from handle_accepted_decides [OF h] assms(3) show ?thesis by (simp add: sp_get_decided_idx_def)
qed

theorem decided_needs_accept_quorum_witness:
  "sp_get_decided_idx demo_appended = 0 \<and> sp_get_decided_idx demo_decided = 1 \<and>
   is_accept_quorum (ls_quorum (sp_leader_state demo_decided)) (card (accepted_pids 1 (sp_leader_state demo_decided)))"
proof -
  have d: "sp_get_decided_idx demo_appended = 0" "sp_get_decided_idx demo_decided = 1"
    by (simp_all add: sp_get_decided_idx_def is_get_decided_idx_def demo_appended_storage demo_decided_storage
        state_cache_new_def)
  have "pm_msg demo_accepted = Accepted \<lparr>acc_n = demo_ballot, acc_accepted_idx = 1\<rparr>" by (simp add: demo_accepted_def)
  from decided_needs_accept_quorum [OF this demo_decide] d show ?thesis by simp
qed





section \<open>Servers and the messages between them\<close>

text \<open>C4. Any number of servers over a network that delivers the messages sent in any order, repeatedly or never, with
  client calls, timeouts, crashes and restarts in between and an election that may name any ballot: whenever a server leads in the
  accept phase of a round, a set of servers that is a prepare quorum has promised this round or a higher one, and no other server leads
  the same round. That the promises the leader counts were given, and were not taken back, is shown from the steps of all servers. With \<open>strict\<close> the servers may restart and messages fit their receiver.\<close>
theorem accepting_leader_has_promises:
  assumes "storage_contract S sinv view" "net_start S sinv view configs nodes N0" "(net_step S P configs strict proposals nodes)\<^sup>*\<^sup>* N0 N"
    "p \<in> nodes" "sp_state (nw_replica N p) = (Leader, PhaseAccept)"
  shows "(\<exists>Q. Q \<subseteq> nodes \<and> is_prepare_quorum (ls_quorum (sp_leader_state (nw_replica N p))) (card Q) \<and>
      (\<forall>q \<in> Q. ballot_le (n_leader (sp_leader_state (nw_replica N p))) (sp_get_promise (nw_replica N q)))) \<and>
    (\<forall>q \<in> nodes. q \<noteq> p \<longrightarrow> fst (sp_state (nw_replica N q)) = Leader \<longrightarrow>
      n_leader (sp_leader_state (nw_replica N q)) \<noteq> n_leader (sp_leader_state (nw_replica N p)))"
  using storage_contract.accepting_leader [OF assms] by (simp add: promised_by_def)

theorem accepting_leader_has_promises_witness:
  "\<exists>N. (net_step memory_impl kv_impl demo_configs False UNIV {1, 2})\<^sup>*\<^sup>* demo_net N \<and> sp_state (nw_replica N 1) = (Leader, PhaseAccept) \<and>
     (\<exists>Q. Q \<subseteq> {1, 2} \<and> is_prepare_quorum (ls_quorum (sp_leader_state (nw_replica N 1))) (card Q) \<and>
        (\<forall>q \<in> Q. ballot_le demo_ballot (sp_get_promise (nw_replica N q))))"
proof -
  let ?N = "\<lparr>nw_replica = (nw_replica demo_net)(1 := demo_majority, 2 := snd (take_outgoing_msgs [] demo_promising)),
      nw_sent = set (map SequencePaxosMsg [demo_prepare, demo_prepare\<lparr>pm_to := 3\<rparr>, demo_promise])\<rparr>"
  have lead: "sp_state (nw_replica ?N 1) = (Leader, PhaseAccept)" "n_leader (sp_leader_state (nw_replica ?N 1)) = demo_ballot"
    using demo_majority_eq by simp_all
  show ?thesis
    using accepting_leader_has_promises [OF mem.storage_contract_axioms demo_net_start demo_net_run _ lead(1)] demo_net_run lead
    unfolding lead(2) by (intro exI [of _ ?N]) simp
qed

text \<open>
  C8. Servers with in-memory stores over such a network: whatever any of them reads from its log, decided or not, was appended by
  a client at some server or was in the log of a server at the start. No step of the protocol makes entries up, and no loss,
  repetition or reordering of messages does.
\<close>

theorem log_entries_were_proposed:
  assumes "net_start memory_impl memory_inv memory_view configs nodes N0"
    and "\<forall>p \<in> nodes. set (ms_log (is_storage (sp_internal_storage (nw_replica N0 p)))) \<subseteq> proposals"
    and "(net_step memory_impl P configs strict proposals nodes)\<^sup>*\<^sup>* N0 N" and "p \<in> nodes"
    and "read_range memory_impl a b (sp_internal_storage (nw_replica N p)) = Some (Inr (Some es))"
  shows "\<forall>e. Decided e \<in> set es \<or> Undecided e \<in> set es \<longrightarrow> e \<in> proposals"
  using read_entries_proposed [OF assms] by blast

theorem log_entries_were_proposed_witness:
  "\<exists>N es. (net_step memory_impl kv_impl demo_configs False {demo_kv} {1, 2})\<^sup>*\<^sup>* demo_net N \<and> Decided demo_kv \<in> set es \<and>
     read_range memory_impl (Included 0) (Excluded (sp_get_decided_idx (nw_replica N 2))) (sp_internal_storage (nw_replica N 2)) = Some (Inr (Some es)) \<and>
     (\<forall>e. Decided e \<in> set es \<or> Undecided e \<in> set es \<longrightarrow> e \<in> {demo_kv})"
proof -
  obtain N where run: "(net_step memory_impl kv_impl demo_configs False {demo_kv} {1, 2})\<^sup>*\<^sup>* demo_net N"
    and "is_read_decided_suffix memory_impl 0 (sp_internal_storage (nw_replica N 2)) = Some (Inr (Some [Decided demo_kv, Decided demo_kv]))"
    using servers_diverge [of demo_kv demo_kv demo_kv] by auto
  then have read: "read_range memory_impl (Included 0) (Excluded (sp_get_decided_idx (nw_replica N 2))) (sp_internal_storage (nw_replica N 2)) =
      Some (Inr (Some [Decided demo_kv, Decided demo_kv]))"
    by (simp add: is_read_decided_suffix_def sp_get_decided_idx_def Let_def split: if_split_asm)
  have "\<forall>p \<in> {1, 2}. set (ms_log (is_storage (sp_internal_storage (nw_replica demo_net p)))) \<subseteq> {demo_kv}"
    using demo_net_empty by simp
  from log_entries_were_proposed [OF demo_net_start this run _ read] run read show ?thesis by fastforce
qed

text \<open>
  C9. Two servers of the key-value store on fresh in-memory stores can decide different entries at the same position: for any three
  entries there is a run of the network, without crashes, at whose end server 1 has decided the first and the second, and server 2 the first and the third. The \<^verbatim>\<open>AcceptSync\<close> of
  a new session leaves out an entry that goes into the \<^verbatim>\<open>AcceptDecide\<close> of the session before, so that the follower puts the next
  entry in its place and accepts as many entries as the leader counts.
\<close>

theorem servers_can_disagree:
  "net_start memory_impl memory_inv memory_view demo_configs {1, 2} demo_net \<and>
   (\<exists>N. (net_step memory_impl kv_impl demo_configs False {a, b, c} {1, 2})\<^sup>*\<^sup>* demo_net N \<and>
     is_read_decided_suffix memory_impl 0 (sp_internal_storage (nw_replica N 1)) = Some (Inr (Some [Decided a, Decided b])) \<and>
     is_read_decided_suffix memory_impl 0 (sp_internal_storage (nw_replica N 2)) = Some (Inr (Some [Decided a, Decided c])))"
  using demo_net_start servers_diverge by blast

text \<open>
  C7. The leader has crashed, or cannot be reached any more, and the servers that are left form a quorum and reach each other: after three
  rounds of heartbeats they all follow the same new leader. In the first round they find out that the leader does not answer, in the second each
  takes over with a ballot above the leader's, and in the third all follow the one with the highest priority (or, among these, the highest identifier), which alone is
  asked to lead. The replicas have made no promise above the ballots elected so far.
\<close>

theorem crashed_leader_is_replaced:
  assumes "ready live cid 3 E" and "\<forall>q \<in> set live. ble_leader (E q) = L \<and> ballot_lt (current_ballot (E q)) L \<and> ble_happy (E q)"
    and "2 \<le> length live" and "b_n L \<noteq> - 1"
    and "\<forall>q \<in> set live. is_prepare_quorum (ble_quorum (E q)) (length live) \<and> is_accept_quorum (ble_quorum (E q)) (length live)"
    and "m \<in> set live" and "\<forall>q \<in> set live. (b_priority (current_ballot (E q)), q) \<le> (b_priority (current_ballot (E m)), m)"
    and "\<forall>q \<in> set live. ballot_le (promise1 q) L \<and> ballot_le (promise2 q) L \<and> ballot_le (promise3 q) ((current_ballot (E m))\<lparr>b_n := b_n L + 1\<rparr>)"
  shows "let E1 = after_round live st1 promise1 E; E2 = after_round live st2 promise2 E1; E3 = after_round live st3 promise3 E2;
      M = (\<lambda>p. (current_ballot (E p))\<lparr>b_n := b_n L + 1\<rparr>) in
    \<forall>p \<in> set live. heartbeat_round live st1 promise1 E p = Some (None, E1 p) \<and>
      heartbeat_round live st2 promise2 E1 p = Some (Some (M p), E2 p) \<and>
      heartbeat_round live st3 promise3 E2 p = Some (if p = m then Some (M m) else None, E3 p) \<and>
      ble_leader (E3 p) = M m \<and> ble_happy (E3 p)"
  using election_recovers [where k = 0 and ?st1.0 = st1 and ?st2.0 = st2 and ?st3.0 = st3 and ?promise1.0 = promise1 and ?promise2.0 = promise2 and ?promise3.0 = promise3,
      of live cid E L m] assms
  by (simp add: Let_def agreed_def)

theorem crashed_leader_is_replaced_witness:
  "let st = (\<lambda>_. (Follower, PhaseAccept)); promise = (\<lambda>_. ballot_with 1 1 0 3);
       E3 = after_round [1, 2] st promise (after_round [1, 2] st promise (after_round [1, 2] st promise orphaned))
   in ble_leader (E3 1) = ballot_with 1 2 0 2 \<and> ble_leader (E3 2) = ballot_with 1 2 0 2"
proof -
  let ?st = "\<lambda>_ :: node_id. (Follower, PhaseAccept)" and ?promise = "\<lambda>_ :: node_id. ballot_with 1 1 0 3"
  have ok: "ready [1, 2] 1 3 orphaned"
    "\<forall>q \<in> set [1, 2]. ble_leader (orphaned q) = ballot_with 1 1 0 3 \<and> ballot_lt (current_ballot (orphaned q)) (ballot_with 1 1 0 3) \<and> ble_happy (orphaned q)"
    "2 \<le> length [1, 2 :: node_id]" "b_n (ballot_with 1 1 0 3) \<noteq> - 1"
    "\<forall>q \<in> set [1, 2]. is_prepare_quorum (ble_quorum (orphaned q)) (length [1, 2 :: node_id]) \<and> is_accept_quorum (ble_quorum (orphaned q)) (length [1, 2 :: node_id])"
    "2 \<in> set [1, 2 :: node_id]"
    "\<forall>q \<in> set [1, 2]. (b_priority (current_ballot (orphaned q)), q) \<le> (b_priority (current_ballot (orphaned 2)), 2)"
    "\<forall>q \<in> set [1, 2]. ballot_le (ballot_with 1 1 0 3) (ballot_with 1 1 0 3) \<and> ballot_le (ballot_with 1 1 0 3) (ballot_with 1 1 0 3) \<and>
       ballot_le (ballot_with 1 1 0 3) ((current_ballot (orphaned 2))\<lparr>b_n := b_n (ballot_with 1 1 0 3) + 1\<rparr>)"
    by (simp_all add: ready_def orphaned_def round_requests_def ballot_with_def ballot_lt_key ballot_le_key ballot_key_def less_eq_prod_def)
  have "(current_ballot (orphaned 2))\<lparr>b_n := b_n (ballot_with 1 1 0 3) + 1\<rparr> = ballot_with 1 2 0 2"
    by (simp add: orphaned_def ballot_with_def)
  then show ?thesis
    using crashed_leader_is_replaced [OF ok, of ?st ?st ?st] by (simp add: Let_def del: One_nat_def)
qed

section \<open>Synchronising logs\<close>





section \<open>Rounds and numbering of messages\<close>

text \<open>
  C19. A message of the accept phase from another round than the promised one never touches the storage:
  from a lower round it is answered with \<^verbatim>\<open>NotAccepted\<close> and the promise, from a higher one the replica
  asks its sender for a new prepare.
\<close>

theorem other_round_changes_nothing:
  assumes "accept_ballot (pm_msg m) = Some n"
  shows "(ballot_lt n (sp_get_promise sp) \<longrightarrow>
      sp_handle S P m sp = Some (push_msg (b_pid n) (NotAccepted \<lparr>nacc_n = sp_get_promise sp\<rparr>) sp)) \<and>
    (ballot_lt (sp_get_promise sp) n \<longrightarrow> sp_handle S P m sp = Some (sp_reconnected (b_pid n) sp)) \<and>
    (ballot_key n \<noteq> ballot_key (sp_get_promise sp) \<longrightarrow>
      (\<exists>sp'. sp_handle S P m sp = Some sp' \<and> sp_internal_storage sp' = sp_internal_storage sp))"
proof -
  have lo: "ballot_lt n (sp_get_promise sp) \<Longrightarrow>
      sp_handle S P m sp = Some (push_msg (b_pid n) (NotAccepted \<lparr>nacc_n = sp_get_promise sp\<rparr>) sp)"
    using sp_handle_invalid_ballot [OF assms check_valid_ballot_stale] by blast
  have hi: "ballot_lt (sp_get_promise sp) n \<Longrightarrow> sp_handle S P m sp = Some (sp_reconnected (b_pid n) sp)"
    using sp_handle_invalid_ballot [OF assms check_valid_ballot_future] by blast
  have "\<exists>sp'. sp_handle S P m sp = Some sp' \<and> sp_internal_storage sp' = sp_internal_storage sp"
    if "ballot_key n \<noteq> ballot_key (sp_get_promise sp)"
    using ballot_cmp_cases [of n "sp_get_promise sp"] that lo hi by auto
  with lo hi show ?thesis by blast
qed

theorem other_round_changes_nothing_witness:
  "\<exists>m. sp_handle memory_impl kv_impl m demo_leader =
     Some (push_msg 0 (NotAccepted \<lparr>nacc_n = demo_ballot\<rparr>) demo_leader)"
proof -
  let ?m = "\<lparr>pm_from = 3, pm_to = 1, pm_msg = Decide \<lparr>dec_n = ballot_default,
      dec_seq_num = sequence_number_default, dec_decided_idx = 4\<rparr>\<rparr>"
  have "accept_ballot (pm_msg ?m :: (key_value, cluster_config, kv_snapshot) paxos_msg) = Some ballot_default" by simp
  moreover have "sp_get_promise demo_leader = demo_ballot" "ballot_lt ballot_default demo_ballot"
    by (simp_all add: demo_leader_eq demo_eval)
  ultimately have "sp_handle memory_impl kv_impl ?m demo_leader =
      Some (push_msg (b_pid ballot_default) (NotAccepted \<lparr>nacc_n = demo_ballot\<rparr>) demo_leader)"
    using other_round_changes_nothing [of ?m ballot_default demo_leader memory_impl kv_impl] by simp
  then show ?thesis by (auto simp: ballot_default_def)
qed

text \<open>
  C20. A numbered message that is not the next one of its session, because it is a duplicate or because a
  message before it was lost, is handled without a change of the storage or of the expected number.
\<close>

theorem gap_changes_nothing:
  assumes "accept_seq_num (pm_msg m) = Some sn" and "check_msg_status (sp_current_seq_num sp) sn = Some status"
    and "status \<noteq> Expected"
  shows "\<exists>sp'. sp_handle S P m sp = Some sp' \<and> sp_internal_storage sp' = sp_internal_storage sp \<and>
    sp_leader_state sp' = sp_leader_state sp \<and> sp_current_seq_num sp' = sp_current_seq_num sp"
  using assms by (rule sp_handle_unexpected)

theorem gap_changes_nothing_witness:
  "\<exists>sp'. sp_handle memory_impl kv_impl \<lparr>pm_from = 2, pm_to = 1, pm_msg = Decide \<lparr>dec_n = demo_ballot,
       dec_seq_num = \<lparr>sn_session = 0, sn_counter = 2\<rparr>, dec_decided_idx = 4\<rparr>\<rparr> demo_decided = Some sp' \<and>
     sp_internal_storage sp' = sp_internal_storage demo_decided"
proof -
  let ?m = "\<lparr>pm_from = 2, pm_to = 1, pm_msg = Decide \<lparr>dec_n = demo_ballot,
       dec_seq_num = \<lparr>sn_session = 0, sn_counter = 2\<rparr>, dec_decided_idx = 4\<rparr>\<rparr>
     :: (key_value, cluster_config, kv_snapshot) paxos_message"
  have "accept_seq_num (pm_msg ?m) = Some \<lparr>sn_session = 0, sn_counter = 2\<rparr>" by simp
  moreover have "check_msg_status (sp_current_seq_num demo_decided) \<lparr>sn_session = 0, sn_counter = 2\<rparr> = Some DroppedPreceding"
    by (simp add: demo_decided_def demo_appended_def demo_accepting_def demo_leader_eq demo_eval check_msg_status_def
        seq_le_def seq_key_def)
  ultimately show ?thesis using gap_changes_nothing [of ?m _ demo_decided DroppedPreceding memory_impl kv_impl] by auto
qed


section \<open>Replication\<close>

text \<open>C5. Replication makes progress. A leader in the accept phase and followers of its round that
  have caught up with it and form an accept quorum with it, no message in flight, no stopsign in the log, no batching: the entries
  the application appends to the leader one after the other are accepted by each of these followers, counted and decided by the
  leader, and decided by each of them, when the messages between the servers are delivered in order after each append. No handler
  panics, the leader's log has grown by exactly these entries, and the decided index of every one of the servers is the end of the log,
  which is the same on all of them. The room of the message counters (two messages per entry) is the only bound. It holds for
  every back-end that keeps the storage contract.\<close>
theorem appended_entries_get_decided:
  assumes "storage_contract S sinv view" "replicating sinv view ps L F" "get_promised_followers (sp_leader_state L) = Some fs"
    "counter_room (length es) fs (sp_leader_state L)" "es \<noteq> []"
  shows "\<exists>L' F'. for_each (\<lambda>e (L, F). commit_round S P e ps L F) es (L, F) = Some (L', F') \<and> replicating sinv view ps L' F' \<and>
    v_log (view (is_storage (sp_internal_storage L'))) = v_log (view (is_storage (sp_internal_storage L))) @ es \<and>
    sp_get_decided_idx L' = is_get_accepted_idx (sp_internal_storage L) + length es \<and>
    (\<forall>p \<in> set ps. sp_get_decided_idx (F' p) = is_get_accepted_idx (sp_internal_storage L) + length es \<and>
       same_log (view (is_storage (sp_internal_storage L'))) (view (is_storage (sp_internal_storage (F' p)))))"
proof -
  obtain L' F' where r: "for_each (\<lambda>e (L, F). commit_round S P e ps L F) es (L, F) = Some (L', F')" "replicating sinv view ps L' F'"
    "v_log (view (is_storage (sp_internal_storage L'))) = v_log (view (is_storage (sp_internal_storage L))) @ es"
    "sp_get_decided_idx L' = is_get_accepted_idx (sp_internal_storage L) + length es"
    "\<forall>p \<in> set ps. sp_get_decided_idx (F' p) = is_get_accepted_idx (sp_internal_storage L) + length es"
    using storage_contract.commit_rounds_ok [OF assms] by blast
  moreover have "\<forall>p \<in> set ps. same_log (view (is_storage (sp_internal_storage L'))) (view (is_storage (sp_internal_storage (F' p))))"
    using r(2) by (simp add: replicating_def following_def)
  ultimately show ?thesis by blast
qed

theorem appended_entries_get_decided_witness:
  "\<exists>L' F'. for_each (\<lambda>e (L, F). commit_round memory_impl kv_impl e [2] L F) [demo_kv, demo_kv\<lparr>kv_value := 8\<rparr>]
      (demo_head, \<lambda>_. demo_synced) = Some (L', F') \<and> replicating memory_inv memory_view [2] L' F' \<and>
    v_log (memory_view (is_storage (sp_internal_storage L'))) =
      v_log (memory_view (is_storage (sp_internal_storage demo_head))) @ [demo_kv, demo_kv\<lparr>kv_value := 8\<rparr>] \<and>
    sp_get_decided_idx L' = is_get_accepted_idx (sp_internal_storage demo_head) + length [demo_kv, demo_kv\<lparr>kv_value := 8\<rparr>] \<and>
    (\<forall>p \<in> set [2]. sp_get_decided_idx (F' p) = is_get_accepted_idx (sp_internal_storage demo_head) + length [demo_kv, demo_kv\<lparr>kv_value := 8\<rparr>] \<and>
       same_log (memory_view (is_storage (sp_internal_storage L'))) (memory_view (is_storage (sp_internal_storage (F' p)))))"
  by (rule appended_entries_get_decided [OF mem.storage_contract_axioms demo_replicating demo_followers]) (use demo_counter_room in \<open>simp_all add: numeral_2_eq_2\<close>)

section \<open>Election\<close>

text \<open>
  C16. At the end of a heartbeat round the replica of a server is either left alone or made the leader of
  the server's own ballot, which is strictly above every promise it has made; the election component
  and the replica stay consistent.
\<close>

theorem election_hands_over_own_ballot:
  assumes "election_timeout S om = Some om'" and "server_ok om"
  shows "server_ok om' \<and>
    (op_seq_paxos om' = op_seq_paxos om \<or>
      (sp_state (op_seq_paxos om') = (Leader, PhasePrepare) \<and>
       sp_get_promise (op_seq_paxos om') = current_ballot (op_ble om') \<and>
       b_pid (current_ballot (op_ble om')) = sp_pid (op_seq_paxos om') \<and>
       ballot_lt (sp_get_promise (op_seq_paxos om)) (sp_get_promise (op_seq_paxos om'))))"
  using election_timeout_ok [OF assms] by (auto simp: server_ok_def ble_wf_def)

theorem election_hands_over_own_ballot_witness:
  "\<exists>om'. election_timeout memory_impl demo_om = Some om' \<and> server_ok om' \<and>
     sp_state (op_seq_paxos om') = (Leader, PhasePrepare)"
proof -
  obtain ble' where hb: "hb_timeout (Follower, PhaseNone) ballot_default demo_ble = Some (Some demo_ballot, ble')"
    using demo_hb by blast
  let ?om = "demo_om\<lparr>op_ble := ble', op_seq_paxos := demo_leader\<rparr>"
  have "sp_state demo_replica = (Follower, PhaseNone)" "sp_get_promise demo_replica = ballot_default"
    by (simp_all add: demo_replica_eq sp_get_promise_def is_get_promise_def state_cache_new_def)
  then have run: "election_timeout memory_impl demo_om = Some ?om"
    using hb demo_elect by (simp add: election_timeout_def demo_om_def)
  have st: "sp_state (op_seq_paxos ?om) = (Leader, PhasePrepare)" by (simp add: demo_leader_eq)
  have "server_ok ?om" using election_hands_over_own_ballot [OF run demo_server_ok] by (rule conjunct1)
  with run st show ?thesis by (intro exI [of _ ?om] conjI)
qed

text \<open>
  C17. Over any sequence of heartbeats, round ends and priority changes the elected ballot and the round
  counter of an election component only grow, it stays the component of the same server with the same
  quorum, and its own ballot carries its own process identifier.
\<close>

theorem election_is_monotone:
  assumes "ble_with config recovered = Some ble" and "ble_step\<^sup>*\<^sup>* ble ble'"
  shows "ballot_le (ble_leader ble) (ble_leader ble') \<and> hb_round ble \<le> hb_round ble' \<and>
    ble_same_node ble ble' \<and> b_pid (current_ballot ble') = blec_pid config"
  using ble_run_mono [OF assms(2)] ble_run_wf [OF assms(2) ble_with_wf(1) [OF assms(1)]] ble_with_wf(2) [OF assms(1)]
  by (simp add: ble_wf_def ble_same_node_def)

theorem election_is_monotone_witness:
  "\<exists>ble'. ble_step\<^sup>*\<^sup>* demo_ble ble' \<and> hb_round demo_ble < hb_round ble' \<and>
     ballot_le (ble_leader demo_ble) (ble_leader ble') \<and> b_pid (current_ballot ble') = 1"
proof -
  have w: "ble_with (ble_config_from demo_config) None = Some demo_ble"
    by (simp add: demo_ble_eq ble_with_def ble_config_from_def new_hb_round_def INITIAL_ROUND_def demo_eval)
  obtain ble' where t: "hb_timeout (Follower, PhaseNone) ballot_default demo_ble = Some (Some demo_ballot, ble')"
    using demo_hb by blast
  have run: "ble_step\<^sup>*\<^sup>* demo_ble ble'" using ble_timeout_step [OF t] by (rule r_into_rtranclp)
  have pid: "blec_pid (ble_config_from demo_config) = 1" by (simp add: ble_config_from_def demo_eval)
  note mono = election_is_monotone [OF w run, unfolded pid]
  show ?thesis
    by (rule exI [of _ ble']) (intro conjI run hb_timeout_frame(5) [OF t], use mono in blast, use mono in blast)
qed

text \<open>
  C18. A node leaves its leader and raises its own ballot only when it is unhappy, none of the nodes that
  answered is happy, and with itself they form a prepare quorum; the new ballot is above the leader's
  and above every ballot that answered.
\<close>

theorem takeover_needs_quorum:
  assumes "check_takeover (update_happiness st (update_leader ble)) = Some ble'"
    and "current_ballot ble' \<noteq> current_ballot ble"
  shows "is_prepare_quorum (ble_quorum ble) (length (heartbeat_replies ble) + 1) \<and>
    (\<forall>r \<in> set (heartbeat_replies ble). \<not> hbr_happy r \<and> ballot_lt (hbr_ballot r) (current_ballot ble')) \<and>
    ballot_lt (ble_leader ble) (current_ballot ble') \<and> ble_leader ble' = current_ballot ble'"
proof -
  let ?b = "update_happiness st (update_leader ble)"
  have "ble' \<noteq> ?b" using assms(2) update_leader_frame(2) by auto
  with check_takeover_cases [OF assms(1)] have t: "takes_over ?b" "ballot_lt (ble_leader ?b) (ble_leader ble')"
    "ble_leader ble' = current_ballot ble'" by auto
  have le: "ballot_le (ble_leader ble) (ble_leader ?b)" using update_leader_frame(5) by simp
  have "ballot_le (hbr_ballot r) (ble_leader ?b)" if "r \<in> set (heartbeat_replies ble)" for r
    using that update_leader_key [of ble] by (simp add: ballot_le_key)
  with t le show ?thesis
    using update_leader_frame(1,3) [of ble]
    by (auto simp: takes_over_def list_all_iff update_happiness_def ble_same_node_def
        intro: ballot_le_lt_trans)
qed

theorem takeover_needs_quorum_witness:
  "\<exists>ble ble'. check_takeover (update_happiness (Follower, PhaseNone) (update_leader ble)) = Some ble' \<and>
     current_ballot ble' \<noteq> current_ballot ble \<and>
     is_prepare_quorum (ble_quorum ble) (length (heartbeat_replies ble) + 1) \<and>
     ballot_lt (ble_leader ble) (current_ballot ble')"
proof -
  define r where "r = \<lparr>hbr_round = 1, hbr_ballot = ballot_with 1 1 0 2, hbr_leader = ballot_with 1 5 0 3, hbr_happy = False\<rparr>"
  define ble where "ble = demo_ble\<lparr>heartbeat_replies := [r]\<rparr>"
  obtain ble' where t: "check_takeover (update_happiness (Follower, PhaseNone) (update_leader ble)) = Some ble'"
    and n: "current_ballot ble' \<noteq> current_ballot ble"
    by (simp add: ble_def r_def demo_ble_eq update_leader_def update_happiness_def can_form_quorum_def
        check_takeover_def takes_over_def demo_eval)
  from takeover_needs_quorum [OF t n] t n show ?thesis by blast
qed

section \<open>Configurations and servers\<close>

text \<open>
  C15. In every configuration that passes validation and lists no server twice, each prepare quorum has a
  member in common with each accept quorum.
\<close>

theorem quorums_intersect:
  assumes "cluster_config_validate c = Inr ()" and "distinct (cc_nodes c)"
    and "Q \<subseteq> set (cc_nodes c)" and "is_prepare_quorum (cluster_quorum c) (card Q)"
    and "R \<subseteq> set (cc_nodes c)" and "is_accept_quorum (cluster_quorum c) (card R)"
  shows "Q \<inter> R \<noteq> {}"
  using assms by (intro cluster.quorums_meet [of c]) (auto simp: sound_cluster_def)

theorem quorums_intersect_witness:
  "\<exists>c. cc_flexible_quorum c = Some \<lparr>read_quorum_size = 4, write_quorum_size = 2\<rparr> \<and>
     cluster_config_validate c = Inr () \<and> {1, 2, 3, 4} \<inter> {4, 5 :: nat} \<noteq> {} \<and> set (cc_nodes c) = {1, 2, 3, 4, 5}"
proof -
  define c where "c = \<lparr>cc_configuration_id = 1, cc_nodes = [1, 2, 3, 4, 5],
      cc_flexible_quorum = Some \<lparr>read_quorum_size = 4, write_quorum_size = 2\<rparr>\<rparr>"
  have v: "cluster_config_validate c = Inr ()" "distinct (cc_nodes c)"
    by (simp_all add: cluster_config_validate_ok c_def)
  have q: "is_prepare_quorum (cluster_quorum c) (card {1, 2, 3, 4 :: nat})" "is_accept_quorum (cluster_quorum c) (card {4, 5 :: nat})"
    by (simp_all add: cluster_quorum_def quorum_with_def c_def)
  from quorums_intersect [OF v _ q(1) _ q(2)] v show ?thesis
    by (intro exI [of _ c]) (auto simp: c_def)
qed

text \<open>
  C21. From a validated configuration without repeated servers and a consistent store, building a server
  succeeds; its replica and its election component belong to the configured process, satisfy their
  invariants and count the quorums of the cluster.
\<close>

theorem build_gives_working_server:
  assumes "omni_paxos_config_validate config = Inr ()" and "distinct (cc_nodes (cluster_config_of config))"
    and "store_ok memory_inv memory_view s"
  shows "\<exists>om. omni_paxos_build memory_impl config s = Some (Inr om) \<and> server_ok om \<and>
    is_wf memory_inv memory_view (sp_internal_storage (op_seq_paxos om)) \<and>
    sp_pid (op_seq_paxos om) = sc_pid (server_config_of config) \<and>
    ls_quorum (sp_leader_state (op_seq_paxos om)) = cluster_quorum (cluster_config_of config) \<and>
    ble_quorum (op_ble om) = cluster_quorum (cluster_config_of config)"
  using mem_build_total [OF assms] by (auto simp: server_ok_def)

theorem build_gives_working_server_witness:
  "\<exists>om. omni_paxos_build memory_impl demo_config (memory_storage_default :: demo_store) = Some (Inr om) \<and> server_ok om"
proof -
  have "omni_paxos_config_validate demo_config = Inr ()"
    by (simp add: omni_paxos_config_validate_ok cluster_config_validate_ok server_config_validate_def demo_eval)
  moreover have "distinct (cc_nodes (cluster_config_of demo_config))" by (simp add: demo_eval)
  ultimately show ?thesis using build_gives_working_server [OF _ _ memory_default_ok] by blast
qed


section \<open>The storage layer\<close>

text \<open>
  C29. Appending through the batch never loses, duplicates or reorders entries: the stored log followed by
  the batch grows by exactly the new entries, and the batch stays below its size or is flushed.
\<close>

theorem batching_is_fifo:
  assumes "is_wf memory_inv memory_view st"
  shows "\<exists>r st'. append_entries_with_batching memory_impl es st = Some (Inr r, st') \<and>
    is_wf memory_inv memory_view st' \<and>
    v_log (memory_view (is_storage st')) @ c_batched_entries (is_cache st')
      = v_log (memory_view (is_storage st)) @ c_batched_entries (is_cache st) @ es \<and>
    (c_batched_entries (is_cache st') = [] \<or> length (c_batched_entries (is_cache st')) < c_batch_size (is_cache st'))"
  using assms by (rule mem.append_batched_fifo)

theorem batching_is_fifo_witness:
  "\<exists>r st'. append_entries_with_batching memory_impl [demo_kv] demo_empty = Some (Inr r, st') \<and>
     v_log (memory_view (is_storage st')) @ c_batched_entries (is_cache st') = [demo_kv]"
  using batching_is_fifo [OF demo_empty_wf, of "[demo_kv]"]
  by (auto simp: demo_empty_def memory_view_def memory_storage_default_def state_cache_new_def)

text \<open>
  C30. Reading a non-empty range of a coherent storage returns one entry for the compacted part, if the
  range reaches into it, followed by exactly the entries and the stop sign at the positions asked
  for, each marked decided or not; a range that ends beyond the accepted index gives nothing.
\<close>

theorem read_returns_positions:
  assumes "is_coherent memory_inv memory_view st" and "a < b"
  shows "read_range memory_impl (Included a) (Excluded b) st =
    Some (Inr (if b \<le> view_accepted_idx (memory_view (is_storage st))
               then Some (read_view (memory_view (is_storage st)) a b) else None))"
  using assms by (rule mem.read_range_eq)

theorem read_returns_positions_witness:
  "read_range memory_impl (Included 0) (Excluded 1) (sp_internal_storage demo_decided) = Some (Inr (Some [Decided demo_kv]))"
proof -
  have coh: "is_coherent memory_inv memory_view (sp_internal_storage demo_decided)"
    using demo_storage_wf(2) by (simp add: is_wf_def)
  show ?thesis
    using read_returns_positions [OF coh, of 0 1]
    by (simp add: demo_decided_storage memory_view_def memory_storage_default_def view_accepted_idx_def read_view_def
        entry_at_def)
qed



section \<open>Compaction\<close>

text \<open>
  C32. With the key-value snapshots, snapshotting up to a decided index (or the whole decided log) always
  succeeds, and the history is unchanged: what the new snapshot summarises, followed by the remaining
  log, is what the old one summarised followed by the old log.
\<close>

theorem snapshot_keeps_history:
  assumes "is_wf memory_inv memory_view st" and "summarises kv_impl es (memory_view (is_storage st))"
    and "\<And>i. oidx = Some i \<Longrightarrow> i \<le> is_get_decided_idx st"
  shows "\<exists>st' es'. try_snapshot memory_impl kv_impl oidx st = Some (Inr (), st') \<and> is_wf memory_inv memory_view st' \<and>
    summarises kv_impl es' (memory_view (is_storage st')) \<and>
    history es' (memory_view (is_storage st')) = history es (memory_view (is_storage st)) \<and>
    is_get_compacted_idx st' = max (is_get_compacted_idx st)
      (case oidx of None \<Rightarrow> decided_without_stopsign (is_cache st) | Some j \<Rightarrow> compaction_target j (is_cache st))"
  using assms by (rule mem_kv.try_snapshot_history)

theorem snapshot_keeps_history_witness:
  "\<exists>st' es'. try_snapshot memory_impl kv_impl None (sp_internal_storage demo_decided) = Some (Inr (), st') \<and>
     summarises kv_impl es' (memory_view (is_storage st')) \<and> history es' (memory_view (is_storage st')) = [demo_kv] \<and>
     is_get_compacted_idx st' = 1"
proof -
  let ?st = "sp_internal_storage demo_decided"
  have s: "summarises kv_impl [] (memory_view (is_storage ?st))"
    by (simp add: summarises_def demo_decided_storage memory_view_def memory_storage_default_def)
  have h: "history [] (memory_view (is_storage ?st)) = [demo_kv]"
    "max (is_get_compacted_idx ?st) (decided_without_stopsign (is_cache ?st)) = 1"
    by (simp_all add: history_def demo_decided_storage memory_view_def is_get_defs decided_without_stopsign_def
        state_cache_new_def)
  show ?thesis using snapshot_keeps_history [OF demo_storage_wf(2) s, of None] h by simp blast
qed

section \<open>Deviations\<close>

text \<open>
  C34. A replica that has no snapshot and is synchronised with a delta snapshot to a decided index beyond
  its log keeps the delta alone: the entries it had decided before are in no part of its snapshot.
\<close>

theorem delta_synchronisation_forgets:
  assumes "is_coherent memory_inv memory_view st"
    and "v_snapshot (memory_view (is_storage st)) = None" and "is_get_stopsign st = None"
    and "is_get_accepted_idx st < d"
    and "decided_snapshot sync = Some (Delta q)" and "is_get_compacted_idx st \<le> sync_idx sync"
  shows "\<exists>i st'. sync_log memory_impl kv_impl r d (Some sync) st = Some (Inr i, st') \<and>
    v_snapshot (memory_view (is_storage st')) = Some q \<and> is_get_compacted_idx st' = sync_idx sync"
  using assms by (rule delta_sync_forgets)

theorem delta_synchronisation_forgets_witness:
  "kv_create [demo_kv] ''x'' = Some 7 \<and> is_get_decided_idx (sp_internal_storage demo_decided) = 1 \<and>
   (\<exists>i st'. sync_log memory_impl kv_impl demo_ballot 2
       (Some \<lparr>decided_snapshot = Some (Delta Map.empty), sync_suffix = [], sync_idx = 2, sync_stopsign = None\<rparr>)
       (sp_internal_storage demo_decided) = Some (Inr i, st') \<and>
     v_snapshot (memory_view (is_storage st')) = Some Map.empty \<and> is_get_compacted_idx st' = 2)"
proof -
  let ?st = "sp_internal_storage demo_decided"
  have coh: "is_coherent memory_inv memory_view ?st" using demo_storage_wf(2) by (simp add: is_wf_def)
  have s: "v_snapshot (memory_view (is_storage ?st)) = None" "is_get_stopsign ?st = None"
    "is_get_accepted_idx ?st < 2" "is_get_compacted_idx ?st = 0" "is_get_decided_idx ?st = 1"
    by (simp_all add: demo_decided_storage memory_view_def memory_storage_default_def is_get_defs state_cache_new_def)
  show ?thesis
    using delta_synchronisation_forgets [OF coh s(1,2,3), of "\<lparr>decided_snapshot = Some (Delta Map.empty), sync_suffix = [],
      sync_idx = 2, sync_stopsign = None\<rparr>" Map.empty demo_ballot] s(4,5)
    by (simp add: kv_create_def kv_insert_def demo_kv_def)
qed

text \<open>
  C35. A follower that accepts an \<^verbatim>\<open>AcceptSync\<close> takes over the leader's decided index even when its own is larger.
\<close>

theorem acceptsync_overwrites_decided:
  assumes "pm_msg m = AcceptSync a" and "sp_state sp = (Follower, PhasePrepare)"
    and "ballot_key (sp_get_promise sp) = ballot_key (asy_n a)"
    and "sp_handle S P m sp = Some sp'"
  shows "sp_get_decided_idx sp' = asy_decided_idx a \<and> sp_state sp' = (Follower, PhaseAccept)"
  using acceptsync_sets_decided [OF assms] by blast

theorem acceptsync_overwrites_decided_witness:
  "\<exists>m sp'. sp_get_decided_idx (demo_decided\<lparr>sp_state := (Follower, PhasePrepare)\<rparr>) = 1 \<and>
     sp_handle memory_impl kv_impl m (demo_decided\<lparr>sp_state := (Follower, PhasePrepare)\<rparr>) = Some sp' \<and>
     sp_get_decided_idx sp' = 0"
proof -
  let ?sp = "demo_decided\<lparr>sp_state := (Follower, PhasePrepare)\<rparr>"
  let ?a = "\<lparr>asy_n = demo_ballot, asy_seq_num = sequence_number_default, asy_decided_idx = 0,
    asy_log_sync = \<lparr>decided_snapshot = None, sync_suffix = [], sync_idx = 1, sync_stopsign = None\<rparr>\<rparr>"
  let ?m = "\<lparr>pm_from = 1, pm_to = 2, pm_msg = AcceptSync ?a\<rparr>"
  have p: "sp_get_promise ?sp = demo_ballot" "sp_get_decided_idx ?sp = 1"
    by (simp_all add: sp_get_promise_def sp_get_decided_idx_def is_get_defs demo_decided_storage)
  have run: "\<exists>sp'. sp_handle memory_impl kv_impl ?m ?sp = Some sp'"
    by (simp add: demo_decided_def demo_appended_def demo_accepting_def demo_leader_eq handle_acceptsync_def sync_snapshot_def sync_stopsign_ops_def check_valid_ballot_def reply_accepted_def get_latest_accepted_message_def
        forward_buffered_proposals_def demo_eval)
  then obtain sp' where run: "sp_handle memory_impl kv_impl ?m ?sp = Some sp'" by blast
  have "sp_get_decided_idx sp' = 0"
    using acceptsync_overwrites_decided [OF _ _ _ run] p by simp
  with run p show ?thesis by blast
qed

section \<open>Erasure coding\<close>

text \<open>
  C26. Encoding a value always succeeds, and any of its fragments with at least \<^verbatim>\<open>data_shards\<close> different indexes, in any
  order and with repetitions, decode to the value.
\<close>

theorem erasure_roundtrip:
  assumes "reed_solomon R ec" and "length val + LENGTH_PREFIX_BYTES < 2 ^ 64"
  shows "\<exists>frags. ec_encode R ec val = Some (Inr frags) \<and> length frags = data_shards ec + parity_shards ec \<and>
    (\<forall>fs. set fs \<subseteq> set frags \<longrightarrow> data_shards ec \<le> card (frag_idx ` set fs) \<longrightarrow> ec_decode R ec fs = Some (Inr val))"
  using reed_solomon.encode_total [OF assms(1), of val] reed_solomon.decode_encode [OF assms(1) _ assms(2)] by metis

theorem erasure_roundtrip_witness:
  "\<exists>frags. ec_encode xor_impl ec_demo_service [1, 2, 3] = Some (Inr frags) \<and>
     ec_decode xor_impl ec_demo_service frags = Some (Inr [1, 2, 3])"
proof -
  obtain frags where f: "ec_encode xor_impl ec_demo_service [1, 2, 3] = Some (Inr frags)"
    and dec: "\<forall>fs. set fs \<subseteq> set frags \<longrightarrow> data_shards ec_demo_service \<le> card (frag_idx ` set fs) \<longrightarrow>
      ec_decode xor_impl ec_demo_service fs = Some (Inr [1, 2, 3])"
    using erasure_roundtrip [OF ec_demo_sound, of "[1, 2, 3]"] by (auto simp: LENGTH_PREFIX_BYTES_def)
  have "frag_idx ` set frags = {0, 1, 2}"
    using f by (auto simp: ec_encode_def ec_shard_size_def ec_demo_service_def xor_service_def xor_impl_def Let_def
        LENGTH_PREFIX_BYTES_def entry_fragment_new_def enumerate_eq_zip image_def upt_rec)
  with f dec show ?thesis by auto
qed

text \<open>
  C27. Encoding gives one fragment for each data and parity shard, numbered from 0, all of the same size: together the data fragments hold the
  value and its length of eight bytes, with fewer bytes of padding than there are data shards.
\<close>

theorem fragment_sizes:
  assumes "reed_solomon R ec"
  shows "\<exists>frags n. ec_encode R ec val = Some (Inr frags) \<and> map frag_idx frags = [0..<data_shards ec + parity_shards ec] \<and>
    (\<forall>f \<in> set frags. length (frag_data f) = n) \<and>
    length val + 8 \<le> n * data_shards ec \<and> n * data_shards ec < length val + 8 + data_shards ec"
  using reed_solomon.encode_sizes [OF assms, of val] by (simp add: LENGTH_PREFIX_BYTES_def add.commute)

theorem fragment_sizes_witness:
  "\<exists>frags. ec_encode xor_impl ec_demo_service [1, 2, 3] = Some (Inr frags) \<and> map frag_idx frags = [0, 1, 2] \<and> (\<forall>f \<in> set frags. length (frag_data f) = 6)"
proof -
  obtain frags n where f: "ec_encode xor_impl ec_demo_service [1, 2, 3] = Some (Inr frags)" "map frag_idx frags = [0..<3]"
    "\<forall>f \<in> set frags. length (frag_data f) = n" "11 \<le> n * 2" "n * 2 < 13"
    using fragment_sizes [OF ec_demo_sound, of "[1, 2, 3]"] by auto
  then have "n = 6" by arith
  with f show ?thesis by (auto simp: upt_rec)
qed



text \<open>
  C28. Over every run of an erasure-coded replica from a consistent store, with messages whose snapshots and indexes fit the
  log: the promise and the accepted round never go back, and cache and back-end agree.
\<close>

theorem ec_replica_invariants:
  assumes "store_ok memory_inv memory_view s" and "1 \<le> spc_pid (spce_base config)"
    and "sequence_paxos_ec_with memory_impl config s = Some spe"
    and "(ec_step X memory_impl P True)\<^sup>*\<^sup>* spe spe'"
  shows "ballot_le (sp_get_promise (spe_base spe)) (sp_get_promise (spe_base spe')) \<and>
    ballot_le (is_get_accepted_round (sp_internal_storage (spe_base spe))) (is_get_accepted_round (sp_internal_storage (spe_base spe'))) \<and>
    is_wf memory_inv memory_view (sp_internal_storage (spe_base spe'))"
  using mem.ec_run_safe [OF assms] by simp

theorem ec_replica_invariants_witness:
  "\<exists>(spe :: ec_demo_sp) (spe' :: ec_demo_sp). sequence_paxos_ec_with memory_impl ec_demo_spc memory_storage_default = Some spe \<and>
     sp_get_promise (spe_base spe') = demo_ballot \<and>
     ballot_le (sp_get_promise (spe_base spe)) (sp_get_promise (spe_base spe')) \<and>
     is_wf memory_inv memory_view (sp_internal_storage (spe_base spe'))"
proof -
  obtain spe spe' where start: "sequence_paxos_ec_with memory_impl ec_demo_spc (memory_storage_default :: ec_demo_store) = Some spe"
    and step: "ec_step ec_demo_env memory_impl ec_kv_impl True spe spe'" and prom: "sp_get_promise (spe_base spe') = demo_ballot"
    using ec_demo_start by blast
  have pid: "1 \<le> spc_pid (spce_base ec_demo_spc)" by (simp add: ec_demo_spc_def demo_eval)
  have "(ec_step ec_demo_env memory_impl ec_kv_impl True)\<^sup>*\<^sup>* spe spe'" using step by blast
  from ec_replica_invariants [OF memory_default_ok pid start this]
  have "ballot_le (sp_get_promise (spe_base spe)) (sp_get_promise (spe_base spe')) \<and>
     is_wf memory_inv memory_view (sp_internal_storage (spe_base spe'))" by simp
  with start prom show ?thesis by (intro exI [of _ spe] exI [of _ spe']) simp
qed





section \<open>The persistent back-end\<close>









section \<open>UniCache\<close>

text \<open>
  C39. With the feature \<^verbatim>\<open>unicache\<close> and least-recently-used caches, whatever the leader appends, in whatever batches, its
  storage does what it does without the feature, and the encoded batches it gets to send decode at a
  follower that started with the same cache, one after the other, to exactly the entries that were written,
  at the same accepted indexes. The encoding never panics if the codes are wide enough for the size of the cache.
\<close>

theorem unicache_transparent:
  fixes LE :: "('le, 't, 'w::len word) lru_impl" and LD :: "('ld, 'w word, 't) lru_impl"
  assumes "lru_pair LE linve cape LD linvd capd" and "0 < n" and "n < 2 ^ LENGTH('w)"
    and "uc_new (lru_unicache LE LD n) = Some u" and "cs_unicache st = u" and "cs_processed st = []"
    and "c_batched_entries (is_cache (cs_inner st)) = []" and "b_pid (c_promise (is_cache (cs_inner st))) = cs_pid st"
    and "run_ops (plain_op S) ops (cs_inner st) = Some (ms, i)"
  shows "\<exists>ms' st' u'. run_ops (coded_op S (lru_unicache LE LD n)) ops st = Some (ms', st') \<and> cs_inner st' = i \<and>
    map am_accepted_idx ms' = map am_accepted_idx ms \<and>
    map_each (map_each (uc_decode (lru_unicache LE LD n))) (map am_entries ms') u = Some (map am_entries ms, u')"
  using lru_pair.lru_transparent [OF assms] by (simp add: delivers_def)

theorem unicache_transparent_witness:
  "\<exists>ms' st' u'. run_ops (coded_op memory_impl (lru_unicache list_lru (list_lru :: ((u8 \<times> nat) list \<times> usize, u8, nat) lru_impl) 2))
       [LeaderAppend 7, LeaderAppendAll [8, 7], LeaderFlush, LeaderAppendAll [9, 7, 8]]
       \<lparr>cs_inner = \<lparr>is_storage = (memory_storage_default :: (nat, cluster_config, unit) memory_storage), is_cache = state_cache_new 2\<rparr>,
        cs_pid = 0, cs_processed = [], cs_unicache = the (lru_unicache_new list_lru list_lru 2)\<rparr> = Some (ms', st') \<and>
     map_each (map_each (uc_decode (lru_unicache list_lru list_lru 2))) (map am_entries ms') (the (lru_unicache_new list_lru list_lru 2)) =
       Some ([[7, 8, 7], [9, 7, 8]], u')"
proof -
  let ?u = "the (lru_unicache_new list_lru (list_lru :: ((u8 \<times> nat) list \<times> usize, u8, nat) lru_impl) 2)"
  let ?i = "\<lparr>is_storage = (memory_storage_default :: (nat, cluster_config, unit) memory_storage), is_cache = state_cache_new 2\<rparr>"
  have "\<exists>ms i. run_ops (plain_op memory_impl) [LeaderAppend 7, LeaderAppendAll [8, 7], LeaderFlush, LeaderAppendAll [9, 7, 8]] ?i = Some (ms, i) \<and>
      map am_entries ms = [[7, 8, 7], [9, 7, 8]]"
    by (simp add: append_entry_with_batching_def append_entries_with_batching_def flush_batch_and_get_entries_def
        cache_append_entry_def cache_append_entries_def take_entries_if_batch_is_full_def take_batched_entries_def state_cache_new_def
        flush_if_full_batch_def append_entries_without_batching_def try_op_def on_storage_def memory_impl_def ms_append_entries_def Let_def)
  then obtain ms i where r: "run_ops (plain_op memory_impl) [LeaderAppend 7, LeaderAppendAll [8, 7], LeaderFlush, LeaderAppendAll [9, 7, 8]] ?i = Some (ms, i)"
    and ms: "map am_entries ms = [[7, 8, 7], [9, 7, 8]]" by (elim exE conjE) (rule that)
  have u: "uc_new (lru_unicache list_lru (list_lru :: ((u8 \<times> nat) list \<times> usize, u8, nat) lru_impl) 2) = Some ?u"
    by (simp add: lru_unicache_def lru_unicache_new_def non_zero_def)
  have "2 < (2 :: nat) ^ LENGTH(8)" "c_batched_entries (is_cache ?i) = []" "b_pid (c_promise (is_cache ?i)) = 0"
    by (simp_all add: state_cache_new_def ballot_default_def)
  from unicache_transparent [OF list_lrus.lru_pair_axioms zero_less_numeral this(1) u,
      where st = "\<lparr>cs_inner = ?i, cs_pid = 0, cs_processed = [], cs_unicache = ?u\<rparr>", unfolded coded_storage.select_convs, OF refl refl this(2,3) r]
  show ?thesis unfolding ms by blast
qed



section \<open>The programs around the servers\<close>

text \<open>C6. The key-value program starts its three servers without a panic, and every run of it, with the
  loops of the three tasks, the bounded channels between them and appends of the main thread in any order, is a run of the network of
  replicas. So a server of the program that leads in the accept phase has promises of a prepare quorum of the three servers.\<close>
theorem kv_program_refines_network:
  "\<exists>ex. kv_main_start = Some ex \<and>
    (\<forall>ex'. (ex_step (omni_ops memory_impl kv_impl) (append_call UNIV memory_impl))\<^sup>*\<^sup>* ex ex' \<longrightarrow>
      (\<exists>N0 N. net_start memory_impl memory_inv memory_view kv_configs (set SERVERS) N0 \<and>
         (net_step memory_impl kv_impl kv_configs False UNIV (set SERVERS))\<^sup>*\<^sup>* N0 N \<and> simulates (set SERVERS) ex' N) \<and>
      (\<forall>p srv. ex_server ex' p = Some srv \<longrightarrow> sp_state (op_seq_paxos (os_omni_paxos srv)) = (Leader, PhaseAccept) \<longrightarrow>
         (\<exists>Q \<subseteq> set SERVERS. is_prepare_quorum (ls_quorum (sp_leader_state (op_seq_paxos (os_omni_paxos srv)))) (card Q) \<and>
            (\<forall>q \<in> Q. \<exists>r. ex_server ex' q = Some r \<and>
               ballot_le (n_leader (sp_leader_state (op_seq_paxos (os_omni_paxos srv)))) (sp_get_promise (op_seq_paxos (os_omni_paxos r)))))))"
proof -
  obtain ex where ex: "kv_main_start = Some ex" using kv_main_starts by blast
  show ?thesis using ex kv_program_refines [OF ex] kv_program_leader [OF ex] by blast
qed

theorem kv_program_refines_network_witness:
  "\<exists>ex srv N0 N. kv_main_start = Some ex \<and> ex_server ex 1 = Some srv \<and>
     net_start memory_impl memory_inv memory_view kv_configs {1, 2, 3} N0 \<and>
     (net_step memory_impl kv_impl kv_configs False UNIV {1, 2, 3})\<^sup>*\<^sup>* N0 N \<and>
     simulates {1, 2, 3} (set_server 1 (begin_send (omni_ops memory_impl kv_impl) srv) ex) N"
proof -
  obtain ex where ex: "kv_main_start = Some ex"
    and run: "\<forall>ex'. (ex_step (omni_ops memory_impl kv_impl) (append_call UNIV memory_impl))\<^sup>*\<^sup>* ex ex' \<longrightarrow>
      (\<exists>N0 N. net_start memory_impl memory_inv memory_view kv_configs (set SERVERS) N0 \<and>
         (net_step memory_impl kv_impl kv_configs False UNIV (set SERVERS))\<^sup>*\<^sup>* N0 N \<and> simulates (set SERVERS) ex' N)"
    using kv_program_refines_network by blast
  obtain ex0 where ex0: "kv_main_start = Some ex0"
    "\<forall>p \<in> set SERVERS. \<exists>srv. ex_server ex0 p = Some srv \<and> os_running srv \<and> os_message_buffer srv = []"
    using kv_main_starts by blast
  have "ex0 = ex" using ex0(1) ex by (rule option_unique)
  then obtain srv where srv: "ex_server ex 1 = Some srv" "os_running srv" "os_message_buffer srv = []"
    using ex0(2) by (auto simp: SERVERS_def)
  let ?I = "omni_ops memory_impl kv_impl"
  have "ex_step ?I (append_call UNIV memory_impl) ex (set_server 1 (begin_send ?I srv) ex)"
    using ex_run [of ex 1 srv OutgoingDue ?I "begin_send ?I srv" "append_call UNIV memory_impl"] srv by (simp add: run_branch_def)
  then have "\<exists>N0 N. net_start memory_impl memory_inv memory_view kv_configs (set SERVERS) N0 \<and>
      (net_step memory_impl kv_impl kv_configs False UNIV (set SERVERS))\<^sup>*\<^sup>* N0 N \<and>
      simulates (set SERVERS) (set_server 1 (begin_send ?I srv) ex) N"
    using run by blast
  moreover have "set SERVERS = {1, 2, 3}" by (simp add: SERVERS_def)
  ultimately show ?thesis using ex srv(1) by auto
qed



end
